(* ===== verification/Js_Prelude.thy ===== *)
theory Js_Prelude
  imports Main "HOL-Library.Multiset" "HOL-Library.Sublist" "HOL-Library.AList"
begin

text \<open>
  The part of the JavaScript language and standard library that the modelled sources use,
  and the generic lemmas every component shares.

  A JavaScript string is represented by the bytes of its UTF-8 encoding (type \<^typ>\<open>string\<close>).
  The sources only compare lengths with 0 and cut strings at ASCII separators, so the unit that is
  counted does not matter; characters outside ASCII are written as their bytes.
  \<^item> \<open>js_trim\<close>: \<open>String.prototype.trim\<close>, with the whole white space of the language;
  \<^item> \<open>js_split\<close>, \<open>js_join\<close>, \<open>sublist\<close> (\<open>includes\<close>), \<open>prefix\<close> (\<open>startsWith\<close>);
  \<^item> \<open>js_uniq\<close>: \<open>Array.from(new Set(xs))\<close>, a set in insertion order;
  \<^item> \<open>AList.update\<close> and \<open>map_of\<close>: a \<open>Map\<close>, whose iteration order is insertion order;
  \<^item> \<open>js_sort\<close>: the stable \<open>Array.prototype.sort\<close> for a comparison function;
  \<^item> \<open>nat_str\<close>, \<open>parse_dec\<close>: decimal printing and \<open>Number.parseInt(s, 10)\<close> on digits.
\<close>

named_theorems js_simps \<open>equations that unfold the library functions of the language\<close>

section \<open>Definitions\<close>

subsection \<open>White space and trim\<close>

text \<open>WhiteSpace and LineTerminator of the language specification, as UTF-8 byte sequences.\<close>

definition ws_seqs :: "string list" where
  "ws_seqs =
     [[CHR 0x20], [CHR 0x09], [CHR 0x0A], [CHR 0x0D], [CHR 0x0B], [CHR 0x0C],
      [CHR 0xC2, CHR 0xA0], [CHR 0xE1, CHR 0x9A, CHR 0x80],
      [CHR 0xE2, CHR 0x80, CHR 0x80], [CHR 0xE2, CHR 0x80, CHR 0x81],
      [CHR 0xE2, CHR 0x80, CHR 0x82], [CHR 0xE2, CHR 0x80, CHR 0x83],
      [CHR 0xE2, CHR 0x80, CHR 0x84], [CHR 0xE2, CHR 0x80, CHR 0x85],
      [CHR 0xE2, CHR 0x80, CHR 0x86], [CHR 0xE2, CHR 0x80, CHR 0x87],
      [CHR 0xE2, CHR 0x80, CHR 0x88], [CHR 0xE2, CHR 0x80, CHR 0x89],
      [CHR 0xE2, CHR 0x80, CHR 0x8A], [CHR 0xE2, CHR 0x80, CHR 0xA8],
      [CHR 0xE2, CHR 0x80, CHR 0xA9], [CHR 0xE2, CHR 0x80, CHR 0xAF],
      [CHR 0xE2, CHR 0x81, CHR 0x9F], [CHR 0xE3, CHR 0x80, CHR 0x80],
      [CHR 0xEF, CHR 0xBB, CHR 0xBF]]"

definition starts_seq :: "string list \<Rightarrow> string \<Rightarrow> string option" where
  "starts_seq ws s = find (\<lambda>w. w \<noteq> [] \<and> prefix w s) ws"

function drop_seqs :: "string list \<Rightarrow> string \<Rightarrow> string" where
  "drop_seqs ws s =
     (case starts_seq ws s of None \<Rightarrow> s | Some w \<Rightarrow> drop_seqs ws (drop (length w) s))"
  by pat_completeness auto
termination
proof (relation "measure (\<lambda>(ws, s). length s)", simp)
  fix ws :: "string list" and s w :: string
  assume "starts_seq ws s = Some w"
  then have "w \<noteq> []" and "prefix w s"
    by (auto simp: starts_seq_def find_Some_iff)
  then show "((ws, drop (length w) s), ws, s) \<in> measure (\<lambda>(ws, s). length s)"
    by (auto simp: prefix_def)
qed

declare drop_seqs.simps [simp del]

definition js_trim :: "string \<Rightarrow> string" where
  "js_trim s = rev (drop_seqs (map rev ws_seqs) (rev (drop_seqs ws_seqs s)))"

text \<open>\<open>s.replace(/\s/g, '')\<close>: every white space character is deleted.\<close>

function strip_ws :: "string \<Rightarrow> string" where
  "strip_ws s =
     (case s of [] \<Rightarrow> []
      | c # cs \<Rightarrow>
          (case starts_seq ws_seqs s of
             None \<Rightarrow> c # strip_ws cs
           | Some w \<Rightarrow> strip_ws (drop (length w) s)))"
  by pat_completeness auto
termination
proof (relation "measure length", simp, simp)
  fix s cs w :: string and c :: char
  assume s: "s = c # cs" and "starts_seq ws_seqs s = Some w"
  then have "w \<noteq> []" by (auto simp: starts_seq_def find_Some_iff)
  with s show "(drop (length w) s, s) \<in> measure length" by (cases w) auto
qed

declare strip_ws.simps [simp del]

subsection \<open>Splitting, joining, sets in insertion order\<close>

fun js_split :: "char \<Rightarrow> string \<Rightarrow> string list" where
  "js_split c [] = [[]]"
| "js_split c (x # xs) =
     (if x = c then [] # js_split c xs
      else (case js_split c xs of [] \<Rightarrow> [[x]] | y # ys \<Rightarrow> (x # y) # ys))"

fun js_join :: "string \<Rightarrow> string list \<Rightarrow> string" where
  "js_join sep [] = []"
| "js_join sep [x] = x"
| "js_join sep (x # y # ys) = x @ sep @ js_join sep (y # ys)"

fun js_uniq :: "'a list \<Rightarrow> 'a list" where
  "js_uniq [] = []"
| "js_uniq (x # xs) = x # filter (\<lambda>y. y \<noteq> x) (js_uniq xs)"

abbreviation truthy :: "string \<Rightarrow> bool" where
  "truthy s \<equiv> s \<noteq> []"

text \<open>\<open>s || d\<close> and \<open>s ?? d\<close> on an optional string.\<close>

definition str_or :: "string \<Rightarrow> string \<Rightarrow> string" where
  "str_or s d = (if s = [] then d else s)"

definition opt_str :: "string option \<Rightarrow> string" where
  "opt_str s = (case s of None \<Rightarrow> [] | Some t \<Rightarrow> t)"

subsection \<open>Decimal numerals\<close>

definition is_digit :: "char \<Rightarrow> bool" where
  "is_digit c = (c \<in> set ''0123456789'')"

definition digit_val :: "char \<Rightarrow> nat" where
  "digit_val c = of_char c - 48"

definition digit_char :: "nat \<Rightarrow> char" where
  "digit_char n = ''0123456789'' ! n"

fun nat_str :: "nat \<Rightarrow> string" where
  "nat_str n = (if n < 10 then [digit_char n] else nat_str (n div 10) @ [digit_char (n mod 10)])"

declare nat_str.simps [simp del]

definition int_str :: "int \<Rightarrow> string" where
  "int_str i = (if i < 0 then ''-'' @ nat_str (nat (- i)) else nat_str (nat i))"

text \<open>\<open>/^\d+$/.test(s)\<close> and \<open>Number.parseInt(s, 10)\<close> for such an \<open>s\<close>.\<close>

definition all_digits :: "string \<Rightarrow> bool" where
  "all_digits s = (s \<noteq> [] \<and> list_all is_digit s)"

definition parse_dec :: "string \<Rightarrow> nat" where
  "parse_dec s = foldl (\<lambda>n c. 10 * n + digit_val c) 0 s"

subsection \<open>Stable sorting\<close>

text \<open>
  \<open>xs.sort(cmp)\<close> is stable; \<open>le a b\<close> stands for \<open>cmp(a, b) <= 0\<close>.
\<close>

fun js_insert :: "('a \<Rightarrow> 'a \<Rightarrow> bool) \<Rightarrow> 'a \<Rightarrow> 'a list \<Rightarrow> 'a list" where
  "js_insert le x [] = [x]"
| "js_insert le x (y # ys) = (if le x y then x # y # ys else y # js_insert le x ys)"

fun js_sort :: "('a \<Rightarrow> 'a \<Rightarrow> bool) \<Rightarrow> 'a list \<Rightarrow> 'a list" where
  "js_sort le [] = []"
| "js_sort le (x # xs) = js_insert le x (js_sort le xs)"

text \<open>The default comparison of strings.\<close>

fun str_le :: "string \<Rightarrow> string \<Rightarrow> bool" where
  "str_le [] t = True"
| "str_le (a # s) [] = False"
| "str_le (a # s) (b # t) = ((of_char a :: nat) < of_char b \<or> (a = b \<and> str_le s t))"

section \<open>Lemmas\<close>

subsection \<open>Trim\<close>

lemma starts_seq_Some:
  "starts_seq ws s = Some w \<Longrightarrow> w \<in> set ws \<and> w \<noteq> [] \<and> prefix w s"
  by (auto simp: starts_seq_def find_Some_iff)

lemma starts_seq_None:
  "starts_seq ws s = None \<longleftrightarrow> (\<forall>w \<in> set ws. w \<noteq> [] \<longrightarrow> \<not> prefix w s)"
  by (auto simp: starts_seq_def find_None_iff)

lemma starts_seq_Nil [simp]: "starts_seq ws [] = None"
  by (auto simp: starts_seq_None)

lemma drop_seqs_done: "starts_seq ws s = None \<Longrightarrow> drop_seqs ws s = s"
  by (subst drop_seqs.simps) simp

lemma drop_seqs_Nil [simp]: "drop_seqs ws [] = []"
  by (simp add: drop_seqs_done)

lemma starts_drop_seqs [simp]: "starts_seq ws (drop_seqs ws s) = None"
proof (induction ws s rule: drop_seqs.induct)
  case (1 ws s)
  then show ?case
    by (cases "starts_seq ws s") (auto simp: drop_seqs.simps [of ws s])
qed

lemma suffix_drop_seqs: "suffix (drop_seqs ws s) s"
proof (induction ws s rule: drop_seqs.induct)
  case (1 ws s)
  show ?case
  proof (cases "starts_seq ws s")
    case None
    then show ?thesis by (simp add: drop_seqs_done)
  next
    case (Some w)
    with 1 have "suffix (drop_seqs ws (drop (length w) s)) (drop (length w) s)" by simp
    then have "suffix (drop_seqs ws (drop (length w) s)) s"
      using suffix_drop suffix_order.trans by blast
    with Some show ?thesis by (simp add: drop_seqs.simps [of ws s])
  qed
qed

lemma starts_seq_prefix_None:
  "starts_seq ws s = None \<Longrightarrow> prefix t s \<Longrightarrow> starts_seq ws t = None"
  by (meson starts_seq_None prefix_order.trans)

text \<open>A string is trimmed when it neither starts nor ends with white space.\<close>

definition trimmed :: "string \<Rightarrow> bool" where
  "trimmed s \<longleftrightarrow> starts_seq ws_seqs s = None \<and> starts_seq (map rev ws_seqs) (rev s) = None"

lemma trimmed_trim [simp]: "trimmed (js_trim s)"
proof -
  let ?l = "drop_seqs ws_seqs s"
  have "suffix (drop_seqs (map rev ws_seqs) (rev ?l)) (rev ?l)"
    by (rule suffix_drop_seqs)
  then have "prefix (js_trim s) ?l"
    by (simp add: js_trim_def suffix_to_prefix)
  moreover have "starts_seq ws_seqs ?l = None" by simp
  ultimately have "starts_seq ws_seqs (js_trim s) = None"
    using starts_seq_prefix_None by blast
  then show ?thesis by (simp add: trimmed_def js_trim_def)
qed

lemma trim_trimmed: "trimmed s \<Longrightarrow> js_trim s = s"
  by (simp add: trimmed_def js_trim_def drop_seqs_done)

lemma trim_trim [simp]: "js_trim (js_trim s) = js_trim s"
  by (rule trim_trimmed) simp

lemma trim_Nil [simp]: "js_trim [] = []"
  by (simp add: js_trim_def)

lemma trimmed_Nil [simp]: "trimmed []"
  by (simp add: trimmed_def)

lemma set_trim: "set (js_trim s) \<subseteq> set s"
proof -
  have *: "set (drop_seqs ws t) \<subseteq> set t" for ws t
    using suffix_drop_seqs [of ws t] by (rule set_mono_suffix)
  show ?thesis
    using * [of "map rev ws_seqs" "rev (drop_seqs ws_seqs s)"] * [of ws_seqs s]
    by (auto simp: js_trim_def)
qed


text \<open>Visible ASCII is never white space, so a string of it is left alone.\<close>

definition visible :: "char \<Rightarrow> bool" where
  "visible c \<longleftrightarrow> 33 \<le> (of_char c :: nat) \<and> (of_char c :: nat) \<le> 126"

lemma ws_seqs_ends:
  "w \<in> set ws_seqs \<Longrightarrow> w \<noteq> [] \<and> \<not> visible (hd w) \<and> \<not> visible (last w)"
proof -
  have "\<forall>w \<in> set ws_seqs. w \<noteq> [] \<and> \<not> visible (hd w) \<and> \<not> visible (last w)"
    by (simp add: ws_seqs_def visible_def)
  then show "w \<in> set ws_seqs \<Longrightarrow> ?thesis" by blast
qed

lemma starts_visible: "visible c \<Longrightarrow> starts_seq ws_seqs (c # s) = None"
  unfolding starts_seq_None using ws_seqs_ends by (metis hd_append2 list.sel(1) prefix_def)

lemma starts_rev_visible: "visible c \<Longrightarrow> starts_seq (map rev ws_seqs) (c # s) = None"
  unfolding starts_seq_None using ws_seqs_ends
  by (metis (no_types, lifting) hd_append2 hd_rev imageE list.sel(1) list.set_map prefix_def)

lemma trimmed_visible_ends:
  "s = [] \<or> visible (hd s) \<and> visible (last s) \<Longrightarrow> trimmed s"
proof (cases s rule: rev_cases)
  case (snoc t c)
  moreover assume "s = [] \<or> visible (hd s) \<and> visible (last s)"
  ultimately show ?thesis
    by (cases t) (auto simp: trimmed_def starts_visible starts_rev_visible)
qed simp

lemma trimmed_visible: "list_all visible s \<Longrightarrow> trimmed s"
  by (rule trimmed_visible_ends) (auto simp: list_all_iff)

lemma strip_ws_visible: "list_all visible s \<Longrightarrow> strip_ws s = s"
  by (induction s) (simp_all add: strip_ws.simps starts_visible)

lemma visible_digit: "is_digit c \<Longrightarrow> visible c"
  by (auto simp: is_digit_def visible_def)

subsection \<open>Split, join, uniq\<close>

lemma js_split_not_Nil [simp]: "js_split c s \<noteq> []"
  by (cases s) (auto split: list.splits)

lemma js_split_sep_free: "t \<in> set (js_split c s) \<Longrightarrow> c \<notin> set t"
  by (induction s arbitrary: t) (auto split: if_splits list.splits)

lemma js_join_Cons: "xs \<noteq> [] \<Longrightarrow> js_join sep (x # xs) = x @ sep @ js_join sep xs"
  by (cases xs) auto

lemma js_join_split: "js_join [c] (js_split c s) = s"
proof (induction s)
  case (Cons x xs)
  show ?case
  proof (cases "js_split c xs")
    case (Cons y ys)
    with Cons.IH show ?thesis by (cases ys) (auto simp: js_join_Cons)
  qed simp
qed simp

lemma js_split_append:
  "c \<notin> set x \<Longrightarrow> js_split c (x @ c # s) = x # js_split c s"
  by (induction x) auto

lemma js_split_single: "c \<notin> set x \<Longrightarrow> js_split c x = [x]"
  by (induction x) auto

lemma js_split_join:
  "xs \<noteq> [] \<Longrightarrow> \<forall>x \<in> set xs. c \<notin> set x \<Longrightarrow> js_split c (js_join [c] xs) = xs"
proof (induction xs)
  case (Cons x xs)
  then show ?case
    by (cases "xs = []") (auto simp: js_split_single js_split_append js_join_Cons)
qed simp

lemma set_js_uniq [simp]: "set (js_uniq xs) = set xs"
  by (induction xs) auto

lemma distinct_js_uniq [simp]: "distinct (js_uniq xs)"
  by (induction xs) auto

lemma js_uniq_distinct: "distinct xs \<Longrightarrow> js_uniq xs = xs"
proof (induction xs)
  case (Cons x xs)
  then have "filter (\<lambda>y. y \<noteq> x) xs = xs" by (intro filter_True) auto
  with Cons show ?case by simp
qed simp

lemma js_uniq_idem [simp]: "js_uniq (js_uniq xs) = js_uniq xs"
  by (rule js_uniq_distinct) simp

lemma js_uniq_Nil_iff [simp]: "js_uniq xs = [] \<longleftrightarrow> xs = []"
  by (cases xs) auto

lemma js_uniq_filter: "js_uniq (filter P xs) = filter P (js_uniq xs)"
  by (induction xs) (auto simp: filter_filter intro: filter_cong)

text \<open>The loop form of the same computation: push what the set has not seen.\<close>

fun uniq_loop :: "'a list \<Rightarrow> 'a list \<Rightarrow> 'a list" where
  "uniq_loop seen [] = seen"
| "uniq_loop seen (x # xs) = uniq_loop (if x \<in> set seen then seen else seen @ [x]) xs"

lemma uniq_loop_uniq:
  "uniq_loop seen xs = seen @ filter (\<lambda>x. x \<notin> set seen) (js_uniq xs)"
proof (induction xs arbitrary: seen)
  case (Cons x xs)
  show ?case
  proof (cases "x \<in> set seen")
    case True
    with Cons have "uniq_loop seen (x # xs) = seen @ filter (\<lambda>y. y \<notin> set seen) (js_uniq xs)"
      by simp
    also have "filter (\<lambda>y. y \<notin> set seen) (js_uniq xs)
        = filter (\<lambda>y. y \<notin> set seen) (js_uniq (x # xs))"
      using True by (auto simp: filter_filter intro: filter_cong)
    finally show ?thesis .
  next
    case False
    then show ?thesis
      by (auto simp: Cons filter_filter intro: filter_cong)
  qed
qed simp

subsection \<open>Decimal numerals\<close>

lemma lt_ten_cases: "(n::nat) < 10 \<Longrightarrow> n \<in> {0, 1, 2, 3, 4, 5, 6, 7, 8, 9}"
  by auto

lemma is_digit_digit_char: "n < 10 \<Longrightarrow> is_digit (digit_char n)"
  by (simp add: is_digit_def digit_char_def nth_mem del: set_simps)

lemma digit_val_digit_char [simp]: "n < 10 \<Longrightarrow> digit_val (digit_char n) = n"
  by (drule lt_ten_cases) (auto simp: digit_val_def digit_char_def)

lemma all_digits_nat_str [simp]: "all_digits (nat_str n)"
proof (induction n rule: nat_str.induct)
  case (1 n)
  then show ?case
    by (subst nat_str.simps) (auto simp: all_digits_def is_digit_digit_char)
qed

lemma parse_dec_snoc: "parse_dec (s @ [c]) = 10 * parse_dec s + digit_val c"
  by (simp add: parse_dec_def)

lemma parse_dec_nat_str [simp]: "parse_dec (nat_str n) = n"
proof (induction n rule: nat_str.induct)
  case (1 n)
  show ?case
  proof (cases "n < 10")
    case True
    then show ?thesis by (subst nat_str.simps) (simp add: parse_dec_def)
  next
    case False
    with 1 have "parse_dec (nat_str (n div 10)) = n div 10" by simp
    with False show ?thesis by (subst nat_str.simps) (simp add: parse_dec_snoc)
  qed
qed

lemma nat_str_inject [simp]: "nat_str m = nat_str n \<longleftrightarrow> m = n"
  by (metis parse_dec_nat_str)

lemma nat_str_digits: "c \<in> set (nat_str n) \<Longrightarrow> is_digit c"
  using all_digits_nat_str [of n] by (auto simp: all_digits_def list_all_iff)

lemma nat_str_not_Nil [simp]: "nat_str n \<noteq> []"
  using all_digits_nat_str [of n] by (auto simp: all_digits_def)

subsection \<open>Sorting\<close>

lemma mset_js_insert [simp]: "mset (js_insert le x xs) = add_mset x (mset xs)"
  by (induction xs) auto

lemma mset_js_sort [simp]: "mset (js_sort le xs) = mset xs"
  by (induction xs) auto

lemma set_js_sort [simp]: "set (js_sort le xs) = set xs"
  by (metis mset_js_sort set_mset_mset)

lemma set_js_insert [simp]: "set (js_insert le x xs) = insert x (set xs)"
  by (induction xs) auto

lemma length_js_sort [simp]: "length (js_sort le xs) = length xs"
  by (metis mset_js_sort size_mset)

lemma distinct_js_sort [simp]: "distinct (js_sort le xs) = distinct xs"
  by (metis mset_js_sort mset_eq_imp_distinct_iff)

lemma js_sort_sorted: "sorted_wrt le xs \<Longrightarrow> js_sort le xs = xs"
proof (induction xs)
  case (Cons x xs)
  then show ?case by (cases xs) auto
qed simp

text \<open>
  What \<open>sort\<close> needs of its comparison function: a total preorder. The sorting lemmas are
  proved once for any such comparison and are used through the interpretations below and in
  the components.
\<close>

locale js_order =
  fixes le :: "'a \<Rightarrow> 'a \<Rightarrow> bool"
  assumes le_total: "le x y \<or> le y x"
    and le_trans: "le x y \<Longrightarrow> le y z \<Longrightarrow> le x z"
begin

lemma sorted_insert: "sorted_wrt le xs \<Longrightarrow> sorted_wrt le (js_insert le x xs)"
proof (induction xs)
  case (Cons y ys)
  then show ?case using le_total [of x y] by (auto intro: le_trans)
qed simp

lemma sorted_sort: "sorted_wrt le (js_sort le xs)"
  by (induction xs) (auto intro: sorted_insert)

lemma sort_idem: "js_sort le (js_sort le xs) = js_sort le xs"
  by (rule js_sort_sorted) (rule sorted_sort)

end

lemma str_le_antisym: "str_le s t \<Longrightarrow> str_le t s \<Longrightarrow> s = t"
  by (induction s t rule: str_le.induct) (auto elim: str_le.elims)

lemma str_le_total: "str_le s t \<or> str_le t s"
  by (induction s t rule: str_le.induct) (auto simp: linorder_neq_iff)

lemma str_le_trans: "str_le s t \<Longrightarrow> str_le t u \<Longrightarrow> str_le s u"
proof (induction s t arbitrary: u rule: str_le.induct)
  case (3 a s b t)
  then show ?case by (cases u) auto
qed auto

interpretation str_order: js_order str_le
  by unfold_locales (rule str_le_total, rule str_le_trans)

subsection \<open>Normal forms\<close>

text \<open>
  Many operations of the sources bring a value into a normal form. The contract: the result
  is canonical, and canonical values are left alone. Idempotence and the characterisation of
  the fixed points follow.
\<close>

locale normaliser =
  fixes norm :: "'a \<Rightarrow> 'a" and wf :: "'a \<Rightarrow> bool" and canonical :: "'a \<Rightarrow> bool"
  assumes norm_canonical: "wf x \<Longrightarrow> canonical (norm x)"
    and canonical_wf: "canonical x \<Longrightarrow> wf x"
    and canonical_norm: "canonical x \<Longrightarrow> norm x = x"
begin

lemma idem: "wf x \<Longrightarrow> norm (norm x) = norm x"
  by (rule canonical_norm) (rule norm_canonical)

lemma fixed_iff: "wf x \<Longrightarrow> norm x = x \<longleftrightarrow> canonical x"
  by (metis canonical_norm norm_canonical)

lemma norm_image: "norm ` Collect wf = Collect canonical"
  using canonical_norm canonical_wf norm_canonical by (auto simp: image_iff) metis

end

interpretation trim: normaliser js_trim "\<lambda>_. True" trimmed
  by unfold_locales (auto intro: trim_trimmed)

interpretation uniq: normaliser js_uniq "\<lambda>_. True" distinct
  by unfold_locales (auto intro: js_uniq_distinct)

subsection \<open>Maps in insertion order\<close>

text \<open>
  The interface of the JavaScript \<open>Map\<close> the sources rely on: what \<open>get\<close> returns after
  \<open>set\<close>, and that a \<open>set\<close> of a present key keeps the iteration order while a new key goes
  to the end. The clients below count, accumulate and look up through it.
\<close>

locale js_map =
  fixes get :: "'m \<Rightarrow> 'k \<Rightarrow> 'v option"
    and put :: "'k \<Rightarrow> 'v \<Rightarrow> 'm \<Rightarrow> 'm"
    and mkeys :: "'m \<Rightarrow> 'k list"
    and mempty :: "'m"
  assumes get_empty: "get mempty k = None"
    and get_put: "get (put k v m) k' = (if k' = k then Some v else get m k')"
    and keys_empty: "mkeys mempty = []"
    and keys_put: "mkeys (put k v m) = (if k \<in> set (mkeys m) then mkeys m else mkeys m @ [k])"
    and keys_get: "k \<in> set (mkeys m) \<longleftrightarrow> get m k \<noteq> None"
begin

lemma keys_distinct_put: "distinct (mkeys m) \<Longrightarrow> distinct (mkeys (put k v m))"
  by (simp add: keys_put)

text \<open>A loop that puts one entry per element visits the keys in order of first occurrence.\<close>

lemma keys_fold_put:
  "mkeys (fold (\<lambda>x m. put (f x) (g x m) m) xs m) = uniq_loop (mkeys m) (map f xs)"
  by (induction xs arbitrary: m) (auto simp: keys_put)

lemma keys_fold_put_empty:
  "mkeys (fold (\<lambda>x m. put (f x) (g x m) m) xs mempty) = js_uniq (map f xs)"
  by (simp add: keys_fold_put keys_empty uniq_loop_uniq)

lemma get_fold_put_notin:
  "k \<notin> f ` set xs \<Longrightarrow> get (fold (\<lambda>x m. put (f x) (g x m) m) xs m) k = get m k"
  by (induction xs arbitrary: m) (auto simp: get_put)

text \<open>Accumulating: each element is combined into the entry of its key.\<close>

lemma get_fold_accumulate:
  "get (fold (\<lambda>x m. put (f x) (case get m (f x) of None \<Rightarrow> one x | Some a \<Rightarrow> add x a) m) xs m) k
   = fold (\<lambda>x a. Some (case a of None \<Rightarrow> one x | Some b \<Rightarrow> add x b))
       (filter (\<lambda>x. f x = k) xs) (get m k)"
  by (induction xs arbitrary: m) (auto simp: get_put)

end

lemma keys_update: "map fst (AList.update k v m) =
    (if k \<in> set (map fst m) then map fst m else map fst m @ [k])"
  by (simp add: AList.update_keys)

lemma set_update_subset: "set (AList.update k v m) \<subseteq> insert (k, v) (set m)"
  by (induction m) auto

interpretation alist: js_map map_of AList.update "map fst" "[]"
  by unfold_locales (auto simp: AList.update_conv' keys_update map_of_eq_None_iff)

subsection \<open>Comma separated lists\<close>

text \<open>
  Several editors keep a list of names as one comma separated text. \<open>comma_items\<close> is the common
  reading (split, trim, drop the empty ones). A reader of such texts may drop repetitions at
  once or leave that to its callers; the locale states what all of them promise, and what
  follows for writing a list and reading it back.
\<close>

definition comma_items :: "string \<Rightarrow> string list" where
  "comma_items s = filter truthy (map js_trim (js_split (CHR '','') s))"

definition item_ok :: "string \<Rightarrow> bool" where
  "item_ok x \<longleftrightarrow> x \<noteq> [] \<and> trimmed x \<and> CHR '','' \<notin> set x"

lemma item_ok_comma_items: "x \<in> set (comma_items s) \<Longrightarrow> item_ok x"
  using js_split_sep_free set_trim by (fastforce simp: comma_items_def item_ok_def)

lemma comma_items_Nil [simp]: "comma_items [] = []"
  by (simp add: comma_items_def)

lemma comma_items_join: "list_all item_ok xs \<Longrightarrow> comma_items (js_join '','' xs) = xs"
proof (cases "xs = []")
  case False
  assume ok: "list_all item_ok xs"
  then have "js_split (CHR '','') (js_join '','' xs) = xs"
    using False by (intro js_split_join) (auto simp: list_all_iff item_ok_def)
  moreover have "map js_trim xs = xs"
    using ok by (intro map_idI) (auto simp: list_all_iff item_ok_def trim_trimmed)
  ultimately show ?thesis
    using ok by (auto simp: comma_items_def list_all_iff item_ok_def filter_id_conv)
qed simp

locale comma_list =
  fixes read :: "string \<Rightarrow> string list"
  assumes read_items: "js_uniq (read s) = js_uniq (comma_items s)"
begin

lemma set_read: "set (read s) = set (comma_items s)"
  by (metis read_items set_js_uniq)

lemma read_ok: "x \<in> set (read s) \<Longrightarrow> item_ok x"
  using set_read item_ok_comma_items by blast

lemma read_join: "list_all item_ok xs \<Longrightarrow> js_uniq (read (js_join '','' (js_uniq xs))) = js_uniq xs"
  by (simp add: read_items comma_items_join list_all_iff)

lemma read_write_read:
  "js_uniq (read (js_join '','' (js_uniq (read s)))) = js_uniq (read s)"
  by (rule read_join) (auto simp: list_all_iff intro: read_ok)

end

end
