(* ===== verification/Json.thy ===== *)
theory Json
  imports Js_Prelude
begin

text \<open>
  The \<open>JSON\<close> object of the language: values, \<open>JSON.parse\<close>, \<open>JSON.stringify\<close> of a string and
  \<open>String(value)\<close>. The parser is a lexer followed by a stack machine; both consume one input
  symbol per step, so they are total without fuel. A syntax error (the exception that every
  caller in the sources catches) is \<open>None\<close>.

  Numbers are exact decimals \<open>m * 10 ^ e\<close> with \<open>m\<close> not divisible by ten. Rounding to binary64
  (more than 15 significant digits), overflow to infinity and the sign of zero are not modelled.
  The entries of an object are listed in the order of \<open>Object.entries\<close>: array-index keys in
  ascending order, then the other keys in insertion order.
\<close>

section \<open>Values\<close>

datatype dec = Dec (mant: int) (expo: int)

function dec_norm :: "int \<Rightarrow> int \<Rightarrow> dec" where
  "dec_norm m e =
     (if m = 0 then Dec 0 0 else if m mod 10 = 0 then dec_norm (m div 10) (e + 1) else Dec m e)"
  by pat_completeness auto
termination
  by (relation "measure (\<lambda>(m, e). nat \<bar>m\<bar>)") (auto simp: zdiv_mono1)

declare dec_norm.simps [simp del]

datatype json =
    JNull
  | JBool bool
  | JNum dec
  | JStr string
  | JArr "json list"
  | JObj "(string \<times> json) list"

text \<open>The integer a number denotes, if it is one (\<open>Number.isInteger\<close>).\<close>

definition dec_int :: "dec \<Rightarrow> int option" where
  "dec_int d = (if expo d \<ge> 0 then Some (mant d * 10 ^ nat (expo d)) else None)"

definition of_int_dec :: "int \<Rightarrow> dec" where
  "of_int_dec i = dec_norm i 0"

text \<open>Comparison of numbers, after scaling to the same exponent.\<close>

definition dec_less :: "dec \<Rightarrow> dec \<Rightarrow> bool" where
  "dec_less a b =
     (let e = min (expo a) (expo b)
      in mant a * 10 ^ nat (expo a - e) < mant b * 10 ^ nat (expo b - e))"

text \<open>Array-index keys come first in property order.\<close>

definition is_index :: "string \<Rightarrow> bool" where
  "is_index k = (all_digits k \<and> (k = ''0'' \<or> hd k \<noteq> CHR ''0'') \<and> parse_dec k < 4294967295)"

fun obj_put :: "string \<Rightarrow> 'v \<Rightarrow> (string \<times> 'v) list \<Rightarrow> (string \<times> 'v) list" where
  "obj_put k v [] = [(k, v)]"
| "obj_put k v ((k', v') # r) =
     (if k = k' then (k, v) # r
      else if is_index k \<and> (is_index k' \<longrightarrow> parse_dec k < parse_dec k') then (k, v) # (k', v') # r
      else (k', v') # obj_put k v r)"

text \<open>\<open>delete\<close> of a property.\<close>

definition obj_del :: "string \<Rightarrow> (string \<times> 'v) list \<Rightarrow> (string \<times> 'v) list" where
  "obj_del k o1 = filter (\<lambda>kv. fst kv \<noteq> k) o1"

text \<open>\<open>typeof v === 'object'\<close> and truthy; a plain object; property read (\<open>undefined\<close> is \<open>None\<close>).\<close>

fun is_record :: "json \<Rightarrow> bool" where
  "is_record (JArr _) = True"
| "is_record (JObj _) = True"
| "is_record _ = False"

fun jget :: "json \<Rightarrow> string \<Rightarrow> json option" where
  "jget (JObj o1) k = map_of o1 k"
| "jget _ k = None"

text \<open>A property that is read as a string.\<close>

definition str_prop :: "json \<Rightarrow> string \<Rightarrow> string option" where
  "str_prop v k = (case jget v k of Some (JStr s) \<Rightarrow> Some s | _ \<Rightarrow> None)"

section \<open>Lexer\<close>

datatype token =
    TLBrace | TRBrace | TLBrack | TRBrack | TComma | TColon
  | TStr string | TNum dec | TTrue | TFalse | TNull

text \<open>Characters of a string literal: a raw byte, or the code unit of an escape.\<close>

datatype sunit = Raw char | Uni nat

datatype lex_state =
    LStart
  | LStr "sunit list"
  | LEsc "sunit list"
  | LHex "sunit list" nat nat
  | LNum string
  | LWord string

definition utf8 :: "nat \<Rightarrow> string" where
  "utf8 n =
     (if n < 0x80 then [char_of n]
      else if n < 0x800 then [char_of (0xC0 + n div 64), char_of (0x80 + n mod 64)]
      else if n < 0x10000
      then [char_of (0xE0 + n div 4096), char_of (0x80 + n div 64 mod 64), char_of (0x80 + n mod 64)]
      else [char_of (0xF0 + n div 262144), char_of (0x80 + n div 4096 mod 64),
            char_of (0x80 + n div 64 mod 64), char_of (0x80 + n mod 64)])"

definition is_high :: "nat \<Rightarrow> bool" where
  "is_high n = (0xD800 \<le> n \<and> n < 0xDC00)"

definition is_low :: "nat \<Rightarrow> bool" where
  "is_low n = (0xDC00 \<le> n \<and> n < 0xE000)"

text \<open>Code units to bytes; a surrogate pair is one character.\<close>

fun units_str :: "sunit list \<Rightarrow> string" where
  "units_str [] = []"
| "units_str (Raw c # us) = c # units_str us"
| "units_str (Uni h # Uni l # us) =
     (if is_high h \<and> is_low l then utf8 (0x10000 + (h - 0xD800) * 1024 + (l - 0xDC00)) @ units_str us
      else utf8 h @ units_str (Uni l # us))"
| "units_str (Uni n # us) = utf8 n @ units_str us"

definition hex_val :: "char \<Rightarrow> nat option" where
  "hex_val c =
     (let n = (of_char c :: nat)
      in if 48 \<le> n \<and> n \<le> 57 then Some (n - 48)
         else if 65 \<le> n \<and> n \<le> 70 then Some (n - 55)
         else if 97 \<le> n \<and> n \<le> 102 then Some (n - 87) else None)"

definition simple_escape :: "char \<Rightarrow> char option" where
  "simple_escape c =
     map_of [(CHR 0x22, CHR 0x22), (CHR 0x5C, CHR 0x5C), (CHR ''/'', CHR ''/''),
       (CHR ''b'', CHR 0x08), (CHR ''f'', CHR 0x0C), (CHR ''n'', CHR 0x0A),
       (CHR ''r'', CHR 0x0D), (CHR ''t'', CHR 0x09)] c"

text \<open>The number grammar \<open>-?(0|[1-9]\d*)(\.\d+)?([eE][+-]?\d+)?\<close>.\<close>

definition lex_frac :: "string \<Rightarrow> (string \<times> string) option" where
  "lex_frac s =
     (case s of
        CHR ''.'' # t \<Rightarrow>
          (let fp = takeWhile is_digit t in if fp = [] then None else Some (fp, dropWhile is_digit t))
      | _ \<Rightarrow> Some ([], s))"

definition lex_exp :: "string \<Rightarrow> int option" where
  "lex_exp s =
     (case s of
        [] \<Rightarrow> Some 0
      | c # t \<Rightarrow>
          if c \<noteq> CHR ''e'' \<and> c \<noteq> CHR ''E'' then None
          else (case t of
             CHR ''-'' # u \<Rightarrow> if all_digits u then Some (- int (parse_dec u)) else None
           | CHR ''+'' # u \<Rightarrow> if all_digits u then Some (int (parse_dec u)) else None
           | _ \<Rightarrow> if all_digits t then Some (int (parse_dec t)) else None))"

definition num_lexeme :: "string \<Rightarrow> dec option" where
  "num_lexeme s =
     (let neg = (s \<noteq> [] \<and> hd s = CHR ''-''); s1 = (if neg then tl s else s);
          ip = takeWhile is_digit s1
      in if ip = [] \<or> (length ip > 1 \<and> hd ip = CHR ''0'') then None
         else (case lex_frac (dropWhile is_digit s1) of
             None \<Rightarrow> None
           | Some (fp, s2) \<Rightarrow>
               (case lex_exp s2 of
                  None \<Rightarrow> None
                | Some ex \<Rightarrow>
                    Some (dec_norm ((if neg then -1 else 1) * int (parse_dec (ip @ fp)))
                           (ex - int (length fp))))))"

definition word_token :: "string \<Rightarrow> token option" where
  "word_token s = map_of [(''true'', TTrue), (''false'', TFalse), (''null'', TNull)] s"

definition punct :: "char \<Rightarrow> token option" where
  "punct c =
     map_of [(CHR ''{'', TLBrace), (CHR ''}'', TRBrace), (CHR ''['', TLBrack), (CHR '']'', TRBrack),
       (CHR '','', TComma), (CHR '':'', TColon)] c"

definition json_ws :: "char \<Rightarrow> bool" where
  "json_ws c = (c \<in> {CHR 0x20, CHR 0x09, CHR 0x0A, CHR 0x0D})"

definition num_char :: "char \<Rightarrow> bool" where
  "num_char c = (is_digit c \<or> c \<in> {CHR ''-'', CHR ''+'', CHR ''.'', CHR ''e'', CHR ''E''})"

definition word_char :: "char \<Rightarrow> bool" where
  "word_char c = (c \<in> set ''abcdefghijklmnopqrstuvwxyz'')"

definition cons_tok :: "token option \<Rightarrow> token list option \<Rightarrow> token list option" where
  "cons_tok t ts = (case (t, ts) of (Some u, Some us) \<Rightarrow> Some (u # us) | _ \<Rightarrow> None)"

text \<open>What the start state does with one character: the next state, and a token if one is complete.\<close>

definition lex_start :: "char \<Rightarrow> (token option \<times> lex_state) option" where
  "lex_start c =
     (if json_ws c then Some (None, LStart)
      else if c = CHR 0x22 then Some (None, LStr [])
      else (case punct c of
          Some t \<Rightarrow> Some (Some t, LStart)
        | None \<Rightarrow>
            if is_digit c \<or> c = CHR ''-'' then Some (None, LNum [c])
            else if word_char c then Some (None, LWord [c])
            else None))"

text \<open>The pending text of a state: the token it denotes at the end of the lexeme.\<close>

fun lex_flush :: "lex_state \<Rightarrow> token option" where
  "lex_flush (LNum acc) = map_option TNum (num_lexeme acc)"
| "lex_flush (LWord acc) = word_token acc"
| "lex_flush _ = None"

fun json_lex :: "lex_state \<Rightarrow> string \<Rightarrow> token list option" where
  "json_lex LStart [] = Some []"
| "json_lex (LNum acc) [] = cons_tok (lex_flush (LNum acc)) (Some [])"
| "json_lex (LWord acc) [] = cons_tok (lex_flush (LWord acc)) (Some [])"
| "json_lex _ [] = None"
| "json_lex (LStr acc) (c # cs) =
     (if c = CHR 0x22 then cons_tok (Some (TStr (units_str acc))) (json_lex LStart cs)
      else if c = CHR 0x5C then json_lex (LEsc acc) cs
      else if (of_char c :: nat) < 32 then None
      else json_lex (LStr (acc @ [Raw c])) cs)"
| "json_lex (LEsc acc) (c # cs) =
     (if c = CHR ''u'' then json_lex (LHex acc 4 0) cs
      else (case simple_escape c of None \<Rightarrow> None | Some d \<Rightarrow> json_lex (LStr (acc @ [Raw d])) cs))"
| "json_lex (LHex acc n v) (c # cs) =
     (case hex_val c of
        None \<Rightarrow> None
      | Some h \<Rightarrow>
          if n \<le> 1 then json_lex (LStr (acc @ [Uni (16 * v + h)])) cs
          else json_lex (LHex acc (n - 1) (16 * v + h)) cs)"
| "json_lex st (c # cs) =
     (if (case st of LNum _ \<Rightarrow> num_char c | LWord _ \<Rightarrow> word_char c | _ \<Rightarrow> False)
      then json_lex (case st of LNum a \<Rightarrow> LNum (a @ [c]) | LWord a \<Rightarrow> LWord (a @ [c]) | s \<Rightarrow> s) cs
      else (let rest = (case lex_start c of
                None \<Rightarrow> None
              | Some (None, st') \<Rightarrow> json_lex st' cs
              | Some (Some t, st') \<Rightarrow> cons_tok (Some t) (json_lex st' cs))
        in if st = LStart then rest else cons_tok (lex_flush st) rest))"

section \<open>Parser\<close>

datatype frame = FArr "json list" | FObj "(string \<times> json) list" | FKey "(string \<times> json) list" string

datatype mode = MVal | MArr0 | MKey0 | MKey | MColon string | MDone json

text \<open>A scalar token as a value.\<close>

fun scalar :: "token \<Rightarrow> json option" where
  "scalar TNull = Some JNull"
| "scalar TTrue = Some (JBool True)"
| "scalar TFalse = Some (JBool False)"
| "scalar (TStr s) = Some (JStr s)"
| "scalar (TNum d) = Some (JNum d)"
| "scalar _ = None"

fun json_run :: "mode \<Rightarrow> frame list \<Rightarrow> token list \<Rightarrow> json option" where
  "json_run (MDone v) [] [] = Some v"
| "json_run m st [] = None"
| "json_run (MDone v) st (t # ts) =
     (case st of
        FArr xs # st' \<Rightarrow>
          if t = TComma then json_run MVal (FArr (xs @ [v]) # st') ts
          else if t = TRBrack then json_run (MDone (JArr (xs @ [v]))) st' ts
          else None
      | FKey o1 k # st' \<Rightarrow>
          if t = TComma then json_run MKey (FObj (obj_put k v o1) # st') ts
          else if t = TRBrace then json_run (MDone (JObj (obj_put k v o1))) st' ts
          else None
      | _ \<Rightarrow> None)"
| "json_run MKey st (t # ts) =
     (case t of TStr k \<Rightarrow> json_run (MColon k) st ts | _ \<Rightarrow> None)"
| "json_run MKey0 st (t # ts) =
     (case (t, st) of
        (TRBrace, FObj o1 # st') \<Rightarrow> json_run (MDone (JObj o1)) st' ts
      | (TStr k, _) \<Rightarrow> json_run (MColon k) st ts
      | _ \<Rightarrow> None)"
| "json_run (MColon k) st (t # ts) =
     (case (t, st) of
        (TColon, FObj o1 # st') \<Rightarrow> json_run MVal (FKey o1 k # st') ts
      | _ \<Rightarrow> None)"
| "json_run m st (t # ts) =
     (case (t, m, st) of
        (TRBrack, MArr0, FArr xs # st') \<Rightarrow> json_run (MDone (JArr xs)) st' ts
      | (TLBrack, _, _) \<Rightarrow> json_run MArr0 (FArr [] # st) ts
      | (TLBrace, _, _) \<Rightarrow> json_run MKey0 (FObj [] # st) ts
      | _ \<Rightarrow> (case scalar t of None \<Rightarrow> None | Some v \<Rightarrow> json_run (MDone v) st ts))"

definition json_parse :: "string \<Rightarrow> json option" where
  "json_parse s = Option.bind (json_lex LStart s) (json_run MVal [])"

text \<open>
  \<open>JSON.parse\<close> followed by the guard every caller writes:
  \<open>!parsed || typeof parsed !== 'object' || Array.isArray(parsed)\<close>.
\<close>

definition parse_object :: "string \<Rightarrow> (string \<times> json) list option" where
  "parse_object s = (case json_parse s of Some (JObj o1) \<Rightarrow> Some o1 | _ \<Rightarrow> None)"

section \<open>Printing\<close>

definition hex_char :: "nat \<Rightarrow> char" where
  "hex_char n = ''0123456789abcdef'' ! n"

definition quote_char :: "char \<Rightarrow> string" where
  "quote_char c =
     (if c = CHR 0x22 then [CHR 0x5C, CHR 0x22]
      else if c = CHR 0x5C then [CHR 0x5C, CHR 0x5C]
      else if c = CHR 0x08 then [CHR 0x5C, CHR ''b'']
      else if c = CHR 0x0C then [CHR 0x5C, CHR ''f'']
      else if c = CHR 0x0A then [CHR 0x5C, CHR ''n'']
      else if c = CHR 0x0D then [CHR 0x5C, CHR ''r'']
      else if c = CHR 0x09 then [CHR 0x5C, CHR ''t'']
      else if (of_char c :: nat) < 32
      then [CHR 0x5C, CHR ''u'', CHR ''0'', CHR ''0'', hex_char (of_char c div 16), hex_char (of_char c mod 16)]
      else [c])"

text \<open>\<open>JSON.stringify\<close> of a string.\<close>

definition json_quote :: "string \<Rightarrow> string" where
  "json_quote s = [CHR 0x22] @ concat (map quote_char s) @ [CHR 0x22]"

text \<open>\<open>Number.prototype.toString\<close> for exact decimals.\<close>

definition dec_str :: "dec \<Rightarrow> string" where
  "dec_str d =
     (let m = mant d; s = nat_str (nat \<bar>m\<bar>); k = int (length s); n = k + expo d;
          body = (if m = 0 then ''0''
            else if k \<le> n \<and> n \<le> 21 then s @ replicate (nat (n - k)) (CHR ''0'')
            else if 0 < n \<and> n \<le> 21 then take (nat n) s @ ''.'' @ drop (nat n) s
            else if -6 < n \<and> n \<le> 0 then ''0.'' @ replicate (nat (- n)) (CHR ''0'') @ s
            else (let ex = (if n - 1 < 0 then ''-'' else ''+'') @ nat_str (nat \<bar>n - 1\<bar>)
                  in if k = 1 then s @ ''e'' @ ex else take 1 s @ ''.'' @ drop 1 s @ ''e'' @ ex))
      in if m < 0 then ''-'' @ body else body)"

text \<open>\<open>String(value)\<close>, as a template literal applies it to a parsed value.\<close>

fun json_string :: "json \<Rightarrow> string" where
  "json_string JNull = ''null''"
| "json_string (JBool b) = (if b then ''true'' else ''false'')"
| "json_string (JNum d) = dec_str d"
| "json_string (JStr s) = s"
| "json_string (JArr xs) =
     js_join '','' (map (\<lambda>x. if x = JNull then [] else json_string x) xs)"
| "json_string (JObj _) = ''[object Object]''"

section \<open>Reading back what was printed\<close>

lemma units_str_snoc_Raw: "units_str (us @ [Raw c]) = units_str us @ [c]"
  by (induction us rule: units_str.induct) auto

lemma units_str_snoc_Uni:
  "\<not> is_low n \<Longrightarrow> units_str (us @ [Uni n]) = units_str us @ utf8 n"
  by (induction us rule: units_str.induct) auto

lemma hex_val_hex_char: "n < 16 \<Longrightarrow> hex_val (hex_char n) = Some n"
proof -
  have "\<forall>n \<in> set [0..<16]. hex_val (hex_char n) = Some n" by code_simp
  then show "n < 16 \<Longrightarrow> ?thesis" by simp
qed

text \<open>One quoted character is read back as one unit that denotes it.\<close>

definition special_chars :: "char set" where
  "special_chars = {CHR 0x22, CHR 0x5C, CHR 0x08, CHR 0x0C, CHR 0x0A, CHR 0x0D, CHR 0x09}"

lemma quote_special:
  "c \<in> special_chars \<Longrightarrow>
   \<exists>e. quote_char c = [CHR 0x5C, e] \<and> e \<noteq> CHR ''u'' \<and> simple_escape e = Some c"
  unfolding special_chars_def by (auto simp: quote_char_def simple_escape_def)

lemma quote_control:
  "c \<notin> special_chars \<Longrightarrow> (of_char c :: nat) < 32 \<Longrightarrow> quote_char c =
     [CHR 0x5C, CHR ''u'', CHR ''0'', CHR ''0'', hex_char (of_char c div 16), hex_char (of_char c mod 16)]"
  by (simp add: quote_char_def special_chars_def)

lemma quote_plain:
  "c \<notin> special_chars \<Longrightarrow> \<not> (of_char c :: nat) < 32 \<Longrightarrow>
   quote_char c = [c] \<and> c \<noteq> CHR 0x22 \<and> c \<noteq> CHR 0x5C"
  by (simp add: quote_char_def special_chars_def)

lemma lex_quote_char:
  "\<exists>u. (\<forall>acc rest. json_lex (LStr acc) (quote_char c @ rest) = json_lex (LStr (acc @ [u])) rest)
     \<and> (\<forall>acc. units_str (acc @ [u]) = units_str acc @ [c])"
proof (cases "c \<notin> special_chars \<and> (of_char c :: nat) < 32")
  case True
  let ?n = "of_char c :: nat"
  have "?n div 16 < 16" using True by auto
  then have h: "hex_val (hex_char (?n div 16)) = Some (?n div 16)"
    "hex_val (hex_char (?n mod 16)) = Some (?n mod 16)" "hex_val (CHR ''0'') = Some 0"
    by (simp_all add: hex_val_hex_char hex_val_def [of "CHR ''0''"])
  have "json_lex (LStr acc) (quote_char c @ rest) = json_lex (LStr (acc @ [Uni ?n])) rest"
    for acc rest
    using True by (simp add: quote_control h)
  moreover have "units_str (acc @ [Uni ?n]) = units_str acc @ [c]" for acc
    using True by (subst units_str_snoc_Uni) (auto simp: is_low_def utf8_def)
  ultimately show ?thesis by blast
next
  case False
  then consider "c \<in> special_chars" | "c \<notin> special_chars" "\<not> (of_char c :: nat) < 32" by blast
  then have "json_lex (LStr acc) (quote_char c @ rest) = json_lex (LStr (acc @ [Raw c])) rest"
    for acc rest
  proof cases
    case 1
    then obtain e where "quote_char c = [CHR 0x5C, e]" "e \<noteq> CHR ''u''" "simple_escape e = Some c"
      using quote_special by blast
    then show ?thesis by simp
  next
    case 2
    then show ?thesis by (simp add: quote_plain)
  qed
  then show ?thesis using units_str_snoc_Raw by blast
qed

lemma lex_quoted:
  "json_lex (LStr acc) (concat (map quote_char s) @ CHR 0x22 # rest)
   = cons_tok (Some (TStr (units_str acc @ s))) (json_lex LStart rest)"
proof (induction s arbitrary: acc)
  case (Cons c s)
  obtain u where
    "\<And>acc rest. json_lex (LStr acc) (quote_char c @ rest) = json_lex (LStr (acc @ [u])) rest"
    "\<And>acc. units_str (acc @ [u]) = units_str acc @ [c]"
    using lex_quote_char by blast
  then show ?case by (simp add: Cons)
qed simp

lemma lex_start_quote: "lex_start (CHR 0x22) = Some (None, LStr [])"
  by (simp add: lex_start_def json_ws_def)

lemma lex_json_quote:
  "json_lex LStart (json_quote s @ rest) = cons_tok (Some (TStr s)) (json_lex LStart rest)"
  using lex_quoted [of "[]" s rest] by (simp add: json_quote_def lex_start_quote Let_def)

lemma json_parse_quote [simp]: "json_parse (json_quote s) = Some (JStr s)"
  using lex_json_quote [of s "[]"] by (simp add: json_parse_def cons_tok_def)

subsection \<open>Objects\<close>

lemma map_of_obj_put: "map_of (obj_put k v o1) = (map_of o1)(k \<mapsto> v)"
  by (induction o1) (auto simp: fun_eq_iff split: if_splits)

text \<open>Normalisation keeps the value, and comparison compares the values.\<close>

lemma dec_norm_value:
  "0 \<le> e \<Longrightarrow> 0 \<le> expo (dec_norm m e)
     \<and> mant (dec_norm m e) * 10 ^ nat (expo (dec_norm m e)) = m * 10 ^ nat e"
proof (induction m e rule: dec_norm.induct)
  case (1 m e)
  show ?case
  proof (cases "m \<noteq> 0 \<and> m mod 10 = 0")
    case True
    have "m div 10 * 10 = m" using True by presburger
    moreover have "nat (e + 1) = Suc (nat e)" using 1(2) by simp
    ultimately have "m div 10 * 10 ^ nat (e + 1) = m * 10 ^ nat e" by (simp flip: mult.assoc)
    then show ?thesis using 1 True by (simp add: dec_norm.simps [of m e])
  next
    case False
    then show ?thesis using 1(2) by (auto simp: dec_norm.simps [of m e])
  qed
qed

lemma of_int_dec_value:
  "0 \<le> expo (of_int_dec i) \<and> mant (of_int_dec i) * 10 ^ nat (expo (of_int_dec i)) = i"
  using dec_norm_value [of 0 i] by (simp add: of_int_dec_def)

lemma dec_less_value:
  assumes "0 \<le> expo a" "0 \<le> expo b"
  shows "dec_less a b \<longleftrightarrow> mant a * 10 ^ nat (expo a) < mant b * 10 ^ nat (expo b)"
proof -
  define e where "e = min (expo a) (expo b)"
  have "nat (expo a) = nat (expo a - e) + nat e" "nat (expo b) = nat (expo b - e) + nat e"
    using assms by (auto simp: e_def simp flip: nat_add_distrib)
  then have "mant a * 10 ^ nat (expo a) < mant b * 10 ^ nat (expo b) \<longleftrightarrow>
      mant a * 10 ^ nat (expo a - e) * 10 ^ nat e < mant b * 10 ^ nat (expo b - e) * 10 ^ nat e"
    by (simp add: power_add mult.assoc)
  also have "\<dots> \<longleftrightarrow> dec_less a b" by (simp add: dec_less_def e_def Let_def)
  finally show ?thesis by simp
qed

lemma dec_less_int [simp]: "dec_less (of_int_dec i) (of_int_dec j) \<longleftrightarrow> i < j"
  using of_int_dec_value [of i] of_int_dec_value [of j] by (simp add: dec_less_value)

lemma dec_int_of_int [simp]: "dec_int (of_int_dec i) = Some i"
  using of_int_dec_value [of i] by (simp add: dec_int_def)

end
