(* ===== verification/Status_Codes.thy ===== *)
theory Status_Codes
  imports Json
begin

text \<open>
  Status code rules: \<open>web/src/lib/http-status-code-rules.ts\<close> (the comma separated list of codes
  and ranges that controls retry and automatic disabling) and
  \<open>web/src/features/channels/lib/status-code-risk-guard.ts\<close> (the guard on status code redirects
  of a channel). The numbers that \<open>parseInt\<close> returns are natural numbers here; the range check
  that follows rejects every value that binary64 could not represent exactly.
\<close>

section \<open>http-status-code-rules.ts\<close>

record status_code_range =
  rstart :: nat
  rend :: nat

record parsed_rules =
  ok :: bool
  ranges :: "status_code_range list"
  tokens :: "string list"
  normalized :: string
  invalidTokens :: "string list"

abbreviation isNumber :: "string \<Rightarrow> bool" where
  "isNumber \<equiv> all_digits"

definition isValidCode :: "nat \<Rightarrow> bool" where
  "isValidCode code = (code \<ge> 100 \<and> code \<le> 599)"

definition parseToken :: "string \<Rightarrow> status_code_range option" where
  "parseToken token =
     (let cleaned = strip_ws (js_trim token)
      in if cleaned = [] then None
         else if CHR ''-'' \<in> set cleaned then
           (case js_split (CHR ''-'') cleaned of
              a # b # _ \<Rightarrow>
                if \<not> isNumber a \<or> \<not> isNumber b then None
                else (let s = parse_dec a; e = parse_dec b
                      in if \<not> isValidCode s \<or> \<not> isValidCode e \<or> s > e then None
                         else Some \<lparr>rstart = s, rend = e\<rparr>)
            | _ \<Rightarrow> None)
         else if \<not> isNumber cleaned then None
         else (let code = parse_dec cleaned
               in if \<not> isValidCode code then None else Some \<lparr>rstart = code, rend = code\<rparr>))"

definition range_le :: "status_code_range \<Rightarrow> status_code_range \<Rightarrow> bool" where
  "range_le a b = (if rstart a \<noteq> rstart b then rstart a \<le> rstart b else rend a \<le> rend b)"

definition merge_step :: "status_code_range list \<Rightarrow> status_code_range \<Rightarrow> status_code_range list" where
  "merge_step merged current =
     (if merged = [] \<or> rstart current > rend (last merged) + 1 then merged @ [current]
      else butlast merged @
        [(last merged)\<lparr>rend := max (rend (last merged)) (rend current)\<rparr>])"

definition mergeRanges :: "status_code_range list \<Rightarrow> status_code_range list" where
  "mergeRanges rs = (if rs = [] then [] else foldl merge_step [] (js_sort range_le rs))"

definition range_token :: "status_code_range \<Rightarrow> string" where
  "range_token r =
     (if rstart r = rend r then nat_str (rstart r) else nat_str (rstart r) @ ''-'' @ nat_str (rend r))"

text \<open>\<open>raw.replace(/[\<dots>]/g, ',')\<close> on the full-width comma U+FF0C.\<close>

fun sanitize :: "string \<Rightarrow> string" where
  "sanitize (a # b # c # r) =
     (if a = CHR 0xEF \<and> b = CHR 0xBC \<and> c = CHR 0x8C then CHR '','' # sanitize r
      else a # sanitize (b # c # r))"
| "sanitize s = s"

definition segments :: "string \<Rightarrow> string list" where
  "segments raw = filter truthy (map js_trim (js_split (CHR '','') (sanitize raw)))"

text \<open>The loop over the segments: the parsed ranges and the segments that do not parse.\<close>

fun parse_segments ::
  "string list \<Rightarrow> status_code_range list \<Rightarrow> string list \<Rightarrow> status_code_range list \<times> string list" where
  "parse_segments [] rs bad = (rs, bad)"
| "parse_segments (seg # segs) rs bad =
     (case parseToken seg of
        None \<Rightarrow> parse_segments segs rs (bad @ [seg])
      | Some r \<Rightarrow> parse_segments segs (rs @ [r]) bad)"

text \<open>\<open>(input ?? '').toString()\<close>\<close>

definition input_string :: "json option \<Rightarrow> string" where
  "input_string i = (case i of None \<Rightarrow> [] | Some JNull \<Rightarrow> [] | Some v \<Rightarrow> json_string v)"

definition parseHttpStatusCodeRules :: "json option \<Rightarrow> parsed_rules" where
  "parseHttpStatusCodeRules i =
     (let raw = js_trim (input_string i)
      in if raw = [] then
           \<lparr>ok = True, ranges = [], tokens = [], normalized = [], invalidTokens = []\<rparr>
         else (let (rs, bad) = parse_segments (segments raw) [] []
               in if bad \<noteq> [] then
                    \<lparr>ok = False, ranges = [], tokens = [], normalized = raw, invalidTokens = bad\<rparr>
                  else (let merged = mergeRanges rs; toks = map range_token merged
                        in \<lparr>ok = True, ranges = merged, tokens = toks,
                            normalized = js_join '','' toks, invalidTokens = []\<rparr>)))"

section \<open>status-code-risk-guard.ts\<close>

definition NON_REDIRECTABLE_STATUS_CODES :: "nat list" where
  "NON_REDIRECTABLE_STATUS_CODES = [504, 524]"

text \<open>\<open>/^[1-5]\d{2}$/.test(s)\<close>\<close>

definition is_status_text :: "string \<Rightarrow> bool" where
  "is_status_text s = (length s = 3 \<and> hd s \<in> set ''12345'' \<and> list_all is_digit s)"

definition parseStatusCodeKey :: "string \<Rightarrow> nat option" where
  "parseStatusCodeKey rawKey =
     (let n = js_trim rawKey in if \<not> is_status_text n then None else Some (parse_dec n))"

definition parseStatusCodeMappingTarget :: "json \<Rightarrow> nat option" where
  "parseStatusCodeMappingTarget rawValue =
     (case rawValue of
        JNum d \<Rightarrow>
          (case dec_int d of
             Some i \<Rightarrow> if 100 \<le> i \<and> i \<le> 599 then Some (nat i) else None
           | None \<Rightarrow> None)
      | JStr s \<Rightarrow>
          (let n = js_trim s
           in if \<not> is_status_text n then None
              else (let code = parse_dec n in if code \<ge> 100 \<and> code \<le> 599 then Some code else None))
      | _ \<Rightarrow> None)"

text \<open>The entries of the mapping, or none when the text is blank, malformed or no object.\<close>

definition mapping_entries :: "string option \<Rightarrow> (string \<times> json) list" where
  "mapping_entries s =
     (case s of
        None \<Rightarrow> []
      | Some t \<Rightarrow>
          if js_trim t = [] then []
          else (case parse_object t of None \<Rightarrow> [] | Some o1 \<Rightarrow> o1))"

definition collectInvalidStatusCodeEntries :: "string option \<Rightarrow> string list" where
  "collectInvalidStatusCodeEntries s =
     map (\<lambda>(k, v). k @ [CHR 0x20, CHR 0xE2, CHR 0x86, CHR 0x92, CHR 0x20] @ json_string v)
       (filter (\<lambda>(k, v). parseStatusCodeKey k = None \<or> parseStatusCodeMappingTarget v = None)
         (mapping_entries s))"

definition redirect_text :: "nat \<Rightarrow> nat \<Rightarrow> string" where
  "redirect_text f t = nat_str f @ '' -> '' @ nat_str t"

fun risky_loop :: "(string \<times> json) list \<Rightarrow> string list \<Rightarrow> string list" where
  "risky_loop [] acc = acc"
| "risky_loop ((k, v) # es) acc =
     (case (parseStatusCodeKey k, parseStatusCodeMappingTarget v) of
        (Some f, Some t) \<Rightarrow>
          if f \<notin> set NON_REDIRECTABLE_STATUS_CODES then risky_loop es acc
          else if f = t then risky_loop es acc
          else risky_loop es (acc @ [redirect_text f t])
      | _ \<Rightarrow> risky_loop es acc)"

definition collectDisallowedStatusCodeRedirects :: "string option \<Rightarrow> string list" where
  "collectDisallowedStatusCodeRedirects s =
     js_sort str_le (js_uniq (risky_loop (mapping_entries s) []))"

definition collectNewDisallowedStatusCodeRedirects :: "string option \<Rightarrow> string option \<Rightarrow> string list" where
  "collectNewDisallowedStatusCodeRedirects originalStr currentStr =
     (let currentRisky = collectDisallowedStatusCodeRedirects currentStr
      in if currentRisky = [] then []
         else (let originalRisky = collectDisallowedStatusCodeRedirects originalStr
               in filter (\<lambda>m. m \<notin> set originalRisky) currentRisky))"

section \<open>Ranges: well-formedness, coverage, normal form\<close>

definition codes_of :: "status_code_range list \<Rightarrow> nat set" where
  "codes_of rs = {n. \<exists>r \<in> set rs. rstart r \<le> n \<and> n \<le> rend r}"

text \<open>What every parsed range satisfies.\<close>

definition valid_range :: "status_code_range \<Rightarrow> bool" where
  "valid_range r \<longleftrightarrow> 100 \<le> rstart r \<and> rstart r \<le> rend r \<and> rend r \<le> 599"

text \<open>The normal form: ascending, with a gap of at least one code between neighbours.\<close>

definition gap_sorted :: "status_code_range list \<Rightarrow> bool" where
  "gap_sorted rs \<longleftrightarrow> sorted_wrt (\<lambda>a b. rend a + 1 < rstart b) rs"

lemma codes_of_simps [simp]:
  "codes_of [] = {}" "codes_of (r # rs) = {rstart r..rend r} \<union> codes_of rs"
  "codes_of (rs @ qs) = codes_of rs \<union> codes_of qs"
  by (auto simp: codes_of_def)

lemma codes_of_set_cong: "set rs = set qs \<Longrightarrow> codes_of rs = codes_of qs"
  by (simp add: codes_of_def)

interpretation range_order: js_order range_le
  by unfold_locales (auto simp: range_le_def split: if_splits)

lemma merge_step_snoc:
  "merge_step (ys @ [l]) c =
     (if rstart c > rend l + 1 then ys @ [l, c] else ys @ [l\<lparr>rend := max (rend l) (rend c)\<rparr>])"
  by (simp add: merge_step_def)

lemma merge_step_Nil [simp]: "merge_step [] c = [c]"
  by (simp add: merge_step_def)

text \<open>One merging step keeps the normal form and the covered codes.\<close>

lemma merge_step_ok:
  assumes "gap_sorted acc" and "acc \<noteq> [] \<Longrightarrow> rstart (last acc) \<le> rstart c"
  shows "gap_sorted (merge_step acc c)"
    and "codes_of (merge_step acc c) = codes_of acc \<union> {rstart c..rend c}"
    and "merge_step acc c \<noteq> []" and "rstart (last (merge_step acc c)) \<le> rstart c"
proof -
  show "gap_sorted (merge_step acc c)" using assms
    by (cases acc rule: rev_cases)
      (auto simp: merge_step_snoc gap_sorted_def sorted_wrt_append less_le_trans)
  show "codes_of (merge_step acc c) = codes_of acc \<union> {rstart c..rend c}" using assms
    by (cases acc rule: rev_cases) (auto simp: merge_step_snoc)
  show "merge_step acc c \<noteq> []" and "rstart (last (merge_step acc c)) \<le> rstart c" using assms
    by (cases acc rule: rev_cases; simp add: merge_step_snoc)+
qed

lemma foldl_merge_ok:
  assumes "sorted_wrt range_le xs" and "gap_sorted acc"
    and "acc \<noteq> [] \<Longrightarrow> \<forall>x \<in> set xs. rstart (last acc) \<le> rstart x"
  shows "gap_sorted (foldl merge_step acc xs)
    \<and> codes_of (foldl merge_step acc xs) = codes_of acc \<union> codes_of xs"
  using assms
proof (induction xs arbitrary: acc)
  case (Cons x xs)
  note step = merge_step_ok [of acc x]
  have le: "\<forall>y \<in> set xs. rstart x \<le> rstart y"
    using Cons.prems(1) by (auto simp: range_le_def split: if_splits)
  have "\<forall>y \<in> set xs. rstart (last (merge_step acc x)) \<le> rstart y"
    using step(4) Cons.prems(2,3) le by fastforce
  then show ?case
    using Cons step(1,2) by (simp add: Un_assoc)
qed simp

lemma mergeRanges_ok:
  "gap_sorted (mergeRanges rs)" "codes_of (mergeRanges rs) = codes_of rs"
  using foldl_merge_ok [OF range_order.sorted_sort, of "[]" rs]
    codes_of_set_cong [of "js_sort range_le rs" rs]
  by (auto simp: mergeRanges_def gap_sorted_def)

lemma merge_step_valid:
  "list_all valid_range acc \<Longrightarrow> valid_range c \<Longrightarrow> acc \<noteq> [] \<longrightarrow> rstart (last acc) \<le> rstart c \<Longrightarrow>
   list_all valid_range (merge_step acc c)"
  by (cases acc rule: rev_cases) (auto simp: merge_step_snoc valid_range_def)

lemma foldl_merge_valid:
  "sorted_wrt range_le xs \<Longrightarrow> list_all valid_range xs \<Longrightarrow> list_all valid_range acc \<Longrightarrow>
   gap_sorted acc \<Longrightarrow> acc \<noteq> [] \<longrightarrow> (\<forall>x \<in> set xs. rstart (last acc) \<le> rstart x) \<Longrightarrow>
   list_all valid_range (foldl merge_step acc xs)"
proof (induction xs arbitrary: acc)
  case (Cons x xs)
  note step = merge_step_ok [of acc x]
  have le: "\<forall>y \<in> set xs. rstart x \<le> rstart y"
    using Cons.prems(1) by (auto simp: range_le_def split: if_splits)
  have "\<forall>y \<in> set xs. rstart (last (merge_step acc x)) \<le> rstart y"
    using step(4) Cons.prems(4,5) le by fastforce
  then show ?case
    using Cons step(1) merge_step_valid [of acc x] by simp
qed simp

lemma mergeRanges_valid: "list_all valid_range rs \<Longrightarrow> list_all valid_range (mergeRanges rs)"
  using foldl_merge_valid [OF range_order.sorted_sort, of rs "[]"]
  by (auto simp: mergeRanges_def gap_sorted_def list_all_iff)

lemma foldl_merge_gap_sorted:
  "gap_sorted (acc @ xs) \<Longrightarrow> foldl merge_step acc xs = acc @ xs"
proof (induction xs arbitrary: acc)
  case (Cons x xs)
  have "merge_step acc x = acc @ [x]"
    using Cons.prems
    by (cases acc rule: rev_cases) (auto simp: merge_step_snoc gap_sorted_def sorted_wrt_append)
  with Cons show ?case by simp
qed simp

definition canonical_ranges :: "status_code_range list \<Rightarrow> bool" where
  "canonical_ranges rs \<longleftrightarrow> gap_sorted rs \<and> list_all valid_range rs"

lemma canonical_range_le: "canonical_ranges rs \<Longrightarrow> sorted_wrt range_le rs"
proof (induction rs)
  case (Cons r rs)
  then have "\<forall>q \<in> set rs. range_le r q"
    by (auto simp: canonical_ranges_def gap_sorted_def range_le_def valid_range_def list_all_iff)
  with Cons show ?case by (simp add: canonical_ranges_def gap_sorted_def)
qed simp

interpretation ranges: normaliser mergeRanges "list_all valid_range" canonical_ranges
proof unfold_locales
  show "list_all valid_range rs \<Longrightarrow> canonical_ranges (mergeRanges rs)" for rs
    by (simp add: canonical_ranges_def mergeRanges_ok mergeRanges_valid)
  show "canonical_ranges rs \<Longrightarrow> list_all valid_range rs" for rs
    by (simp add: canonical_ranges_def)
  show "canonical_ranges rs \<Longrightarrow> mergeRanges rs = rs" for rs
    using canonical_range_le [of rs] foldl_merge_gap_sorted [of "[]" rs]
    by (simp add: mergeRanges_def js_sort_sorted canonical_ranges_def)
qed

section \<open>The rule parser\<close>

lemma parseToken_valid: "parseToken t = Some r \<Longrightarrow> valid_range r"
  by (auto simp: parseToken_def valid_range_def isValidCode_def Let_def split: if_splits list.splits)

lemma parse_segments_eq:
  "parse_segments segs rs bad =
     (rs @ List.map_filter parseToken segs, bad @ filter (\<lambda>s. parseToken s = None) segs)"
  by (induction segs arbitrary: rs bad) (auto simp: List.map_filter_simps split: option.splits)

lemma map_filter_valid: "list_all valid_range (List.map_filter parseToken segs)"
  by (auto simp: List.map_filter_def list_all_iff dest: parseToken_valid)

text \<open>The parser as one equation over its segments.\<close>

abbreviation rule_segments :: "json option \<Rightarrow> string list" where
  "rule_segments i \<equiv> segments (js_trim (input_string i))"

lemma segments_Nil [simp]: "segments [] = []"
  by (simp add: segments_def)

lemma mergeRanges_Nil [simp]: "mergeRanges [] = []"
  by (simp add: mergeRanges_def)

lemma parse_rules_ok:
  "\<forall>s \<in> set (rule_segments i). parseToken s \<noteq> None \<Longrightarrow>
   parseHttpStatusCodeRules i =
     (let merged = mergeRanges (List.map_filter parseToken (rule_segments i))
      in \<lparr>ok = True, ranges = merged, tokens = map range_token merged,
          normalized = js_join '','' (map range_token merged), invalidTokens = []\<rparr>)"
  by (auto simp: parseHttpStatusCodeRules_def parse_segments_eq Let_def List.map_filter_simps
      filter_empty_conv)

lemma parse_rules_bad:
  "\<exists>s \<in> set (rule_segments i). parseToken s = None \<Longrightarrow>
   parseHttpStatusCodeRules i =
     \<lparr>ok = False, ranges = [], tokens = [], normalized = js_trim (input_string i),
      invalidTokens = filter (\<lambda>s. parseToken s = None) (rule_segments i)\<rparr>"
  by (auto simp: parseHttpStatusCodeRules_def parse_segments_eq Let_def filter_empty_conv)

lemma parse_rules_ok_iff:
  "ok (parseHttpStatusCodeRules i) \<longleftrightarrow> (\<forall>s \<in> set (rule_segments i). parseToken s \<noteq> None)"
proof (cases "\<exists>s \<in> set (rule_segments i). parseToken s = None")
  case True
  then show ?thesis by (auto simp: parse_rules_bad)
next
  case False
  then have "\<forall>s \<in> set (rule_segments i). parseToken s \<noteq> None" by simp
  then show ?thesis by (simp add: parse_rules_ok Let_def)
qed

lemma codes_of_map_filter:
  "codes_of (List.map_filter parseToken segs) =
     {n. \<exists>s \<in> set segs. \<exists>r. parseToken s = Some r \<and> rstart r \<le> n \<and> n \<le> rend r}"
  by (force simp: codes_of_def List.map_filter_def)

subsection \<open>Printing and reading a range\<close>

lemma nat_str_visible: "list_all visible (nat_str n)"
  by (auto simp: list_all_iff intro: visible_digit nat_str_digits)

lemma nat_str_not_in: "\<not> is_digit c \<Longrightarrow> c \<notin> set (nat_str n)"
  using nat_str_digits by blast

lemma range_token_visible: "list_all visible (range_token r)"
  using nat_str_visible by (auto simp: range_token_def visible_def)

lemma range_token_not_Nil [simp]: "range_token r \<noteq> []"
  by (auto simp: range_token_def)

lemmas Nil_not_range_token [simp] = range_token_not_Nil [symmetric]

lemma range_token_no_comma: "CHR '','' \<notin> set (range_token r)"
  by (auto simp: range_token_def nat_str_not_in is_digit_def)

lemma parseToken_range_token: "valid_range r \<Longrightarrow> parseToken (range_token r) = Some r"
proof -
  assume v: "valid_range r"
  have dash: "\<not> is_digit (CHR ''-'')" by (simp add: is_digit_def)
  have cl: "strip_ws (js_trim (range_token r)) = range_token r"
    by (simp add: trim_trimmed trimmed_visible strip_ws_visible range_token_visible)
  show ?thesis
  proof (cases "rstart r = rend r")
    case True
    with v cl dash show ?thesis
      by (simp add: parseToken_def range_token_def nat_str_not_in isValidCode_def valid_range_def Let_def)
  next
    case False
    with v cl dash show ?thesis
      by (simp add: parseToken_def range_token_def nat_str_not_in isValidCode_def valid_range_def
          js_split_append js_split_single)
  qed
qed

lemma sanitize_visible: "list_all visible s \<Longrightarrow> sanitize s = s"
  by (induction s rule: sanitize.induct) (auto simp: visible_def)

lemma js_join_visible:
  "list_all visible sep \<Longrightarrow> list_all (list_all visible) xs \<Longrightarrow> list_all visible (js_join sep xs)"
  by (induction sep xs rule: js_join.induct) auto

lemma js_trim_visible: "list_all visible s \<Longrightarrow> js_trim s = s"
  by (simp add: trim_trimmed trimmed_visible)

lemma segments_tokens:
  "segments (js_join '','' (map range_token rs)) = map range_token rs"
proof (cases "rs = []")
  case False
  let ?ts = "map range_token rs"
  have vis: "list_all (list_all visible) ?ts" and ne: "\<forall>t \<in> set ?ts. t \<noteq> []"
    using range_token_visible by (auto simp: list_all_iff)
  have "sanitize (js_join '','' ?ts) = js_join '','' ?ts"
    using vis by (intro sanitize_visible js_join_visible) (auto simp: visible_def)
  moreover have "js_split (CHR '','') (js_join '','' ?ts) = ?ts"
    using False range_token_no_comma by (intro js_split_join) auto
  moreover have "map js_trim ?ts = ?ts"
    using vis by (auto simp: list_all_iff js_trim_visible)
  ultimately show ?thesis using ne by (simp add: segments_def filter_id_conv)
qed simp

lemma input_string_JStr [simp]: "input_string (Some (JStr s)) = s"
  by (simp add: input_string_def)

lemma tokens_visible: "list_all visible (js_join '','' (map range_token rs))"
  using range_token_visible
  by (intro js_join_visible) (simp add: visible_def, simp add: list_all_iff)

lemma map_filter_range_tokens:
  "list_all valid_range rs \<Longrightarrow> List.map_filter parseToken (map range_token rs) = rs"
  by (induction rs) (auto simp: List.map_filter_simps parseToken_range_token)

lemma rule_segments_tokens:
  "rule_segments (Some (JStr (js_join '','' (map range_token rs)))) = map range_token rs"
  by (simp add: js_trim_visible tokens_visible segments_tokens)

text \<open>
  C23. A rule text that is accepted is parsed to exactly the codes its segments name, in the
  normal form: ascending ranges inside 100..599, with a gap between any two of them.
\<close>

theorem parse_rules_codes:
  assumes "ok (parseHttpStatusCodeRules i)"
  shows "codes_of (ranges (parseHttpStatusCodeRules i)) =
      {n. \<exists>s \<in> set (rule_segments i). \<exists>r. parseToken s = Some r \<and> rstart r \<le> n \<and> n \<le> rend r}
    \<and> canonical_ranges (ranges (parseHttpStatusCodeRules i))"
proof -
  from assms have "ranges (parseHttpStatusCodeRules i)
      = mergeRanges (List.map_filter parseToken (rule_segments i))"
    by (simp add: parse_rules_ok_iff parse_rules_ok Let_def)
  then show ?thesis
    by (simp add: mergeRanges_ok codes_of_map_filter ranges.norm_canonical map_filter_valid)
qed

theorem parse_rules_codes_witness:
  "let r = parseHttpStatusCodeRules (Some (JStr ''500-505, 504,401,403 , 402''))
   in ranges r = [\<lparr>rstart = 401, rend = 403\<rparr>, \<lparr>rstart = 500, rend = 505\<rparr>]
      \<and> codes_of (ranges r) = {401..403} \<union> {500..505} \<and> canonical_ranges (ranges r)"
proof -
  let ?i = "Some (JStr ''500-505, 504,401,403 , 402'')"
  have r: "ok (parseHttpStatusCodeRules ?i)" "ranges (parseHttpStatusCodeRules ?i)
      = [\<lparr>rstart = 401, rend = 403\<rparr>, \<lparr>rstart = 500, rend = 505\<rparr>]"
    by code_simp+
  then show ?thesis using parse_rules_codes [OF r(1)] by (simp add: Let_def)
qed

text \<open>
  C24. A rule text is rejected exactly when some segment does not parse; then no range is
  returned, the trimmed input is kept as it is, and the reported tokens are the segments that
  do not parse, in order.
\<close>

theorem parse_rules_errors:
  "if \<exists>s \<in> set (rule_segments i). parseToken s = None
   then parseHttpStatusCodeRules i =
     \<lparr>ok = False, ranges = [], tokens = [], normalized = js_trim (input_string i),
      invalidTokens = filter (\<lambda>s. parseToken s = None) (rule_segments i)\<rparr>
   else ok (parseHttpStatusCodeRules i) \<and> invalidTokens (parseHttpStatusCodeRules i) = []"
  using parse_rules_ok [of i] parse_rules_bad [of i] by (auto simp: Let_def)

text \<open>
  The normalized text of an accepted rule is a fixed point: parsing it gives the same
  record again (ranges, tokens and normalized text).
\<close>

theorem parse_rules_roundtrip:
  assumes "ok (parseHttpStatusCodeRules i)"
  shows "parseHttpStatusCodeRules (Some (JStr (normalized (parseHttpStatusCodeRules i))))
    = parseHttpStatusCodeRules i"
proof -
  let ?m = "mergeRanges (List.map_filter parseToken (rule_segments i))"
  let ?n = "js_join '','' (map range_token ?m)"
  have eq: "parseHttpStatusCodeRules i = (let merged = ?m
      in \<lparr>ok = True, ranges = merged, tokens = map range_token merged,
          normalized = js_join '','' (map range_token merged), invalidTokens = []\<rparr>)"
    using assms by (intro parse_rules_ok) (simp add: parse_rules_ok_iff)
  have v: "list_all valid_range ?m" by (simp add: mergeRanges_valid map_filter_valid)
  then have "\<forall>s \<in> set (rule_segments (Some (JStr ?n))). parseToken s \<noteq> None"
    by (auto simp: rule_segments_tokens parseToken_range_token list_all_iff
        simp del: input_string_JStr)
  from parse_rules_ok [OF this] show ?thesis
    using eq v
    by (simp add: rule_segments_tokens map_filter_range_tokens ranges.idem map_filter_valid Let_def
        del: input_string_JStr)
qed

theorem parse_rules_roundtrip_witness:
  "parseHttpStatusCodeRules (Some (JStr ''401-403,500-505''))
     = parseHttpStatusCodeRules (Some (JStr ''500-505, 504,401,403 , 402''))"
proof -
  let ?i = "Some (JStr ''500-505, 504,401,403 , 402'')"
  have r: "ok (parseHttpStatusCodeRules ?i)"
    "normalized (parseHttpStatusCodeRules ?i) = ''401-403,500-505''" by code_simp+
  show ?thesis using parse_rules_roundtrip [OF r(1)] unfolding r(2) .
qed

section \<open>The redirect guard\<close>

definition risky_entry :: "string \<times> json \<Rightarrow> string option" where
  "risky_entry e =
     (case (parseStatusCodeKey (fst e), parseStatusCodeMappingTarget (snd e)) of
        (Some f, Some t) \<Rightarrow> if f \<in> {504, 524} \<and> f \<noteq> t then Some (redirect_text f t) else None
      | _ \<Rightarrow> None)"

lemma risky_entry_Some:
  "risky_entry (k, v) = Some m \<longleftrightarrow>
     (\<exists>f t. m = redirect_text f t \<and> parseStatusCodeKey k = Some f
        \<and> parseStatusCodeMappingTarget v = Some t \<and> f \<in> {504, 524} \<and> f \<noteq> t)"
  unfolding risky_entry_def fst_conv snd_conv
  by (cases "parseStatusCodeKey k"; cases "parseStatusCodeMappingTarget v"; simp) blast

lemma risky_loop_eq: "risky_loop es acc = acc @ List.map_filter risky_entry es"
  by (induction es acc rule: risky_loop.induct)
    (simp_all add: List.map_filter_simps risky_entry_def NON_REDIRECTABLE_STATUS_CODES_def
      split: option.split)

lemma set_risky_loop:
  "set (risky_loop es []) =
     {redirect_text f t | f t k v. (k, v) \<in> set es \<and> parseStatusCodeKey k = Some f
        \<and> parseStatusCodeMappingTarget v = Some t \<and> f \<in> {504, 524} \<and> f \<noteq> t}"
proof -
  have "set (risky_loop es []) = {m. \<exists>k v. (k, v) \<in> set es \<and> risky_entry (k, v) = Some m}"
    by (force simp: risky_loop_eq List.map_filter_def)
  then show ?thesis unfolding risky_entry_Some by blast
qed

text \<open>
  C25. The reported redirects are exactly those entries of the mapping that redirect 504 or 524
  to a different valid code, each printed once and in ascending order.
\<close>

theorem disallowed_redirects:
  "set (collectDisallowedStatusCodeRedirects s) =
     {redirect_text f t | f t k v. (k, v) \<in> set (mapping_entries s) \<and> parseStatusCodeKey k = Some f
        \<and> parseStatusCodeMappingTarget v = Some t \<and> f \<in> {504, 524} \<and> f \<noteq> t}
   \<and> distinct (collectDisallowedStatusCodeRedirects s)
   \<and> sorted_wrt str_le (collectDisallowedStatusCodeRedirects s)"
  by (simp add: collectDisallowedStatusCodeRedirects_def set_risky_loop str_order.sorted_sort)

text \<open>
  The guard asks about an edit exactly when it adds a risky redirect: it reports, in order,
  the risky redirects of the new mapping that the original mapping does not have, and nothing
  when the new mapping has no others.
\<close>

theorem new_disallowed_redirects:
  "collectNewDisallowedStatusCodeRedirects orig cur =
     filter (\<lambda>m. m \<notin> set (collectDisallowedStatusCodeRedirects orig))
       (collectDisallowedStatusCodeRedirects cur)
   \<and> (collectNewDisallowedStatusCodeRedirects orig cur = [] \<longleftrightarrow>
      set (collectDisallowedStatusCodeRedirects cur)
        \<subseteq> set (collectDisallowedStatusCodeRedirects orig))"
  by (auto simp: collectNewDisallowedStatusCodeRedirects_def Let_def filter_empty_conv)

text \<open>
  A range token with a third part is accepted and the third part is dropped, where the parser of
  the server (\<open>parseHTTPStatusCodeToken\<close> in \<open>status_code_ranges.go\<close>) rejects it.
\<close>

lemma parseToken_drops_third_part:
  "parseToken ''200-300-400'' = Some \<lparr>rstart = 200, rend = 300\<rparr>"
  by code_simp

end
