(* ===== verification/Model_Mapping.thy ===== *)
theory Model_Mapping
  imports Json
begin

text \<open>
  The model lists and the model mapping of a channel:
  \<open>web/src/features/channels/lib/model-mapping-validation.ts\<close> and
  \<open>web/src/features/channels/lib/ability-preview.ts\<close>. A mapping is a JSON object from requested
  model names to upstream model names, edited as text. A \<open>Set\<close> is the list of its elements in
  insertion order without repetition, a \<open>Map\<close> an association list.
\<close>

section \<open>model-mapping-validation.ts\<close>

definition parseModelsString :: "string \<Rightarrow> string list" where
  "parseModelsString modelsStr =
     (if truthy modelsStr then filter truthy (map js_trim (js_split (CHR '','') modelsStr)) else [])"

definition formatModelsArray :: "string list \<Rightarrow> string" where
  "formatModelsArray models = js_join '','' (js_uniq models)"

definition normalizeModelName :: "string \<Rightarrow> string" where
  "normalizeModelName model = js_trim model"

definition extractMappingSourceModels :: "string \<Rightarrow> string list" where
  "extractMappingSourceModels modelMapping =
     (let trimmed = js_trim modelMapping
      in if trimmed = [] then []
         else (case parse_object trimmed of
             None \<Rightarrow> []
           | Some parsed \<Rightarrow> js_uniq (filter truthy (map (\<lambda>(k, v). js_trim k) parsed))))"

fun string_value :: "json \<Rightarrow> string option" where
  "string_value (JStr s) = Some (js_trim s)"
| "string_value _ = None"

text \<open>\<open>.filter((value): value is string => Boolean(value))\<close>\<close>

definition truthy_values :: "string option list \<Rightarrow> string list" where
  "truthy_values vs = filter truthy (List.map_filter (\<lambda>v. v) vs)"

definition extractRedirectModels :: "string \<Rightarrow> string list" where
  "extractRedirectModels modelMapping =
     (let trimmed = js_trim modelMapping
      in if trimmed = [] then []
         else (case parse_object trimmed of
             None \<Rightarrow> []
           | Some parsed \<Rightarrow> js_uniq (truthy_values (map (\<lambda>(k, v). string_value v) parsed))))"

text \<open>The index loop that compares two arrays of equal length.\<close>

fun arrays_differ :: "string list \<Rightarrow> string list \<Rightarrow> bool" where
  "arrays_differ (x # xs) (y # ys) = (if x \<noteq> y then True else arrays_differ xs ys)"
| "arrays_differ _ _ = False"

definition hasModelConfigChanged ::
  "string list \<Rightarrow> string \<Rightarrow> string list \<Rightarrow> string \<Rightarrow> bool" where
  "hasModelConfigChanged currentModels currentModelMapping initialModels initialModelMapping =
     (if length initialModels = 0 \<and> \<not> truthy initialModelMapping then True
      else if length currentModels \<noteq> length initialModels then True
      else if arrays_differ currentModels initialModels then True
      else js_trim currentModelMapping \<noteq> js_trim initialModelMapping)"

definition findMissingModelsInMapping :: "string \<Rightarrow> string list \<Rightarrow> string list" where
  "findMissingModelsInMapping modelMapping currentModels =
     (if \<not> truthy modelMapping \<or> js_trim modelMapping = [] then []
      else (case parse_object modelMapping of
          None \<Rightarrow> []
        | Some parsed \<Rightarrow>
            (let modelSet = js_uniq (map normalizeModelName currentModels)
             in js_uniq (filter (\<lambda>k. truthy k \<and> k \<notin> set modelSet)
                  (map (\<lambda>(k, v). normalizeModelName k) parsed)))))"

record mapping_check =
  valid :: bool
  error :: "string option"

definition validateModelMappingJson :: "string \<Rightarrow> mapping_check" where
  "validateModelMappingJson modelMapping =
     (if \<not> truthy modelMapping \<or> js_trim modelMapping = [] then \<lparr>valid = True, error = None\<rparr>
      else (case json_parse modelMapping of
          None \<Rightarrow> \<lparr>valid = False, error = Some ''Model mapping must be valid JSON format''\<rparr>
        | Some (JObj parsed) \<Rightarrow>
            if \<exists>(k, v) \<in> set parsed. (case v of JStr _ \<Rightarrow> False | _ \<Rightarrow> True)
            then \<lparr>valid = False, error = Some ''Model mapping values must be strings''\<rparr>
            else \<lparr>valid = True, error = None\<rparr>
        | Some _ \<Rightarrow> \<lparr>valid = False, error = Some ''Model mapping must be a valid JSON object''\<rparr>))"

definition findExposedTargetModels :: "string \<Rightarrow> string list \<Rightarrow> string list" where
  "findExposedTargetModels modelMapping currentModels =
     (let redirectModels = extractRedirectModels modelMapping
      in if redirectModels = [] then []
         else (let modelSet = js_uniq (map normalizeModelName currentModels)
               in filter (\<lambda>m. normalizeModelName m \<in> set modelSet) redirectModels))"

record model_categories =
  normalizedCurrentModels :: "string list"
  normalizedRedirectModels :: "string list"
  classificationSet :: "string list"
  redirectOnlySet :: "string list"

definition categorizeModelsWithRedirect :: "string list \<Rightarrow> string list \<Rightarrow> model_categories" where
  "categorizeModelsWithRedirect currentModels redirectModels =
     (let cur = js_uniq (filter truthy (map normalizeModelName currentModels));
          red = js_uniq (filter truthy (map normalizeModelName redirectModels))
      in \<lparr>normalizedCurrentModels = cur, normalizedRedirectModels = red,
          classificationSet = js_uniq (cur @ red),
          redirectOnlySet = js_uniq (filter (\<lambda>m. m \<notin> set cur) red)\<rparr>)"

section \<open>ability-preview.ts\<close>

record ability_preview_model =
  requestedModel :: string
  upstreamModel :: string
  mapped :: bool

record channel_ability_preview =
  models :: "ability_preview_model list"
  groups :: "string list"
  abilityCount :: nat

fun unique_loop :: "string list \<Rightarrow> string list \<Rightarrow> string list" where
  "unique_loop [] values = values"
| "unique_loop (item # items) values =
     (let n = js_trim item
      in if n = [] \<or> n \<in> set values then unique_loop items values
         else unique_loop items (values @ [n]))"

definition uniqueCommaSeparatedValues :: "string \<Rightarrow> string list" where
  "uniqueCommaSeparatedValues value = unique_loop (js_split (CHR '','') value) []"

fun mapping_loop :: "(string \<times> json) list \<Rightarrow> (string \<times> string) list \<Rightarrow> (string \<times> string) list" where
  "mapping_loop [] mapping = mapping"
| "mapping_loop ((k, v) # es) mapping =
     (case v of
        JStr u \<Rightarrow>
          (let rm = js_trim k; um = js_trim u
           in if rm = [] \<or> um = [] then mapping_loop es mapping
              else mapping_loop es (AList.update rm um mapping))
      | _ \<Rightarrow> mapping_loop es mapping)"

definition parseModelMapping :: "string option \<Rightarrow> (string \<times> string) list" where
  "parseModelMapping value =
     (case value of
        None \<Rightarrow> []
      | Some s \<Rightarrow>
          if js_trim s = [] then []
          else (case parse_object s of None \<Rightarrow> [] | Some parsed \<Rightarrow> mapping_loop parsed []))"

text \<open>The three fields of a \<open>Channel\<close> the preview reads.\<close>

record channel_fields =
  ch_models :: string
  ch_group :: string
  ch_model_mapping :: "string option"

definition preview_model :: "(string \<times> string) list \<Rightarrow> string \<Rightarrow> ability_preview_model" where
  "preview_model modelMapping rm =
     (let mappedModel = opt_str (map_of modelMapping rm)
      in \<lparr>requestedModel = rm, upstreamModel = str_or mappedModel rm,
          mapped = (truthy mappedModel \<and> mappedModel \<noteq> rm)\<rparr>)"

definition buildChannelAbilityPreview :: "channel_fields \<Rightarrow> channel_ability_preview" where
  "buildChannelAbilityPreview channel =
     (let requestedModels = uniqueCommaSeparatedValues (ch_models channel);
          gs = uniqueCommaSeparatedValues (ch_group channel);
          modelMapping = parseModelMapping (ch_model_mapping channel);
          ms = map (preview_model modelMapping) requestedModels
      in \<lparr>models = ms, groups = gs, abilityCount = length ms * length gs\<rparr>)"

section \<open>Model lists\<close>

lemma parseModelsString_eq: "parseModelsString s = comma_items s"
  by (simp add: parseModelsString_def comma_items_def)

lemma unique_loop_eq: "unique_loop items vs = uniq_loop vs (filter truthy (map js_trim items))"
  by (induction items vs rule: unique_loop.induct) (auto simp: Let_def)

lemma uniqueCommaSeparatedValues_eq: "uniqueCommaSeparatedValues s = js_uniq (comma_items s)"
  by (simp add: uniqueCommaSeparatedValues_def unique_loop_eq uniq_loop_uniq comma_items_def)

interpretation models: comma_list parseModelsString
  by unfold_locales (simp add: parseModelsString_eq)

interpretation unique_values: comma_list uniqueCommaSeparatedValues
  by unfold_locales (simp add: uniqueCommaSeparatedValues_eq)

text \<open>
  Writing a list of model names and reading it back gives the list without repetitions, in
  its order, whenever every name is one the reader can produce (not empty, trimmed, without a
  comma); and every text that was read once is stable from then on.
\<close>

theorem models_roundtrip:
  "(list_all item_ok ms \<longrightarrow> parseModelsString (formatModelsArray ms) = js_uniq ms)
   \<and> parseModelsString (formatModelsArray (parseModelsString s)) = js_uniq (parseModelsString s)
   \<and> list_all item_ok (parseModelsString s)"
proof -
  have wr: "list_all item_ok xs \<Longrightarrow> parseModelsString (formatModelsArray xs) = js_uniq xs" for xs
    by (simp add: formatModelsArray_def parseModelsString_eq comma_items_join list_all_iff)
  moreover have ok: "list_all item_ok (parseModelsString s)"
    by (auto simp: list_all_iff intro: models.read_ok)
  ultimately show ?thesis by blast
qed

theorem models_roundtrip_witness:
  "parseModelsString (formatModelsArray [''gpt-4'', ''o3'', ''gpt-4'']) = [''gpt-4'', ''o3'']
   \<and> parseModelsString ''gpt-4 ,, o3,gpt-4'' = [''gpt-4'', ''o3'', ''gpt-4'']"
proof -
  have ok: "list_all item_ok [''gpt-4'', ''o3'', ''gpt-4'']"
    by (simp add: item_ok_def trimmed_def starts_visible starts_rev_visible visible_def)
  have "parseModelsString (formatModelsArray [''gpt-4'', ''o3'', ''gpt-4'']) = [''gpt-4'', ''o3'']"
    using models_roundtrip [of "[''gpt-4'', ''o3'', ''gpt-4'']"] ok by simp
  moreover have "parseModelsString ''gpt-4 ,, o3,gpt-4'' = [''gpt-4'', ''o3'', ''gpt-4'']"
    by code_simp
  ultimately show ?thesis ..
qed

lemma arrays_differ_iff: "length xs = length ys \<Longrightarrow> arrays_differ xs ys \<longleftrightarrow> xs \<noteq> ys"
  by (induction xs ys rule: list_induct2) auto

text \<open>
  An edit of an existing channel counts as changed exactly when its model list or its
  trimmed mapping text differs from the saved one.
\<close>

theorem config_changed_iff:
  assumes "initialModels \<noteq> [] \<or> initialMapping \<noteq> []"
  shows "hasModelConfigChanged ms mapping initialModels initialMapping \<longleftrightarrow>
    ms \<noteq> initialModels \<or> js_trim mapping \<noteq> js_trim initialMapping"
  using assms by (auto simp: hasModelConfigChanged_def arrays_differ_iff)

theorem config_changed_iff_witness:
  "\<not> hasModelConfigChanged [''a'', ''b''] ''{} '' [''a'', ''b''] ''{}''
   \<and> hasModelConfigChanged [''b'', ''a''] ''{}'' [''a'', ''b''] ''{}''"
proof -
  have "js_trim ''{} '' = js_trim ''{}''" by code_simp
  then show ?thesis
    using config_changed_iff [of "[''a'', ''b'']" "''{}''" "[''a'', ''b'']" "''{} ''"]
      config_changed_iff [of "[''a'', ''b'']" "''{}''" "[''b'', ''a'']" "''{}''"]
    by simp
qed

section \<open>Mapping texts\<close>

text \<open>The entries a mapping text denotes: none for a blank text or one that is no object.\<close>

definition mapping_object :: "string \<Rightarrow> (string \<times> json) list" where
  "mapping_object s =
     (if js_trim s = [] then [] else (case parse_object s of None \<Rightarrow> [] | Some o1 \<Rightarrow> o1))"

lemma findMissing_eq:
  "findMissingModelsInMapping s ms =
     js_uniq (filter (\<lambda>k. k \<noteq> [] \<and> k \<notin> js_trim ` set ms) (map (js_trim \<circ> fst) (mapping_object s)))"
  by (auto simp: findMissingModelsInMapping_def mapping_object_def Let_def normalizeModelName_def
      comp_def case_prod_unfold image_image split: option.split)

text \<open>
  The missing models are the trimmed source names of the mapping that no listed model
  equals after trimming, once each; adding them to the list leaves none missing.
\<close>

theorem missing_models:
  "set (findMissingModelsInMapping s ms) =
     {js_trim k | k v. (k, v) \<in> set (mapping_object s)} - {[]} - js_trim ` set ms
   \<and> distinct (findMissingModelsInMapping s ms)
   \<and> findMissingModelsInMapping s (ms @ findMissingModelsInMapping s ms) = []"
proof (intro conjI)
  show "set (findMissingModelsInMapping s ms) =
      {js_trim k | k v. (k, v) \<in> set (mapping_object s)} - {[]} - js_trim ` set ms"
    by (force simp: findMissing_eq)
  have "js_trim k \<in> js_trim ` set (ms @ findMissingModelsInMapping s ms)"
    if "k \<in> fst ` set (mapping_object s)" "js_trim k \<noteq> []" for k
  proof (cases "js_trim k \<in> js_trim ` set ms")
    case False
    with that have "js_trim k \<in> set (findMissingModelsInMapping s ms)"
      by (force simp: findMissing_eq)
    then show ?thesis by (metis UnI2 image_eqI set_append trim_trim)
  qed auto
  then show "findMissingModelsInMapping s (ms @ findMissingModelsInMapping s ms) = []"
    by (subst findMissing_eq) (auto simp: filter_empty_conv)
qed (simp add: findMissing_eq)

lemma set_redirect:
  "set (extractRedirectModels s) \<subseteq> {m. trimmed m \<and> m \<noteq> []}"
proof -
  have "string_value v = Some m \<Longrightarrow> trimmed m" for v m
    by (cases v) auto
  then show ?thesis
    by (auto simp: extractRedirectModels_def truthy_values_def List.map_filter_def Let_def
        split: option.splits)
qed

lemma exposed_eq:
  "findExposedTargetModels s ms = filter (\<lambda>m. m \<in> js_trim ` set ms) (extractRedirectModels s)"
proof -
  have "\<forall>m \<in> set (extractRedirectModels s). js_trim m = m"
    using set_redirect trim_trimmed by blast
  then show ?thesis
    by (auto simp: findExposedTargetModels_def normalizeModelName_def Let_def intro!: filter_cong)
qed

text \<open>
  The exposed targets are exactly the redirect targets that the model list names after
  trimming; a list from which they are removed exposes none.
\<close>

theorem exposed_targets:
  "set (findExposedTargetModels s ms) = set (extractRedirectModels s) \<inter> js_trim ` set ms
   \<and> findExposedTargetModels s
       (filter (\<lambda>m. normalizeModelName m \<notin> set (findExposedTargetModels s ms)) ms) = []"
  by (auto simp: exposed_eq filter_empty_conv normalizeModelName_def)

text \<open>
  A mapping text is valid exactly when it is blank or a JSON object all of whose values are
  strings, and an error message is given exactly when it is not.
\<close>

theorem validate_mapping_iff:
  "(valid (validateModelMappingJson s) \<longleftrightarrow>
      js_trim s = [] \<or> (\<exists>o1. json_parse s = Some (JObj o1) \<and> list_all (\<lambda>e. \<exists>t. snd e = JStr t) o1))
   \<and> (error (validateModelMappingJson s) = None \<longleftrightarrow> valid (validateModelMappingJson s))"
proof -
  have str: "(case v of JStr _ \<Rightarrow> False | _ \<Rightarrow> True) \<longleftrightarrow> (\<forall>t. v \<noteq> JStr t)" for v
    by (cases v) auto
  show ?thesis
    by (auto simp: validateModelMappingJson_def str list_all_iff split: option.split json.split)
      force
qed

text \<open>
  The categories: every class holds trimmed non-empty names, the classification is the
  union of the two lists, and the redirect-only names are those the model list lacks.
\<close>

theorem categories:
  "let c = categorizeModelsWithRedirect cur red
   in set (classificationSet c) = js_trim ` (set cur \<union> set red) - {[]}
      \<and> set (normalizedCurrentModels c) = js_trim ` set cur - {[]}
      \<and> set (redirectOnlySet c) = set (classificationSet c) - set (normalizedCurrentModels c)
      \<and> distinct (classificationSet c) \<and> distinct (redirectOnlySet c)"
  by (auto simp: categorizeModelsWithRedirect_def normalizeModelName_def Let_def)

section \<open>Ability preview\<close>

lemma mapping_loop_get:
  "map_of (mapping_loop es m) k = Some u \<Longrightarrow> map_of m k = Some u \<or> (k \<noteq> [] \<and> u \<noteq> [] \<and> trimmed k \<and> trimmed u)"
proof (induction es arbitrary: m)
  case (Cons e es)
  obtain k' v where e: "e = (k', v)" by (cases e)
  show ?case
  proof (cases "\<exists>s. v = JStr s \<and> js_trim k' \<noteq> [] \<and> js_trim s \<noteq> []")
    case True
    then obtain s where v: "v = JStr s" "js_trim k' \<noteq> []" "js_trim s \<noteq> []" by blast
    with Cons.prems e have "map_of (mapping_loop es (AList.update (js_trim k') (js_trim s) m)) k = Some u"
      by simp
    from Cons.IH [OF this] v show ?thesis by (auto simp: AList.update_conv' split: if_splits)
  next
    case False
    then have "mapping_loop (e # es) m = mapping_loop es m"
      using e by (cases v) auto
    with Cons show ?thesis by simp
  qed
qed simp

lemma parseModelMapping_get:
  "map_of (parseModelMapping s) k = Some u \<Longrightarrow> k \<noteq> [] \<and> u \<noteq> [] \<and> trimmed k \<and> trimmed u"
  using mapping_loop_get [of _ "[]" k u]
  by (auto simp: parseModelMapping_def split: option.splits if_splits)

lemma requestedModel_preview [simp]: "requestedModel (preview_model m r) = r"
  by (simp add: preview_model_def Let_def)

lemma preview_entry:
  "upstreamModel (preview_model (parseModelMapping s) r)
     = (case map_of (parseModelMapping s) r of None \<Rightarrow> r | Some u \<Rightarrow> u)"
  "mapped (preview_model (parseModelMapping s) r) \<longleftrightarrow>
     upstreamModel (preview_model (parseModelMapping s) r) \<noteq> r"
  using parseModelMapping_get [of s r]
  by (auto simp: preview_model_def Let_def opt_str_def str_or_def split: option.splits)

text \<open>
  The preview lists every requested model once, in order; a model goes to its mapped name
  or to itself, it is flagged as mapped exactly when the two differ, and the ability count is
  the number of (model, group) pairs.
\<close>

theorem ability_preview:
  "let p = buildChannelAbilityPreview c; m = parseModelMapping (ch_model_mapping c)
   in map requestedModel (models p) = js_uniq (comma_items (ch_models c))
      \<and> groups p = js_uniq (comma_items (ch_group c))
      \<and> list_all (\<lambda>e.
           upstreamModel e = (case map_of m (requestedModel e) of None \<Rightarrow> requestedModel e | Some u \<Rightarrow> u)
           \<and> (mapped e \<longleftrightarrow> upstreamModel e \<noteq> requestedModel e)) (models p)
      \<and> abilityCount p = card (set (map requestedModel (models p)) \<times> set (groups p))"
proof -
  have req: "map (requestedModel \<circ> preview_model m) xs = xs" for m xs
    by (simp add: comp_def)
  have card: "length xs * length ys = card (set xs \<times> set ys)" if "distinct xs" "distinct ys"
    for xs :: "string list" and ys :: "string list"
    using that by (simp add: card_cartesian_product distinct_card)
  show ?thesis
    using preview_entry card [of "js_uniq (comma_items (ch_models c))" "js_uniq (comma_items (ch_group c))"]
    by (simp add: buildChannelAbilityPreview_def Let_def uniqueCommaSeparatedValues_eq req image_image
        list_all_iff
        split: option.split)
qed

end
