(* ===== verification/Advanced_Custom.thy ===== *)
theory Advanced_Custom
  imports Js_Prelude
begin

text \<open>
  The advanced custom channel: \<open>web/src/features/channels/lib/advanced-custom.ts\<close> and its types
  in \<open>web/src/features/channels/types.ts\<close>. A configuration is a list of routes; each route
  forwards an incoming API path to an upstream path through a protocol converter, for all
  client models or for the listed ones. Optional properties are \<open>option\<close> fields; converters and
  auth types are strings, since a configuration comes from user-edited text and the validator
  checks membership. The constructor \<open>new URL(value)\<close> of the platform is the parameter
  \<open>newURL\<close>: \<open>None\<close> when it throws, otherwise the host and the protocol.
\<close>

section \<open>Types and tables\<close>

record advanced_custom_route_auth =
  auth_type :: "string option"
  auth_name :: "string option"
  auth_value :: "string option"

record advanced_custom_route =
  incoming_path :: "string option"
  upstream_path :: "string option"
  converter :: "string option"
  route_models :: "string list option"
  route_auth :: "advanced_custom_route_auth option"

record advanced_custom_config =
  advanced_routes :: "advanced_custom_route list option"

record converter_option =
  opt_value :: string
  opt_label :: string
  triggerLabel :: string

record path_option =
  path_value :: string
  path_label :: string

record validation_error =
  message :: string
  routeIndex :: "nat option"

record template_option =
  tmpl_value :: string
  tmpl_label :: string
  tmpl_config :: advanced_custom_config

record converter_defaults =
  def_upstream_path :: string
  def_auth :: advanced_custom_route_auth

definition CHANNEL_TYPE_ADVANCED_CUSTOM :: nat where
  "CHANNEL_TYPE_ADVANCED_CUSTOM = 58"

definition ADVANCED_CUSTOM_MODEL_LIST_PATH :: string where
  "ADVANCED_CUSTOM_MODEL_LIST_PATH = ''/v1/models''"

definition ADVANCED_CUSTOM_MODEL_LIST_LABEL :: string where
  "ADVANCED_CUSTOM_MODEL_LIST_LABEL = ''OpenAI Models''"

definition ADVANCED_CUSTOM_CONVERTER_OPTIONS :: "converter_option list" where
  "ADVANCED_CUSTOM_CONVERTER_OPTIONS =
     [\<lparr>opt_value = ''none'',
       opt_label = ''Native forwarding'', triggerLabel = ''Native forwarding''\<rparr>,
      \<lparr>opt_value = ''anthropic_messages_to_openai_chat_completions'',
       opt_label = ''Anthropic Messages to OpenAI Chat'', triggerLabel = ''To OpenAI Chat''\<rparr>,
      \<lparr>opt_value = ''openai_chat_completions_to_anthropic_messages'',
       opt_label = ''OpenAI Chat to Anthropic Messages'', triggerLabel = ''To Anthropic Messages''\<rparr>,
      \<lparr>opt_value = ''openai_chat_completions_to_openai_responses'',
       opt_label = ''OpenAI Chat to OpenAI Responses'', triggerLabel = ''To OpenAI Responses''\<rparr>,
      \<lparr>opt_value = ''openai_responses_to_openai_chat_completions'',
       opt_label = ''OpenAI Responses to OpenAI Chat'', triggerLabel = ''To OpenAI Chat''\<rparr>,
      \<lparr>opt_value = ''openai_responses_to_gemini_generate_content'',
       opt_label = ''OpenAI Responses to Gemini Generate Content'', triggerLabel = ''To Gemini Generate Content''\<rparr>,
      \<lparr>opt_value = ''gemini_generate_content_to_openai_chat_completions'',
       opt_label = ''Gemini Generate Content to OpenAI Chat'', triggerLabel = ''To OpenAI Chat''\<rparr>,
      \<lparr>opt_value = ''openai_chat_completions_to_gemini_generate_content'',
       opt_label = ''OpenAI Chat to Gemini Generate Content'', triggerLabel = ''To Gemini Generate Content''\<rparr>]"

definition ADVANCED_CUSTOM_AUTH_MODE_OPTIONS :: "(string \<times> string) list" where
  "ADVANCED_CUSTOM_AUTH_MODE_OPTIONS =
     [(''default'', ''Default Bearer''), (''none'', ''No Auth''), (''header'', ''Header''),
      (''query'', ''Query'')]"

definition ADVANCED_CUSTOM_INCOMING_PATH_OPTIONS :: "path_option list" where
  "ADVANCED_CUSTOM_INCOMING_PATH_OPTIONS =
     [\<lparr>path_value = ''/v1/chat/completions'', path_label = ''OpenAI Chat''\<rparr>,
      \<lparr>path_value = ''/v1/responses'', path_label = ''OpenAI Responses''\<rparr>,
      \<lparr>path_value = ''/v1/responses/compact'', path_label = ''OpenAI Responses Compact''\<rparr>,
      \<lparr>path_value = ''/v1/alpha/search'', path_label = ''OpenAI Alpha Search''\<rparr>,
      \<lparr>path_value = ADVANCED_CUSTOM_MODEL_LIST_PATH, path_label = ADVANCED_CUSTOM_MODEL_LIST_LABEL\<rparr>,
      \<lparr>path_value = ''/v1/embeddings'', path_label = ''OpenAI Embeddings''\<rparr>,
      \<lparr>path_value = ''/v1/images/generations'', path_label = ''OpenAI Image Generations''\<rparr>,
      \<lparr>path_value = ''/v1/images/edits'', path_label = ''OpenAI Image Edits''\<rparr>,
      \<lparr>path_value = ''/v1/completions'', path_label = ''OpenAI Completions''\<rparr>,
      \<lparr>path_value = ''/v1/audio/speech'', path_label = ''OpenAI Audio Speech''\<rparr>,
      \<lparr>path_value = ''/v1/audio/transcriptions'', path_label = ''OpenAI Audio Transcriptions''\<rparr>,
      \<lparr>path_value = ''/v1/audio/translations'', path_label = ''OpenAI Audio Translations''\<rparr>,
      \<lparr>path_value = ''/v1/rerank'', path_label = ''OpenAI Rerank''\<rparr>,
      \<lparr>path_value = ''/v1/realtime'', path_label = ''OpenAI Realtime''\<rparr>,
      \<lparr>path_value = ''/v1/messages'', path_label = ''Claude Messages''\<rparr>,
      \<lparr>path_value = ''/v1beta/models/{model}:generateContent'', path_label = ''Gemini Generate Content''\<rparr>,
      \<lparr>path_value = ''/v1beta/models/{model}:embedContent'', path_label = ''Gemini Embed Content''\<rparr>,
      \<lparr>path_value = ''/v1beta/models/{model}:batchEmbedContents'', path_label = ''Gemini Batch Embed Contents''\<rparr>]"

definition ADVANCED_CUSTOM_ROUTE_SUMMARY_LABELS :: "(string \<times> string) list" where
  "ADVANCED_CUSTOM_ROUTE_SUMMARY_LABELS =
     [(''/v1/chat/completions'', ''OpenAI Chat''),
      (ADVANCED_CUSTOM_MODEL_LIST_PATH, ADVANCED_CUSTOM_MODEL_LIST_LABEL)]"

definition ADVANCED_CUSTOM_MODEL_REGEX_PREFIX :: string where
  "ADVANCED_CUSTOM_MODEL_REGEX_PREFIX = ''re:''"

definition openAIChatPath :: string where
  "openAIChatPath = ''/v1/chat/completions''"

definition openAIResponsesPath :: string where
  "openAIResponsesPath = ''/v1/responses''"

definition claudeMessagesPath :: string where
  "claudeMessagesPath = ''/v1/messages''"

definition geminiGenerateContentPath :: string where
  "geminiGenerateContentPath = ''/v1beta/models/{model}:generateContent''"

definition bearerHeaderAuth :: advanced_custom_route_auth where
  "bearerHeaderAuth =
     \<lparr>auth_type = Some ''header'', auth_name = Some ''Authorization'',
      auth_value = Some ''Bearer {api_key}''\<rparr>"

definition apiKeyHeaderAuth :: advanced_custom_route_auth where
  "apiKeyHeaderAuth =
     \<lparr>auth_type = Some ''header'', auth_name = Some ''x-api-key'', auth_value = Some ''{api_key}''\<rparr>"

definition geminiQueryAuth :: advanced_custom_route_auth where
  "geminiQueryAuth =
     \<lparr>auth_type = Some ''query'', auth_name = Some ''key'', auth_value = Some ''{api_key}''\<rparr>"

definition ADVANCED_CUSTOM_TEMPLATE_OPTIONS :: "template_option list" where
  "ADVANCED_CUSTOM_TEMPLATE_OPTIONS =
     [\<lparr>tmpl_value = ''official_openai_chat'', tmpl_label = ''Official OpenAI Chat'',
       tmpl_config = \<lparr>advanced_routes = Some
         [\<lparr>incoming_path = Some ''/v1/chat/completions'', upstream_path = Some ''/v1/chat/completions'',
           converter = Some ''none'', route_models = None, route_auth = Some bearerHeaderAuth\<rparr>]\<rparr>\<rparr>,
      \<lparr>tmpl_value = ''official_openai_responses'', tmpl_label = ''Official OpenAI Responses'',
       tmpl_config = \<lparr>advanced_routes = Some
         [\<lparr>incoming_path = Some ''/v1/responses'', upstream_path = Some ''/v1/responses'',
           converter = Some ''none'', route_models = None, route_auth = Some bearerHeaderAuth\<rparr>]\<rparr>\<rparr>,
      \<lparr>tmpl_value = ''official_openai_embeddings'', tmpl_label = ''Official OpenAI Embeddings'',
       tmpl_config = \<lparr>advanced_routes = Some
         [\<lparr>incoming_path = Some ''/v1/embeddings'', upstream_path = Some ''/v1/embeddings'',
           converter = Some ''none'', route_models = None, route_auth = Some bearerHeaderAuth\<rparr>]\<rparr>\<rparr>,
      \<lparr>tmpl_value = ''official_openai_images'', tmpl_label = ''Official OpenAI Images'',
       tmpl_config = \<lparr>advanced_routes = Some
         [\<lparr>incoming_path = Some ''/v1/images/generations'', upstream_path = Some ''/v1/images/generations'',
           converter = Some ''none'', route_models = None, route_auth = Some bearerHeaderAuth\<rparr>,
          \<lparr>incoming_path = Some ''/v1/images/edits'', upstream_path = Some ''/v1/images/edits'',
           converter = Some ''none'', route_models = None, route_auth = Some bearerHeaderAuth\<rparr>]\<rparr>\<rparr>,
      \<lparr>tmpl_value = ''official_claude_messages'', tmpl_label = ''Official Claude Messages'',
       tmpl_config = \<lparr>advanced_routes = Some
         [\<lparr>incoming_path = Some ''/v1/messages'', upstream_path = Some ''/v1/messages'',
           converter = Some ''none'', route_models = None, route_auth = Some apiKeyHeaderAuth\<rparr>]\<rparr>\<rparr>,
      \<lparr>tmpl_value = ''official_gemini_native'', tmpl_label = ''Official Gemini Native'',
       tmpl_config = \<lparr>advanced_routes = Some
         [\<lparr>incoming_path = Some ''/v1beta/models/{model}:generateContent'', upstream_path = Some ''/v1beta/models/{model}:generateContent'',
           converter = Some ''none'', route_models = None, route_auth = Some geminiQueryAuth\<rparr>,
          \<lparr>incoming_path = Some ''/v1beta/models/{model}:embedContent'', upstream_path = Some ''/v1beta/models/{model}:embedContent'',
           converter = Some ''none'', route_models = None, route_auth = Some geminiQueryAuth\<rparr>,
          \<lparr>incoming_path = Some ''/v1beta/models/{model}:batchEmbedContents'', upstream_path = Some ''/v1beta/models/{model}:batchEmbedContents'',
           converter = Some ''none'', route_models = None, route_auth = Some geminiQueryAuth\<rparr>]\<rparr>\<rparr>,
      \<lparr>tmpl_value = ''official_gemini_from_openai_chat'', tmpl_label = ''Official Gemini from OpenAI Chat'',
       tmpl_config = \<lparr>advanced_routes = Some
         [\<lparr>incoming_path = Some ''/v1/chat/completions'', upstream_path = Some ''/v1beta/models/{model}:generateContent'',
           converter = Some ''openai_chat_completions_to_gemini_generate_content'', route_models = None, route_auth = Some geminiQueryAuth\<rparr>]\<rparr>\<rparr>]"

section \<open>Operations\<close>

definition cloneAdvancedCustomConfig :: "advanced_custom_config \<Rightarrow> advanced_custom_config" where
  "cloneAdvancedCustomConfig config = config"

definition getAdvancedCustomTemplateConfig :: "string \<Rightarrow> advanced_custom_config" where
  "getAdvancedCustomTemplateConfig templateKey =
     cloneAdvancedCustomConfig (tmpl_config
       (case find (\<lambda>option. tmpl_value option = templateKey) ADVANCED_CUSTOM_TEMPLATE_OPTIONS of
          Some template \<Rightarrow> template
        | None \<Rightarrow> hd ADVANCED_CUSTOM_TEMPLATE_OPTIONS))"

definition createAdvancedCustomRoute :: advanced_custom_route where
  "createAdvancedCustomRoute =
     \<lparr>incoming_path = Some openAIChatPath, upstream_path = Some openAIChatPath,
      converter = Some ''none'', route_models = None, route_auth = None\<rparr>"

definition createAdvancedCustomConfig :: advanced_custom_config where
  "createAdvancedCustomConfig = \<lparr>advanced_routes = Some [createAdvancedCustomRoute]\<rparr>"

definition isConverterPathAllowed :: "string \<Rightarrow> string \<Rightarrow> bool" where
  "isConverterPathAllowed incomingPath conv =
     (if conv = ''none'' then True
      else if incomingPath = ''/v1/alpha/search'' then False
      else if conv = ''anthropic_messages_to_openai_chat_completions''
      then incomingPath = ''/v1/messages''
      else if conv = ''openai_chat_completions_to_anthropic_messages''
        \<or> conv = ''openai_chat_completions_to_openai_responses''
        \<or> conv = ''openai_chat_completions_to_gemini_generate_content''
      then incomingPath = ''/v1/chat/completions''
      else if conv = ''openai_responses_to_openai_chat_completions''
      then incomingPath = ''/v1/responses''
      else if conv = ''openai_responses_to_gemini_generate_content''
      then incomingPath = ''/v1/responses''
      else sublist '':generateContent'' incomingPath \<or> sublist '':streamGenerateContent'' incomingPath)"

definition getAdvancedCustomIncomingPathOptions :: "string \<Rightarrow> path_option list" where
  "getAdvancedCustomIncomingPathOptions conv =
     filter (\<lambda>option. isConverterPathAllowed (path_value option) conv)
       ADVANCED_CUSTOM_INCOMING_PATH_OPTIONS"

definition getDefaultAdvancedCustomIncomingPath :: "string \<Rightarrow> string" where
  "getDefaultAdvancedCustomIncomingPath conv =
     (case getAdvancedCustomIncomingPathOptions conv of
        option # _ \<Rightarrow> str_or (path_value option) ''/v1/chat/completions''
      | [] \<Rightarrow> ''/v1/chat/completions'')"

definition isAdvancedCustomIncomingPathAllowed :: "string \<Rightarrow> string \<Rightarrow> bool" where
  "isAdvancedCustomIncomingPathAllowed incomingPath conv = isConverterPathAllowed incomingPath conv"

definition getAdvancedCustomConverterOptions :: "string \<Rightarrow> converter_option list" where
  "getAdvancedCustomConverterOptions incomingPath =
     (let n = js_trim incomingPath
      in filter (\<lambda>option. opt_value option = ''none'' \<or> isConverterPathAllowed n (opt_value option))
           ADVANCED_CUSTOM_CONVERTER_OPTIONS)"

definition getAdvancedCustomIncomingPathLabel :: "string \<Rightarrow> string" where
  "getAdvancedCustomIncomingPathLabel value =
     (case find (\<lambda>option. path_value option = value) ADVANCED_CUSTOM_INCOMING_PATH_OPTIONS of
        Some option \<Rightarrow> str_or (path_label option) value
      | None \<Rightarrow> value)"

definition getAdvancedCustomNativeAuth :: "string \<Rightarrow> advanced_custom_route_auth" where
  "getAdvancedCustomNativeAuth incomingPath =
     (if incomingPath = claudeMessagesPath then apiKeyHeaderAuth
      else if sublist '':generateContent'' incomingPath
        \<or> sublist '':streamGenerateContent'' incomingPath
        \<or> sublist '':embedContent'' incomingPath
        \<or> sublist '':batchEmbedContents'' incomingPath
      then geminiQueryAuth
      else bearerHeaderAuth)"

definition getAdvancedCustomConverterDefaults :: "string \<Rightarrow> string \<Rightarrow> converter_defaults" where
  "getAdvancedCustomConverterDefaults conv incomingPath =
     (let n = str_or (js_trim incomingPath) (getDefaultAdvancedCustomIncomingPath conv)
      in if conv = ''none''
         then \<lparr>def_upstream_path = n, def_auth = getAdvancedCustomNativeAuth n\<rparr>
         else if conv = ''anthropic_messages_to_openai_chat_completions''
           \<or> conv = ''gemini_generate_content_to_openai_chat_completions''
           \<or> conv = ''openai_responses_to_openai_chat_completions''
         then \<lparr>def_upstream_path = openAIChatPath, def_auth = bearerHeaderAuth\<rparr>
         else if conv = ''openai_chat_completions_to_openai_responses''
         then \<lparr>def_upstream_path = openAIResponsesPath, def_auth = bearerHeaderAuth\<rparr>
         else if conv = ''openai_chat_completions_to_anthropic_messages''
         then \<lparr>def_upstream_path = claudeMessagesPath, def_auth = apiKeyHeaderAuth\<rparr>
         else if conv = ''openai_chat_completions_to_gemini_generate_content''
           \<or> conv = ''openai_responses_to_gemini_generate_content''
         then \<lparr>def_upstream_path = geminiGenerateContentPath, def_auth = geminiQueryAuth\<rparr>
         else \<lparr>def_upstream_path = str_or n openAIChatPath, def_auth = getAdvancedCustomNativeAuth n\<rparr>)"

definition getAdvancedCustomUpstreamPathPlaceholder :: "string \<Rightarrow> string option \<Rightarrow> string" where
  "getAdvancedCustomUpstreamPathPlaceholder conv incomingPath =
     def_upstream_path (getAdvancedCustomConverterDefaults conv
       (case incomingPath of Some p \<Rightarrow> p | None \<Rightarrow> getDefaultAdvancedCustomIncomingPath conv))"

definition getAdvancedCustomRouteUpstreamPath :: "advanced_custom_route \<Rightarrow> string" where
  "getAdvancedCustomRouteUpstreamPath route = js_trim (opt_str (upstream_path route))"

definition normalizeAdvancedCustomRouteModels :: "string list option \<Rightarrow> string list" where
  "normalizeAdvancedCustomRouteModels ms =
     (case ms of None \<Rightarrow> [] | Some xs \<Rightarrow> filter truthy (map js_trim xs))"

definition normalizeAdvancedCustomRoute :: "advanced_custom_route \<Rightarrow> advanced_custom_route" where
  "normalizeAdvancedCustomRoute route =
     (let ms = normalizeAdvancedCustomRouteModels (route_models route)
      in \<lparr>incoming_path = Some (opt_str (incoming_path route)),
          upstream_path = Some (getAdvancedCustomRouteUpstreamPath route),
          converter = Some (str_or (opt_str (converter route)) ''none''),
          route_models = (if length ms > 0 then Some ms else None),
          route_auth = (case route_auth route of
              None \<Rightarrow> None
            | Some a \<Rightarrow> Some \<lparr>auth_type = auth_type a, auth_name = Some (opt_str (auth_name a)),
                auth_value = Some (opt_str (auth_value a))\<rparr>)\<rparr>)"

definition normalizeAdvancedCustomConfig :: "advanced_custom_config \<Rightarrow> advanced_custom_config" where
  "normalizeAdvancedCustomConfig config =
     \<lparr>advanced_routes = Some (case advanced_routes config of
        Some rs \<Rightarrow> map normalizeAdvancedCustomRoute rs | None \<Rightarrow> [])\<rparr>"

definition parseAdvancedCustomRouteModels :: "string \<Rightarrow> string list" where
  "parseAdvancedCustomRouteModels value =
     js_uniq (filter truthy (map js_trim (js_split (CHR '','') value)))"

datatype model_rule_kind = Exact | Regex

definition getAdvancedCustomModelRuleKind :: "string \<Rightarrow> model_rule_kind" where
  "getAdvancedCustomModelRuleKind modelRule =
     (if prefix ADVANCED_CUSTOM_MODEL_REGEX_PREFIX modelRule then Regex else Exact)"

definition getAdvancedCustomRegexModelPattern :: "string \<Rightarrow> string" where
  "getAdvancedCustomRegexModelPattern modelRule =
     drop (length ADVANCED_CUSTOM_MODEL_REGEX_PREFIX) modelRule"

text \<open>The entry of \<open>routeModelsByPath\<close> for one incoming path.\<close>

record path_state =
  catchAllIndex :: "nat option"
  seen_models :: "(string \<times> nat) list"

definition route_error :: "nat \<Rightarrow> string \<Rightarrow> validation_error" where
  "route_error i msg = \<lparr>message = msg, routeIndex = Some i\<rparr>"

fun route_models_loop ::
  "nat \<Rightarrow> string list \<Rightarrow> string list \<Rightarrow> path_state \<Rightarrow> validation_error + path_state" where
  "route_models_loop i [] seenInRoute state = Inr state"
| "route_models_loop i (m # ms) seenInRoute state =
     (if getAdvancedCustomModelRuleKind m = Regex \<and> getAdvancedCustomRegexModelPattern m = []
      then Inl (route_error i ''Model regex cannot be empty'')
      else if m \<in> set seenInRoute then Inl (route_error i ''Duplicate model in route models'')
      else if map_of (seen_models state) m \<noteq> None
      then Inl (route_error i ''Route models must be unique for the same incoming path'')
      else route_models_loop i ms (seenInRoute @ [m])
             (state\<lparr>seen_models := AList.update m i (seen_models state)\<rparr>))"

definition validateAdvancedCustomRouteModels ::
  "nat \<Rightarrow> string \<Rightarrow> string list \<Rightarrow> (string \<times> path_state) list
    \<Rightarrow> validation_error + (string \<times> path_state) list" where
  "validateAdvancedCustomRouteModels i incomingPath ms routeModelsByPath =
     (let state = (case map_of routeModelsByPath incomingPath of
            Some st \<Rightarrow> st | None \<Rightarrow> \<lparr>catchAllIndex = None, seen_models = []\<rparr>)
      in if length ms = 0 then
           if catchAllIndex state \<noteq> None
           then Inl (route_error i ''Only one catch-all route is allowed for the same incoming path'')
           else Inr (AList.update incomingPath (state\<lparr>catchAllIndex := Some i\<rparr>) routeModelsByPath)
         else if catchAllIndex state \<noteq> None
         then Inl (route_error i ''Catch-all route must be last for the same incoming path'')
         else (case route_models_loop i ms [] state of
             Inl e \<Rightarrow> Inl e
           | Inr state' \<Rightarrow> Inr (AList.update incomingPath state' routeModelsByPath)))"

definition isFullHttpURLOrAbsolutePath :: "(string \<Rightarrow> (string \<times> string) option) \<Rightarrow> string \<Rightarrow> bool" where
  "isFullHttpURLOrAbsolutePath newURL value =
     (if prefix ''/'' value then \<not> prefix ''//'' value
      else (case newURL value of
          None \<Rightarrow> False
        | Some (host, protocol) \<Rightarrow>
            truthy host \<and> (protocol = ''http:'' \<or> protocol = ''https:'')))"

definition isAdvancedCustomConverter :: "string \<Rightarrow> bool" where
  "isAdvancedCustomConverter value =
     list_ex (\<lambda>option. opt_value option = value) ADVANCED_CUSTOM_CONVERTER_OPTIONS"

definition validateRouteAuth :: "advanced_custom_route_auth option \<Rightarrow> string option" where
  "validateRouteAuth auth =
     (case auth of
        None \<Rightarrow> None
      | Some a \<Rightarrow>
          if auth_type a = Some ''none'' then None
          else if auth_type a \<noteq> Some ''header'' \<and> auth_type a \<noteq> Some ''query''
          then Some ''Auth type is invalid''
          else if js_trim (opt_str (auth_name a)) = [] then Some ''Auth name is required''
          else if js_trim (opt_str (auth_value a)) = [] then Some ''Auth value is required''
          else None)"

text \<open>
  The checks of one iteration before and after the model rules, in the order of the source. The
  result of the first is the error or the new \<open>modelListRouteIndex\<close>.
\<close>

definition check_route_head ::
  "nat \<Rightarrow> advanced_custom_route \<Rightarrow> nat option \<Rightarrow> validation_error + nat option" where
  "check_route_head i route modelListRouteIndex =
     (let incomingPath = js_trim (opt_str (incoming_path route));
          upstreamPath = getAdvancedCustomRouteUpstreamPath route;
          conv = str_or (opt_str (converter route)) ''none'';
          routeModels = normalizeAdvancedCustomRouteModels (route_models route)
      in if incomingPath = [] then Inl (route_error i ''Incoming path is required'')
         else if \<not> prefix ''/'' incomingPath then Inl (route_error i ''Incoming path must start with /'')
         else if sublist ''?'' incomingPath
         then Inl (route_error i ''Incoming path must not include query'')
         else if incomingPath = ADVANCED_CUSTOM_MODEL_LIST_PATH then
           if modelListRouteIndex \<noteq> None
           then Inl (route_error i ''Only one OpenAI Models route is allowed'')
           else if length routeModels > 0
           then Inl (route_error i ''OpenAI Models route does not support client model rules'')
           else if conv \<noteq> ''none''
           then Inl (route_error i ''OpenAI Models route must use native forwarding'')
           else if sublist ''{model}'' upstreamPath
           then Inl (route_error i ''OpenAI Models upstream path must not contain {model}'')
           else Inr (Some i)
         else Inr modelListRouteIndex)"

definition check_route_tail ::
  "(string \<Rightarrow> (string \<times> string) option) \<Rightarrow> nat \<Rightarrow> advanced_custom_route \<Rightarrow> validation_error option" where
  "check_route_tail newURL i route =
     (let incomingPath = js_trim (opt_str (incoming_path route));
          upstreamPath = getAdvancedCustomRouteUpstreamPath route;
          conv = str_or (opt_str (converter route)) ''none''
      in if upstreamPath = [] then Some (route_error i ''Upstream path is required'')
         else if \<not> isFullHttpURLOrAbsolutePath newURL upstreamPath
         then Some (route_error i ''Upstream path must be a full URL or a path starting with /'')
         else if \<not> isAdvancedCustomConverter conv
         then Some (route_error i ''Converter is not registered'')
         else if \<not> isConverterPathAllowed incomingPath conv
         then Some (route_error i ''Converter does not match incoming path'')
         else (case validateRouteAuth (route_auth route) of
             Some authError \<Rightarrow> Some (route_error i authError)
           | None \<Rightarrow> None))"

fun validate_routes ::
  "(string \<Rightarrow> (string \<times> string) option) \<Rightarrow> nat \<Rightarrow> advanced_custom_route list \<Rightarrow>
    (string \<times> path_state) list \<Rightarrow> nat option \<Rightarrow> validation_error option" where
  "validate_routes newURL i [] routeModelsByPath modelListRouteIndex = None"
| "validate_routes newURL i (route # routes) routeModelsByPath modelListRouteIndex =
     (case check_route_head i route modelListRouteIndex of
        Inl e \<Rightarrow> Some e
      | Inr modelListRouteIndex' \<Rightarrow>
          (case validateAdvancedCustomRouteModels i (js_trim (opt_str (incoming_path route)))
                  (normalizeAdvancedCustomRouteModels (route_models route)) routeModelsByPath of
             Inl e \<Rightarrow> Some e
           | Inr routeModelsByPath' \<Rightarrow>
               (case check_route_tail newURL i route of
                  Some e \<Rightarrow> Some e
                | None \<Rightarrow>
                    validate_routes newURL (Suc i) routes routeModelsByPath' modelListRouteIndex')))"

definition routes_of :: "advanced_custom_config \<Rightarrow> advanced_custom_route list" where
  "routes_of config = (case advanced_routes config of Some rs \<Rightarrow> rs | None \<Rightarrow> [])"

definition validateAdvancedCustomConfig ::
  "(string \<Rightarrow> (string \<times> string) option) \<Rightarrow> advanced_custom_config option \<Rightarrow> validation_error option" where
  "validateAdvancedCustomConfig newURL config =
     (case config of
        None \<Rightarrow> Some \<lparr>message = ''Advanced custom configuration is required'', routeIndex = None\<rparr>
      | Some c \<Rightarrow>
          (let routes = routes_of (normalizeAdvancedCustomConfig c)
           in if length routes = 0
              then Some \<lparr>message = ''Advanced custom configuration requires at least one route'',
                     routeIndex = None\<rparr>
              else validate_routes newURL 0 routes [] None))"

definition hasValidAdvancedCustomModelListRoute ::
  "(string \<Rightarrow> (string \<times> string) option) \<Rightarrow> advanced_custom_config option \<Rightarrow> bool" where
  "hasValidAdvancedCustomModelListRoute newURL config =
     (case config of
        None \<Rightarrow> False
      | Some c \<Rightarrow>
          if validateAdvancedCustomConfig newURL (Some c) \<noteq> None then False
          else list_ex (\<lambda>r. js_trim (opt_str (incoming_path r)) = ADVANCED_CUSTOM_MODEL_LIST_PATH)
                 (routes_of (normalizeAdvancedCustomConfig c)))"

definition advancedCustomConfigUsesRelativeUpstreamPath :: "advanced_custom_config option \<Rightarrow> bool" where
  "advancedCustomConfigUsesRelativeUpstreamPath config =
     (case config of
        None \<Rightarrow> False
      | Some c \<Rightarrow> list_ex (\<lambda>r. prefix ''/'' (getAdvancedCustomRouteUpstreamPath r))
                    (routes_of (normalizeAdvancedCustomConfig c)))"

definition getAdvancedCustomRouteSummaryLabel :: "advanced_custom_route \<Rightarrow> string option" where
  "getAdvancedCustomRouteSummaryLabel route =
     (let incomingPath = js_trim (opt_str (incoming_path route))
      in if incomingPath = [] then None
         else Some (str_or (opt_str (map_of ADVANCED_CUSTOM_ROUTE_SUMMARY_LABELS incomingPath))
                (getAdvancedCustomIncomingPathLabel incomingPath)))"

definition getAdvancedCustomAuthMode :: "advanced_custom_route \<Rightarrow> string" where
  "getAdvancedCustomAuthMode route =
     str_or (opt_str (Option.bind (route_auth route) auth_type)) ''default''"

definition buildAdvancedCustomAuth ::
  "string \<Rightarrow> advanced_custom_route_auth option \<Rightarrow> advanced_custom_route_auth option" where
  "buildAdvancedCustomAuth mode previousAuth =
     (let name = opt_str (Option.bind previousAuth auth_name);
          val = opt_str (Option.bind previousAuth auth_value)
      in if mode = ''default'' then None
         else if mode = ''none''
         then Some \<lparr>auth_type = Some ''none'', auth_name = None, auth_value = None\<rparr>
         else if mode = ''header''
         then Some \<lparr>auth_type = Some ''header'', auth_name = Some (str_or name ''Authorization''),
                auth_value = Some (str_or val ''Bearer {api_key}'')\<rparr>
         else Some \<lparr>auth_type = Some ''query'', auth_name = Some (str_or name ''api_key''),
                auth_value = Some (str_or val ''{api_key}'')\<rparr>)"

section \<open>What a valid configuration is\<close>

text \<open>
  The declarative specification: each route is well formed on its own, and two routes of the same
  incoming path are compatible, that is, the earlier one is not the catch-all and they share
  no model rule.
\<close>

definition rpath :: "advanced_custom_route \<Rightarrow> string" where
  "rpath r = js_trim (opt_str (incoming_path r))"

definition rmodels :: "advanced_custom_route \<Rightarrow> string list" where
  "rmodels r = normalizeAdvancedCustomRouteModels (route_models r)"

definition rconv :: "advanced_custom_route \<Rightarrow> string" where
  "rconv r = str_or (opt_str (converter r)) ''none''"

definition route_ok :: "(string \<Rightarrow> (string \<times> string) option) \<Rightarrow> advanced_custom_route \<Rightarrow> bool" where
  "route_ok newURL r \<longleftrightarrow>
     prefix ''/'' (rpath r) \<and> CHR ''?'' \<notin> set (rpath r)
     \<and> (rpath r = ''/v1/models'' \<longrightarrow>
          rmodels r = [] \<and> rconv r = ''none''
          \<and> \<not> sublist ''{model}'' (getAdvancedCustomRouteUpstreamPath r))
     \<and> distinct (rmodels r) \<and> ''re:'' \<notin> set (rmodels r)
     \<and> isFullHttpURLOrAbsolutePath newURL (getAdvancedCustomRouteUpstreamPath r)
     \<and> getAdvancedCustomRouteUpstreamPath r \<noteq> []
     \<and> isAdvancedCustomConverter (rconv r) \<and> isConverterPathAllowed (rpath r) (rconv r)
     \<and> validateRouteAuth (route_auth r) = None"

definition compatible :: "advanced_custom_route \<Rightarrow> advanced_custom_route \<Rightarrow> bool" where
  "compatible a b \<longleftrightarrow>
     (rpath a = rpath b \<longrightarrow> rmodels a \<noteq> [] \<and> set (rmodels a) \<inter> set (rmodels b) = {})"

definition routes_ok ::
  "(string \<Rightarrow> (string \<times> string) option) \<Rightarrow> advanced_custom_route list \<Rightarrow> bool" where
  "routes_ok newURL rs \<longleftrightarrow> list_all (route_ok newURL) rs \<and> sorted_wrt compatible rs"

lemma routes_ok_snoc:
  "routes_ok newURL (ps @ [r]) \<longleftrightarrow>
     routes_ok newURL ps \<and> route_ok newURL r \<and> (\<forall>a \<in> set ps. compatible a r)"
  by (auto simp: routes_ok_def sorted_wrt_append)

lemma routes_ok_prefix: "routes_ok newURL (ps @ rs) \<Longrightarrow> routes_ok newURL ps"
  by (auto simp: routes_ok_def sorted_wrt_append)

section \<open>The validator implements the specification\<close>

subsection \<open>Model rules of one route\<close>

lemma empty_regex_iff:
  "getAdvancedCustomModelRuleKind m = Regex \<and> getAdvancedCustomRegexModelPattern m = []
   \<longleftrightarrow> m = ''re:''"
proof -
  have "prefix ''re:'' m \<and> length m \<le> Suc (Suc (Suc 0)) \<longleftrightarrow> m = ''re:''"
    by (auto simp: prefix_def)
  then show ?thesis
    by (auto simp: getAdvancedCustomModelRuleKind_def getAdvancedCustomRegexModelPattern_def
        ADVANCED_CUSTOM_MODEL_REGEX_PREFIX_def)
qed

lemma route_models_loop_ok:
  "(\<exists>st'. route_models_loop i ms seen st = Inr st') \<longleftrightarrow>
     distinct ms \<and> ''re:'' \<notin> set ms \<and> set ms \<inter> set seen = {}
     \<and> set ms \<inter> dom (map_of (seen_models st)) = {}"
  by (induction ms arbitrary: seen st)
    (auto simp: empty_regex_iff AList.update_conv' simp del: not_None_eq)

lemma route_models_loop_state:
  "route_models_loop i ms seen st = Inr st' \<Longrightarrow>
     catchAllIndex st' = catchAllIndex st
     \<and> dom (map_of (seen_models st')) = dom (map_of (seen_models st)) \<union> set ms"
  by (induction ms arbitrary: seen st)
    (auto simp: AList.update_conv' empty_regex_iff split: if_splits)

lemma route_models_loop_error:
  "route_models_loop i ms seen st = Inl e \<Longrightarrow> routeIndex e = Some i"
  by (induction ms arbitrary: seen st) (auto simp: route_error_def split: if_splits)

definition path_lookup :: "(string \<times> path_state) list \<Rightarrow> string \<Rightarrow> path_state" where
  "path_lookup st p =
     (case map_of st p of Some s \<Rightarrow> s | None \<Rightarrow> \<lparr>catchAllIndex = None, seen_models = []\<rparr>)"

lemma path_lookup_update:
  "path_lookup (AList.update p s st) q = (if q = p then s else path_lookup st q)"
  by (simp add: path_lookup_def AList.update_conv')

lemma validate_models_unfold:
  "validateAdvancedCustomRouteModels i p ms st =
     (let s = path_lookup st p
      in if ms = [] then
           if catchAllIndex s \<noteq> None
           then Inl (route_error i ''Only one catch-all route is allowed for the same incoming path'')
           else Inr (AList.update p (s\<lparr>catchAllIndex := Some i\<rparr>) st)
         else if catchAllIndex s \<noteq> None
         then Inl (route_error i ''Catch-all route must be last for the same incoming path'')
         else (case route_models_loop i ms [] s of
             Inl e \<Rightarrow> Inl e | Inr s' \<Rightarrow> Inr (AList.update p s' st)))"
  by (simp add: validateAdvancedCustomRouteModels_def path_lookup_def)

subsection \<open>One iteration\<close>

text \<open>What the loop knows after the routes \<open>ps\<close>.\<close>

definition loop_inv ::
  "(string \<Rightarrow> (string \<times> string) option) \<Rightarrow> advanced_custom_route list \<Rightarrow>
    (string \<times> path_state) list \<Rightarrow> nat option \<Rightarrow> bool" where
  "loop_inv newURL ps st ml \<longleftrightarrow>
     routes_ok newURL ps
     \<and> (\<forall>p. (catchAllIndex (path_lookup st p) \<noteq> None \<longleftrightarrow> (\<exists>r \<in> set ps. rpath r = p \<and> rmodels r = []))
          \<and> dom (map_of (seen_models (path_lookup st p)))
              = (\<Union>r \<in> {r \<in> set ps. rpath r = p}. set (rmodels r)))
     \<and> (ml \<noteq> None \<longleftrightarrow> (\<exists>r \<in> set ps. rpath r = ''/v1/models''))"

lemma loop_invD:
  assumes "loop_inv newURL ps st ml"
  shows "routes_ok newURL ps"
    and "catchAllIndex (path_lookup st p) \<noteq> None \<longleftrightarrow> (\<exists>r \<in> set ps. rpath r = p \<and> rmodels r = [])"
    and "dom (map_of (seen_models (path_lookup st p)))
      = (\<Union>r \<in> {r \<in> set ps. rpath r = p}. set (rmodels r))"
    and "ml \<noteq> None \<longleftrightarrow> (\<exists>r \<in> set ps. rpath r = ''/v1/models'')"
  using assms unfolding loop_inv_def by blast+

definition route_step ::
  "(string \<Rightarrow> (string \<times> string) option) \<Rightarrow> nat \<Rightarrow> advanced_custom_route \<Rightarrow>
    (string \<times> path_state) list \<Rightarrow> nat option \<Rightarrow>
    validation_error + (string \<times> path_state) list \<times> nat option" where
  "route_step newURL i r st ml =
     (case check_route_head i r ml of
        Inl e \<Rightarrow> Inl e
      | Inr ml' \<Rightarrow>
          (case validateAdvancedCustomRouteModels i (rpath r) (rmodels r) st of
             Inl e \<Rightarrow> Inl e
           | Inr st' \<Rightarrow>
               (case check_route_tail newURL i r of Some e \<Rightarrow> Inl e | None \<Rightarrow> Inr (st', ml'))))"

lemma validate_routes_Cons:
  "validate_routes newURL i (r # rs) st ml =
     (case route_step newURL i r st ml of
        Inl e \<Rightarrow> Some e | Inr (st', ml') \<Rightarrow> validate_routes newURL (Suc i) rs st' ml')"
  by (simp add: route_step_def rpath_def rmodels_def split: sum.split option.split)

lemma check_head_error: "check_route_head i r ml = Inl e \<Longrightarrow> routeIndex e = Some i"
  unfolding check_route_head_def Let_def by (auto simp: route_error_def split: if_splits)

lemma check_tail_error: "check_route_tail newURL i r = Some e \<Longrightarrow> routeIndex e = Some i"
  unfolding check_route_tail_def Let_def by (auto simp: route_error_def split: if_splits option.splits)

lemma validate_models_error:
  "validateAdvancedCustomRouteModels i p ms st = Inl e \<Longrightarrow> routeIndex e = Some i"
  unfolding validate_models_unfold Let_def
  by (auto simp: route_error_def split: if_splits sum.splits dest: route_models_loop_error)

lemma route_step_error: "route_step newURL i r st ml = Inl e \<Longrightarrow> routeIndex e = Some i"
  by (auto simp: route_step_def split: sum.splits option.splits
      dest: check_head_error check_tail_error validate_models_error)

lemma check_head_ok:
  "check_route_head i r ml = Inr ml' \<longleftrightarrow>
     prefix ''/'' (rpath r) \<and> CHR ''?'' \<notin> set (rpath r)
     \<and> (rpath r = ''/v1/models'' \<longrightarrow> ml = None \<and> rmodels r = [] \<and> rconv r = ''none''
          \<and> \<not> sublist ''{model}'' (getAdvancedCustomRouteUpstreamPath r))
     \<and> ml' = (if rpath r = ''/v1/models'' then Some i else ml)"
proof -
  have q: "sublist ''?'' s \<longleftrightarrow> CHR ''?'' \<in> set s" for s
    by (metis append_Cons append_Nil in_set_conv_decomp sublist_def)
  show ?thesis
    by (auto simp: check_route_head_def Let_def q ADVANCED_CUSTOM_MODEL_LIST_PATH_def
        simp flip: rpath_def rmodels_def rconv_def split: if_splits)
qed

lemma check_tail_ok:
  "check_route_tail newURL i r = None \<longleftrightarrow>
     getAdvancedCustomRouteUpstreamPath r \<noteq> []
     \<and> isFullHttpURLOrAbsolutePath newURL (getAdvancedCustomRouteUpstreamPath r)
     \<and> isAdvancedCustomConverter (rconv r) \<and> isConverterPathAllowed (rpath r) (rconv r)
     \<and> validateRouteAuth (route_auth r) = None"
  by (auto simp: check_route_tail_def Let_def simp flip: rpath_def rconv_def split: option.splits)

lemma validate_models_ok:
  assumes inv: "loop_inv newURL ps st ml"
  shows "(\<exists>st'. validateAdvancedCustomRouteModels i (rpath r) (rmodels r) st = Inr st') \<longleftrightarrow>
    distinct (rmodels r) \<and> ''re:'' \<notin> set (rmodels r) \<and> (\<forall>a \<in> set ps. compatible a r)"
proof -
  let ?s = "path_lookup st (rpath r)"
  have ca: "catchAllIndex ?s \<noteq> None \<longleftrightarrow> (\<exists>a \<in> set ps. rpath a = rpath r \<and> rmodels a = [])"
    and dm: "dom (map_of (seen_models ?s)) = (\<Union>a \<in> {a \<in> set ps. rpath a = rpath r}. set (rmodels a))"
    by (fact loop_invD [OF inv])+
  have compat: "(\<forall>a \<in> set ps. compatible a r) \<longleftrightarrow>
      catchAllIndex ?s = None \<and> set (rmodels r) \<inter> dom (map_of (seen_models ?s)) = {}"
    using ca unfolding dm compatible_def by blast
  show ?thesis
  proof (cases "rmodels r = []")
    case True
    then show ?thesis unfolding compat by (auto simp: validate_models_unfold Let_def)
  next
    case False
    have "(\<exists>st'. validateAdvancedCustomRouteModels i (rpath r) (rmodels r) st = Inr st') \<longleftrightarrow>
        catchAllIndex ?s = None \<and> (\<exists>s'. route_models_loop i (rmodels r) [] ?s = Inr s')"
      using False by (auto simp: validate_models_unfold Let_def split: sum.splits)
    then show ?thesis
      unfolding compat route_models_loop_ok by auto
  qed
qed

lemma validate_models_state:
  assumes "validateAdvancedCustomRouteModels i (rpath r) (rmodels r) st = Inr st'"
  shows "catchAllIndex (path_lookup st' p) \<noteq> None \<longleftrightarrow>
      catchAllIndex (path_lookup st p) \<noteq> None \<or> (p = rpath r \<and> rmodels r = [])"
    and "dom (map_of (seen_models (path_lookup st' p))) =
      dom (map_of (seen_models (path_lookup st p))) \<union> (if p = rpath r then set (rmodels r) else {})"
proof -
  let ?s = "path_lookup st (rpath r)"
  have *: "(catchAllIndex (path_lookup st' p) \<noteq> None \<longleftrightarrow>
        catchAllIndex (path_lookup st p) \<noteq> None \<or> (p = rpath r \<and> rmodels r = []))
      \<and> dom (map_of (seen_models (path_lookup st' p))) =
        dom (map_of (seen_models (path_lookup st p))) \<union> (if p = rpath r then set (rmodels r) else {})"
  proof (cases "rmodels r = []")
    case True
    with assms have "st' = AList.update (rpath r) (?s\<lparr>catchAllIndex := Some i\<rparr>) st"
      by (simp add: validate_models_unfold Let_def split: if_splits)
    with True show ?thesis by (simp add: path_lookup_update)
  next
    case False
    with assms obtain s' where "route_models_loop i (rmodels r) [] ?s = Inr s'"
      and "st' = AList.update (rpath r) s' st"
      by (auto simp: validate_models_unfold Let_def split: if_splits sum.splits)
    with False route_models_loop_state show ?thesis by (simp add: path_lookup_update)
  qed
  from * show "catchAllIndex (path_lookup st' p) \<noteq> None \<longleftrightarrow>
      catchAllIndex (path_lookup st p) \<noteq> None \<or> (p = rpath r \<and> rmodels r = [])" ..
  from * show "dom (map_of (seen_models (path_lookup st' p))) =
      dom (map_of (seen_models (path_lookup st p))) \<union> (if p = rpath r then set (rmodels r) else {})" ..
qed

lemma route_step_ok:
  assumes inv: "loop_inv newURL ps st ml"
  shows "(\<exists>x. route_step newURL i r st ml = Inr x) \<longleftrightarrow> routes_ok newURL (ps @ [r])"
proof -
  have ok: "routes_ok newURL ps" and ml: "ml \<noteq> None \<longleftrightarrow> (\<exists>a \<in> set ps. rpath a = ''/v1/models'')"
    by (fact loop_invD [OF inv])+
  have list_path: "rmodels a = []" if "a \<in> set ps" "rpath a = ''/v1/models''" for a
    using that ok by (auto simp: routes_ok_def list_all_iff route_ok_def)
  have "(\<exists>x. route_step newURL i r st ml = Inr x) \<longleftrightarrow>
      (\<exists>ml'. check_route_head i r ml = Inr ml')
      \<and> (\<exists>st'. validateAdvancedCustomRouteModels i (rpath r) (rmodels r) st = Inr st')
      \<and> check_route_tail newURL i r = None"
    by (auto simp: route_step_def split: sum.splits option.splits)
  also have "\<dots> \<longleftrightarrow> (rpath r = ''/v1/models'' \<longrightarrow> ml = None)
      \<and> route_ok newURL r \<and> (\<forall>a \<in> set ps. compatible a r)"
    unfolding check_head_ok validate_models_ok [OF inv] check_tail_ok route_ok_def by auto
  also have "\<dots> \<longleftrightarrow> route_ok newURL r \<and> (\<forall>a \<in> set ps. compatible a r)"
    using ml list_path by (auto simp: compatible_def)
  finally show ?thesis using ok by (simp add: routes_ok_snoc)
qed

lemma route_step_inv:
  assumes inv: "loop_inv newURL ps st ml"
    and step: "route_step newURL i r st ml = Inr (st', ml')"
  shows "loop_inv newURL (ps @ [r]) st' ml'"
proof -
  from step have h: "check_route_head i r ml = Inr ml'"
    and m: "validateAdvancedCustomRouteModels i (rpath r) (rmodels r) st = Inr st'"
    by (auto simp: route_step_def split: sum.splits option.splits)
  have "routes_ok newURL (ps @ [r])" using route_step_ok [OF inv] step by blast
  moreover have "ml' \<noteq> None \<longleftrightarrow> (\<exists>a \<in> set (ps @ [r]). rpath a = ''/v1/models'')"
    using h loop_invD(4) [OF inv] unfolding check_head_ok by auto
  moreover have "catchAllIndex (path_lookup st' p) \<noteq> None \<longleftrightarrow>
      (\<exists>a \<in> set (ps @ [r]). rpath a = p \<and> rmodels a = [])" for p
    unfolding validate_models_state(1) [OF m] loop_invD(2) [OF inv] by auto
  moreover have "dom (map_of (seen_models (path_lookup st' p)))
      = (\<Union>a \<in> {a \<in> set (ps @ [r]). rpath a = p}. set (rmodels a))" for p
    unfolding validate_models_state(2) [OF m] loop_invD(3) [OF inv] by auto
  ultimately show ?thesis by (simp add: loop_inv_def)
qed

subsection \<open>The loop\<close>

lemma validate_routes_None:
  "loop_inv newURL ps st ml \<Longrightarrow>
   validate_routes newURL i rs st ml = None \<longleftrightarrow> routes_ok newURL (ps @ rs)"
proof (induction rs arbitrary: i ps st ml)
  case Nil
  then show ?case by (simp add: loop_inv_def)
next
  case (Cons r rs)
  show ?case
  proof (cases "route_step newURL i r st ml")
    case (Inl e)
    then have "\<not> routes_ok newURL (ps @ [r])" using route_step_ok [OF Cons.prems, of i r] by simp
    then have "\<not> routes_ok newURL (ps @ r # rs)"
      using routes_ok_prefix [of newURL "ps @ [r]" rs] by auto
    with Inl show ?thesis by (simp only: validate_routes_Cons) simp
  next
    case (Inr x)
    obtain st' ml' where x: "x = (st', ml')" by (cases x)
    with Inr Cons.prems have "loop_inv newURL (ps @ [r]) st' ml'" by (simp add: route_step_inv)
    from Cons.IH [OF this, of "Suc i"] show ?thesis
      using Inr x by (simp only: validate_routes_Cons) simp
  qed
qed

lemma validate_routes_Some:
  "loop_inv newURL ps st ml \<Longrightarrow> validate_routes newURL i rs st ml = Some e \<Longrightarrow>
   \<exists>k < length rs. routeIndex e = Some (i + k)
     \<and> routes_ok newURL (ps @ take k rs) \<and> \<not> routes_ok newURL (ps @ take (Suc k) rs)"
proof (induction rs arbitrary: i ps st ml)
  case (Cons r rs)
  show ?case
  proof (cases "route_step newURL i r st ml")
    case (Inl e')
    then have "e' = e" using Cons.prems(2) by (simp only: validate_routes_Cons) simp
    moreover have "\<not> routes_ok newURL (ps @ [r])"
      using route_step_ok [OF Cons.prems(1), of i r] Inl by simp
    moreover have "routes_ok newURL ps" using Cons.prems(1) by (simp add: loop_inv_def)
    ultimately show ?thesis using route_step_error [OF Inl] by (intro exI [of _ 0]) simp
  next
    case (Inr x)
    obtain st' ml' where x: "x = (st', ml')" by (cases x)
    with Inr Cons.prems have inv: "loop_inv newURL (ps @ [r]) st' ml'" by (simp add: route_step_inv)
    have "validate_routes newURL (Suc i) rs st' ml' = Some e"
      using Cons.prems(2) Inr x by (simp only: validate_routes_Cons) simp
    from Cons.IH [OF inv this] obtain k where "k < length rs" "routeIndex e = Some (Suc i + k)"
      "routes_ok newURL (ps @ r # take k rs)" "\<not> routes_ok newURL (ps @ r # take (Suc k) rs)" by auto
    then show ?thesis by (intro exI [of _ "Suc k"]) simp
  qed
qed simp

lemma loop_inv_start: "loop_inv newURL [] [] None"
  by (simp add: loop_inv_def routes_ok_def path_lookup_def)

section \<open>Normal form of a configuration\<close>

lemma filter_trim_idem:
  "filter truthy (map js_trim (filter truthy (map js_trim xs))) = filter truthy (map js_trim xs)"
  by (induction xs) auto

lemma normalize_models_idem:
  "normalizeAdvancedCustomRouteModels
     (if normalizeAdvancedCustomRouteModels ms \<noteq> []
      then Some (normalizeAdvancedCustomRouteModels ms) else None)
   = normalizeAdvancedCustomRouteModels ms"
  by (auto simp: normalizeAdvancedCustomRouteModels_def filter_trim_idem split: option.splits)

lemma normalize_route_views [simp]:
  "rpath (normalizeAdvancedCustomRoute r) = rpath r"
  "rmodels (normalizeAdvancedCustomRoute r) = rmodels r"
  "rconv (normalizeAdvancedCustomRoute r) = rconv r"
  "getAdvancedCustomRouteUpstreamPath (normalizeAdvancedCustomRoute r)
     = getAdvancedCustomRouteUpstreamPath r"
  "validateRouteAuth (route_auth (normalizeAdvancedCustomRoute r)) = validateRouteAuth (route_auth r)"
proof -
  show "rmodels (normalizeAdvancedCustomRoute r) = rmodels r"
    using normalize_models_idem by (simp add: rmodels_def normalizeAdvancedCustomRoute_def Let_def)
qed (auto simp: normalizeAdvancedCustomRoute_def Let_def rpath_def rconv_def opt_str_def str_or_def
    getAdvancedCustomRouteUpstreamPath_def validateRouteAuth_def split: option.splits)

lemma routes_of_normalize:
  "routes_of (normalizeAdvancedCustomConfig c) = map normalizeAdvancedCustomRoute (routes_of c)"
  by (simp add: routes_of_def normalizeAdvancedCustomConfig_def split: option.split)

lemma route_ok_normalize [simp]:
  "route_ok newURL (normalizeAdvancedCustomRoute r) = route_ok newURL r"
  by (simp add: route_ok_def)

lemma compatible_normalize [simp]:
  "compatible (normalizeAdvancedCustomRoute a) (normalizeAdvancedCustomRoute b) = compatible a b"
  by (simp add: compatible_def)

lemma routes_ok_normalize [simp]:
  "routes_ok newURL (map normalizeAdvancedCustomRoute rs) = routes_ok newURL rs"
  by (simp add: routes_ok_def sorted_wrt_map list.pred_map comp_def)

definition canonical_config :: "advanced_custom_config \<Rightarrow> bool" where
  "canonical_config c \<longleftrightarrow> normalizeAdvancedCustomConfig c = c"

lemma normalize_route_idem:
  "normalizeAdvancedCustomRoute (normalizeAdvancedCustomRoute r) = normalizeAdvancedCustomRoute r"
proof -
  let ?n = "normalizeAdvancedCustomRoute r"
  have "rmodels ?n = rmodels r" "rconv ?n = rconv r"
    "getAdvancedCustomRouteUpstreamPath ?n = getAdvancedCustomRouteUpstreamPath r" by simp_all
  then show ?thesis
    by (subst normalizeAdvancedCustomRoute_def)
      (auto simp: normalizeAdvancedCustomRoute_def [of r] Let_def rmodels_def rconv_def opt_str_def
        split: option.splits)
qed

interpretation config: normaliser normalizeAdvancedCustomConfig "\<lambda>_. True" canonical_config
  by unfold_locales
    (auto simp: canonical_config_def normalizeAdvancedCustomConfig_def normalize_route_idem
      split: option.splits)

interpretation route_models: comma_list parseAdvancedCustomRouteModels
  by unfold_locales (simp add: parseAdvancedCustomRouteModels_def comma_items_def)

section \<open>Properties\<close>

text \<open>
  C22. The validator accepts a configuration exactly when the specification holds: it has a
  route, every route is well formed, and no two routes of one incoming path clash (a
  catch-all comes last, no model rule is repeated). It holds for any URL parser.
\<close>

theorem validate_config_iff:
  "validateAdvancedCustomConfig newURL (Some c) = None \<longleftrightarrow>
     routes_of c \<noteq> [] \<and> routes_ok newURL (routes_of c)"
  by (simp add: validateAdvancedCustomConfig_def routes_of_normalize
      validate_routes_None [OF loop_inv_start])

text \<open>
  A rejected configuration with routes is rejected at the first offending route: the routes
  before the reported index are valid, and with the reported route they are not.
\<close>

theorem validate_config_first_error:
  assumes "validateAdvancedCustomConfig newURL (Some c) = Some e" and "routes_of c \<noteq> []"
  shows "\<exists>k < length (routes_of c). routeIndex e = Some k
    \<and> routes_ok newURL (take k (routes_of c)) \<and> \<not> routes_ok newURL (take (Suc k) (routes_of c))"
proof -
  let ?rs = "map normalizeAdvancedCustomRoute (routes_of c)"
  from assms have "validate_routes newURL 0 ?rs [] None = Some e"
    by (simp add: validateAdvancedCustomConfig_def routes_of_normalize)
  from validate_routes_Some [OF loop_inv_start this] show ?thesis
    by (auto simp: take_map)
qed

theorem validate_config_first_error_witness:
  "\<exists>e. validateAdvancedCustomConfig (\<lambda>_. None) (Some \<lparr>advanced_routes =
         Some [createAdvancedCustomRoute, createAdvancedCustomRoute]\<rparr>) = Some e
     \<and> routeIndex e = Some 1"
proof -
  let ?c = "\<lparr>advanced_routes = Some [createAdvancedCustomRoute, createAdvancedCustomRoute]\<rparr>"
  have e: "validateAdvancedCustomConfig (\<lambda>_. None) (Some ?c) = Some \<lparr>message =
      ''Only one catch-all route is allowed for the same incoming path'', routeIndex = Some 1\<rparr>"
    by code_simp
  have ne: "routes_of ?c \<noteq> []" by (simp add: routes_of_def)
  from validate_config_first_error [OF e ne] e show ?thesis by auto
qed

text \<open>
  Normalization is idempotent, and validation and the relative-path test do not depend on
  whether a configuration was normalized before.
\<close>

theorem normalize_config:
  "normalizeAdvancedCustomConfig (normalizeAdvancedCustomConfig c) = normalizeAdvancedCustomConfig c
   \<and> (validateAdvancedCustomConfig newURL (Some (normalizeAdvancedCustomConfig c))
      = validateAdvancedCustomConfig newURL (Some c))
   \<and> (advancedCustomConfigUsesRelativeUpstreamPath (Some c) \<longleftrightarrow>
      list_ex (\<lambda>r. prefix ''/'' (getAdvancedCustomRouteUpstreamPath r)) (routes_of c))"
  using config.idem
  by (auto simp: validateAdvancedCustomConfig_def advancedCustomConfigUsesRelativeUpstreamPath_def
      routes_of_normalize list_ex_iff)

text \<open>
  The configuration a new channel starts with and every template the editor offers are
  valid, whatever the URL parser does.
\<close>

theorem templates_valid:
  "list_all (\<lambda>t. validateAdvancedCustomConfig newURL (Some (tmpl_config t)) = None)
     ADVANCED_CUSTOM_TEMPLATE_OPTIONS
   \<and> validateAdvancedCustomConfig newURL (Some createAdvancedCustomConfig) = None
   \<and> validateAdvancedCustomConfig newURL (Some (getAdvancedCustomTemplateConfig key)) = None"
proof -
  have all: "list_all (\<lambda>t. validateAdvancedCustomConfig newURL (Some (tmpl_config t)) = None)
      ADVANCED_CUSTOM_TEMPLATE_OPTIONS"
    by code_simp
  have new: "validateAdvancedCustomConfig newURL (Some createAdvancedCustomConfig) = None"
    by code_simp
  have "getAdvancedCustomTemplateConfig key \<in> tmpl_config ` set ADVANCED_CUSTOM_TEMPLATE_OPTIONS"
  proof (cases "find (\<lambda>option. tmpl_value option = key) ADVANCED_CUSTOM_TEMPLATE_OPTIONS")
    case None
    then show ?thesis
      by (simp add: getAdvancedCustomTemplateConfig_def cloneAdvancedCustomConfig_def
          ADVANCED_CUSTOM_TEMPLATE_OPTIONS_def)
  next
    case (Some t)
    then have "t \<in> set ADVANCED_CUSTOM_TEMPLATE_OPTIONS"
      by (auto simp: find_Some_iff)
    with Some show ?thesis
      by (simp add: getAdvancedCustomTemplateConfig_def cloneAdvancedCustomConfig_def)
  qed
  with all new show ?thesis by (auto simp: list_all_iff)
qed

text \<open>The route the editor builds when a converter is chosen: its defaults, for all models.\<close>

definition default_route :: "string \<Rightarrow> string \<Rightarrow> advanced_custom_route" where
  "default_route conv p =
     (let d = getAdvancedCustomConverterDefaults conv p
      in \<lparr>incoming_path = Some p, upstream_path = Some (def_upstream_path d), converter = Some conv,
          route_models = None, route_auth = Some (def_auth d)\<rparr>)"

lemma converter_cases:
  "isAdvancedCustomConverter conv \<Longrightarrow> conv \<in> set (map opt_value ADVANCED_CUSTOM_CONVERTER_OPTIONS)"
  by (auto simp: isAdvancedCustomConverter_def list_ex_iff)

lemma native_auth_valid: "validateRouteAuth (Some (getAdvancedCustomNativeAuth p)) = None"
  and bearer_auth_valid: "validateRouteAuth (Some bearerHeaderAuth) = None"
  and api_key_auth_valid: "validateRouteAuth (Some apiKeyHeaderAuth) = None"
  and gemini_auth_valid: "validateRouteAuth (Some geminiQueryAuth) = None"
proof -
  show b: "validateRouteAuth (Some bearerHeaderAuth) = None" by code_simp
  show a: "validateRouteAuth (Some apiKeyHeaderAuth) = None" by code_simp
  show g: "validateRouteAuth (Some geminiQueryAuth) = None" by code_simp
  show "validateRouteAuth (Some (getAdvancedCustomNativeAuth p)) = None"
    using b a g by (simp add: getAdvancedCustomNativeAuth_def)
qed

lemmas default_auth_valid = native_auth_valid bearer_auth_valid api_key_auth_valid gemini_auth_valid

lemma default_auth_ok:
  "validateRouteAuth (Some (def_auth (getAdvancedCustomConverterDefaults conv p))) = None"
  by (simp add: getAdvancedCustomConverterDefaults_def Let_def default_auth_valid)

lemma default_upstream_cases:
  assumes "isAdvancedCustomConverter conv" and "js_trim p \<noteq> []"
  shows "def_upstream_path (getAdvancedCustomConverterDefaults conv p)
     \<in> {js_trim p, openAIChatPath, openAIResponsesPath, claudeMessagesPath, geminiGenerateContentPath}"
    and "conv = ''none'' \<Longrightarrow> def_upstream_path (getAdvancedCustomConverterDefaults conv p) = js_trim p"
  using assms by (simp_all add: getAdvancedCustomConverterDefaults_def Let_def str_or_def)

lemma fixed_paths_ok:
  "up \<in> {openAIChatPath, openAIResponsesPath, claudeMessagesPath, geminiGenerateContentPath} \<Longrightarrow>
   js_trim up = up \<and> isFullHttpURLOrAbsolutePath newURL up \<and> up \<noteq> []"
proof -
  have "list_all (\<lambda>up. js_trim up = up \<and> isFullHttpURLOrAbsolutePath newURL up \<and> up \<noteq> [])
      [openAIChatPath, openAIResponsesPath, claudeMessagesPath, geminiGenerateContentPath]"
    by code_simp
  then show "up \<in> {openAIChatPath, openAIResponsesPath, claudeMessagesPath, geminiGenerateContentPath} \<Longrightarrow>
      ?thesis"
    by auto
qed

lemma models_path_native:
  "isAdvancedCustomConverter conv \<Longrightarrow> isConverterPathAllowed ''/v1/models'' conv \<Longrightarrow> conv = ''none''"
proof -
  have "list_all (\<lambda>c. isConverterPathAllowed ''/v1/models'' c \<longrightarrow> c = ''none'')
      (map opt_value ADVANCED_CUSTOM_CONVERTER_OPTIONS)"
    by code_simp
  then show "isAdvancedCustomConverter conv \<Longrightarrow> isConverterPathAllowed ''/v1/models'' conv \<Longrightarrow> ?thesis"
    using converter_cases [of conv] unfolding list_all_iff by blast
qed

text \<open>
  The defaults of a registered converter are safe to apply: for an absolute incoming path
  without a query that the converter allows, the route with the default upstream path and
  the default authentication is well formed.
\<close>

theorem converter_defaults_valid:
  assumes conv: "isAdvancedCustomConverter conv"
    and path: "isAdvancedCustomIncomingPathAllowed (js_trim p) conv"
    and abs: "prefix ''/'' (js_trim p)" "\<not> prefix ''//'' (js_trim p)" "CHR ''?'' \<notin> set (js_trim p)"
  shows "route_ok newURL (default_route conv p)"
proof -
  let ?r = "default_route conv p"
  let ?up = "def_upstream_path (getAdvancedCustomConverterDefaults conv p)"
  have ne: "js_trim p \<noteq> []" using abs(1) by auto
  have "conv \<noteq> []" using conv by (auto simp: isAdvancedCustomConverter_def ADVANCED_CUSTOM_CONVERTER_OPTIONS_def)
  then have v: "rpath ?r = js_trim p" "rmodels ?r = []" "rconv ?r = conv"
    "getAdvancedCustomRouteUpstreamPath ?r = js_trim ?up"
    by (simp_all add: default_route_def Let_def rpath_def rmodels_def rconv_def opt_str_def str_or_def
        normalizeAdvancedCustomRouteModels_def getAdvancedCustomRouteUpstreamPath_def)
  have "isFullHttpURLOrAbsolutePath newURL (js_trim p)"
    using abs by (simp add: isFullHttpURLOrAbsolutePath_def)
  then have up: "js_trim ?up = ?up \<and> isFullHttpURLOrAbsolutePath newURL ?up \<and> ?up \<noteq> []"
    using default_upstream_cases(1) [OF conv ne] fixed_paths_ok [of ?up newURL] ne
    by (elim insertE) auto
  have ml: "conv = ''none'' \<and> \<not> sublist ''{model}'' ?up" if "js_trim p = ''/v1/models''"
  proof -
    have "conv = ''none''"
      using models_path_native [OF conv] path that
      by (simp add: isAdvancedCustomIncomingPathAllowed_def)
    moreover have "\<not> sublist ''{model}'' ''/v1/models''" by code_simp
    ultimately show ?thesis using default_upstream_cases(2) [OF conv ne] that by simp
  qed
  have "validateRouteAuth (route_auth ?r) = None"
    by (simp add: default_route_def Let_def default_auth_ok)
  moreover have "isConverterPathAllowed (js_trim p) conv"
    using path by (simp add: isAdvancedCustomIncomingPathAllowed_def)
  ultimately have rest: "isConverterPathAllowed (js_trim p) conv \<and> validateRouteAuth (route_auth ?r) = None"
    by simp
  have ml': "js_trim p = ''/v1/models'' \<longrightarrow>
      ([]::string list) = [] \<and> conv = ''none'' \<and> \<not> sublist ''{model}'' (js_trim ?up)"
    using ml up by metis
  show ?thesis
    unfolding route_ok_def v
  proof (intro conjI)
    show "js_trim p = ''/v1/models'' \<longrightarrow>
        ([]::string list) = [] \<and> conv = ''none'' \<and> \<not> sublist ''{model}'' (js_trim ?up)"
      by (fact ml')
  qed (use up abs conv rest in simp_all)
qed

theorem converter_defaults_valid_witness:
  "route_ok (\<lambda>_. None) (default_route ''openai_chat_completions_to_anthropic_messages''
     ''/v1/chat/completions '')"
proof -
  have "isAdvancedCustomConverter ''openai_chat_completions_to_anthropic_messages''"
    "js_trim ''/v1/chat/completions '' = ''/v1/chat/completions''"
    "isAdvancedCustomIncomingPathAllowed ''/v1/chat/completions''
      ''openai_chat_completions_to_anthropic_messages''"
    "prefix ''/'' ''/v1/chat/completions''" "\<not> prefix ''//'' ''/v1/chat/completions''"
    "CHR ''?'' \<notin> set ''/v1/chat/completions''"
    by code_simp+
  then show ?thesis
    using converter_defaults_valid
      [of "''openai_chat_completions_to_anthropic_messages''" "''/v1/chat/completions ''"] by simp
qed

text \<open>
  Every registered converter is usable from the editor: its default incoming path is one of
  the offered paths and is allowed for it, and the converter is among the options that the
  editor offers for that path.
\<close>

theorem converter_default_path:
  "list_all (\<lambda>option.
       isAdvancedCustomIncomingPathAllowed (getDefaultAdvancedCustomIncomingPath (opt_value option))
         (opt_value option)
       \<and> getDefaultAdvancedCustomIncomingPath (opt_value option)
         \<in> set (map path_value ADVANCED_CUSTOM_INCOMING_PATH_OPTIONS)
       \<and> option \<in> set (getAdvancedCustomConverterOptions
           (getDefaultAdvancedCustomIncomingPath (opt_value option))))
     ADVANCED_CUSTOM_CONVERTER_OPTIONS"
  by code_simp

text \<open>
  Switching the authentication mode of a route gives a configuration of that mode which
  passes validation, provided the name and value carried over are not blank text.
\<close>

theorem build_auth_valid:
  assumes mode: "mode \<in> set (map fst ADVANCED_CUSTOM_AUTH_MODE_OPTIONS)"
    and name: "opt_str (Option.bind prev auth_name) = [] \<or> js_trim (opt_str (Option.bind prev auth_name)) \<noteq> []"
    and val: "opt_str (Option.bind prev auth_value) = [] \<or> js_trim (opt_str (Option.bind prev auth_value)) \<noteq> []"
  shows "validateRouteAuth (buildAdvancedCustomAuth mode prev) = None
    \<and> getAdvancedCustomAuthMode (r\<lparr>route_auth := buildAdvancedCustomAuth mode prev\<rparr>) = mode"
proof -
  have t: "js_trim ''Authorization'' \<noteq> []" "js_trim ''Bearer {api_key}'' \<noteq> []"
    "js_trim ''api_key'' \<noteq> []" "js_trim ''{api_key}'' \<noteq> []"
    by code_simp+
  from mode consider "mode = ''default''" | "mode = ''none''" | "mode = ''header''" | "mode = ''query''"
    by (auto simp: ADVANCED_CUSTOM_AUTH_MODE_OPTIONS_def)
  then show ?thesis using name val t
    by cases (auto simp: buildAdvancedCustomAuth_def validateRouteAuth_def
        getAdvancedCustomAuthMode_def str_or_def opt_str_def [of "Some _"] opt_str_def [of None] Let_def)
qed

theorem build_auth_valid_witness:
  "validateRouteAuth (buildAdvancedCustomAuth ''query'' (Some apiKeyHeaderAuth)) = None
   \<and> getAdvancedCustomAuthMode (createAdvancedCustomRoute\<lparr>route_auth :=
       buildAdvancedCustomAuth ''query'' (Some apiKeyHeaderAuth)\<rparr>) = ''query''"
proof -
  have "''query'' \<in> set (map fst ADVANCED_CUSTOM_AUTH_MODE_OPTIONS)"
    "js_trim (opt_str (Option.bind (Some apiKeyHeaderAuth) auth_name)) \<noteq> []"
    "js_trim (opt_str (Option.bind (Some apiKeyHeaderAuth) auth_value)) \<noteq> []"
    by code_simp+
  then show ?thesis
    using build_auth_valid [of "''query''" "Some apiKeyHeaderAuth" createAdvancedCustomRoute] by simp
qed

end
