(* ===== verification/Auth_Session.thy ===== *)
theory Auth_Session
  imports Json
begin

text \<open>
  Authentication of the console: \<open>web/src/stores/auth-store.ts\<close> (the store),
  \<open>web/src/lib/auth-session.ts\<close> (bundles, rotation, refresh) and the types of both.

  The state of one tab is an \<open>auth_world\<close>: the store, the module variable \<open>authEpoch\<close>, the events
  handed to \<open>publishAuthSessionEvent\<close> (\<open>outbox\<close>), and the number of refresh requests sent so far.
  The refresh runner is asynchronous: while it awaits the response of a request or a delay, other
  code may log in, log out or rotate the session. The HTTP client and that other code are the
  environment of a run (\<open>refresh_env\<close>): for the n-th request, the response and the operations
  that happen before it arrives; the same for each delay. Server responses are JSON values; a
  missing property is \<open>None\<close>. A user object is kept as the JSON value it is.
\<close>

section \<open>auth-store.ts\<close>

datatype bootstrap = BIdle | BChecking | BComplete

record login_session =
  sid :: string
  current :: bool
  login_method :: string
  ip :: string
  user_agent :: string
  created_at :: dec
  last_active_at :: dec
  expires_at :: dec

record auth_bundle =
  access_token :: string
  token_type :: string
  access_expires_at :: dec
  bundle_user :: json
  bundle_session :: login_session

record auth_store =
  user :: "json option"
  accessToken :: "string option"
  accessExpiresAt :: "dec option"
  session :: "login_session option"
  pending2FAFlowToken :: "string option"
  bootstrapState :: bootstrap

definition init_store :: auth_store where
  "init_store =
     \<lparr>user = None, accessToken = None, accessExpiresAt = None, session = None,
      pending2FAFlowToken = None, bootstrapState = BIdle\<rparr>"

definition setBundle :: "auth_bundle \<Rightarrow> auth_store \<Rightarrow> auth_store" where
  "setBundle bundle s =
     s\<lparr>user := Some (bundle_user bundle), accessToken := Some (access_token bundle),
       accessExpiresAt := Some (access_expires_at bundle), session := Some (bundle_session bundle),
       pending2FAFlowToken := None, bootstrapState := BComplete\<rparr>"

definition setUser :: "json option \<Rightarrow> auth_store \<Rightarrow> auth_store" where
  "setUser u s = s\<lparr>user := u\<rparr>"

definition setPending2FAFlowToken :: "string option \<Rightarrow> auth_store \<Rightarrow> auth_store" where
  "setPending2FAFlowToken t s = s\<lparr>pending2FAFlowToken := t\<rparr>"

definition setBootstrapState :: "bootstrap \<Rightarrow> auth_store \<Rightarrow> auth_store" where
  "setBootstrapState b s = s\<lparr>bootstrapState := b\<rparr>"

definition reset :: "bootstrap \<Rightarrow> auth_store \<Rightarrow> auth_store" where
  "reset b s =
     s\<lparr>user := None, accessToken := None, accessExpiresAt := None, session := None,
       pending2FAFlowToken := None, bootstrapState := b\<rparr>"

section \<open>auth-session.ts: response validation\<close>

definition num_prop :: "json \<Rightarrow> string \<Rightarrow> dec option" where
  "num_prop v k = (case jget v k of Some (JNum d) \<Rightarrow> Some d | _ \<Rightarrow> None)"

definition bool_prop :: "json \<Rightarrow> string \<Rightarrow> bool option" where
  "bool_prop v k = (case jget v k of Some (JBool b) \<Rightarrow> Some b | _ \<Rightarrow> None)"

definition is_some :: "'a option \<Rightarrow> bool" where
  "is_some x = (x \<noteq> None)"

definition isAuthUser :: "json option \<Rightarrow> bool" where
  "isAuthUser value =
     (case value of
        None \<Rightarrow> False
      | Some v \<Rightarrow>
          is_record v
          \<and> (case num_prop v ''id'' of
               None \<Rightarrow> False
             | Some d \<Rightarrow> (case dec_int d of None \<Rightarrow> False | Some i \<Rightarrow> i > 0))
          \<and> is_some (str_prop v ''username'') \<and> is_some (num_prop v ''role''))"

definition isLoginSession :: "json option \<Rightarrow> bool" where
  "isLoginSession value =
     (case value of
        None \<Rightarrow> False
      | Some v \<Rightarrow>
          is_record v
          \<and> (case str_prop v ''sid'' of None \<Rightarrow> False | Some s \<Rightarrow> s \<noteq> [])
          \<and> is_some (bool_prop v ''current'') \<and> is_some (str_prop v ''login_method'')
          \<and> is_some (str_prop v ''ip'') \<and> is_some (str_prop v ''user_agent'')
          \<and> is_some (num_prop v ''created_at'') \<and> is_some (num_prop v ''last_active_at'')
          \<and> is_some (num_prop v ''expires_at''))"

definition hasValidTokenFields :: "json \<Rightarrow> bool" where
  "hasValidTokenFields v =
     ((case str_prop v ''access_token'' of None \<Rightarrow> False | Some s \<Rightarrow> s \<noteq> [])
      \<and> (case str_prop v ''token_type'' of None \<Rightarrow> False | Some s \<Rightarrow> s \<noteq> [])
      \<and> (case num_prop v ''access_expires_at'' of None \<Rightarrow> False | Some d \<Rightarrow> mant d > 0))"

definition isAuthBundle :: "json option \<Rightarrow> bool" where
  "isAuthBundle value =
     (case value of
        None \<Rightarrow> False
      | Some v \<Rightarrow>
          is_record v \<and> hasValidTokenFields v \<and> isAuthUser (jget v ''user'')
          \<and> isLoginSession (jget v ''session''))"

text \<open>The typed view of a value that passed its guard.\<close>

definition view_session :: "json \<Rightarrow> login_session" where
  "view_session v =
     \<lparr>sid = the (str_prop v ''sid''), current = the (bool_prop v ''current''),
      login_method = the (str_prop v ''login_method''), ip = the (str_prop v ''ip''),
      user_agent = the (str_prop v ''user_agent''), created_at = the (num_prop v ''created_at''),
      last_active_at = the (num_prop v ''last_active_at''),
      expires_at = the (num_prop v ''expires_at'')\<rparr>"

definition view_bundle :: "json \<Rightarrow> auth_bundle" where
  "view_bundle v =
     \<lparr>access_token = the (str_prop v ''access_token''), token_type = the (str_prop v ''token_type''),
      access_expires_at = the (num_prop v ''access_expires_at''),
      bundle_user = the (jget v ''user''), bundle_session = view_session (the (jget v ''session''))\<rparr>"

definition isAuthTokenRotation :: "json \<Rightarrow> bool" where
  "isAuthTokenRotation v =
     (is_record v \<and> hasValidTokenFields v \<and> str_prop v ''token_type'' = Some ''Bearer''
      \<and> isLoginSession (jget v ''session'')
      \<and> bool_prop (the (jget v ''session'')) ''current'' = Some True)"

section \<open>auth-session.ts: operations\<close>

datatype sync_kind = Authenticated_Event | Signed_Out_Event

record auth_world =
  store :: auth_store
  authEpoch :: nat
  outbox :: "(sync_kind \<times> string) list"
  reqs :: nat

definition init_world :: auth_world where
  "init_world = \<lparr>store = init_store, authEpoch = 0, outbox = [], reqs = 0\<rparr>"

definition publishAuthSessionEvent :: "sync_kind \<Rightarrow> string \<Rightarrow> auth_world \<Rightarrow> auth_world" where
  "publishAuthSessionEvent kind s w = (if s = [] then w else w\<lparr>outbox := outbox w @ [(kind, s)]\<rparr>)"

definition current_sid :: "auth_world \<Rightarrow> string option" where
  "current_sid w = map_option sid (session (store w))"

definition applyAuthBundle :: "auth_bundle \<Rightarrow> bool \<Rightarrow> auth_world \<Rightarrow> auth_world" where
  "applyAuthBundle bundle synchronizeTabs w =
     (let previousSID = current_sid w;
          w' = w\<lparr>authEpoch := authEpoch w + 1, store := setBundle bundle (store w)\<rparr>
      in if synchronizeTabs \<and> previousSID \<noteq> Some (sid (bundle_session bundle))
         then publishAuthSessionEvent Authenticated_Event (sid (bundle_session bundle)) w'
         else w')"

datatype rotation_error = Invalid_Rotation | No_Active_Session | Session_Mismatch

definition applyAuthRotation :: "json \<Rightarrow> auth_world \<Rightarrow> rotation_error + auth_world" where
  "applyAuthRotation value w =
     (if \<not> isAuthTokenRotation value then Inl Invalid_Rotation
      else (case (user (store w), session (store w)) of
          (Some u, Some s) \<Rightarrow>
            (let vs = view_session (the (jget value ''session''))
             in if sid vs \<noteq> sid s then Inl Session_Mismatch
                else Inr (applyAuthBundle
                  \<lparr>access_token = the (str_prop value ''access_token''),
                   token_type = the (str_prop value ''token_type''),
                   access_expires_at = the (num_prop value ''access_expires_at''),
                   bundle_user = u, bundle_session = vs\<rparr> False w))
        | _ \<Rightarrow> Inl No_Active_Session))"

definition clearAuthentication :: "bool \<Rightarrow> bootstrap \<Rightarrow> auth_world \<Rightarrow> auth_world" where
  "clearAuthentication synchronizeTabs b w =
     (let s = current_sid w;
          w' = w\<lparr>authEpoch := authEpoch w + 1, store := reset b (store w)\<rparr>
      in case s of
           Some x \<Rightarrow>
             if synchronizeTabs \<and> x \<noteq> [] then publishAuthSessionEvent Signed_Out_Event x w' else w'
         | None \<Rightarrow> w')"

section \<open>auth-session.ts: the refresh runner\<close>

record http_response =
  status :: nat
  resp_data :: "json option"
  resp_error :: "string option"

datatype transient = Superseded | Resp_Error string | Resp_Data "json option"

datatype refresh_outcome =
    Authenticated auth_bundle
  | Anonymous
  | Transient_Error transient
  | Out_Of_Sync "string option"

text \<open>The interface \<open>AuthRefreshRuntime\<close>; an awaited call returns the state it resumes in.\<close>

record 's refresh_runtime =
  request :: "string option \<Rightarrow> 's \<Rightarrow> http_response \<times> 's"
  getExpectedSID :: "'s \<Rightarrow> string option"
  parseBundle :: "json option \<Rightarrow> auth_bundle option"
  acceptBundle :: "auth_bundle \<Rightarrow> 's \<Rightarrow> 's"
  clear :: "bool \<Rightarrow> bootstrap option \<Rightarrow> 's \<Rightarrow> 's"
  markTransient :: "'s \<Rightarrow> 's"
  wait :: "nat \<Rightarrow> 's \<Rightarrow> 's"
  isCurrent :: "('s \<Rightarrow> bool) option"

definition refreshRaceDelays :: "nat list" where
  "refreshRaceDelays = [80, 200, 500]"

definition superseded :: refresh_outcome where
  "superseded = Transient_Error Superseded"

definition stale :: "'s refresh_runtime \<Rightarrow> 's \<Rightarrow> bool" where
  "stale rt s = (case isCurrent rt of None \<Rightarrow> False | Some c \<Rightarrow> \<not> c s)"

text \<open>\<open>responseData\<close>, its code, the bundle it carries and \<open>responseData?.success === true\<close>.\<close>

definition response_data :: "http_response \<Rightarrow> json option" where
  "response_data r = (case resp_data r of Some v \<Rightarrow> if is_record v then Some v else None | None \<Rightarrow> None)"

definition response_code :: "http_response \<Rightarrow> string option" where
  "response_code r = Option.bind (response_data r) (\<lambda>v. str_prop v ''code'')"

definition response_bundle :: "'s refresh_runtime \<Rightarrow> http_response \<Rightarrow> auth_bundle option" where
  "response_bundle rt r = parseBundle rt (Option.bind (response_data r) (\<lambda>v. jget v ''data''))"

definition response_success :: "http_response \<Rightarrow> bool" where
  "response_success r = (Option.bind (response_data r) (\<lambda>v. jget v ''success'') = Some (JBool True))"

definition transient_of :: "http_response \<Rightarrow> transient" where
  "transient_of r = (case resp_error r of Some e \<Rightarrow> Resp_Error e | None \<Rightarrow> Resp_Data (resp_data r))"

text \<open>
  What the runner does when a response arrives: it settles with an outcome, or continues after a
  delay or at once.
\<close>

datatype 's continuation =
    Settle refresh_outcome 's
  | After_Delay nat nat bool 's
  | Retry nat bool 's

definition handle_response ::
  "'s refresh_runtime \<Rightarrow> nat \<Rightarrow> bool \<Rightarrow> http_response \<Rightarrow> 's \<Rightarrow> 's continuation" where
  "handle_response rt raceAttempt allowMismatchRetry response s1 =
     (let code = response_code response; bundle = response_bundle rt response
      in if response_success response \<and> bundle \<noteq> None
         then Settle (Authenticated (the bundle)) (acceptBundle rt (the bundle) s1)
         else if status response = 409 \<and> code = Some ''AUTH_REFRESH_RACE'' then
           if raceAttempt < length refreshRaceDelays
           then After_Delay (refreshRaceDelays ! raceAttempt) (raceAttempt + 1) allowMismatchRetry s1
           else Settle (Out_Of_Sync code) (clear rt False None s1)
         else if status response = 409 \<and> code = Some ''AUTH_SESSION_MISMATCH'' then
           if allowMismatchRetry then Retry 0 False (clear rt False (Some BIdle) s1)
           else Settle (Out_Of_Sync code) (clear rt False None s1)
         else if status response = 401 then Settle Anonymous (clear rt True None s1)
         else if status response = 0 \<or> status response \<ge> 500 \<or> status response = 429
         then Settle (Transient_Error (transient_of response)) (markTransient rt s1)
         else Settle (Out_Of_Sync (Some (case code of Some c \<Rightarrow> c | None \<Rightarrow> ''AUTH_INVALID_REFRESH_RESPONSE'')))
                (clear rt False None s1))"

lemma handle_response_delay:
  "handle_response rt a m r s = After_Delay d a' m' s' \<Longrightarrow>
     a < 3 \<and> a' = a + 1 \<and> m' = m \<and> s' = s \<and> d = refreshRaceDelays ! a"
  by (auto simp: handle_response_def Let_def refreshRaceDelays_def split: if_splits)

lemma handle_response_retry:
  "handle_response rt a m r s = Retry a' m' s' \<Longrightarrow>
     m \<and> a' = 0 \<and> \<not> m' \<and> s' = clear rt False (Some BIdle) s"
  by (auto simp: handle_response_def Let_def split: if_splits)

function run :: "'s refresh_runtime \<Rightarrow> nat \<Rightarrow> bool \<Rightarrow> 's \<Rightarrow> refresh_outcome \<times> 's" where
  "run rt raceAttempt allowMismatchRetry s =
     (if stale rt s then (superseded, s)
      else (case request rt (getExpectedSID rt s) s of (response, s1) \<Rightarrow>
        if stale rt s1 then (superseded, s1)
        else (case handle_response rt raceAttempt allowMismatchRetry response s1 of
            Settle outcome s' \<Rightarrow> (outcome, s')
          | After_Delay delay a' m' s' \<Rightarrow> run rt a' m' (wait rt delay s')
          | Retry a' m' s' \<Rightarrow> run rt a' m' s')))"
  by pat_completeness auto
termination
  by (relation "measure (\<lambda>(rt, a, m, s). (if m then 4 else 0) + (3 - a))")
    (auto dest!: handle_response_delay handle_response_retry [OF sym] handle_response_delay [OF sym]
      handle_response_retry)

declare run.simps [simp del]

definition createRefreshRunner :: "'s refresh_runtime \<Rightarrow> 's \<Rightarrow> refresh_outcome \<times> 's" where
  "createRefreshRunner rt s = run rt 0 True s"

text \<open>The operations other code may perform while the runner awaits.\<close>

datatype auth_op =
    Op_Login auth_bundle bool
  | Op_Rotate json
  | Op_Clear bool bootstrap
  | Op_Set_User "json option"
  | Op_Set_Pending "string option"
  | Op_Set_Bootstrap bootstrap

fun apply_op :: "auth_op \<Rightarrow> auth_world \<Rightarrow> auth_world" where
  "apply_op (Op_Login b sync) w = applyAuthBundle b sync w"
| "apply_op (Op_Rotate v) w = (case applyAuthRotation v w of Inl _ \<Rightarrow> w | Inr w' \<Rightarrow> w')"
| "apply_op (Op_Clear sync b) w = clearAuthentication sync b w"
| "apply_op (Op_Set_User u) w = w\<lparr>store := setUser u (store w)\<rparr>"
| "apply_op (Op_Set_Pending t) w = w\<lparr>store := setPending2FAFlowToken t (store w)\<rparr>"
| "apply_op (Op_Set_Bootstrap b) w = w\<lparr>store := setBootstrapState b (store w)\<rparr>"

record refresh_env =
  during_lock :: "auth_op list"
  env_response :: "nat \<Rightarrow> string option \<Rightarrow> http_response"
  during_request :: "nat \<Rightarrow> auth_op list"
  during_wait :: "nat \<Rightarrow> auth_op list"

definition env_request :: "refresh_env \<Rightarrow> string option \<Rightarrow> auth_world \<Rightarrow> http_response \<times> auth_world" where
  "env_request env expected w =
     (env_response env (reqs w) expected,
      fold apply_op (during_request env (reqs w)) (w\<lparr>reqs := reqs w + 1\<rparr>))"

definition runtime_clear :: "bool \<Rightarrow> bootstrap option \<Rightarrow> auth_world \<Rightarrow> auth_world" where
  "runtime_clear synchronizeTabs b w =
     (if \<not> synchronizeTabs \<and> b = Some BIdle then w\<lparr>store := reset BIdle (store w)\<rparr>
      else clearAuthentication synchronizeTabs (case b of Some x \<Rightarrow> x | None \<Rightarrow> BComplete) w)"

definition refresh_runtime_of :: "refresh_env \<Rightarrow> nat \<Rightarrow> auth_world refresh_runtime" where
  "refresh_runtime_of env refreshEpoch =
     \<lparr>request = env_request env,
      getExpectedSID = current_sid,
      parseBundle = (\<lambda>value. if isAuthBundle value then Some (view_bundle (the value)) else None),
      acceptBundle = (\<lambda>bundle. applyAuthBundle bundle False),
      clear = runtime_clear,
      markTransient = (\<lambda>w. w\<lparr>store := setBootstrapState BIdle (store w)\<rparr>),
      wait = (\<lambda>delay w. fold apply_op (during_wait env (reqs w)) w),
      isCurrent = Some (\<lambda>w. authEpoch w = refreshEpoch)\<rparr>"

definition runRefresh :: "refresh_env \<Rightarrow> nat \<Rightarrow> auth_world \<Rightarrow> refresh_outcome \<times> auth_world" where
  "runRefresh env refreshEpoch w = createRefreshRunner (refresh_runtime_of env refreshEpoch) w"

section \<open>auth-session.ts: bootstrap and headers\<close>

text \<open>\<open>now\<close> is \<open>Math.floor(Date.now() / 1000)\<close>.\<close>

definition expired :: "dec \<Rightarrow> int \<Rightarrow> bool" where
  "expired d now = (\<not> dec_less (of_int_dec now) d)"

definition currentValidAuthBundle :: "int \<Rightarrow> auth_world \<Rightarrow> auth_bundle option" where
  "currentValidAuthBundle now w =
     (let auth = store w
      in case (user auth, accessToken auth, accessExpiresAt auth, session auth) of
           (Some u, Some t, Some d, Some s) \<Rightarrow>
             if t = [] \<or> mant d = 0 \<or> expired d now then None
             else Some \<lparr>access_token = t, token_type = ''Bearer'', access_expires_at = d,
                    bundle_user = u, bundle_session = s\<rparr>
         | _ \<Rightarrow> None)"

text \<open>
  \<open>refreshAuthentication\<close> of a tab with no refresh in flight: the current epoch is captured, then
  the browser lock is awaited (\<open>performRefreshWithBrowserLock\<close>), then the runner runs. While it is
  in flight every caller gets the same promise; that part is the step relation \<open>runner_step\<close>.
\<close>

definition refreshAuthentication :: "refresh_env \<Rightarrow> auth_world \<Rightarrow> refresh_outcome \<times> auth_world" where
  "refreshAuthentication env w =
     runRefresh env (authEpoch w) (fold apply_op (during_lock env) w)"

definition bootstrapAuthentication ::
  "refresh_env \<Rightarrow> int \<Rightarrow> auth_world \<Rightarrow> refresh_outcome \<times> auth_world" where
  "bootstrapAuthentication env now w =
     (case currentValidAuthBundle now w of
        Some bundle \<Rightarrow> (Authenticated bundle, w\<lparr>store := setBootstrapState BComplete (store w)\<rparr>)
      | None \<Rightarrow>
          (let hasStaleSession = (is_some (user (store w)) \<and> is_some (session (store w)))
           in if bootstrapState (store w) = BComplete \<and> \<not> hasStaleSession then (Anonymous, w)
              else refreshAuthentication env (w\<lparr>store := setBootstrapState BChecking (store w)\<rparr>)))"

definition getCommonHeaders :: "auth_world \<Rightarrow> (string \<times> string) list" where
  "getCommonHeaders w =
     (let headers = [(''Content-Type'', ''application/json'')]
      in case accessToken (store w) of
           Some t \<Rightarrow> if t = [] then headers else AList.update ''Authorization'' (''Bearer '' @ t) headers
         | None \<Rightarrow> headers)"

datatype header_error = Request_Failed transient | Session_Expired

text \<open>The token is there and its expiry is after \<open>limit\<close>.\<close>

definition token_valid_after :: "int \<Rightarrow> auth_world \<Rightarrow> bool" where
  "token_valid_after limit w =
     (case (accessToken (store w), accessExpiresAt (store w)) of
        (Some t, Some d) \<Rightarrow> t \<noteq> [] \<and> mant d \<noteq> 0 \<and> dec_less (of_int_dec limit) d
      | _ \<Rightarrow> False)"

definition getFreshAuthHeaders ::
  "refresh_env \<Rightarrow> int \<Rightarrow> int \<Rightarrow> auth_world \<Rightarrow> (header_error + (string \<times> string) list) \<times> auth_world" where
  "getFreshAuthHeaders env now now' w =
     (let refreshBefore = now + 60
      in if token_valid_after refreshBefore w then (Inr (getCommonHeaders w), w)
         else (let (outcome, w') = refreshAuthentication env w
           in case outcome of
                Authenticated b \<Rightarrow> (Inr (getCommonHeaders w'), w')
              | _ \<Rightarrow>
                  if token_valid_after now' w' then (Inr (getCommonHeaders w'), w')
                  else (case outcome of
                      Transient_Error e \<Rightarrow> (Inl (Request_Failed e), w')
                    | _ \<Rightarrow> (Inl Session_Expired, w'))))"

section \<open>auth-session.ts: the shared promise\<close>

text \<open>
  The module variable \<open>refreshPromise\<close> as a small-step machine. \<open>flight\<close> is the refresh in
  progress (\<open>None\<close>: \<open>refreshPromise\<close> is null) with the epoch it captured and the await it is suspended
  at; \<open>settled\<close> lists the outcomes delivered to its callers. Between two steps of the runner any
  other code may run.
\<close>

datatype await = Await_Lock | Await_Response nat bool | Await_Delay nat bool

record tab =
  world :: auth_world
  flight :: "(nat \<times> await) option"
  settled :: "refresh_outcome list"

definition init_tab :: tab where
  "init_tab = \<lparr>world = init_world, flight = None, settled = []\<rparr>"

text \<open>A call of \<open>refreshAuthentication\<close>: join the refresh in flight, or start one.\<close>

definition call_refresh :: "tab \<Rightarrow> tab" where
  "call_refresh t =
     (case flight t of
        Some f \<Rightarrow> t
      | None \<Rightarrow> t\<lparr>flight := Some (authEpoch (world t), Await_Lock)\<rparr>)"

definition no_ops :: refresh_env where
  "no_ops = \<lparr>during_lock = [], env_response = \<lambda>n expected. \<lparr>status = 0, resp_data = None, resp_error = None\<rparr>,
     during_request = \<lambda>n. [], during_wait = \<lambda>n. []\<rparr>"

text \<open>The start of \<open>run\<close>, up to the await of the request.\<close>

definition enter_run :: "nat \<Rightarrow> nat \<Rightarrow> bool \<Rightarrow> auth_world \<Rightarrow> tab \<Rightarrow> tab" where
  "enter_run e a m w t =
     (if authEpoch w \<noteq> e then t\<lparr>world := w, flight := None, settled := settled t @ [superseded]\<rparr>
      else t\<lparr>world := w\<lparr>reqs := reqs w + 1\<rparr>, flight := Some (e, Await_Response a m)\<rparr>)"

text \<open>The rest of \<open>run\<close>, when the response arrives.\<close>

definition resume_run :: "nat \<Rightarrow> nat \<Rightarrow> bool \<Rightarrow> http_response \<Rightarrow> tab \<Rightarrow> tab" where
  "resume_run e a m r t =
     (if authEpoch (world t) \<noteq> e then t\<lparr>flight := None, settled := settled t @ [superseded]\<rparr>
      else (case handle_response (refresh_runtime_of no_ops e) a m r (world t) of
          Settle outcome w \<Rightarrow> t\<lparr>world := w, flight := None, settled := settled t @ [outcome]\<rparr>
        | After_Delay delay a' m' w \<Rightarrow> t\<lparr>world := w, flight := Some (e, Await_Delay a' m')\<rparr>
        | Retry a' m' w \<Rightarrow> enter_run e a' m' w t))"

inductive runner_step :: "tab \<Rightarrow> tab \<Rightarrow> bool" where
  locked: "flight t = Some (e, Await_Lock) \<Longrightarrow> runner_step t (enter_run e 0 True (world t) t)"
| answered: "flight t = Some (e, Await_Response a m) \<Longrightarrow> runner_step t (resume_run e a m r t)"
| woken: "flight t = Some (e, Await_Delay a m) \<Longrightarrow> runner_step t (enter_run e a m (world t) t)"

inductive tab_reach :: "tab \<Rightarrow> bool" where
  init: "tab_reach init_tab"
| call: "tab_reach t \<Longrightarrow> tab_reach (call_refresh t)"
| other: "tab_reach t \<Longrightarrow> tab_reach (t\<lparr>world := apply_op p (world t)\<rparr>)"
| runner: "tab_reach t \<Longrightarrow> runner_step t t' \<Longrightarrow> tab_reach t'"

inductive_cases runner_stepE: "runner_step t t'"

section \<open>The runner as a machine\<close>

text \<open>Each continuation spends retries; \<open>budget\<close> bounds the requests that are left.\<close>

definition budget :: "nat \<Rightarrow> bool \<Rightarrow> nat" where
  "budget a m = (if m then 4 else 0) + (4 - a)"

text \<open>Induction over the requests of a run.\<close>

lemma run_cases [consumes 1, case_names stale stale_after settle delay retry]:
  assumes "request rt (getExpectedSID rt s) s = (r, s1)"
  obtains "stale rt s" "run rt a m s = (superseded, s)"
  | "\<not> stale rt s" "stale rt s1" "run rt a m s = (superseded, s1)"
  | out s' where "\<not> stale rt s" "\<not> stale rt s1" "handle_response rt a m r s1 = Settle out s'"
      "run rt a m s = (out, s')"
  | "\<not> stale rt s" "\<not> stale rt s1" "a < 3"
      "handle_response rt a m r s1 = After_Delay (refreshRaceDelays ! a) (a + 1) m s1"
      "run rt a m s = run rt (a + 1) m (wait rt (refreshRaceDelays ! a) s1)"
  | "\<not> stale rt s" "\<not> stale rt s1" "m"
      "handle_response rt a m r s1 = Retry 0 False (clear rt False (Some BIdle) s1)"
      "run rt a m s = run rt 0 False (clear rt False (Some BIdle) s1)"
proof (cases "stale rt s \<or> stale rt s1")
  case True
  then show ?thesis using that(1,2) assms by (cases "stale rt s") (simp_all add: run.simps [of rt a m s])
next
  case False
  show ?thesis
  proof (cases "handle_response rt a m r s1")
    case (Settle out s')
    then show ?thesis using that(3) assms False by (simp add: run.simps [of rt a m s])
  next
    case (After_Delay d a' m' s')
    with handle_response_delay [OF After_Delay] show ?thesis
      using that(4) assms False by (simp add: run.simps [of rt a m s])
  next
    case (Retry a' m' s')
    with handle_response_retry [OF Retry] show ?thesis
      using that(5) assms False by (simp add: run.simps [of rt a True s])
  qed
qed

subsection \<open>What the runner relies on\<close>

text \<open>
  The contract between the runner and a runtime: a request is counted once and nothing else is,
  and an invariant of the state is kept by every operation the runtime offers.
\<close>

locale refresh_contract =
  fixes rt :: "'s refresh_runtime" and count :: "'s \<Rightarrow> nat" and inv :: "'s \<Rightarrow> bool"
  assumes count_request: "count (snd (request rt x s)) = count s + 1"
    and count_clear: "count (clear rt sync b s) = count s"
    and count_accept: "count (acceptBundle rt bundle s) = count s"
    and count_mark: "count (markTransient rt s) = count s"
    and count_wait: "count (wait rt d s) = count s"
    and inv_request: "inv s \<Longrightarrow> inv (snd (request rt x s))"
    and inv_clear: "inv s \<Longrightarrow> inv (clear rt sync b s)"
    and inv_accept: "inv s \<Longrightarrow> parseBundle rt v = Some bundle \<Longrightarrow> inv (acceptBundle rt bundle s)"
    and inv_mark: "inv s \<Longrightarrow> inv (markTransient rt s)"
    and inv_wait: "inv s \<Longrightarrow> inv (wait rt d s)"
begin

lemma settle_count: "handle_response rt a m r s = Settle out s' \<Longrightarrow> count s' = count s"
  by (auto simp: handle_response_def Let_def count_clear count_accept count_mark split: if_splits)

lemma settle_inv: "inv s \<Longrightarrow> handle_response rt a m r s = Settle out s' \<Longrightarrow> inv s'"
  by (auto simp: handle_response_def response_bundle_def Let_def inv_clear inv_mark
      split: if_splits intro: inv_accept)

lemma run_requests: "a \<le> 3 \<Longrightarrow> count (snd (run rt a m s)) \<le> count s + budget a m"
proof (induction "budget a m" arbitrary: a m s rule: less_induct)
  case less
  obtain r s1 where req: "request rt (getExpectedSID rt s) s = (r, s1)" by fastforce
  have c: "count s1 = count s + 1" using count_request [of "getExpectedSID rt s" s] req by simp
  have pos: "budget a m \<ge> 1" using less.prems by (simp add: budget_def)
  from req show ?case
  proof (cases rule: run_cases [where a = a and m = m])
    case (settle out s')
    then show ?thesis using c pos settle_count by fastforce
  next
    case delay
    have "count (snd (run rt (a + 1) m (wait rt (refreshRaceDelays ! a) s1)))
        \<le> count (wait rt (refreshRaceDelays ! a) s1) + budget (a + 1) m"
      using delay(3) by (intro less.hyps) (auto simp: budget_def)
    then show ?thesis using delay c by (simp add: count_wait budget_def)
  next
    case retry
    have "count (snd (run rt 0 False (clear rt False (Some BIdle) s1)))
        \<le> count (clear rt False (Some BIdle) s1) + budget 0 False"
      using retry(3) less.prems by (intro less.hyps) (auto simp: budget_def)
    then show ?thesis using retry c less.prems by (simp add: count_clear budget_def)
  qed (use c pos in auto)
qed

lemma run_inv: "a \<le> 3 \<Longrightarrow> inv s \<Longrightarrow> inv (snd (run rt a m s))"
proof (induction "budget a m" arbitrary: a m s rule: less_induct)
  case less
  obtain r s1 where req: "request rt (getExpectedSID rt s) s = (r, s1)" by fastforce
  have i: "inv s1" using inv_request [OF less.prems(2), of "getExpectedSID rt s"] req by simp
  from req show ?case
  proof (cases rule: run_cases [where a = a and m = m])
    case (settle out s')
    then show ?thesis using i settle_inv by fastforce
  next
    case delay
    then show ?thesis using less.hyps [of "a + 1" m] i by (simp add: budget_def inv_wait)
  next
    case retry
    then show ?thesis using less.hyps [of 0 False] less.prems i by (simp add: budget_def inv_clear)
  qed (use i less.prems in auto)
qed

end

section \<open>The store invariant\<close>

text \<open>A token, its expiry and a session are set and cleared together.\<close>

definition store_ok :: "auth_store \<Rightarrow> bool" where
  "store_ok s \<longleftrightarrow>
     (accessToken s = None \<longleftrightarrow> session s = None) \<and> (accessExpiresAt s = None \<longleftrightarrow> session s = None)"

lemma store_ok_ops [simp]:
  "store_ok init_store" "store_ok (setBundle b s)" "store_ok (reset bs s)"
  "store_ok s \<Longrightarrow> store_ok (setUser u s)" "store_ok s \<Longrightarrow> store_ok (setPending2FAFlowToken t s)"
  "store_ok s \<Longrightarrow> store_ok (setBootstrapState bs s)"
  by (auto simp: store_ok_def init_store_def setBundle_def reset_def setUser_def
      setPending2FAFlowToken_def setBootstrapState_def)

lemma publish_simps [simp]:
  "store (publishAuthSessionEvent k s w) = store w"
  "authEpoch (publishAuthSessionEvent k s w) = authEpoch w"
  "reqs (publishAuthSessionEvent k s w) = reqs w"
  by (simp_all add: publishAuthSessionEvent_def)

lemma applyAuthBundle_simps [simp]:
  "store (applyAuthBundle b sync w) = setBundle b (store w)"
  "authEpoch (applyAuthBundle b sync w) = authEpoch w + 1"
  "reqs (applyAuthBundle b sync w) = reqs w"
  by (simp_all add: applyAuthBundle_def Let_def)

lemma clearAuthentication_simps [simp]:
  "store (clearAuthentication sync bs w) = reset bs (store w)"
  "authEpoch (clearAuthentication sync bs w) = authEpoch w + 1"
  "reqs (clearAuthentication sync bs w) = reqs w"
  by (simp_all add: clearAuthentication_def Let_def split: option.split)

lemma applyAuthRotation_Inr:
  "applyAuthRotation v w = Inr w' \<Longrightarrow> \<exists>b. w' = applyAuthBundle b False w
     \<and> current_sid w = Some (sid (bundle_session b)) \<and> user (store w) = Some (bundle_user b)"
  by (auto simp: applyAuthRotation_def Let_def current_sid_def split: if_splits option.splits)

text \<open>
  The interface to the code that runs concurrently with a refresh: every operation keeps the
  invariant of the world, never lowers the epoch and sends no refresh request. A batch of
  operations then does the same.
\<close>

locale concurrent_ops =
  fixes step :: "'op \<Rightarrow> 'w \<Rightarrow> 'w" and ok :: "'w \<Rightarrow> bool" and epoch :: "'w \<Rightarrow> nat"
    and sent :: "'w \<Rightarrow> nat" and bumps :: "'op \<Rightarrow> bool"
  assumes ok_step: "ok w \<Longrightarrow> ok (step p w)"
    and epoch_step: "epoch w \<le> epoch (step p w)"
    and epoch_bump: "bumps p \<Longrightarrow> epoch w < epoch (step p w)"
    and sent_step: "sent (step p w) = sent w"
begin

lemma ok_fold: "ok w \<Longrightarrow> ok (fold step ps w)"
  by (induction ps arbitrary: w) (auto intro: ok_step)

lemma epoch_fold: "epoch w \<le> epoch (fold step ps w)"
proof (induction ps arbitrary: w)
  case (Cons p ps)
  show ?case using order_trans [OF epoch_step [of w p] Cons [of "step p w"]] by simp
qed simp

lemma sent_fold: "sent (fold step ps w) = sent w"
  by (induction ps arbitrary: w) (auto simp: sent_step)

lemma epoch_fold_bump: "\<exists>p \<in> set ps. bumps p \<Longrightarrow> epoch w < epoch (fold step ps w)"
proof (induction ps arbitrary: w)
  case (Cons p ps)
  show ?case
  proof (cases "bumps p")
    case True
    then show ?thesis using epoch_bump [of p w] epoch_fold [of "step p w" ps] by simp
  next
    case False
    with Cons show ?thesis using epoch_step [of w p] by (force intro: le_less_trans)
  qed
qed simp

end

text \<open>A login and a logout raise the epoch.\<close>

fun is_login_or_logout :: "auth_op \<Rightarrow> bool" where
  "is_login_or_logout (Op_Login b sync) = True"
| "is_login_or_logout (Op_Clear sync bs) = True"
| "is_login_or_logout _ = False"

interpretation auth_ops: concurrent_ops apply_op "\<lambda>w. store_ok (store w)" authEpoch reqs is_login_or_logout
proof unfold_locales
  show "store_ok (store w) \<Longrightarrow> store_ok (store (apply_op p w))" for p w
    by (cases p) (auto split: sum.split dest: applyAuthRotation_Inr)
  show "authEpoch w \<le> authEpoch (apply_op p w)" for p w
    by (cases p) (auto split: sum.split dest!: applyAuthRotation_Inr)
  show "is_login_or_logout p \<Longrightarrow> authEpoch w < authEpoch (apply_op p w)" for p w
    by (cases p) auto
  show "reqs (apply_op p w) = reqs w" for p w
    by (cases p) (auto split: sum.split dest!: applyAuthRotation_Inr)
qed

text \<open>The runtime that \<open>runRefresh\<close> builds fulfils the contract of the runner.\<close>

lemma runtime_sel [simp]:
  "request (refresh_runtime_of env e) = env_request env"
  "getExpectedSID (refresh_runtime_of env e) = current_sid"
  "parseBundle (refresh_runtime_of env e) v = (if isAuthBundle v then Some (view_bundle (the v)) else None)"
  "acceptBundle (refresh_runtime_of env e) b = applyAuthBundle b False"
  "clear (refresh_runtime_of env e) = runtime_clear"
  "markTransient (refresh_runtime_of env e) w = w\<lparr>store := setBootstrapState BIdle (store w)\<rparr>"
  "wait (refresh_runtime_of env e) d w = fold apply_op (during_wait env (reqs w)) w"
  "stale (refresh_runtime_of env e) w \<longleftrightarrow> authEpoch w \<noteq> e"
  by (simp_all add: refresh_runtime_of_def stale_def)

lemma runtime_clear_simps [simp]:
  "store_ok (store (runtime_clear sync b w))" "reqs (runtime_clear sync b w) = reqs w"
  by (simp_all add: runtime_clear_def)

interpretation refresh: refresh_contract "refresh_runtime_of env e" reqs "\<lambda>w. store_ok (store w)"
  for env e
  by unfold_locales (auto simp: env_request_def auth_ops.sent_fold intro: auth_ops.ok_fold)

section \<open>Properties of the refresh\<close>

text \<open>
  C9. A refresh always ends, after at most eight requests: three race retries before and after
  the single retry on a session mismatch. It keeps the store consistent, whatever the server
  answers and whatever other code does in the meantime.
\<close>

theorem refresh_bounded:
  "reqs (snd (refreshAuthentication env w)) \<le> reqs w + 8
   \<and> (store_ok (store w) \<longrightarrow> store_ok (store (snd (refreshAuthentication env w))))"
proof -
  let ?w = "fold apply_op (during_lock env) w"
  have "reqs (snd (run (refresh_runtime_of env (authEpoch w)) 0 True ?w)) \<le> reqs ?w + budget 0 True"
    by (rule refresh.run_requests) simp
  moreover have "store_ok (store ?w) \<Longrightarrow>
      store_ok (store (snd (run (refresh_runtime_of env (authEpoch w)) 0 True ?w)))"
    by (rule refresh.run_inv) simp_all
  ultimately show ?thesis
    using auth_ops.sent_fold [of "during_lock env" w] auth_ops.ok_fold [of w "during_lock env"]
    by (simp add: refreshAuthentication_def runRefresh_def createRefreshRunner_def budget_def)
qed

theorem refresh_bounded_witness:
  "reqs (snd (refreshAuthentication no_ops init_world)) \<le> 8
   \<and> store_ok (store (snd (refreshAuthentication no_ops init_world)))"
  using refresh_bounded [of no_ops init_world] by (simp add: init_world_def)

text \<open>What each outcome says about the store it leaves.\<close>

definition cleared :: "auth_store \<Rightarrow> bool" where
  "cleared s \<longleftrightarrow> user s = None \<and> accessToken s = None \<and> accessExpiresAt s = None \<and> session s = None
     \<and> pending2FAFlowToken s = None"

definition holds_bundle :: "auth_bundle \<Rightarrow> auth_store \<Rightarrow> bool" where
  "holds_bundle b s \<longleftrightarrow> user s = Some (bundle_user b) \<and> accessToken s = Some (access_token b)
     \<and> accessExpiresAt s = Some (access_expires_at b) \<and> session s = Some (bundle_session b)"

fun outcome_ok :: "nat \<Rightarrow> refresh_outcome \<Rightarrow> auth_world \<Rightarrow> bool" where
  "outcome_ok e (Authenticated b) w =
     (holds_bundle b (store w) \<and> bootstrapState (store w) = BComplete \<and> access_token b \<noteq> []
      \<and> sid (bundle_session b) \<noteq> [] \<and> mant (access_expires_at b) > 0 \<and> authEpoch w = e + 1)"
| "outcome_ok e Anonymous w =
     (cleared (store w) \<and> bootstrapState (store w) = BComplete \<and> authEpoch w = e + 1)"
| "outcome_ok e (Out_Of_Sync c) w =
     (cleared (store w) \<and> bootstrapState (store w) = BComplete \<and> authEpoch w = e + 1)"
| "outcome_ok e (Transient_Error t) w =
     (if t = Superseded then authEpoch w \<noteq> e
      else bootstrapState (store w) = BIdle \<and> authEpoch w = e)"

lemma cleared_reset [simp]: "cleared (reset b s)" "bootstrapState (reset b s) = b"
  by (simp_all add: cleared_def reset_def)

lemma holds_setBundle [simp]: "holds_bundle b (setBundle b s)" "bootstrapState (setBundle b s) = BComplete"
  by (simp_all add: holds_bundle_def setBundle_def)

lemma view_bundle_valid:
  assumes "isAuthBundle (Some v)"
  shows "access_token (view_bundle v) \<noteq> [] \<and> sid (bundle_session (view_bundle v)) \<noteq> []
    \<and> mant (access_expires_at (view_bundle v)) > 0"
  using assms
  by (auto simp: isAuthBundle_def hasValidTokenFields_def isLoginSession_def view_bundle_def
      view_session_def split: option.splits)

lemma settle_outcome_ok:
  assumes "authEpoch s = e"
    and "handle_response (refresh_runtime_of env e) a m r s = Settle out s'"
  shows "outcome_ok e out s'"
proof -
  have t: "transient_of r \<noteq> Superseded" by (simp add: transient_of_def split: option.split)
  have v: "isAuthBundle x \<Longrightarrow> access_token (view_bundle (the x)) \<noteq> []
      \<and> sid (bundle_session (view_bundle (the x))) \<noteq> []
      \<and> mant (access_expires_at (view_bundle (the x))) > 0" for x
    using view_bundle_valid [of "the x"] by (cases x) (auto simp: isAuthBundle_def)
  show ?thesis
    using assms t v
    by (auto simp: handle_response_def response_bundle_def Let_def runtime_clear_def
        setBootstrapState_def split: if_splits)
qed

lemma run_outcome_ok:
  "a \<le> 3 \<Longrightarrow> run (refresh_runtime_of env e) a m s = (out, s') \<Longrightarrow> outcome_ok e out s'"
proof (induction "budget a m" arbitrary: a m s rule: less_induct)
  case less
  let ?rt = "refresh_runtime_of env e"
  obtain r s1 where req: "request ?rt (getExpectedSID ?rt s) s = (r, s1)" by fastforce
  then show ?case
  proof (cases rule: run_cases [where a = a and m = m])
    case (settle out2 s2)
    then show ?thesis using settle_outcome_ok [of s1 e env a m r] less.prems by simp
  next
    case delay
    then show ?thesis using less.hyps [of "a + 1" m] less.prems by (simp add: budget_def)
  next
    case retry
    then show ?thesis using less.hyps [of 0 False] less.prems by (simp add: budget_def)
  qed (use less.prems in \<open>auto simp: superseded_def\<close>)
qed

lemma refresh_outcome_ok:
  "refreshAuthentication env w = (out, w') \<Longrightarrow> outcome_ok (authEpoch w) out w'"
  using run_outcome_ok [of 0 env "authEpoch w" True "fold apply_op (during_lock env) w"]
  by (simp add: refreshAuthentication_def runRefresh_def createRefreshRunner_def)

text \<open>
  The outcome of a refresh describes the store it leaves: an authenticated outcome has
  stored exactly the bundle it reports, which is well formed; an anonymous or out-of-sync
  outcome has cleared every credential; a transient error has changed no credential's epoch and
  returned the bootstrap to idle; and a superseded run is one during which the epoch changed.
\<close>

theorem refresh_outcome_store:
  "outcome_ok (authEpoch w) (fst (refreshAuthentication env w)) (snd (refreshAuthentication env w))"
  by (rule refresh_outcome_ok) simp

lemma run_login_during_request:
  "a \<le> 3 \<Longrightarrow> \<exists>p \<in> set (during_request env k). is_login_or_logout p \<Longrightarrow> reqs s \<le> k \<Longrightarrow>
   k < reqs (snd (run (refresh_runtime_of env e) a m s)) \<Longrightarrow>
   fst (run (refresh_runtime_of env e) a m s) = superseded
   \<and> reqs (snd (run (refresh_runtime_of env e) a m s)) = k + 1
   \<and> (\<exists>v. snd (run (refresh_runtime_of env e) a m s) = fold apply_op (during_request env k) v)"
proof (induction "budget a m" arbitrary: a m s rule: less_induct)
  case less
  let ?rt = "refresh_runtime_of env e"
  obtain r s1 where req: "request ?rt (getExpectedSID ?rt s) s = (r, s1)" by fastforce
  then have s1: "s1 = fold apply_op (during_request env (reqs s)) (s\<lparr>reqs := reqs s + 1\<rparr>)"
    by (simp add: env_request_def)
  then have n1: "reqs s1 = reqs s + 1" by (simp add: auth_ops.sent_fold)
  have later: "\<not> stale ?rt s1 \<Longrightarrow> \<not> stale ?rt s \<Longrightarrow> reqs s1 \<le> k"
  proof -
    assume "\<not> stale ?rt s1" "\<not> stale ?rt s"
    then have "authEpoch s1 = authEpoch (s\<lparr>reqs := reqs s + 1\<rparr>)" by simp
    then have "k \<noteq> reqs s"
      using auth_ops.epoch_fold_bump [of "during_request env k" "s\<lparr>reqs := reqs s + 1\<rparr>"] less.prems(2) s1
      by auto
    then show "reqs s1 \<le> k" using n1 less.prems(3) by simp
  qed
  from req show ?case
  proof (cases rule: run_cases [where a = a and m = m])
    case stale
    then show ?thesis using less.prems by simp
  next
    case stale_after
    then have "k = reqs s" using less.prems(3,4) n1 by simp
    then show ?thesis using stale_after s1 n1 by auto
  next
    case (settle out s')
    then show ?thesis using later less.prems(4) refresh.settle_count [OF settle(3)] by simp
  next
    case delay
    have "reqs (wait ?rt (refreshRaceDelays ! a) s1) \<le> k"
      using later delay by (simp add: auth_ops.sent_fold)
    then show ?thesis
      using less.hyps [of "a + 1" m] less.prems delay by (simp add: budget_def)
  next
    case retry
    have "reqs (clear ?rt False (Some BIdle) s1) \<le> k" using later retry by simp
    then show ?thesis
      using less.hyps [of 0 False] less.prems retry by (simp add: budget_def)
  qed
qed

text \<open>
  C1. A login or logout that happens while a refresh request is in flight wins: that request is
  the last one, the run ends as superseded, and the world is exactly what the other code
  left. When it happens before the browser lock is granted, no request is sent at all.
\<close>

theorem login_beats_refresh:
  assumes login: "\<exists>p \<in> set (during_request env k). is_login_or_logout p"
    and sent: "reqs w \<le> k" "k < reqs (snd (refreshAuthentication env w))"
  shows "fst (refreshAuthentication env w) = superseded
    \<and> reqs (snd (refreshAuthentication env w)) = k + 1
    \<and> (\<exists>v. snd (refreshAuthentication env w) = fold apply_op (during_request env k) v)"
  using run_login_during_request [OF _ login, of 0 "fold apply_op (during_lock env) w" "authEpoch w" True]
    sent
  by (simp add: refreshAuthentication_def runRefresh_def createRefreshRunner_def auth_ops.sent_fold)

text \<open>A logout while the first request is in flight.\<close>

definition logout_env :: refresh_env where
  "logout_env = no_ops\<lparr>during_request := \<lambda>n. if n = 0 then [Op_Clear True BComplete] else []\<rparr>"

lemma logout_env_run:
  "refreshAuthentication logout_env init_world = (superseded, init_world\<lparr>store := reset BComplete init_store, authEpoch := 1, reqs := 1\<rparr>)"
  by (simp add: refreshAuthentication_def runRefresh_def createRefreshRunner_def run.simps logout_env_def
      no_ops_def env_request_def init_world_def clearAuthentication_def current_sid_def init_store_def)

theorem login_beats_refresh_witness:
  "fst (refreshAuthentication logout_env init_world) = superseded"
  using login_beats_refresh [of logout_env 0 init_world] logout_env_run
  by (simp add: logout_env_def init_world_def)

subsection \<open>Bootstrap, headers and rotation\<close>

lemma refresh_split: "\<exists>out w'. refreshAuthentication env w = (out, w') \<and> outcome_ok (authEpoch w) out w'"
  using refresh_outcome_ok by (cases "refreshAuthentication env w") blast

lemma setBootstrapState_simps [simp]:
  "user (setBootstrapState b s) = user s" "accessToken (setBootstrapState b s) = accessToken s"
  "accessExpiresAt (setBootstrapState b s) = accessExpiresAt s" "session (setBootstrapState b s) = session s"
  "bootstrapState (setBootstrapState b s) = b"
  by (simp_all add: setBootstrapState_def)

text \<open>
  The bootstrap of a tab never leaves it in the state \<open>checking\<close> unless other code took over
  (the epoch changed): an authenticated outcome has its bundle in the store and the bootstrap
  complete, an anonymous or out-of-sync outcome has it complete, a transient error has it idle,
  so that the next navigation tries again.
\<close>

theorem bootstrap_settles:
  "case bootstrapAuthentication env now w of
     (Authenticated b, w') \<Rightarrow> holds_bundle b (store w') \<and> bootstrapState (store w') = BComplete
   | (Transient_Error t, w') \<Rightarrow>
       if t = Superseded then authEpoch w' \<noteq> authEpoch w else bootstrapState (store w') = BIdle
   | (_, w') \<Rightarrow> bootstrapState (store w') = BComplete"
proof (cases "currentValidAuthBundle now w")
  case None
  obtain out w' where "refreshAuthentication env (w\<lparr>store := setBootstrapState BChecking (store w)\<rparr>) = (out, w')"
      "outcome_ok (authEpoch w) out w'"
    using refresh_split [of env "w\<lparr>store := setBootstrapState BChecking (store w)\<rparr>"] by auto
  with None show ?thesis
    by (cases out) (auto simp: bootstrapAuthentication_def Let_def)
next
  case (Some b)
  then show ?thesis
    by (auto simp: bootstrapAuthentication_def currentValidAuthBundle_def holds_bundle_def Let_def
        split: option.splits if_splits)
qed

lemma getCommonHeaders_token:
  "accessToken (store w) = Some t \<Longrightarrow> t \<noteq> [] \<Longrightarrow>
   getCommonHeaders w = [(''Content-Type'', ''application/json''), (''Authorization'', ''Bearer '' @ t)]"
  by (simp add: getCommonHeaders_def)

text \<open>
  \<open>getFreshAuthHeaders\<close> never returns headers without a credential: it returns the bearer
  token of the store it leaves, or throws. It throws \<open>Session expired!\<close> only after a refresh that
  cleared every credential, and in both error cases the store holds no token that is still valid.
\<close>

theorem fresh_headers:
  "case getFreshAuthHeaders env now now' w of
     (Inr h, w') \<Rightarrow> \<exists>t. t \<noteq> [] \<and> accessToken (store w') = Some t
        \<and> h = [(''Content-Type'', ''application/json''), (''Authorization'', ''Bearer '' @ t)]
   | (Inl Session_Expired, w') \<Rightarrow> cleared (store w') \<and> bootstrapState (store w') = BComplete
   | (Inl (Request_Failed t), w') \<Rightarrow> \<not> token_valid_after now' w'"
proof -
  have tok: "token_valid_after l v \<Longrightarrow> \<exists>t. t \<noteq> [] \<and> accessToken (store v) = Some t
      \<and> getCommonHeaders v = [(''Content-Type'', ''application/json''), (''Authorization'', ''Bearer '' @ t)]"
    for l v
    using getCommonHeaders_token by (auto simp: token_valid_after_def split: option.splits)
  obtain out w' where r: "refreshAuthentication env w = (out, w')" and ok: "outcome_ok (authEpoch w) out w'"
    using refresh_split by blast
  show ?thesis
  proof (cases "token_valid_after (now + 60) w")
    case True
    then show ?thesis using tok by (simp add: getFreshAuthHeaders_def Let_def)
  next
    case False
    then show ?thesis
      using r ok tok [of now' w'] getCommonHeaders_token [of w']
      by (cases out) (auto simp: getFreshAuthHeaders_def holds_bundle_def Let_def)
  qed
qed

text \<open>
  A token rotation replaces only the token of the running session: it keeps the user and the
  session id, tells no other tab, and supersedes a refresh in flight. It is refused when the
  response is malformed, when nobody is signed in, and when it is for another session.
\<close>

theorem rotation_keeps_session:
  "case applyAuthRotation v w of
     Inr w' \<Rightarrow> isAuthTokenRotation v \<and> is_some (user (store w)) \<and> user (store w') = user (store w)
       \<and> current_sid w' = current_sid w \<and> outbox w' = outbox w \<and> authEpoch w' = authEpoch w + 1
       \<and> accessToken (store w') = str_prop v ''access_token'' \<and> bootstrapState (store w') = BComplete
       \<and> map_option current (session (store w')) = Some True
   | Inl Invalid_Rotation \<Rightarrow> \<not> isAuthTokenRotation v
   | Inl No_Active_Session \<Rightarrow> user (store w) = None \<or> session (store w) = None
   | Inl Session_Mismatch \<Rightarrow> str_prop (the (jget v ''session'')) ''sid'' \<noteq> current_sid w"
  by (auto simp: applyAuthRotation_def applyAuthBundle_def setBundle_def current_sid_def Let_def
      isAuthTokenRotation_def view_session_def hasValidTokenFields_def isLoginSession_def is_some_def
      split: if_splits option.splits)

subsection \<open>The shared promise\<close>

text \<open>The steps a flight has left at most.\<close>

fun work_left :: "await \<Rightarrow> nat" where
  "work_left Await_Lock = 16"
| "work_left (Await_Response a m) = 2 * budget a m - 1"
| "work_left (Await_Delay a m) = 2 * budget a m"

definition flight_ok :: "tab \<Rightarrow> bool" where
  "flight_ok t \<longleftrightarrow>
     store_ok (store (world t))
     \<and> (case flight t of
          None \<Rightarrow> True
        | Some (e, p) \<Rightarrow> e \<le> authEpoch (world t)
            \<and> (case p of Await_Lock \<Rightarrow> True | Await_Response a m \<Rightarrow> a \<le> 3 | Await_Delay a m \<Rightarrow> a \<le> 3))"

lemma enter_run_ok:
  "store_ok (store w) \<Longrightarrow> e \<le> authEpoch w \<Longrightarrow> a \<le> 3 \<Longrightarrow> flight_ok (enter_run e a m w t)"
  by (simp add: enter_run_def flight_ok_def)

lemma resume_run_ok:
  assumes "store_ok (store (world t))" "e \<le> authEpoch (world t)" "a \<le> 3"
  shows "flight_ok (resume_run e a m r t)"
proof (cases "handle_response (refresh_runtime_of no_ops e) a m r (world t)")
  case (Settle out w)
  then show ?thesis
    using assms refresh.settle_inv [of "world t" no_ops e a m r out w]
    by (simp add: resume_run_def flight_ok_def)
next
  case (After_Delay d a' m' w)
  then show ?thesis
    using assms handle_response_delay [OF After_Delay] by (auto simp: resume_run_def flight_ok_def)
next
  case (Retry a' m' w)
  then have "w = runtime_clear False (Some BIdle) (world t)" "a' = 0"
    using handle_response_retry [OF Retry] by auto
  then show ?thesis
    using assms Retry by (auto simp: resume_run_def flight_ok_def runtime_clear_def enter_run_def)
qed

lemma runner_step_ok: "runner_step t t' \<Longrightarrow> flight_ok t \<Longrightarrow> flight_ok t'"
  by (erule runner_stepE) (auto simp: flight_ok_def [of t] intro: enter_run_ok resume_run_ok)

lemma tab_reach_ok: "tab_reach t \<Longrightarrow> flight_ok t"
proof (induction rule: tab_reach.induct)
  case init
  then show ?case by (simp add: flight_ok_def init_tab_def init_world_def)
next
  case (call t)
  then show ?case by (auto simp: flight_ok_def call_refresh_def split: option.splits)
next
  case (other t p)
  then show ?case
    using auth_ops.ok_step [of "world t" p] auth_ops.epoch_step [of "world t" p]
    by (auto simp: flight_ok_def split: option.splits)
qed (rule runner_step_ok)

text \<open>The work a tab has left: none without a flight.\<close>

definition tab_work :: "tab \<Rightarrow> nat" where
  "tab_work t = (case flight t of None \<Rightarrow> 0 | Some (e, p) \<Rightarrow> work_left p)"

lemma budget_pos: "a \<le> 3 \<Longrightarrow> 0 < budget a m"
  by (simp add: budget_def)

lemma tab_work_enter: "tab_work (enter_run e a m w t) \<le> 2 * budget a m - 1"
  by (simp add: enter_run_def tab_work_def)

lemma tab_work_resume: "a \<le> 3 \<Longrightarrow> tab_work (resume_run e a m r t) < 2 * budget a m - 1"
proof (cases "handle_response (refresh_runtime_of no_ops e) a m r (world t)")
  case (After_Delay d a' m' w)
  with handle_response_delay [OF After_Delay] show ?thesis
    by (auto simp: resume_run_def tab_work_def budget_def)
next
  case (Retry a' m' w)
  then have "m" "a' = 0" "\<not> m'" using handle_response_retry [OF Retry] by auto
  then show "a \<le> 3 \<Longrightarrow> ?thesis"
    using Retry tab_work_enter [of e 0 False w t]
    by (auto simp: resume_run_def tab_work_def [of "_\<lparr>flight := None, settled := _\<rparr>"] budget_def)
qed (auto simp: resume_run_def tab_work_def budget_def)

lemma runner_step_work: "runner_step t t' \<Longrightarrow> flight_ok t \<Longrightarrow> tab_work t' < tab_work t"
proof (erule runner_stepE)
  fix e assume "t' = enter_run e 0 True (world t) t" "flight t = Some (e, Await_Lock)"
  then show ?thesis using tab_work_enter [of e 0 True "world t" t] by (simp add: tab_work_def [of t] budget_def)
next
  fix e a m r assume "flight_ok t" "t' = resume_run e a m r t" "flight t = Some (e, Await_Response a m)"
  then show ?thesis using tab_work_resume [of a e m r t] by (simp add: flight_ok_def tab_work_def [of t])
next
  fix e a m assume "flight_ok t" "t' = enter_run e a m (world t) t" "flight t = Some (e, Await_Delay a m)"
  then show ?thesis
    using tab_work_enter [of e a m "world t" t] budget_pos [of a m]
    by (simp add: flight_ok_def tab_work_def [of t])
qed

lemma work_left_le: "work_left p \<le> 16"
proof -
  have "budget a m \<le> 8" for a m using diff_le_self [of 4 a] unfolding budget_def by (cases m) auto
  then have "2 * budget a m \<le> 16" for a m using mult_le_mono2 [of "budget a m" 8 2] by simp
  then show ?thesis by (cases p) (auto intro: le_trans [OF diff_le_self])
qed

text \<open>
  C6. In every reachable state of a tab, however calls, logins, logouts and responses are
  interleaved: the store is consistent, the flight's epoch is not from the future, and each step
  of the runner brings the shared promise closer to being settled, in at most sixteen steps. A
  flight whose epoch is out of date settles as superseded at its next step and changes nothing.
\<close>

theorem single_flight:
  assumes "tab_reach t" and "runner_step t t'"
  shows "store_ok (store (world t')) \<and> tab_work t' < tab_work t \<and> tab_work t \<le> 16
    \<and> (\<forall>e p. flight t = Some (e, p) \<and> e \<noteq> authEpoch (world t) \<longrightarrow>
         t' = t\<lparr>flight := None, settled := settled t @ [superseded]\<rparr>)"
proof (intro conjI allI impI)
  have ok: "flight_ok t" using tab_reach_ok assms(1) by blast
  show "store_ok (store (world t'))" using runner_step_ok [OF assms(2) ok] by (simp add: flight_ok_def)
  show "tab_work t' < tab_work t" by (rule runner_step_work [OF assms(2) ok])
  show "tab_work t \<le> 16"
    using work_left_le by (simp add: tab_work_def split: option.split prod.split)
  fix e p assume "flight t = Some (e, p) \<and> e \<noteq> authEpoch (world t)"
  then show "t' = t\<lparr>flight := None, settled := settled t @ [superseded]\<rparr>"
    using assms(2) by (auto simp: enter_run_def resume_run_def elim!: runner_stepE)
qed

text \<open>A refresh is started, a logout happens before the lock is granted.\<close>

theorem single_flight_witness:
  "let t = (call_refresh init_tab)\<lparr>world := clearAuthentication True BComplete init_world\<rparr>
   in tab_reach t \<and> (\<exists>t'. runner_step t t' \<and> flight t' = None \<and> settled t' = [superseded])"
proof -
  let ?t = "(call_refresh init_tab)\<lparr>world := clearAuthentication True BComplete init_world\<rparr>"
  have w: "world (call_refresh init_tab) = init_world"
    by (simp add: call_refresh_def init_tab_def)
  have f: "flight ?t = Some (0, Await_Lock)" "settled ?t = []" "authEpoch (world ?t) = 1"
    by (simp_all add: call_refresh_def init_tab_def init_world_def)
  have r: "tab_reach ?t"
    using tab_reach.other [OF tab_reach.call [OF tab_reach.init], of "Op_Clear True BComplete"] w by simp
  have s: "runner_step ?t (enter_run 0 0 True (world ?t) ?t)" by (rule runner_step.locked [OF f(1)])
  then have "enter_run 0 0 True (world ?t) ?t = ?t\<lparr>flight := None, settled := settled ?t @ [superseded]\<rparr>"
    using single_flight [OF r s] f(1,3) by fastforce
  then show ?thesis using r s f(2) unfolding Let_def by (metis append_Nil tab.select_convs(2,3) tab.surjective tab.update_convs(2,3))
qed

end
