(* ===== verification/Auth_Client.thy ===== *)
theory Auth_Client
  imports Auth_Session
begin

text \<open>
  The clients of the session: synchronisation of the tabs of one browser
  (\<open>web/src/lib/auth-session-sync.ts\<close> with its listener in \<open>web/src/routes/__root.tsx\<close>), the
  interceptors and the GET deduplication of the HTTP client (\<open>web/src/lib/http-client.ts\<close>), and the
  OAuth callback mode (\<open>web/src/features/auth/lib/oauth-callback-mode.ts\<close>).

  A sync event travels as the JSON value it is posted as (\<open>BroadcastChannel\<close>); its nonce and the
  clock are arguments. The interceptors are functions of the answer and the request configuration;
  toasts and navigations are the lists of effects they return, and \<open>api_request\<close> sends a request
  through all of them.
\<close>

section \<open>auth-session-sync.ts\<close>

definition kind_text :: "sync_kind \<Rightarrow> string" where
  "kind_text k = (case k of Authenticated_Event \<Rightarrow> ''authenticated'' | Signed_Out_Event \<Rightarrow> ''signed_out'')"

definition isAuthSessionSyncEvent :: "json \<Rightarrow> bool" where
  "isAuthSessionSyncEvent v =
     (is_record v
      \<and> (str_prop v ''kind'' = Some ''authenticated'' \<or> str_prop v ''kind'' = Some ''signed_out'')
      \<and> (case str_prop v ''sid'' of None \<Rightarrow> False | Some s \<Rightarrow> s \<noteq> [])
      \<and> is_some (str_prop v ''source'') \<and> is_some (str_prop v ''nonce'')
      \<and> is_some (num_prop v ''timestamp''))"

definition sync_event :: "sync_kind \<Rightarrow> string \<Rightarrow> string \<Rightarrow> string \<Rightarrow> int \<Rightarrow> json" where
  "sync_event kind s source nonce now =
     JObj [(''kind'', JStr (kind_text kind)), (''sid'', JStr s), (''source'', JStr source),
           (''nonce'', JStr nonce), (''timestamp'', JNum (of_int_dec now))]"

text \<open>\<open>Math.abs(now - timestamp) < 60000\<close>, exactly.\<close>

definition recent :: "int \<Rightarrow> dec \<Rightarrow> bool" where
  "recent now d = (dec_less (of_int_dec (now - 60000)) d \<and> dec_less d (of_int_dec (now + 60000)))"

definition deliver :: "string \<Rightarrow> int \<Rightarrow> json \<Rightarrow> (sync_kind \<times> string) option" where
  "deliver authSyncSource now v =
     (if isAuthSessionSyncEvent v \<and> str_prop v ''source'' \<noteq> Some authSyncSource
         \<and> recent now (the (num_prop v ''timestamp''))
      then Some (if str_prop v ''kind'' = Some ''authenticated'' then Authenticated_Event else Signed_Out_Event,
                 the (str_prop v ''sid''))
      else None)"

section \<open>The listener of the root route\<close>

datatype page_effect = Reload | Navigate_Sign_In | Clear_Queries

definition on_sync_event :: "sync_kind \<times> string \<Rightarrow> auth_world \<Rightarrow> auth_world \<times> page_effect list" where
  "on_sync_event event w =
     (let currentSID = current_sid w
      in case fst event of
           Authenticated_Event \<Rightarrow>
             if Some (snd event) = currentSID then (w, [])
             else (if opt_str currentSID \<noteq> [] then clearAuthentication False BComplete w else w, [Reload])
         | Signed_Out_Event \<Rightarrow>
             if opt_str currentSID \<noteq> [] \<and> Some (snd event) = currentSID
             then (clearAuthentication False BComplete w, [Clear_Queries, Navigate_Sign_In])
             else (w, []))"

definition receive :: "string \<Rightarrow> int \<Rightarrow> json \<Rightarrow> auth_world \<Rightarrow> auth_world \<times> page_effect list" where
  "receive source now v w =
     (case deliver source now v of None \<Rightarrow> (w, []) | Some e \<Rightarrow> on_sync_event e w)"

section \<open>http-client.ts: GET deduplication\<close>

text \<open>
  Promises are numbered in the order the requests are sent; \<open>in_flight\<close> is the map \<open>inFlightGet\<close>.
\<close>

record get_state =
  in_flight :: "(string \<times> nat) list"
  next_request :: nat

definition get_key :: "string option \<Rightarrow> string \<Rightarrow> string option \<Rightarrow> string" where
  "get_key s url params =
     str_or (opt_str s) ''anonymous'' @ '':'' @ url @ ''?''
     @ (case params of Some p \<Rightarrow> p | None \<Rightarrow> ''{}'')"

definition api_get ::
  "auth_world \<Rightarrow> string \<Rightarrow> bool \<Rightarrow> string option \<Rightarrow> get_state \<Rightarrow> nat \<times> get_state" where
  "api_get w url disableDuplicate params g =
     (if disableDuplicate then (next_request g, g\<lparr>next_request := next_request g + 1\<rparr>)
      else (let key = get_key (current_sid w) url params
        in case map_of (in_flight g) key of
             Some existingRequest \<Rightarrow> (existingRequest, g)
           | None \<Rightarrow>
               (next_request g,
                g\<lparr>in_flight := AList.update key (next_request g) (in_flight g),
                  next_request := next_request g + 1\<rparr>)))"

text \<open>The request of a key settles (the \<open>finally\<close> callback).\<close>

definition get_settled :: "string \<Rightarrow> get_state \<Rightarrow> get_state" where
  "get_settled key g = g\<lparr>in_flight := AList.delete key (in_flight g)\<rparr>"

section \<open>http-client.ts: interceptors\<close>

record api_config =
  cfg_headers :: "(string \<times> string) list"
  skipBusinessError :: bool
  skipErrorHandler :: bool
  skipAuthRefresh :: bool
  authRetry :: bool
  acceptAuthRotation :: bool

datatype http_effect = Toast_Session_Expired | Toast_Error | Redirect_Sign_In

text \<open>The request interceptor adds the token of the store.\<close>

definition request_interceptor :: "auth_world \<Rightarrow> api_config \<Rightarrow> api_config" where
  "request_interceptor w config =
     (let accessToken = opt_str (accessToken (store w))
      in if accessToken \<noteq> []
         then config\<lparr>cfg_headers := AList.update ''Authorization'' (''Bearer '' @ accessToken) (cfg_headers config)\<rparr>
         else config)"

text \<open>
  The response interceptor on success: an accepted rotation is applied, then a business error is reported. A
  rotation error is thrown to the caller.
\<close>

definition on_response :: "api_config \<Rightarrow> json \<Rightarrow> auth_world \<Rightarrow> rotation_error + http_effect list \<times> auth_world" where
  "on_response config dat w =
     (let rotated = (if acceptAuthRotation config \<and> jget dat ''success'' = Some (JBool True)
            then (case jget dat ''data'' of None \<Rightarrow> Inl Invalid_Rotation | Some v \<Rightarrow> applyAuthRotation v w)
            else Inr w);
          reported = (if \<not> skipBusinessError config \<and> jget dat ''success'' = Some (JBool False) then [Toast_Error] else [])
      in case rotated of Inl e \<Rightarrow> Inl e | Inr w' \<Rightarrow> Inr (reported, w'))"

text \<open>
  The response interceptor on an error: \<open>Some config\<close> is a request to send again, \<open>None\<close> rethrows. The
  status is \<open>None\<close> when there was no response.
\<close>

definition on_error ::
  "refresh_env \<Rightarrow> api_config option \<Rightarrow> nat option \<Rightarrow> auth_world \<Rightarrow> api_config option \<times> http_effect list \<times> auth_world" where
  "on_error env config st w =
     (let quiet = (case config of None \<Rightarrow> False | Some c \<Rightarrow> skipErrorHandler c)
      in if st = Some 401 then
           (case config of
              Some c \<Rightarrow>
                if \<not> skipAuthRefresh c \<and> \<not> authRetry c then
                  (let c = c\<lparr>authRetry := True\<rparr>; (outcome, w') = refreshAuthentication env w
                   in case outcome of
                        Authenticated b \<Rightarrow>
                          (let token = opt_str (accessToken (store w'))
                           in (Some (if token \<noteq> []
                                 then c\<lparr>cfg_headers := AList.update ''Authorization'' (''Bearer '' @ token) (cfg_headers c)\<rparr>
                                 else c), [], w'))
                      | Transient_Error e \<Rightarrow> (None, [], w')
                      | _ \<Rightarrow> (None, (if quiet then [] else [Toast_Session_Expired]) @ [Redirect_Sign_In], w'))
                else if authRetry c
                then (None, (if quiet then [] else [Toast_Session_Expired]) @ [Redirect_Sign_In],
                      clearAuthentication False BComplete w)
                else (None, if quiet then [] else [Toast_Session_Expired], w)
            | None \<Rightarrow> (None, [Toast_Session_Expired], w))
         else (None, if quiet then [] else [Toast_Error], w))"

lemma on_error_retry:
  "on_error env (Some c) st w = (Some c', eff, w') \<Longrightarrow> \<not> authRetry c \<and> authRetry c' \<and> st = Some 401"
  by (auto simp: on_error_def Let_def split: if_splits prod.splits refresh_outcome.splits)

lemma request_interceptor_flags [simp]:
  "authRetry (request_interceptor w c) = authRetry c"
  "skipAuthRefresh (request_interceptor w c) = skipAuthRefresh c"
  "acceptAuthRotation (request_interceptor w c) = acceptAuthRotation c"
  by (simp_all add: request_interceptor_def Let_def)

text \<open>
  A request with its resends, through all interceptors: \<open>server n\<close> is the status and the body the n-th send is
  answered with, \<open>None\<close> when there is no response. A status from 200 to 299 succeeds. The log lists the
  configurations sent.
\<close>

datatype api_result = Answered json | Rejected "nat option" | Rotation_Failed rotation_error

definition succeeds :: "(nat \<times> json) option \<Rightarrow> bool" where
  "succeeds answer \<longleftrightarrow> (case answer of Some (st, dat) \<Rightarrow> 200 \<le> st \<and> st < 300 | None \<Rightarrow> False)"

definition receive_answer :: "api_config \<Rightarrow> json \<Rightarrow> auth_world \<Rightarrow> api_result \<times> http_effect list \<times> auth_world" where
  "receive_answer sent dat w =
     (case on_response sent dat w of
        Inl e \<Rightarrow> (Rotation_Failed e, [], w)
      | Inr (eff, w') \<Rightarrow> (Answered dat, eff, w'))"

function api_request ::
  "(nat \<Rightarrow> (nat \<times> json) option) \<Rightarrow> (nat \<Rightarrow> refresh_env) \<Rightarrow> nat \<Rightarrow> api_config \<Rightarrow> auth_world \<Rightarrow>
     api_result \<times> api_config list \<times> http_effect list \<times> auth_world" where
  "api_request server env n config w =
     (let sent = request_interceptor w config
      in if succeeds (server n)
         then (case receive_answer sent (snd (the (server n))) w of (res, eff, w') \<Rightarrow> (res, [sent], eff, w'))
         else (case on_error (env n) (Some sent) (map_option fst (server n)) w of
             (Some c, eff, w') \<Rightarrow>
               (case api_request server env (n + 1) c w' of (res, log, eff', w'') \<Rightarrow> (res, sent # log, eff @ eff', w''))
           | (None, eff, w') \<Rightarrow> (Rejected (map_option fst (server n)), [sent], eff, w')))"
  by pat_completeness auto

termination
  by (relation "measure (\<lambda>(server, env, n, c, w). if authRetry c then 0 else 1)")
    (auto dest!: on_error_retry [OF sym])

declare api_request.simps [simp del]

section \<open>oauth-callback-mode.ts\<close>

text \<open>
  \<open>sessionStorage\<close> is a map; a storage that throws on every access is \<open>Blocked\<close>, one that drops what
  is written (a full quota reported silently) is \<open>Dropping\<close>.
\<close>

datatype mode_storage = Storage "(string \<times> string) list" | Dropping "(string \<times> string) list" | Blocked

definition OAUTH_BIND_FLOW_KEY_PREFIX :: string where
  "OAUTH_BIND_FLOW_KEY_PREFIX = ''oauth_bind_flow:''"

fun getItem :: "mode_storage \<Rightarrow> string \<Rightarrow> string option option" where
  "getItem (Storage m) k = Some (map_of m k)"
| "getItem (Dropping m) k = Some (map_of m k)"
| "getItem Blocked k = None"

fun setItem :: "mode_storage \<Rightarrow> string \<Rightarrow> string \<Rightarrow> mode_storage option" where
  "setItem (Storage m) k v = Some (Storage (AList.update k v m))"
| "setItem (Dropping m) k v = Some (Dropping m)"
| "setItem Blocked k v = None"

text \<open>The result and the storage afterwards.\<close>

definition markOAuthBindPopup :: "mode_storage option \<Rightarrow> string \<Rightarrow> string \<Rightarrow> bool \<times> mode_storage option" where
  "markOAuthBindPopup storage provider state =
     (case storage of
        None \<Rightarrow> (False, storage)
      | Some s \<Rightarrow>
          if provider = [] \<or> state = [] then (False, storage)
          else (let key = OAUTH_BIND_FLOW_KEY_PREFIX @ provider
            in case setItem s key state of
                 None \<Rightarrow> (False, storage)
               | Some s' \<Rightarrow> (getItem s' key = Some (Some state), Some s')))"

datatype callback_mode = Login_Mode | Bind_Mode

text \<open>The opener is \<open>None\<close> (absent) or whether it is closed.\<close>

definition resolveOAuthCallbackMode ::
  "string \<Rightarrow> string \<Rightarrow> bool option \<Rightarrow> mode_storage option \<Rightarrow> callback_mode" where
  "resolveOAuthCallbackMode provider state opener storage =
     (case (opener, storage) of
        (Some closed, Some s) \<Rightarrow>
          if closed \<or> state = [] then Login_Mode
          else (case getItem s (OAUTH_BIND_FLOW_KEY_PREFIX @ provider) of
              None \<Rightarrow> Login_Mode
            | Some markedState \<Rightarrow> if markedState = Some state then Bind_Mode else Login_Mode)
      | _ \<Rightarrow> Login_Mode)"

section \<open>Properties of the synchronisation\<close>

lemma deliver_event:
  assumes "s \<noteq> []"
  shows "deliver me now (sync_event kind s source nonce sent) =
    (if source \<noteq> me \<and> \<bar>now - sent\<bar> < 60000 then Some (kind, s) else None)"
  using assms
  by (cases kind) (auto simp: deliver_def sync_event_def isAuthSessionSyncEvent_def str_prop_def num_prop_def
      is_some_def recent_def kind_text_def)

text \<open>
  C26. Signing out in one tab signs out exactly the tabs of the same session: the event is
  published, and when another tab receives it within a minute it clears the credentials of a tab
  with that session id and changes nothing in a tab with another one; a tab ignores its own events.
\<close>

theorem sign_out_propagates:
  assumes "current_sid w = Some s" and "s \<noteq> []" and "\<bar>now - sent\<bar> < 60000"
  shows "outbox (clearAuthentication True BComplete w) = outbox w @ [(Signed_Out_Event, s)]
    \<and> receive me now (sync_event Signed_Out_Event s source nonce sent) v =
      (if source \<noteq> me \<and> current_sid v = Some s
       then (clearAuthentication False BComplete v, [Clear_Queries, Navigate_Sign_In]) else (v, []))"
  using assms
  by (auto simp: receive_def deliver_event on_sync_event_def opt_str_def clearAuthentication_def
      publishAuthSessionEvent_def Let_def)

text \<open>A session for the witnesses.\<close>

definition sample_session :: login_session where
  "sample_session = \<lparr>sid = ''s1'', current = True, login_method = ''password'', ip = ''127.0.0.1'',
     user_agent = ''ua'', created_at = Dec 1 0, last_active_at = Dec 2 0, expires_at = Dec 9 9\<rparr>"

definition sample_bundle :: auth_bundle where
  "sample_bundle = \<lparr>access_token = ''tok'', token_type = ''Bearer'', access_expires_at = Dec 9 9,
     bundle_user = JObj [(''id'', JNum (Dec 1 0))], bundle_session = sample_session\<rparr>"

lemma current_sid_sample [simp]:
  "current_sid (applyAuthBundle sample_bundle b w) = Some ''s1''"
  by (simp add: current_sid_def setBundle_def sample_bundle_def sample_session_def)

theorem sign_out_propagates_witness:
  "snd (receive ''B'' 1005 (sync_event Signed_Out_Event ''s1'' ''A'' ''n'' 1000)
     (applyAuthBundle sample_bundle True init_world)) = [Clear_Queries, Navigate_Sign_In]"
  using sign_out_propagates [of "applyAuthBundle sample_bundle True init_world" "''s1''" 1005 1000 "''B''" "''A''"
      "''n''" "applyAuthBundle sample_bundle True init_world"]
  by simp

text \<open>
  Receiving an event, whatever was posted on the channel, never publishes one (tabs do not
  echo each other), never signs a tab in, and clears either all credentials or none.
\<close>

theorem receive_never_echoes:
  "case receive me now j v of (v', eff) \<Rightarrow>
     outbox v' = outbox v \<and> (v' = v \<or> cleared (store v') \<and> authEpoch v' = authEpoch v + 1)"
  by (auto simp: receive_def on_sync_event_def clearAuthentication_def Let_def
      split: option.splits sync_kind.splits)

section \<open>Properties of the HTTP client\<close>

lemma append_sep_eq:
  "a @ [c] @ x = b @ [c] @ y \<Longrightarrow> c \<notin> set a \<Longrightarrow> c \<notin> set b \<Longrightarrow> a = b \<and> x = y"
  by (induction a arbitrary: b) (auto simp: Cons_eq_append_conv append_eq_Cons_conv)

text \<open>Session ids are hexadecimal or UUID strings: no colon, and not the placeholder.\<close>

definition plain_sid :: "string option \<Rightarrow> bool" where
  "plain_sid s = (case s of None \<Rightarrow> True | Some t \<Rightarrow> t \<noteq> [] \<and> CHR '':'' \<notin> set t \<and> t \<noteq> ''anonymous'')"

lemma get_key_sid:
  assumes "get_key s url p = get_key t url' p'" "plain_sid s" "plain_sid t"
  shows "s = t"
proof -
  let ?n = "\<lambda>s. str_or (opt_str s) ''anonymous''"
  have free: "plain_sid s \<Longrightarrow> CHR '':'' \<notin> set (?n s)" for s
    by (auto simp: plain_sid_def str_or_def opt_str_def split: option.splits)
  have "?n s = ?n t"
    using append_sep_eq [of "?n s" "CHR '':''" _ "?n t"] assms free by (auto simp: get_key_def)
  then show ?thesis
    using assms by (auto simp: plain_sid_def str_or_def opt_str_def split: option.splits if_splits)
qed

text \<open>A run of the client: each in-flight entry belongs to the session that sent it.\<close>

datatype get_event = Get auth_world string bool "string option" | Settled string

fun get_run :: "get_event list \<Rightarrow> get_state \<times> (nat \<Rightarrow> string option) \<Rightarrow> get_state \<times> (nat \<Rightarrow> string option)" where
  "get_run [] gs = gs"
| "get_run (Settled k # es) (g, owner) = get_run es (get_settled k g, owner)"
| "get_run (Get w url d p # es) (g, owner) =
     (case api_get w url d p g of (n, g') \<Rightarrow>
        get_run es (g', if n = next_request g then owner(n := current_sid w) else owner))"

definition get_inv :: "get_state \<times> (nat \<Rightarrow> string option) \<Rightarrow> bool" where
  "get_inv gs \<longleftrightarrow> (case gs of (g, owner) \<Rightarrow> \<forall>(k, n) \<in> set (in_flight g).
     n < next_request g \<and> plain_sid (owner n) \<and> (\<exists>url p. k = get_key (owner n) url p))"

fun plain_event :: "get_event \<Rightarrow> bool" where
  "plain_event (Get w url d p) = plain_sid (current_sid w)"
| "plain_event (Settled k) = True"

lemma get_inv_api_get:
  assumes "get_inv (g, owner)" "plain_sid (current_sid w)" "api_get w url d p g = (n, g')"
  shows "get_inv (g', if n = next_request g then owner(n := current_sid w) else owner)"
    and "(if n = next_request g then current_sid w else owner n) = current_sid w"
proof -
  let ?k = "get_key (current_sid w) url p"
  have old: "\<And>m. map_of (in_flight g) ?k = Some m \<Longrightarrow> m < next_request g \<and> owner m = current_sid w"
    using assms(1,2) get_key_sid by (fastforce simp: get_inv_def dest!: map_of_SomeD)
  show "(if n = next_request g then current_sid w else owner n) = current_sid w"
    using assms(3) old by (auto simp: api_get_def Let_def split: if_splits option.splits)
  show "get_inv (g', if n = next_request g then owner(n := current_sid w) else owner)"
    using assms old set_update_subset [of ?k "next_request g" "in_flight g"]
    by (auto simp: api_get_def Let_def get_inv_def split: if_splits option.splits)
      (fastforce dest!: subsetD)+
qed

lemma get_run_inv: "get_inv gs \<Longrightarrow> list_all plain_event es \<Longrightarrow> get_inv (get_run es gs)"
proof (induction es gs rule: get_run.induct)
  case (2 k es g owner)
  have "set (AList.delete k (in_flight g)) \<subseteq> set (in_flight g)" by (auto simp: AList.delete_eq)
  then have "get_inv (get_settled k g, owner)"
    using 2(2) by (auto simp: get_inv_def get_settled_def)
  then show ?case using 2 by simp
next
  case (3 w url d p es g owner)
  obtain n g' where a: "api_get w url d p g = (n, g')" by fastforce
  show ?case using 3 a get_inv_api_get(1) [OF 3(2) _ a] by simp
qed simp

text \<open>
  C27. Deduplicated GET requests are never shared between sessions: after any history of requests
  and settlements, the promise \<open>api.get\<close> returns was sent under the session of the caller.
\<close>

theorem get_dedup_per_session:
  assumes "list_all plain_event es" and "plain_sid (current_sid w)"
  shows "case get_run es (\<lparr>in_flight = [], next_request = 0\<rparr>, \<lambda>n. None) of (g, owner) \<Rightarrow>
    case api_get w url d p g of (n, g') \<Rightarrow>
      if n = next_request g then True else owner n = current_sid w"
proof -
  let ?gs = "get_run es (\<lparr>in_flight = [], next_request = 0\<rparr>, \<lambda>n. None)"
  obtain g owner where gs: "?gs = (g, owner)" by fastforce
  obtain n g' where a: "api_get w url d p g = (n, g')" by fastforce
  have "get_inv (g, owner)"
    using get_run_inv [of "(\<lparr>in_flight = [], next_request = 0\<rparr>, \<lambda>n. None)" es] assms(1) gs
    by (simp add: get_inv_def)
  then show ?thesis using get_inv_api_get(2) [OF _ assms(2) a] gs a by auto
qed

lemma plain_sid_sample: "plain_sid (current_sid init_world)" "plain_sid (Some ''s1'')"
  by (simp_all add: plain_sid_def current_sid_def init_world_def init_store_def)

theorem get_dedup_per_session_witness:
  "case get_run [Get init_world ''/api/user/self'' False None] (\<lparr>in_flight = [], next_request = 0\<rparr>, \<lambda>n. None) of (g, owner) \<Rightarrow>
    case api_get (applyAuthBundle sample_bundle True init_world) ''/api/user/self'' False None g of (n, g') \<Rightarrow>
      if n = next_request g then True
      else owner n = current_sid (applyAuthBundle sample_bundle True init_world)"
  using get_dedup_per_session [of "[Get init_world ''/api/user/self'' False None]"
      "applyAuthBundle sample_bundle True init_world" "''/api/user/self''" False None] plain_sid_sample
  by simp

text \<open>
  What a delivered answer does to the session. Only an accepted rotation changes it: the token and the session of
  the rotation are stored, for the user and the session id that were signed in.
\<close>

definition rotated :: "api_config \<Rightarrow> json \<Rightarrow> auth_world \<Rightarrow> auth_world \<Rightarrow> bool" where
  "rotated c dat w w' \<longleftrightarrow>
     (if acceptAuthRotation c \<and> jget dat ''success'' = Some (JBool True)
      then \<exists>v b. jget dat ''data'' = Some v \<and> str_prop v ''access_token'' = Some (access_token b)
        \<and> w' = applyAuthBundle b False w
        \<and> current_sid w = Some (sid (bundle_session b)) \<and> user (store w) = Some (bundle_user b)
      else w' = w)"

lemma rotation_bundle:
  "applyAuthRotation v w = Inr w' \<Longrightarrow> \<exists>b. str_prop v ''access_token'' = Some (access_token b) \<and> w' = applyAuthBundle b False w
     \<and> current_sid w = Some (sid (bundle_session b)) \<and> user (store w) = Some (bundle_user b)"
  by (rule exI [of _ "\<lparr>access_token = the (str_prop v ''access_token''), token_type = the (str_prop v ''token_type''),
      access_expires_at = the (num_prop v ''access_expires_at''), bundle_user = the (user (store w)),
      bundle_session = view_session (the (jget v ''session''))\<rparr>"])
    (auto simp: applyAuthRotation_def isAuthTokenRotation_def hasValidTokenFields_def Let_def current_sid_def is_some_def
      split: if_splits option.splits)

text \<open>The caller gets the answer, or the error of its rotation, which changes nothing.\<close>

definition delivered :: "api_config \<Rightarrow> json \<Rightarrow> auth_world \<Rightarrow> api_result \<Rightarrow> auth_world \<Rightarrow> bool" where
  "delivered c dat w res w' \<longleftrightarrow>
     res = Answered dat \<and> rotated c dat w w' \<or> (\<exists>e. res = Rotation_Failed e \<and> acceptAuthRotation c \<and> w' = w)"

lemma receive_answer_delivered: "receive_answer c dat w = (res, eff, w') \<Longrightarrow> delivered c dat w res w'"
proof (cases "acceptAuthRotation c \<and> jget dat ''success'' = Some (JBool True)")
  case False
  then show "receive_answer c dat w = (res, eff, w') \<Longrightarrow> ?thesis"
    by (auto simp: receive_answer_def on_response_def Let_def delivered_def rotated_def)
next
  case True
  then show "receive_answer c dat w = (res, eff, w') \<Longrightarrow> ?thesis"
    by (auto simp: receive_answer_def on_response_def Let_def delivered_def rotated_def
        dest!: rotation_bundle split: option.splits sum.splits)
qed

definition answer_status :: "(nat \<times> json) option \<Rightarrow> nat option" where
  "answer_status = map_option fst"

text \<open>What follows from the last send: an answer is delivered, and a rejection keeps the session unless it is a 401.\<close>

definition concluded :: "(nat \<times> json) option \<Rightarrow> api_config \<Rightarrow> auth_world \<Rightarrow> api_result \<Rightarrow> auth_world \<Rightarrow> bool" where
  "concluded answer c w res w' \<longleftrightarrow>
     (if succeeds answer then delivered c (snd (the answer)) w res w'
      else res = Rejected (answer_status answer)
        \<and> (answer_status answer \<noteq> Some 401 \<longrightarrow> w' = w))"

definition signed_out :: "auth_world \<Rightarrow> auth_world \<Rightarrow> bool" where
  "signed_out w w' \<longleftrightarrow> cleared (store w') \<and> bootstrapState (store w') = BComplete \<and> outbox w' = outbox w"

lemma api_request_success:
  "succeeds (server n) \<Longrightarrow> api_request server env n c w = (res, log, eff, w') \<Longrightarrow>
     log = [request_interceptor w c] \<and> delivered (request_interceptor w c) (snd (the (server n))) w res w'"
  by (auto simp: api_request.simps [of server env n c w] Let_def dest: receive_answer_delivered split: prod.splits)

lemma api_request_retried:
  "authRetry c \<Longrightarrow> api_request server env n c w = (res, log, eff, w') \<Longrightarrow>
     log = [request_interceptor w c] \<and> concluded (server n) (request_interceptor w c) w res w'
     \<and> (answer_status (server n) = Some 401 \<longrightarrow> w' = clearAuthentication False BComplete w)"
proof (cases "succeeds (server n)")
  case True
  then have "answer_status (server n) \<noteq> Some 401" by (auto simp: succeeds_def answer_status_def split: option.splits)
  then show "api_request server env n c w = (res, log, eff, w') \<Longrightarrow> ?thesis"
    using api_request_success [of server n, OF True] True by (auto simp: concluded_def)
next
  case False
  then show "authRetry c \<Longrightarrow> api_request server env n c w = (res, log, eff, w') \<Longrightarrow> ?thesis"
    by (auto simp: api_request.simps [of server env n c w] on_error_def Let_def concluded_def answer_status_def split: if_splits)
qed

text \<open>
  C28. A rejected request is sent again at most once. When it is, the first send was answered 401, the refresh it
  triggered was authenticated, and the second send carries the token that the refresh stored. What the caller gets
  is the answer of the last send, or its status when it was rejected. An answer changes the session only by a
  rotation that the request accepts: its token is stored for the user and the session that are signed in, and one
  that does not fit is an error for the caller and changes nothing. A second 401 signs the tab out without telling
  the other tabs.
\<close>

theorem retried_once:
  "case api_request server env n c w of (res, log, eff, w') \<Rightarrow>
     (case log of
        [c1] \<Rightarrow> concluded (server n) c1 w res w'
      | [c1, c2] \<Rightarrow> answer_status (server n) = Some 401 \<and> \<not> authRetry c \<and> \<not> skipAuthRefresh c \<and> authRetry c2
          \<and> acceptAuthRotation c2 = acceptAuthRotation c
          \<and> (\<exists>b w1. refreshAuthentication (env n) w = (Authenticated b, w1)
               \<and> map_of (cfg_headers c2) ''Authorization'' = Some (''Bearer '' @ access_token b)
               \<and> (if answer_status (server (n + 1)) = Some 401 then res = Rejected (Some 401) \<and> signed_out w1 w'
                  else concluded (server (n + 1)) c2 w1 res w'))
      | _ \<Rightarrow> False)"
proof (cases "on_error (env n) (Some (request_interceptor w c)) (answer_status (server n)) w")
  case (fields again eff w1)
  show ?thesis
  proof (cases "succeeds (server n) \<or> again = None")
    case True
    then show ?thesis
    proof
      assume ok: "succeeds (server n)"
      obtain res log eff' w' where r: "api_request server env n c w = (res, log, eff', w')" using prod_cases4 by blast
      show ?thesis using api_request_success [of server n, OF ok r] ok by (simp add: r concluded_def)
    next
      assume none: "again = None"
      obtain res log eff' w' where r: "api_request server env n c w = (res, log, eff', w')" using prod_cases4 by blast
      show ?thesis
      proof (cases "succeeds (server n)")
        case True
        then show ?thesis using api_request_success [of server n, OF True r] True by (simp add: r concluded_def)
      next
        case False
        have "answer_status (server n) \<noteq> Some 401 \<Longrightarrow> w1 = w" using fields by (auto simp: on_error_def split: if_splits)
        then show ?thesis using False fields none
          by (simp add: api_request.simps [of server env n c w] Let_def concluded_def answer_status_def)
      qed
    qed
  next
    case False
    then obtain c2 where again: "again = Some c2" and st: "\<not> succeeds (server n)" by auto
    have retry: "\<not> authRetry c" "authRetry c2" "answer_status (server n) = Some 401"
      using on_error_retry [of "env n" "request_interceptor w c" "answer_status (server n)" w c2 eff w1] fields again by auto
    obtain b where r: "refreshAuthentication (env n) w = (Authenticated b, w1)" "\<not> skipAuthRefresh c"
      "acceptAuthRotation c2 = acceptAuthRotation c"
      using fields again by (auto simp: on_error_def Let_def split: if_splits prod.splits refresh_outcome.splits)
    have tok: "accessToken (store w1) = Some (access_token b)" "access_token b \<noteq> []"
      using refresh_outcome_ok [OF r(1)] by (auto simp: holds_bundle_def)
    obtain res log eff' w' where rest: "api_request server env (n + 1) c2 w1 = (res, log, eff', w')"
      using prod_cases4 by blast
    have "api_request server env n c w = (res, request_interceptor w c # log, eff @ eff', w')"
      using rest fields again st by (simp add: api_request.simps [of server env n c w] Let_def answer_status_def)
    moreover have "map_of (cfg_headers (request_interceptor w1 c2)) ''Authorization'' = Some (''Bearer '' @ access_token b)"
      using tok by (simp add: request_interceptor_def opt_str_def update_conv')
    moreover have "res = Rejected (Some 401) \<and> signed_out w1 w'" if "answer_status (server (n + 1)) = Some 401"
    proof -
      have "\<not> succeeds (server (n + 1))" using that by (auto simp: succeeds_def answer_status_def split: option.splits)
      then show ?thesis using api_request_retried [OF retry(2) rest] that
        by (simp add: concluded_def signed_out_def clearAuthentication_def Let_def split: option.split)
    qed
    ultimately show ?thesis using api_request_retried [OF retry(2) rest] retry r by simp
  qed
qed

section \<open>Properties of the OAuth callback\<close>

text \<open>
  A history of a popup: the flows it was stamped for, in order. \<open>stamp_of\<close> is the state that the popup carries for
  a provider afterwards: the last one it was stamped with, else what the storage held before, and nothing when the
  storage is missing or unreadable.
\<close>

definition stamp_all :: "(string \<times> string) list \<Rightarrow> mode_storage option \<Rightarrow> mode_storage option" where
  "stamp_all flows = fold (\<lambda>(provider, state) storage. snd (markOAuthBindPopup storage provider state)) flows"

definition last_stamp :: "(string \<times> string) list \<Rightarrow> string \<Rightarrow> string option" where
  "last_stamp flows = map_of (rev (filter (\<lambda>(provider, state). provider \<noteq> [] \<and> state \<noteq> []) flows))"

definition stamp_of :: "(string \<times> string) list \<Rightarrow> mode_storage option \<Rightarrow> string \<Rightarrow> string option" where
  "stamp_of flows storage provider =
     (case storage of
        Some (Storage m) \<Rightarrow>
          (case last_stamp flows provider of
             Some state \<Rightarrow> Some state
           | None \<Rightarrow> map_of m (OAUTH_BIND_FLOW_KEY_PREFIX @ provider))
      | Some (Dropping m) \<Rightarrow> map_of m (OAUTH_BIND_FLOW_KEY_PREFIX @ provider)
      | _ \<Rightarrow> None)"

lemma stamp_of_Nil [simp]: "stamp_of [] storage provider = (case storage of
    Some (Storage m) \<Rightarrow> map_of m (OAUTH_BIND_FLOW_KEY_PREFIX @ provider)
  | Some (Dropping m) \<Rightarrow> map_of m (OAUTH_BIND_FLOW_KEY_PREFIX @ provider) | _ \<Rightarrow> None)"
  by (simp add: stamp_of_def last_stamp_def split: option.split mode_storage.split)

lemma stamp_of_Cons:
  "stamp_of (f # flows) storage provider = stamp_of flows (snd (markOAuthBindPopup storage (fst f) (snd f))) provider"
  by (cases f) (auto simp: stamp_of_def last_stamp_def markOAuthBindPopup_def map_add_def update_conv' Let_def
      split: option.split mode_storage.split)

lemma stamp_of_all: "stamp_of flows storage provider = stamp_of [] (stamp_all flows storage) provider"
proof (induction flows arbitrary: storage)
  case (Cons f flows)
  then show ?case by (simp only: stamp_of_Cons) (simp add: stamp_all_def case_prod_beta)
qed (simp add: stamp_all_def)

lemma resolve_stamp:
  "resolveOAuthCallbackMode provider state opener storage = Bind_Mode
     \<longleftrightarrow> opener = Some False \<and> state \<noteq> [] \<and> stamp_of [] storage provider = Some state"
  by (auto simp: resolveOAuthCallbackMode_def split: option.split mode_storage.split)

text \<open>
  C29. A callback is handled as a bind exactly when the popup was stamped for this provider and state and the opener
  is still there. Whatever flows a popup was stamped for, a callback resolves to a bind if and only if its opener is
  open and its state is not empty and is the one of the last stamp for its provider, so that a popup that was never
  stamped for it gives a login, and a storage that is missing or throws always does. Stamping reports success exactly
  when the callback of that flow will be recognised.
\<close>

theorem bind_needs_stamp:
  "(resolveOAuthCallbackMode provider state opener (stamp_all flows storage) = Bind_Mode
      \<longleftrightarrow> opener = Some False \<and> state \<noteq> [] \<and> stamp_of flows storage provider = Some state)
   \<and> resolveOAuthCallbackMode provider state opener (stamp_all flows None) = Login_Mode
   \<and> resolveOAuthCallbackMode provider state opener (stamp_all flows (Some Blocked)) = Login_Mode
   \<and> (fst (markOAuthBindPopup storage provider state)
      \<longleftrightarrow> provider \<noteq> [] \<and> resolveOAuthCallbackMode provider state (Some False) (snd (markOAuthBindPopup storage provider state)) = Bind_Mode)"
proof (intro conjI)
  show bind: "resolveOAuthCallbackMode provider state opener (stamp_all flows storage) = Bind_Mode
      \<longleftrightarrow> opener = Some False \<and> state \<noteq> [] \<and> stamp_of flows storage provider = Some state" for storage
    by (simp only: resolve_stamp flip: stamp_of_all)
  have login: "m \<noteq> Bind_Mode \<Longrightarrow> m = Login_Mode" for m by (cases m) auto
  show "resolveOAuthCallbackMode provider state opener (stamp_all flows None) = Login_Mode"
    "resolveOAuthCallbackMode provider state opener (stamp_all flows (Some Blocked)) = Login_Mode"
    by (rule login, simp add: bind stamp_of_def)+
  show "fst (markOAuthBindPopup storage provider state)
      \<longleftrightarrow> provider \<noteq> [] \<and> resolveOAuthCallbackMode provider state (Some False) (snd (markOAuthBindPopup storage provider state)) = Bind_Mode"
  proof (cases storage)
    case (Some s)
    then show ?thesis by (cases s) (auto simp: resolve_stamp markOAuthBindPopup_def Let_def update_conv')
  qed (simp add: resolve_stamp markOAuthBindPopup_def)
qed

end
