(* ===== verification/Flow.thy ===== *)
theory Flow
  imports Json Complex_Main
begin

text \<open>
  The usage flow of the dashboard: \<open>web/src/features/dashboard/lib/flow.ts\<close> with the types of
  \<open>web/src/features/dashboard/types.ts\<close>. Usage rows become paths through the visible stages (user,
  node, token, group, model, channel); paths are accumulated into the nodes and links of a Sankey
  diagram, after filtering by users and nodes and after limiting each stage to its largest nodes.

  The counters of a row are the integers the server sends; a missing field is \<open>None\<close>. Shares and
  opacities are exact rationals (binary64 rounding is not modelled). A \<open>Map\<close> is an association
  list in insertion order, a \<open>Set\<close> a list without repetition. What the platform supplies is a
  record of parameters: the collation order (\<open>localeCompare\<close>), the number format (\<open>Intl\<close>) and the
  colour schemes of the chart library.
\<close>

section \<open>Types\<close>

record flow_platform =
  localeCompare :: "string \<Rightarrow> string \<Rightarrow> int"
  formatNumber :: "int \<Rightarrow> string"
  vchartDefaultDataScheme :: "(nat option \<times> string option list) list"

datatype flow_metric = Quota_Metric | Tokens_Metric | Requests_Metric

datatype overflow_mode = Aggregate | Hide

datatype flow_role = User_Role | Admin_Role | Root_Role

datatype node_kind = KUser | KNode | KToken | KGroup | KModel | KChannel

record flow_row =
  user_id :: "int option"
  username :: "string option"
  node_name :: "string option"
  use_group :: "string option"
  token_id :: "int option"
  token_name :: "string option"
  channel_id :: "int option"
  channel_name :: "string option"
  model_name :: "string option"
  token_used :: "int option"
  row_count :: "int option"
  row_quota :: "int option"

record flow_metrics =
  quota :: int
  tokens :: int
  requests :: int

record path_node =
  pn_id :: string
  pn_label :: string
  pn_kind :: node_kind

record flow_node =
  fn_id :: string
  fn_label :: string
  fn_kind :: node_kind
  fn_value :: int
  fn_metrics :: flow_metrics
  fn_color :: string
  fn_colorKey :: string
  fn_highlighted :: "bool option"
  fn_dimmed :: "bool option"

record flow_link =
  fl_source :: string
  fl_target :: string
  fl_value :: int
  fl_metrics :: flow_metrics
  sourceLabel :: string
  targetLabel :: string
  fl_color :: string
  linkColor :: string
  linkAlpha :: rat
  hoverColor :: string
  fl_colorKey :: string
  share :: rat
  fl_highlighted :: "bool option"
  fl_dimmed :: "bool option"

record node_filter =
  nf_kind :: node_kind
  nf_id :: string

record flow_graph =
  nodes :: "flow_node list"
  links :: "flow_link list"

record graph_options =
  topNodeLimit :: "int option"
  overflowMode :: "overflow_mode option"
  otherNodeLabel :: "(node_kind \<Rightarrow> string) option"
  activeNode :: "node_filter option"
  activeLink :: "(string \<times> string) option"
  maskSensitive :: bool

type_synonym path_context = "(int \<Rightarrow> string) option"

section \<open>Path nodes\<close>

definition numberValue :: "int option \<Rightarrow> int" where
  "numberValue v = (case v of None \<Rightarrow> 0 | Some n \<Rightarrow> n)"

definition rowMetrics :: "flow_row \<Rightarrow> flow_metrics" where
  "rowMetrics row =
     \<lparr>quota = numberValue (row_quota row), tokens = numberValue (token_used row),
      requests = numberValue (row_count row)\<rparr>"

definition metricValue :: "flow_metrics \<Rightarrow> flow_metric \<Rightarrow> int" where
  "metricValue metrics metric =
     (case metric of
        Requests_Metric \<Rightarrow> requests metrics
      | Tokens_Metric \<Rightarrow> tokens metrics
      | Quota_Metric \<Rightarrow> quota metrics)"

definition userNode :: "flow_row \<Rightarrow> path_node" where
  "userNode row =
     (let userID = numberValue (user_id row); name = opt_str (username row)
      in \<lparr>pn_id = ''user:'' @ (if userID > 0 then int_str userID else str_or name ''unknown''),
          pn_label = str_or name (if userID > 0 then ''user-'' @ int_str userID else ''Unknown User''),
          pn_kind = KUser\<rparr>)"

definition nodeNameNode :: "flow_row \<Rightarrow> path_node" where
  "nodeNameNode row =
     (let nodeName = str_or (opt_str (node_name row)) ''default-node''
      in \<lparr>pn_id = ''node:'' @ nodeName, pn_label = nodeName, pn_kind = KNode\<rparr>)"

definition deletedTokenLabel :: "int \<Rightarrow> path_context \<Rightarrow> string" where
  "deletedTokenLabel tokenID ctx =
     (if tokenID \<le> 0 then ''Unknown Token''
      else (case ctx of Some f \<Rightarrow> f tokenID | None \<Rightarrow> ''token-'' @ int_str tokenID))"

definition tokenNode :: "flow_row \<Rightarrow> path_context \<Rightarrow> path_node" where
  "tokenNode row ctx =
     (let tokenID = numberValue (token_id row); name = opt_str (token_name row)
      in \<lparr>pn_id = ''token:'' @ (if tokenID > 0 then int_str tokenID else str_or name ''unknown''),
          pn_label = str_or name (deletedTokenLabel tokenID ctx),
          pn_kind = KToken\<rparr>)"

definition groupNode :: "flow_row \<Rightarrow> path_node" where
  "groupNode row =
     (let useGroup = str_or (opt_str (use_group row)) ''unknown''
      in \<lparr>pn_id = ''group:'' @ useGroup, pn_label = useGroup, pn_kind = KGroup\<rparr>)"

definition modelNode :: "flow_row \<Rightarrow> path_node" where
  "modelNode row =
     (let model = str_or (opt_str (model_name row)) ''unknown''
      in \<lparr>pn_id = ''model:'' @ model, pn_label = str_or (opt_str (model_name row)) ''Unknown Model'',
          pn_kind = KModel\<rparr>)"

definition channelNode :: "flow_row \<Rightarrow> path_node" where
  "channelNode row =
     (let channelID = numberValue (channel_id row); name = opt_str (channel_name row)
      in \<lparr>pn_id = ''channel:'' @ (if channelID > 0 then int_str channelID else str_or name ''unknown''),
          pn_label = str_or name (if channelID > 0 then ''channel-'' @ int_str channelID else ''Unknown''),
          pn_kind = KChannel\<rparr>)"

fun NODE_BUILDERS :: "node_kind \<Rightarrow> flow_row \<Rightarrow> path_context \<Rightarrow> path_node" where
  "NODE_BUILDERS KUser row ctx = userNode row"
| "NODE_BUILDERS KNode row ctx = nodeNameNode row"
| "NODE_BUILDERS KToken row ctx = tokenNode row ctx"
| "NODE_BUILDERS KGroup row ctx = groupNode row"
| "NODE_BUILDERS KModel row ctx = modelNode row"
| "NODE_BUILDERS KChannel row ctx = channelNode row"

fun ROLE_FLOW_STAGES :: "flow_role \<Rightarrow> node_kind list" where
  "ROLE_FLOW_STAGES Root_Role = [KUser, KNode, KToken, KGroup, KModel, KChannel]"
| "ROLE_FLOW_STAGES Admin_Role = [KUser, KGroup, KModel, KChannel]"
| "ROLE_FLOW_STAGES User_Role = [KToken, KGroup, KModel]"

definition MIN_FLOW_STAGES :: nat where
  "MIN_FLOW_STAGES = 2"

definition getFlowStages :: "flow_role \<Rightarrow> node_kind list" where
  "getFlowStages role = ROLE_FLOW_STAGES role"

definition resolveVisibleStages :: "flow_role \<Rightarrow> node_kind list option \<Rightarrow> node_kind list" where
  "resolveVisibleStages role visibleStages =
     (let stages = getFlowStages role
      in case visibleStages of
           None \<Rightarrow> stages
         | Some shown \<Rightarrow>
             (let filtered = filter (\<lambda>stage. stage \<in> set shown) stages
              in if length filtered \<ge> MIN_FLOW_STAGES then filtered else stages))"

definition flowPathForStages :: "flow_row \<Rightarrow> node_kind list \<Rightarrow> path_context \<Rightarrow> path_node list" where
  "flowPathForStages row stages ctx = map (\<lambda>stage. NODE_BUILDERS stage row ctx) stages"

section \<open>Colours\<close>

definition getDashboardChartColors :: "flow_platform \<Rightarrow> nat \<Rightarrow> string list" where
  "getDashboardChartColors pf domainLength =
     (let fits = filter (\<lambda>item. case fst item of None \<Rightarrow> True | Some mx \<Rightarrow> mx = 0 \<or> domainLength \<le> mx)
            (vchartDefaultDataScheme pf);
          scheme = (case fits of item # _ \<Rightarrow> item | [] \<Rightarrow> last (vchartDefaultDataScheme pf))
      in map the (filter (\<lambda>color. color \<noteq> None) (snd scheme)))"

definition DEFAULT_FLOW_CHART_COLOR :: string where
  "DEFAULT_FLOW_CHART_COLOR = ''#1664FF''"

definition colorAt :: "flow_platform \<Rightarrow> nat \<Rightarrow> string list \<Rightarrow> string" where
  "colorAt pf index palette =
     (let colors = (if palette \<noteq> [] then palette else getDashboardChartColors pf (index + 1))
      in if colors = [] then DEFAULT_FLOW_CHART_COLOR else colors ! (index mod length colors))"

definition colorPalette :: "flow_platform \<Rightarrow> nat \<Rightarrow> string list \<Rightarrow> string list" where
  "colorPalette pf colorCount palette =
     (if palette \<noteq> [] then palette
      else (let colors = getDashboardChartColors pf colorCount
        in if colors \<noteq> [] then colors else [DEFAULT_FLOW_CHART_COLOR]))"

definition stableColorMap :: "flow_platform \<Rightarrow> string list \<Rightarrow> string list \<Rightarrow> (string \<times> string) list" where
  "stableColorMap pf keys palette =
     (let uniqueKeys = js_uniq keys; colors = colorPalette pf (length uniqueKeys) palette
      in map (\<lambda>(index, key). (key, colorAt pf index colors)) (enumerate 0 uniqueKeys))"

definition is_hex_color :: "string \<Rightarrow> bool" where
  "is_hex_color hex = (length hex = 6 \<and> list_all (\<lambda>c. hex_val c \<noteq> None) hex)"

definition parse_hex :: "string \<Rightarrow> nat" where
  "parse_hex s = fold (\<lambda>c n. 16 * n + the (hex_val c)) s 0"

text \<open>\<open>toFixed(2)\<close> of a number between 0 and 1.\<close>

definition to_fixed2 :: "rat \<Rightarrow> string" where
  "to_fixed2 x =
     (let n = nat \<lfloor>x * 100 + 1 / 2\<rfloor>
      in nat_str (n div 100) @ ''.'' @ nat_str (n div 10 mod 10) @ nat_str (n mod 10))"

definition alphaColor :: "string \<Rightarrow> rat \<Rightarrow> string \<times> rat" where
  "alphaColor color alpha =
     (let normalized = js_trim color;
          hex = (case normalized of c # r \<Rightarrow> if c = CHR ''#'' then r else normalized | [] \<Rightarrow> normalized)
      in if \<not> is_hex_color hex then (normalized, alpha)
         else (let val = parse_hex hex
           in (''rgba('' @ nat_str (val div 65536 mod 256) @ '', '' @ nat_str (val div 256 mod 256) @ '', ''
                @ nat_str (val mod 256) @ '', '' @ to_fixed2 alpha @ '')'', 1)))"

section \<open>Filters\<close>

definition filterRows :: "flow_row list \<Rightarrow> string list \<Rightarrow> flow_row list" where
  "filterRows rows selectedUsers =
     (if selectedUsers = [] then rows else filter (\<lambda>row. pn_id (userNode row) \<in> set selectedUsers) rows)"

fun add_filter :: "node_kind list \<Rightarrow> node_filter \<Rightarrow> (node_kind \<times> string list) list \<Rightarrow> (node_kind \<times> string list) list" where
  "add_filter stages f filters =
     (if nf_kind f \<notin> set stages then filters
      else AList.update (nf_kind f)
        (List.insert (nf_id f) (case map_of filters (nf_kind f) of Some s \<Rightarrow> s | None \<Rightarrow> [])) filters)"

definition normalizeSelectedNodeFilters ::
  "node_filter list \<Rightarrow> node_kind list \<Rightarrow> (node_kind \<times> string list) list" where
  "normalizeSelectedNodeFilters selectedNodes stages = fold (add_filter stages) selectedNodes []"

definition pathMatchesNodeFilters :: "path_node list \<Rightarrow> (node_kind \<times> string list) list \<Rightarrow> bool" where
  "pathMatchesNodeFilters path filters =
     list_all (\<lambda>(kind, selectedIds).
        (let pathIds = map pn_id (filter (\<lambda>node. pn_kind node = kind) path)
         in pathIds \<noteq> [] \<and> list_ex (\<lambda>i. i \<in> set pathIds) selectedIds)) filters"

definition filterRowsByNodes ::
  "flow_row list \<Rightarrow> node_filter list \<Rightarrow> node_kind list \<Rightarrow> path_context \<Rightarrow> flow_row list" where
  "filterRowsByNodes rows selectedNodes stages ctx =
     (let filters = normalizeSelectedNodeFilters selectedNodes stages
      in if filters = [] then rows
         else filter (\<lambda>row. pathMatchesNodeFilters (flowPathForStages row stages ctx) filters) rows)"

definition selectedNodeFiltersExceptKind :: "node_filter list \<Rightarrow> node_kind \<Rightarrow> node_filter list" where
  "selectedNodeFiltersExceptKind selectedNodes kind = filter (\<lambda>f. nf_kind f \<noteq> kind) selectedNodes"

section \<open>Accumulation\<close>

definition add_metrics :: "flow_metrics \<Rightarrow> flow_metrics \<Rightarrow> flow_metrics" where
  "add_metrics a b =
     \<lparr>quota = quota a + quota b, tokens = tokens a + tokens b, requests = requests a + requests b\<rparr>"

definition zero_metrics :: flow_metrics where
  "zero_metrics = \<lparr>quota = 0, tokens = 0, requests = 0\<rparr>"

definition addNode ::
  "(string \<times> flow_node) list \<Rightarrow> path_node \<Rightarrow> flow_metrics \<Rightarrow> flow_metric \<Rightarrow> string \<Rightarrow> string \<Rightarrow> (string \<times> flow_node) list" where
  "addNode m pathNode metrics metric color colorKey =
     (let previous = (case map_of m (pn_id pathNode) of
            Some p \<Rightarrow> p
          | None \<Rightarrow> \<lparr>fn_id = pn_id pathNode, fn_label = pn_label pathNode, fn_kind = pn_kind pathNode,
              fn_value = 0, fn_metrics = zero_metrics, fn_color = color, fn_colorKey = colorKey,
              fn_highlighted = None, fn_dimmed = None\<rparr>)
      in AList.update (pn_id pathNode)
           (previous\<lparr>fn_value := fn_value previous + metricValue metrics metric,
              fn_metrics := add_metrics (fn_metrics previous) metrics\<rparr>) m)"

definition pathLinkKey :: "path_node \<Rightarrow> path_node \<Rightarrow> string" where
  "pathLinkKey source target = pn_id source @ [CHR 0x00] @ pn_id target"

definition linkStableKey :: "flow_link \<Rightarrow> string" where
  "linkStableKey link = fl_source link @ [CHR 0x00] @ fl_target link"

definition addLink ::
  "(string \<times> flow_link) list \<Rightarrow> path_node \<Rightarrow> path_node \<Rightarrow> flow_metrics \<Rightarrow> flow_metric \<Rightarrow> string \<Rightarrow> string \<Rightarrow>
     (string \<times> flow_link) list" where
  "addLink m source target metrics metric color colorKey =
     (let key = pathLinkKey source target;
          previous = (case map_of m key of
            Some p \<Rightarrow> p
          | None \<Rightarrow> \<lparr>fl_source = pn_id source, fl_target = pn_id target, fl_value = 0, fl_metrics = zero_metrics,
              sourceLabel = pn_label source, targetLabel = pn_label target, fl_color = color,
              linkColor = color, linkAlpha = 1, hoverColor = color, fl_colorKey = colorKey, share = 0,
              fl_highlighted = None, fl_dimmed = None\<rparr>)
      in AList.update key
           (previous\<lparr>fl_value := fl_value previous + metricValue metrics metric,
              fl_metrics := add_metrics (fl_metrics previous) metrics\<rparr>) m)"

text \<open>Consecutive nodes of a path.\<close>

fun path_steps :: "'a list \<Rightarrow> ('a \<times> 'a) list" where
  "path_steps (a # b # r) = (a, b) # path_steps (b # r)"
| "path_steps _ = []"

section \<open>Comparators\<close>

definition cmp_or :: "int \<Rightarrow> int \<Rightarrow> int" where
  "cmp_or a b = (if a \<noteq> 0 then a else b)"

definition sort_by :: "('a \<Rightarrow> 'a \<Rightarrow> int) \<Rightarrow> 'a list \<Rightarrow> 'a list" where
  "sort_by cmp xs = js_sort (\<lambda>a b. cmp a b \<le> 0) xs"

definition byValueThenLabel :: "flow_platform \<Rightarrow> flow_node \<Rightarrow> flow_node \<Rightarrow> int" where
  "byValueThenLabel pf a b = cmp_or (fn_value b - fn_value a) (localeCompare pf (fn_label a) (fn_label b))"

definition flag :: "bool option \<Rightarrow> int" where
  "flag b = (if b = Some True then 1 else 0)"

text \<open>
  \<open>Number(undefined)\<close> is \<open>NaN\<close>: when no highlight is active the two flag differences are \<open>NaN\<close>, which
  \<open>||\<close> skips like zero.
\<close>

definition byLinkDrawPriority :: "flow_platform \<Rightarrow> flow_link \<Rightarrow> flow_link \<Rightarrow> int" where
  "byLinkDrawPriority pf a b =
     cmp_or (if fl_dimmed a = None \<or> fl_dimmed b = None then 0 else flag (fl_dimmed a) - flag (fl_dimmed b))
       (cmp_or (if fl_highlighted a = None \<or> fl_highlighted b = None then 0
                else flag (fl_highlighted b) - flag (fl_highlighted a))
          (cmp_or (fl_value b - fl_value a) (localeCompare pf (linkStableKey a) (linkStableKey b))))"

section \<open>Summary and top nodes\<close>

definition buildSummary :: "flow_row list \<Rightarrow> flow_metrics" where
  "buildSummary rows = fold (\<lambda>row summary. add_metrics summary (rowMetrics row)) rows zero_metrics"

definition normalizeTopNodeLimit :: "int option \<Rightarrow> nat option" where
  "normalizeTopNodeLimit limit =
     (case limit of None \<Rightarrow> None | Some l \<Rightarrow> if l > 0 then Some (nat l) else None)"

fun OTHER_FLOW_NODE_IDS :: "node_kind \<Rightarrow> string" where
  "OTHER_FLOW_NODE_IDS KUser = ''user:__other__''"
| "OTHER_FLOW_NODE_IDS KNode = ''node:__other__''"
| "OTHER_FLOW_NODE_IDS KToken = ''token:__other__''"
| "OTHER_FLOW_NODE_IDS KGroup = ''group:__other__''"
| "OTHER_FLOW_NODE_IDS KModel = ''model:__other__''"
| "OTHER_FLOW_NODE_IDS KChannel = ''channel:__other__''"

fun DEFAULT_OTHER_FLOW_NODE_LABELS :: "node_kind \<Rightarrow> string" where
  "DEFAULT_OTHER_FLOW_NODE_LABELS KUser = ''Other users''"
| "DEFAULT_OTHER_FLOW_NODE_LABELS KNode = ''Other nodes''"
| "DEFAULT_OTHER_FLOW_NODE_LABELS KToken = ''Other tokens''"
| "DEFAULT_OTHER_FLOW_NODE_LABELS KGroup = ''Other groups''"
| "DEFAULT_OTHER_FLOW_NODE_LABELS KModel = ''Other models''"
| "DEFAULT_OTHER_FLOW_NODE_LABELS KChannel = ''Other channels''"

definition FLOW_NODE_KINDS :: "node_kind list" where
  "FLOW_NODE_KINDS = [KUser, KNode, KToken, KGroup, KModel, KChannel]"

definition otherFlowNode :: "node_kind \<Rightarrow> (node_kind \<Rightarrow> string) option \<Rightarrow> path_node" where
  "otherFlowNode kind labeler =
     \<lparr>pn_id = OTHER_FLOW_NODE_IDS kind,
      pn_label = (case labeler of Some f \<Rightarrow> f kind | None \<Rightarrow> DEFAULT_OTHER_FLOW_NODE_LABELS kind),
      pn_kind = kind\<rparr>"

text \<open>A rank is a node with its running total (\<open>FlowNodeRank\<close>).\<close>

definition add_rank ::
  "int \<Rightarrow> path_node \<Rightarrow> (string \<times> path_node \<times> int) list \<Rightarrow> (string \<times> path_node \<times> int) list" where
  "add_rank val node stageTotals =
     (let current = (case map_of stageTotals (pn_id node) of Some r \<Rightarrow> r | None \<Rightarrow> (node, 0))
      in AList.update (pn_id node) (fst current, snd current + val) stageTotals)"

definition rank_path ::
  "int \<Rightarrow> path_node list \<Rightarrow> (node_kind \<times> (string \<times> path_node \<times> int) list) list \<Rightarrow>
     (node_kind \<times> (string \<times> path_node \<times> int) list) list" where
  "rank_path val path totals =
     fold (\<lambda>node totals.
       (case map_of totals (pn_kind node) of
          None \<Rightarrow> totals
        | Some stageTotals \<Rightarrow> AList.update (pn_kind node) (add_rank val node stageTotals) totals)) path totals"

definition rank_cmp :: "flow_platform \<Rightarrow> path_node \<times> int \<Rightarrow> path_node \<times> int \<Rightarrow> int" where
  "rank_cmp pf a b =
     cmp_or (snd b - snd a)
       (cmp_or (localeCompare pf (pn_label (fst a)) (pn_label (fst b)))
          (localeCompare pf (pn_id (fst a)) (pn_id (fst b))))"

definition buildTopNodeSets ::
  "flow_platform \<Rightarrow> flow_row list \<Rightarrow> flow_metric \<Rightarrow> node_kind list \<Rightarrow> nat option \<Rightarrow> path_context \<Rightarrow>
     (node_kind \<times> string list) list option" where
  "buildTopNodeSets pf rows metric stages limit ctx =
     (case limit of
        None \<Rightarrow> None
      | Some l \<Rightarrow>
          (let totals0 = map (\<lambda>stage. (stage, [])) stages;
               totals = fold (\<lambda>row. rank_path (metricValue (rowMetrics row) metric)
                   (flowPathForStages row stages ctx)) rows totals0
           in Some (map (\<lambda>(kind, stageTotals).
                (kind, map (pn_id \<circ> fst) (take l (sort_by (rank_cmp pf) (map snd stageTotals))))) totals)))"

definition isTopFlowNode :: "path_node \<Rightarrow> (node_kind \<times> string list) list option \<Rightarrow> bool" where
  "isTopFlowNode node topNodeSets =
     (case topNodeSets of
        None \<Rightarrow> True
      | Some sets \<Rightarrow> (case map_of sets (pn_kind node) of None \<Rightarrow> True | Some topNodes \<Rightarrow> pn_id node \<in> set topNodes))"

definition applyTopNodeLimit ::
  "path_node list \<Rightarrow> (node_kind \<times> string list) list option \<Rightarrow> overflow_mode \<Rightarrow> (node_kind \<Rightarrow> string) option \<Rightarrow>
     path_node list option" where
  "applyTopNodeLimit path topNodeSets mode labeler =
     (if topNodeSets = None then Some path
      else if \<not> list_ex (\<lambda>node. \<not> isTopFlowNode node topNodeSets) path then Some path
      else if mode = Hide then None
      else Some (map (\<lambda>node. if isTopFlowNode node topNodeSets then node
                   else otherFlowNode (pn_kind node) labeler) path))"

section \<open>Highlights and masking\<close>

definition pathContainsFlowNode :: "path_node list \<Rightarrow> node_filter \<Rightarrow> bool" where
  "pathContainsFlowNode path f = list_ex (\<lambda>node. pn_kind node = nf_kind f \<and> pn_id node = nf_id f) path"

definition pathContainsFlowLink :: "path_node list \<Rightarrow> string \<times> string \<Rightarrow> bool" where
  "pathContainsFlowLink path link =
     list_ex (\<lambda>(a, b). pn_id a = fst link \<and> pn_id b = snd link) (path_steps path)"

definition matchesPath :: "node_filter option \<Rightarrow> (string \<times> string) option \<Rightarrow> path_node list \<Rightarrow> bool" where
  "matchesPath active_node active_link path =
     (case active_link of
        Some l \<Rightarrow> pathContainsFlowLink path l
      | None \<Rightarrow> (case active_node of Some f \<Rightarrow> pathContainsFlowNode path f | None \<Rightarrow> False))"

definition buildFlowHighlightSets ::
  "(path_node list \<times> flow_metrics) list \<Rightarrow> node_filter option \<Rightarrow> (string \<times> string) option \<Rightarrow> node_kind list \<Rightarrow>
     (string list \<times> string list) option" where
  "buildFlowHighlightSets preparedPaths active_node active_link stages =
     (let nodeActive = (case active_node of Some f \<Rightarrow> nf_kind f \<in> set stages | None \<Rightarrow> False)
      in if \<not> nodeActive \<and> active_link = None then None
         else (let paths = filter (matchesPath active_node active_link) (map fst preparedPaths);
                   highlightedNodes = js_uniq (concat (map (map pn_id) paths));
                   highlightedLinks = js_uniq (concat (map (\<lambda>p. map (\<lambda>(a, b). pathLinkKey a b) (path_steps p)) paths))
           in if highlightedNodes = [] then None else Some (highlightedNodes, highlightedLinks)))"

text \<open>Four bullets, in UTF-8.\<close>

definition FLOW_MASK_TEXT :: string where
  "FLOW_MASK_TEXT = concat (replicate 4 [CHR 0xE2, CHR 0x80, CHR 0xA2])"

definition maskFlowLabel :: "string \<Rightarrow> string" where
  "maskFlowLabel label = (if label = [] then label else FLOW_MASK_TEXT)"

definition SENSITIVE_FLOW_KINDS :: "node_kind list" where
  "SENSITIVE_FLOW_KINDS = [KUser, KNode, KToken, KGroup, KChannel]"

definition is_masked :: "flow_node \<Rightarrow> bool" where
  "is_masked n = (fn_kind n \<in> set SENSITIVE_FLOW_KINDS \<and> fn_id n \<notin> set (map OTHER_FLOW_NODE_IDS FLOW_NODE_KINDS))"

definition maskFlowGraphLabels ::
  "(string \<times> flow_node) list \<Rightarrow> (string \<times> flow_link) list \<Rightarrow> (string \<times> flow_node) list \<times> (string \<times> flow_link) list" where
  "maskFlowGraphLabels ns ls =
     (let maskedById = fold (\<lambda>n m. AList.update (fn_id n) (maskFlowLabel (fn_label n)) m)
            (filter is_masked (map snd ns)) [];
          ns' = map (\<lambda>(k, n). (k, if is_masked n then n\<lparr>fn_label := maskFlowLabel (fn_label n)\<rparr> else n)) ns
      in if maskedById = [] then (ns', ls)
         else (ns', map (\<lambda>(k, l). (k,
            l\<lparr>sourceLabel := (case map_of maskedById (fl_source l) of Some s \<Rightarrow> s | None \<Rightarrow> sourceLabel l),
              targetLabel := (case map_of maskedById (fl_target l) of Some s \<Rightarrow> s | None \<Rightarrow> targetLabel l)\<rparr>)) ls))"

definition highlight_node :: "(string list \<times> string list) option \<Rightarrow> flow_node \<Rightarrow> flow_node" where
  "highlight_node hs n =
     (case hs of
        None \<Rightarrow> n
      | Some (ns, ls) \<Rightarrow> n\<lparr>fn_highlighted := Some (fn_id n \<in> set ns), fn_dimmed := Some (fn_id n \<notin> set ns)\<rparr>)"

definition highlight_link :: "(string list \<times> string list) option \<Rightarrow> flow_link \<Rightarrow> flow_link" where
  "highlight_link hs l =
     (case hs of
        None \<Rightarrow> l
      | Some (ns, ls) \<Rightarrow>
          l\<lparr>fl_highlighted := Some (linkStableKey l \<in> set ls), fl_dimmed := Some (linkStableKey l \<notin> set ls)\<rparr>)"

definition applyFlowHighlights ::
  "flow_node list \<Rightarrow> flow_link list \<Rightarrow> (string list \<times> string list) option \<Rightarrow> flow_node list \<times> flow_link list" where
  "applyFlowHighlights ns ls highlightSets = (map (highlight_node highlightSets) ns, map (highlight_link highlightSets) ls)"

section \<open>Display colours of the links\<close>

definition index_of :: "string \<Rightarrow> string list \<Rightarrow> nat" where
  "index_of k ks = length (takeWhile (\<lambda>x. x \<noteq> k) ks)"

definition link_display :: "flow_platform \<Rightarrow> flow_link list \<Rightarrow> flow_link \<Rightarrow> flow_link" where
  "link_display pf sourceLinks link =
     (let sortedLinks = sort_by (\<lambda>a b. cmp_or (fl_value b - fl_value a)
            (localeCompare pf (linkStableKey a) (linkStableKey b))) sourceLinks;
          denominator = max (length sortedLinks - 1) 1;
          index = index_of (linkStableKey link) (map linkStableKey sortedLinks);
          alpha = (if length sortedLinks = 1 then 34 / 100
            else 24 / 100 + (of_nat index / of_nat denominator) * (2 / 10));
          displayColor = alphaColor (fl_color link) alpha
      in link\<lparr>linkColor := fst displayColor, linkAlpha := snd displayColor, hoverColor := fl_color link\<rparr>)"

definition assignLinkDisplayColors :: "flow_platform \<Rightarrow> flow_link list \<Rightarrow> flow_link list" where
  "assignLinkDisplayColors pf ls =
     map (\<lambda>link. link_display pf (filter (\<lambda>l. fl_source l = fl_source link) ls) link) ls"

section \<open>The graph\<close>

definition prepare_paths ::
  "flow_row list \<Rightarrow> node_kind list \<Rightarrow> path_context \<Rightarrow> (node_kind \<times> string list) list option \<Rightarrow> overflow_mode \<Rightarrow>
     (node_kind \<Rightarrow> string) option \<Rightarrow> (path_node list \<times> flow_metrics) list" where
  "prepare_paths rows stages ctx topNodeSets mode labeler =
     concat (map (\<lambda>row.
       (case applyTopNodeLimit (flowPathForStages row stages ctx) topNodeSets mode labeler of
          None \<Rightarrow> []
        | Some path \<Rightarrow> [(path, rowMetrics row)])) rows)"

definition first_ids :: "(path_node list \<times> flow_metrics) list \<Rightarrow> string list" where
  "first_ids preparedPaths =
     filter truthy (map (\<lambda>p. pn_id (hd (fst p))) (filter (\<lambda>p. fst p \<noteq> []) preparedPaths))"

text \<open>The body of the accumulation loop, for one prepared path.\<close>

definition add_path ::
  "flow_platform \<Rightarrow> string list \<Rightarrow> (string \<times> string) list \<Rightarrow> flow_metric \<Rightarrow> path_node list \<times> flow_metrics \<Rightarrow>
     (string \<times> flow_node) list \<times> (string \<times> flow_link) list \<Rightarrow> (string \<times> flow_node) list \<times> (string \<times> flow_link) list" where
  "add_path pf palette colors metric prepared graph =
     (case prepared of (path, metrics) \<Rightarrow>
        (case path of
           [] \<Rightarrow> graph
         | first # _ \<Rightarrow>
             (let color = (case map_of colors (pn_id first) of Some c \<Rightarrow> c | None \<Rightarrow> colorAt pf 0 palette)
              in (fold (\<lambda>node m. addNode m node metrics metric color (pn_id first)) path (fst graph),
                  fold (\<lambda>(source, target) m. addLink m source target metrics metric color (pn_id first))
                    (path_steps path) (snd graph)))))"

definition share_of :: "int \<Rightarrow> flow_link \<Rightarrow> flow_link" where
  "share_of tot link = link\<lparr>share := (if tot > 0 then of_int (fl_value link) / of_int tot else 0)\<rparr>"

definition buildFlowGraph ::
  "flow_platform \<Rightarrow> flow_row list \<Rightarrow> flow_metric \<Rightarrow> flow_role \<Rightarrow> string list \<Rightarrow> node_kind list option \<Rightarrow>
     path_context \<Rightarrow> graph_options \<Rightarrow> flow_graph" where
  "buildFlowGraph pf rows metric role palette visibleStages ctx options =
     (let stages = resolveVisibleStages role visibleStages;
          topNodeSets = buildTopNodeSets pf rows metric stages (normalizeTopNodeLimit (topNodeLimit options)) ctx;
          mode = (case overflowMode options of Some m \<Rightarrow> m | None \<Rightarrow> Aggregate);
          preparedPaths = prepare_paths rows stages ctx topNodeSets mode (otherNodeLabel options);
          colors = stableColorMap pf (sort_by (localeCompare pf) (first_ids preparedPaths)) palette;
          (ns, ls) = fold (add_path pf palette colors metric) preparedPaths ([], []);
          (ns, ls) = (if maskSensitive options then maskFlowGraphLabels ns ls else (ns, ls));
          (ns, ls) = applyFlowHighlights (map snd ns) (map snd ls)
            (buildFlowHighlightSets preparedPaths (activeNode options) (activeLink options) stages);
          flowLinks = sort_by (\<lambda>a b. cmp_or (localeCompare pf (fl_source a) (fl_source b))
            (localeCompare pf (fl_target a) (fl_target b))) ls;
          link_total = sum_list (map fl_value (filter (\<lambda>l. fl_source l \<in> set (first_ids preparedPaths)) flowLinks));
          flowLinks = assignLinkDisplayColors pf (map (share_of link_total) flowLinks)
      in \<lparr>nodes = sort_by (byValueThenLabel pf) ns, links = flowLinks\<rparr>)"

section \<open>Filter options and the whole data set\<close>

text \<open>A user option has no kind in the source; here it is \<open>KUser\<close>.\<close>

record filter_option =
  fo_kind :: node_kind
  fo_value :: string
  fo_label :: string
  valueLabel :: string
  valueRaw :: int
  fo_color :: string

record user_total =
  ut_label :: string
  ut_value :: int
  ut_color :: string

definition has_user :: "flow_row \<Rightarrow> bool" where
  "has_user row = (\<not> (numberValue (user_id row) = 0 \<and> opt_str (username row) = []))"

definition add_user ::
  "flow_platform \<Rightarrow> string list \<Rightarrow> (string \<times> string) list \<Rightarrow> flow_metric \<Rightarrow> flow_row \<Rightarrow>
     (string \<times> user_total) list \<Rightarrow> (string \<times> user_total) list" where
  "add_user pf palette colors metric row users =
     (let user = userNode row; val = metricValue (rowMetrics row) metric;
          current = (case map_of users (pn_id user) of
            Some u \<Rightarrow> u
          | None \<Rightarrow> \<lparr>ut_label = pn_label user, ut_value = 0,
              ut_color = (case map_of colors (pn_id user) of Some c \<Rightarrow> c | None \<Rightarrow> colorAt pf 0 palette)\<rparr>)
      in AList.update (pn_id user) (current\<lparr>ut_value := ut_value current + val\<rparr>) users)"

definition buildUserFilterOptions ::
  "flow_platform \<Rightarrow> flow_row list \<Rightarrow> flow_metric \<Rightarrow> string list \<Rightarrow> filter_option list" where
  "buildUserFilterOptions pf rows metric palette =
     (let colors = stableColorMap pf (sort_by (localeCompare pf) (map (pn_id \<circ> userNode) rows)) palette;
          users = fold (add_user pf palette colors metric) (filter has_user rows) []
      in sort_by (\<lambda>a b. cmp_or (valueRaw b - valueRaw a) (localeCompare pf (fo_label a) (fo_label b)))
           (map (\<lambda>(val, user). \<lparr>fo_kind = KUser, fo_value = val, fo_label = ut_label user,
              valueLabel = formatNumber pf (ut_value user), valueRaw = ut_value user,
              fo_color = ut_color user\<rparr>) users))"

fun kind_name :: "node_kind \<Rightarrow> string" where
  "kind_name KUser = ''user''"
| "kind_name KNode = ''node''"
| "kind_name KToken = ''token''"
| "kind_name KGroup = ''group''"
| "kind_name KModel = ''model''"
| "kind_name KChannel = ''channel''"

definition nodeFilterKey :: "node_filter \<Rightarrow> string" where
  "nodeFilterKey f = kind_name (nf_kind f) @ [CHR 0x00] @ nf_id f"

definition add_option ::
  "flow_metric \<Rightarrow> node_kind \<Rightarrow> path_context \<Rightarrow> flow_row \<Rightarrow> (string \<times> path_node \<times> int) list \<Rightarrow>
     (string \<times> path_node \<times> int) list" where
  "add_option metric stage ctx row totals =
     (let node = NODE_BUILDERS stage row ctx;
          key = nodeFilterKey \<lparr>nf_kind = pn_kind node, nf_id = pn_id node\<rparr>;
          current = (case map_of totals key of Some r \<Rightarrow> r | None \<Rightarrow> (node, 0))
      in AList.update key (fst current, snd current + metricValue (rowMetrics row) metric) totals)"

definition buildNodeFilterOptions ::
  "flow_platform \<Rightarrow> flow_row list \<Rightarrow> flow_metric \<Rightarrow> flow_role \<Rightarrow> node_kind list option \<Rightarrow> string list \<Rightarrow>
     path_context \<Rightarrow> node_filter list \<Rightarrow> filter_option list" where
  "buildNodeFilterOptions pf rows metric role visibleStages palette ctx selectedNodes =
     (let stages = resolveVisibleStages role visibleStages;
          stageOrder = (\<lambda>kind. int (length (takeWhile (\<lambda>s. s \<noteq> kind) stages)));
          colorIds = js_uniq (concat (map (\<lambda>row. map pn_id (flowPathForStages row stages ctx)) rows));
          colors = stableColorMap pf (sort_by (localeCompare pf) colorIds) palette;
          options = concat (map (\<lambda>stage.
            (let candidateRows = filterRowsByNodes rows (selectedNodeFiltersExceptKind selectedNodes stage) stages ctx;
                 totals = fold (add_option metric stage ctx) candidateRows []
             in map (\<lambda>(key, node, val). \<lparr>fo_kind = pn_kind node, fo_value = pn_id node, fo_label = pn_label node,
                  valueLabel = formatNumber pf val, valueRaw = val,
                  fo_color = (case map_of colors (pn_id node) of Some c \<Rightarrow> c | None \<Rightarrow> colorAt pf 0 palette)\<rparr>) totals)) stages)
      in sort_by (\<lambda>a b. cmp_or (stageOrder (fo_kind a) - stageOrder (fo_kind b))
           (cmp_or (valueRaw b - valueRaw a)
             (cmp_or (localeCompare pf (fo_label a) (fo_label b))
               (localeCompare pf (fo_value a) (fo_value b))))) options)"

definition buildFlowFilterOptions ::
  "flow_platform \<Rightarrow> flow_row list \<Rightarrow> flow_metric \<Rightarrow> string list \<Rightarrow> flow_role \<Rightarrow> node_kind list option \<Rightarrow>
     node_filter list \<Rightarrow> filter_option list \<times> filter_option list" where
  "buildFlowFilterOptions pf rows metric palette role visibleStages selectedNodes =
     (buildUserFilterOptions pf rows metric palette,
      buildNodeFilterOptions pf rows metric role visibleStages palette None selectedNodes)"

record build_options = graph_options +
  opt_role :: "flow_role option"
  selectedUsers :: "string list"
  selectedNodes :: "node_filter list"
  opt_palette :: "string list"
  opt_visibleStages :: "node_kind list option"
  opt_deletedTokenLabel :: path_context

record flow_data =
  summary :: flow_metrics
  flow :: flow_graph
  user_options :: "filter_option list"
  node_options :: "filter_option list"

definition buildDashboardFlowData ::
  "flow_platform \<Rightarrow> flow_row list \<Rightarrow> flow_metric \<Rightarrow> build_options \<Rightarrow> flow_data" where
  "buildDashboardFlowData pf rows metric options =
     (let role = (case opt_role options of Some r \<Rightarrow> r | None \<Rightarrow> User_Role);
          palette = opt_palette options; ctx = opt_deletedTokenLabel options;
          stages = resolveVisibleStages role (opt_visibleStages options);
          userFilteredRows = filterRows rows (selectedUsers options);
          filteredRows = filterRowsByNodes userFilteredRows (selectedNodes options) stages ctx
      in \<lparr>summary = buildSummary filteredRows,
          flow = buildFlowGraph pf filteredRows metric role palette (opt_visibleStages options) ctx
            (graph_options.truncate options),
          user_options = buildUserFilterOptions pf rows metric palette,
          node_options = buildNodeFilterOptions pf userFilteredRows metric role (opt_visibleStages options)
            palette ctx (selectedNodes options)\<rparr>)"

section \<open>The data of the Sankey chart\<close>

text \<open>The links \<open>buildFlowSankeySpec\<close> draws, with their \<open>zIndex\<close>, in drawing order.\<close>

definition sankey_links :: "flow_platform \<Rightarrow> flow_graph \<Rightarrow> (flow_link \<times> nat) list" where
  "sankey_links pf g =
     map (\<lambda>(index, link).
        (link, if fl_highlighted link = Some True then 1000000 + index
               else if fl_dimmed link = Some True then index
               else 100000 + index))
       (enumerate 0 (sort_by (byLinkDrawPriority pf) (filter (\<lambda>link. fl_value link > 0) (links g))))"

end
