(* ===== verification/Flow_Balance.thy ===== *)
theory Flow_Balance
  imports Flow
begin

text \<open>
  What the flow diagram shows: the accumulation loops of \<open>flow.ts\<close> conserve the metric. The loops
  share one shape (look an entry up by key, create it or add to it, put it back), stated once as
  the locale \<open>accumulator\<close> and interpreted for nodes, links, ranks and filter options.
\<close>

section \<open>Accumulation loops\<close>

locale accumulator =
  fixes key :: "'x \<Rightarrow> 'k" and amount :: "'x \<Rightarrow> int" and mk :: "'x \<Rightarrow> 't"
    and val :: "'v \<Rightarrow> int" and tag :: "'v \<Rightarrow> 't" and upd :: "'x \<Rightarrow> ('k \<times> 'v) list \<Rightarrow> ('k \<times> 'v) list"
  assumes upd: "\<exists>v. upd x m = AList.update (key x) v m
      \<and> val v = (case map_of m (key x) of None \<Rightarrow> 0 | Some u \<Rightarrow> val u) + amount x
      \<and> tag v = (case map_of m (key x) of None \<Rightarrow> mk x | Some u \<Rightarrow> tag u)"
begin

definition entry_total :: "('k \<Rightarrow> bool) \<Rightarrow> ('k \<times> 'v) list \<Rightarrow> int" where
  "entry_total P m = (\<Sum>e\<leftarrow>filter (P \<circ> fst) m. val (snd e))"

lemma entry_total_update:
  "distinct (map fst m) \<Longrightarrow> entry_total P (AList.update k v m) =
     entry_total P m + (if P k then val v - (case map_of m k of None \<Rightarrow> 0 | Some u \<Rightarrow> val u) else 0)"
  by (induction m) (auto simp: entry_total_def split: option.split)

lemma keys_upd: "map fst (upd x m) = (if key x \<in> set (map fst m) then map fst m else map fst m @ [key x])"
  by (metis upd keys_update)

lemma distinct_fold: "distinct (map fst m) \<Longrightarrow> distinct (map fst (fold upd xs m))"
  by (induction xs arbitrary: m) (simp_all add: keys_upd)

lemma keys_fold: "map fst (fold upd xs m) = uniq_loop (map fst m) (map key xs)"
  by (induction xs arbitrary: m) (simp_all add: keys_upd)

lemma entry_total_fold:
  "distinct (map fst m) \<Longrightarrow>
   entry_total P (fold upd xs m) = entry_total P m + (\<Sum>x\<leftarrow>filter (P \<circ> key) xs. amount x)"
proof (induction xs arbitrary: m)
  case (Cons x xs)
  obtain v where "upd x m = AList.update (key x) v m"
      "val v = (case map_of m (key x) of None \<Rightarrow> 0 | Some u \<Rightarrow> val u) + amount x"
    using upd by blast
  then have "entry_total P (upd x m) = entry_total P m + (if P (key x) then amount x else 0)"
    using Cons.prems by (simp add: entry_total_update)
  moreover have "distinct (map fst (upd x m))" using Cons.prems by (simp add: keys_upd)
  ultimately show ?case using Cons.IH by simp
qed simp

lemma entry_tag:
  "(k, v) \<in> set (fold upd xs []) \<Longrightarrow> \<exists>x \<in> set xs. key x = k \<and> tag v = mk x"
proof -
  have "\<forall>(k, v) \<in> set m. \<exists>x \<in> set ys. key x = k \<and> tag v = mk x \<Longrightarrow>
      \<forall>(k, v) \<in> set (fold upd xs m). \<exists>x \<in> set (ys @ xs). key x = k \<and> tag v = mk x" for ys m
  proof (induction xs arbitrary: ys m)
    case (Cons x xs)
    obtain v where v: "upd x m = AList.update (key x) v m"
        "tag v = (case map_of m (key x) of None \<Rightarrow> mk x | Some u \<Rightarrow> tag u)"
      using upd by blast
    have old: "\<forall>(k, v) \<in> set m. \<exists>x' \<in> set (ys @ [x]). key x' = k \<and> tag v = mk x'"
      using Cons.prems by fastforce
    have "\<exists>x' \<in> set (ys @ [x]). key x' = key x \<and> tag v = mk x'"
    proof (cases "map_of m (key x)")
      case (Some u)
      then show ?thesis using old v(2) by (fastforce dest: map_of_SomeD)
    qed (use v(2) in simp)
    then have "\<forall>(k, v) \<in> set (upd x m). \<exists>x' \<in> set (ys @ [x]). key x' = k \<and> tag v = mk x'"
      using old v(1) set_update_subset by fastforce
    then show ?case using Cons.IH [of "upd x m" "ys @ [x]"] by simp
  qed simp
  from this [of "[]" "[]"] show "(k, v) \<in> set (fold upd xs []) \<Longrightarrow> ?thesis" by fastforce
qed

lemma total_all:
  "(\<Sum>e\<leftarrow>filter (P \<circ> fst) (fold upd xs []). val (snd e)) = (\<Sum>x\<leftarrow>filter (P \<circ> key) xs. amount x)"
  using entry_total_fold [of "[]" P xs] by (simp add: entry_total_def)

lemma keys_all: "map fst (fold upd xs []) = js_uniq (map key xs)"
  by (simp add: keys_fold uniq_loop_uniq)

lemma value_at:
  assumes "(k, v) \<in> set (fold upd xs [])"
  shows "val v = (\<Sum>x\<leftarrow>filter (\<lambda>x. key x = k) xs. amount x)"
proof -
  let ?m = "fold upd xs []"
  have d: "distinct (map fst ?m)" using distinct_fold [of "[]" xs] by simp
  have one: "distinct (map fst m) \<Longrightarrow> (k, v) \<in> set m \<Longrightarrow> filter (\<lambda>e. fst e = k) m = [(k, v)]" for m :: "('k \<times> 'v) list"
    by (induction m) (auto simp: filter_empty_conv image_iff)
  show ?thesis using one [OF d assms] total_all [of "\<lambda>k'. k' = k" xs] by (simp add: comp_def)
qed

end

section \<open>Well-formed paths\<close>

text \<open>The kind an id starts with.\<close>

definition id_kind :: "string \<Rightarrow> node_kind option" where
  "id_kind s = find (\<lambda>k. prefix (kind_name k @ '':'') s) FLOW_NODE_KINDS"

definition node_wf :: "path_node \<Rightarrow> bool" where
  "node_wf n \<longleftrightarrow> id_kind (pn_id n) = Some (pn_kind n)"

definition path_wf :: "node_kind list \<Rightarrow> path_node list \<Rightarrow> bool" where
  "path_wf stages p \<longleftrightarrow> map pn_kind p = stages \<and> list_all node_wf p"

lemma id_kind_iff: "id_kind s = Some k \<longleftrightarrow> (\<exists>r. s = kind_name k @ '':'' @ r)"
proof
  assume "id_kind s = Some k"
  then have "prefix (kind_name k @ '':'') s" by (auto simp: id_kind_def find_Some_iff)
  then show "\<exists>r. s = kind_name k @ '':'' @ r" by (auto simp: prefix_def)
next
  assume "\<exists>r. s = kind_name k @ '':'' @ r"
  then show "id_kind s = Some k" by (cases k) (auto simp: id_kind_def FLOW_NODE_KINDS_def)
qed

lemma id_kind_append: "id_kind s = Some k \<Longrightarrow> id_kind (s @ t) = Some k"
  by (auto simp: id_kind_iff)

lemma NODE_BUILDERS_wf: "pn_kind (NODE_BUILDERS k row ctx) = k" "node_wf (NODE_BUILDERS k row ctx)"
  by (cases k; simp add: userNode_def nodeNameNode_def tokenNode_def groupNode_def modelNode_def
      channelNode_def Let_def)
    (cases k; simp add: userNode_def nodeNameNode_def tokenNode_def groupNode_def modelNode_def
      channelNode_def node_wf_def id_kind_iff Let_def)

lemma otherFlowNode_wf: "pn_kind (otherFlowNode k f) = k" "node_wf (otherFlowNode k f)"
  by (simp_all add: otherFlowNode_def node_wf_def id_kind_iff) (cases k; simp)

lemma flowPath_wf: "path_wf stages (flowPathForStages row stages ctx)"
  by (simp add: path_wf_def flowPathForStages_def NODE_BUILDERS_wf list_all_iff comp_def)

lemma applyTopNodeLimit_wf:
  "path_wf stages p \<Longrightarrow> applyTopNodeLimit p ts mode f = Some p' \<Longrightarrow> path_wf stages p'"
  by (auto simp: applyTopNodeLimit_def path_wf_def list_all_iff otherFlowNode_wf split: if_splits)

lemma prepare_paths_wf: "(p, ms) \<in> set (prepare_paths rows stages ctx ts mode f) \<Longrightarrow> path_wf stages p"
  by (auto simp: prepare_paths_def split: option.splits intro: applyTopNodeLimit_wf [OF flowPath_wf])

lemma distinct_role_stages: "distinct (getFlowStages role)" "length (getFlowStages role) \<ge> 2"
  by (cases role; simp add: getFlowStages_def)+

lemma stages_wf: "distinct (resolveVisibleStages role vs)" "length (resolveVisibleStages role vs) \<ge> 2"
  using distinct_role_stages
  by (auto simp: resolveVisibleStages_def MIN_FLOW_STAGES_def Let_def split: option.split)

section \<open>The graph as two accumulations\<close>

type_synonym node_item = "path_node \<times> flow_metrics \<times> string \<times> string"
type_synonym link_item = "(path_node \<times> path_node) \<times> flow_metrics \<times> string \<times> string"

fun node_upd :: "flow_metric \<Rightarrow> node_item \<Rightarrow> (string \<times> flow_node) list \<Rightarrow> (string \<times> flow_node) list" where
  "node_upd metric (n, ms, color, ck) m = addNode m n ms metric color ck"

fun link_upd :: "flow_metric \<Rightarrow> link_item \<Rightarrow> (string \<times> flow_link) list \<Rightarrow> (string \<times> flow_link) list" where
  "link_upd metric ((a, b), ms, color, ck) m = addLink m a b ms metric color ck"

fun rank_upd :: "int \<times> path_node \<Rightarrow> (string \<times> path_node \<times> int) list \<Rightarrow> (string \<times> path_node \<times> int) list" where
  "rank_upd (v, n) m = add_rank v n m"

interpretation node_acc: accumulator "\<lambda>(n, ms, c, ck). pn_id n" "\<lambda>(n, ms, c, ck). metricValue ms metric"
  "\<lambda>(n, ms, c, ck). (pn_id n, pn_kind n)" fn_value "\<lambda>n. (fn_id n, fn_kind n)" "node_upd metric" for metric
  by unfold_locales (auto simp: addNode_def Let_def split: option.split)

interpretation link_acc: accumulator "\<lambda>((a, b), ms, c, ck). pathLinkKey a b" "\<lambda>(s, ms, c, ck). metricValue ms metric"
  "\<lambda>((a, b), ms, c, ck). (pn_id a, pn_id b)" fl_value "\<lambda>l. (fl_source l, fl_target l)" "link_upd metric" for metric
  by unfold_locales (auto simp: addLink_def Let_def split: option.split)

interpretation rank_acc: accumulator "\<lambda>(v, n). pn_id n" "\<lambda>(v, n). v" snd snd fst rank_upd
  by unfold_locales (auto simp: add_rank_def Let_def split: option.split)

interpretation option_acc: accumulator
  "\<lambda>row. nodeFilterKey \<lparr>nf_kind = stage, nf_id = pn_id (NODE_BUILDERS stage row ctx)\<rparr>"
  "\<lambda>row. metricValue (rowMetrics row) metric" "\<lambda>row. NODE_BUILDERS stage row ctx" snd fst
  "add_option metric stage ctx" for metric stage ctx
  by unfold_locales (auto simp: add_option_def Let_def NODE_BUILDERS_wf split: option.split)

interpretation user_acc: accumulator "\<lambda>row. pn_id (userNode row)" "\<lambda>row. metricValue (rowMetrics row) metric"
  "\<lambda>row. pn_label (userNode row)" ut_value ut_label "add_user pf palette colors metric" for pf palette colors metric
  by unfold_locales (auto simp: add_user_def Let_def split: option.split)

definition path_color :: "flow_platform \<Rightarrow> string list \<Rightarrow> (string \<times> string) list \<Rightarrow> path_node list \<Rightarrow> string" where
  "path_color pf palette colors p =
     (case map_of colors (pn_id (hd p)) of Some c \<Rightarrow> c | None \<Rightarrow> colorAt pf 0 palette)"

definition node_items where
  "node_items pf palette colors ps =
     concat (map (\<lambda>(p, ms). map (\<lambda>n. (n, ms, path_color pf palette colors p, pn_id (hd p))) p) ps)"

definition link_items where
  "link_items pf palette colors ps =
     concat (map (\<lambda>(p, ms). map (\<lambda>s. (s, ms, path_color pf palette colors p, pn_id (hd p))) (path_steps p)) ps)"

lemma add_path_split:
  "add_path pf palette colors metric x g =
     (fold (node_upd metric) (node_items pf palette colors [x]) (fst g),
      fold (link_upd metric) (link_items pf palette colors [x]) (snd g))"
  by (cases x; cases "fst x")
    (auto simp: add_path_def node_items_def link_items_def path_color_def fold_map comp_def Let_def
      split: option.split prod.splits intro!: fold_cong)

lemma graph_split:
  "fold (add_path pf palette colors metric) ps g =
     (fold (node_upd metric) (node_items pf palette colors ps) (fst g),
      fold (link_upd metric) (link_items pf palette colors ps) (snd g))"
proof (induction ps arbitrary: g)
  case (Cons x ps)
  have "node_items pf palette colors (x # ps) = node_items pf palette colors [x] @ node_items pf palette colors ps"
    "link_items pf palette colors (x # ps) = link_items pf palette colors [x] @ link_items pf palette colors ps"
    by (simp_all add: node_items_def link_items_def)
  then show ?case using Cons by (simp add: add_path_split)
qed (simp add: node_items_def link_items_def)

text \<open>The prepared paths of a call of \<open>buildFlowGraph\<close>, and the maps after the loop.\<close>

definition graph_paths where
  "graph_paths pf rows metric role vs ctx options =
     prepare_paths rows (resolveVisibleStages role vs) ctx
       (buildTopNodeSets pf rows metric (resolveVisibleStages role vs) (normalizeTopNodeLimit (topNodeLimit options)) ctx)
       (case overflowMode options of Some m \<Rightarrow> m | None \<Rightarrow> Aggregate) (otherNodeLabel options)"

definition graph_colors where
  "graph_colors pf ps palette = stableColorMap pf (sort_by (localeCompare pf) (first_ids ps)) palette"

definition raw_nodes where
  "raw_nodes pf metric palette ps = fold (node_upd metric) (node_items pf palette (graph_colors pf ps palette) ps) []"

definition raw_links where
  "raw_links pf metric palette ps = fold (link_upd metric) (link_items pf palette (graph_colors pf ps palette) ps) []"

text \<open>What masking, highlighting, sorting and display colours keep of a node and a link.\<close>

definition node_core :: "flow_node \<Rightarrow> string \<times> node_kind \<times> int" where
  "node_core n = (fn_id n, fn_kind n, fn_value n)"

definition link_core :: "flow_link \<Rightarrow> string \<times> string \<times> int" where
  "link_core l = (fl_source l, fl_target l, fl_value l)"

lemma mset_sort_by [simp]: "mset (sort_by c xs) = mset xs"
  by (simp add: sort_by_def)

lemma mask_core:
  "maskFlowGraphLabels ns ls = (ns', ls') \<Longrightarrow>
     map (node_core \<circ> snd) ns' = map (node_core \<circ> snd) ns \<and> map (link_core \<circ> snd) ls' = map (link_core \<circ> snd) ls"
  by (auto simp: maskFlowGraphLabels_def node_core_def link_core_def Let_def comp_def case_prod_beta
      split: if_splits)

lemma highlight_core [simp]:
  "node_core (highlight_node hs n) = node_core n" "link_core (highlight_link hs l) = link_core l"
  by (auto simp: highlight_node_def highlight_link_def node_core_def link_core_def split: option.split)

lemma display_core [simp]: "link_core (link_display pf ls l) = link_core l" "link_core (share_of t l) = link_core l"
    "share (link_display pf ls l) = share l"
  by (simp_all add: link_display_def share_of_def link_core_def Let_def)

lemma link_core_share [simp]: "share (highlight_link hs l) = share l"
  by (auto simp: highlight_link_def split: option.split)

definition first_total where
  "first_total pf metric palette ps =
     (\<Sum>l\<leftarrow>filter (\<lambda>l. fl_source l \<in> set (first_ids ps)) (map snd (raw_links pf metric palette ps)). fl_value l)"

lemma sum_core:
  fixes f :: "'c \<Rightarrow> int"
  assumes "mset (map c xs) = mset (map d ys)"
  shows "(\<Sum>x\<leftarrow>filter (\<lambda>x. P (c x)) xs. f (c x)) = (\<Sum>y\<leftarrow>filter (\<lambda>y. P (d y)) ys. f (d y))"
proof -
  have "mset (map f (filter P (map c xs))) = mset (map f (filter P (map d ys)))"
    using assms by (metis mset_filter mset_map)
  then have "sum_list (map f (filter P (map c xs))) = sum_list (map f (filter P (map d ys)))"
    by (metis sum_mset_sum_list)
  then show ?thesis by (simp add: filter_map comp_def)
qed

lemma graph_shape:
  fixes pf rows metric role palette vs ctx options
  defines "ps \<equiv> graph_paths pf rows metric role vs ctx options"
    and "g \<equiv> buildFlowGraph pf rows metric role palette vs ctx options"
  shows "mset (map node_core (nodes g)) = mset (map (node_core \<circ> snd) (raw_nodes pf metric palette ps))"
    and "mset (map link_core (links g)) = mset (map (link_core \<circ> snd) (raw_links pf metric palette ps))"
    and "l \<in> set (links g) \<Longrightarrow> share l =
      (if first_total pf metric palette ps > 0 then of_int (fl_value l) / of_int (first_total pf metric palette ps) else 0)"
proof -
  define masked where "masked = (if maskSensitive options
    then maskFlowGraphLabels (raw_nodes pf metric palette ps) (raw_links pf metric palette ps)
    else (raw_nodes pf metric palette ps, raw_links pf metric palette ps))"
  define hs where "hs = buildFlowHighlightSets ps (activeNode options) (activeLink options) (resolveVisibleStages role vs)"
  define ls where "ls = sort_by (\<lambda>a b. cmp_or (localeCompare pf (fl_source a) (fl_source b))
      (localeCompare pf (fl_target a) (fl_target b))) (map (highlight_link hs) (map snd (snd masked)))"
  define tot where "tot = sum_list (map fl_value (filter (\<lambda>l. fl_source l \<in> set (first_ids ps)) ls))"
  have g: "g = \<lparr>nodes = sort_by (byValueThenLabel pf) (map (highlight_node hs) (map snd (fst masked))),
      links = assignLinkDisplayColors pf (map (share_of tot) ls)\<rparr>"
    unfolding g_def buildFlowGraph_def ps_def graph_paths_def masked_def hs_def ls_def tot_def
      raw_nodes_def raw_links_def graph_colors_def applyFlowHighlights_def
    by (simp add: graph_split Let_def case_prod_beta)
  have m: "map (node_core \<circ> snd) (fst masked) = map (node_core \<circ> snd) (raw_nodes pf metric palette ps)"
    "map (link_core \<circ> snd) (snd masked) = map (link_core \<circ> snd) (raw_links pf metric palette ps)"
    using mask_core [of "raw_nodes pf metric palette ps" "raw_links pf metric palette ps"]
    by (cases "maskFlowGraphLabels (raw_nodes pf metric palette ps) (raw_links pf metric palette ps)";
        simp add: masked_def)+
  have "mset (map node_core (nodes g)) = image_mset node_core (mset (map (highlight_node hs) (map snd (fst masked))))"
    by (simp add: g del: map_map)
  also have "\<dots> = mset (map (node_core \<circ> snd) (fst masked))"
    by (simp add: comp_def flip: mset_map)
  finally show "mset (map node_core (nodes g)) = mset (map (node_core \<circ> snd) (raw_nodes pf metric palette ps))"
    using m(1) by simp
  have core_ls: "mset (map link_core ls) = mset (map (link_core \<circ> snd) (raw_links pf metric palette ps))"
  proof -
    have "mset (map link_core ls) = image_mset link_core (mset (map (highlight_link hs) (map snd (snd masked))))"
      by (simp add: ls_def del: map_map)
    also have "\<dots> = mset (map (link_core \<circ> snd) (snd masked))"
      by (simp add: comp_def flip: mset_map)
    finally show ?thesis using m(2) by simp
  qed
  show "mset (map link_core (links g)) = mset (map (link_core \<circ> snd) (raw_links pf metric palette ps))"
    using core_ls by (simp add: g assignLinkDisplayColors_def comp_def)
  have "tot = first_total pf metric palette ps"
    using sum_core [OF core_ls, where P = "\<lambda>c. fst c \<in> set (first_ids ps)" and f = "\<lambda>c. snd (snd c)"]
    by (simp add: tot_def first_total_def link_core_def filter_map comp_def)
  moreover assume "l \<in> set (links g)"
  then obtain l0 where "l0 \<in> set ls" "l = link_display pf (filter (\<lambda>l. fl_source l = fl_source (share_of tot l0))
      (map (share_of tot) ls)) (share_of tot l0)"
    by (auto simp: g assignLinkDisplayColors_def)
  ultimately show "share l = (if first_total pf metric palette ps > 0
      then of_int (fl_value l) / of_int (first_total pf metric palette ps) else 0)"
    by (simp add: share_of_def link_display_def Let_def)
qed

section \<open>Sums over paths\<close>

lemma sum_single:
  fixes c :: int
  shows "distinct (map f p) \<Longrightarrow> (\<Sum>n\<leftarrow>filter (\<lambda>n. f n = k) p. c) = (if k \<in> f ` set p then c else 0)"
proof (induction p)
  case (Cons a p)
  then show ?case by (cases "f a = k") (auto simp: filter_empty_conv image_iff)
qed simp

lemma path_steps_fst: "map fst (path_steps p) = butlast p"
  by (induction p rule: path_steps.induct) auto

lemma path_steps_snd: "map snd (path_steps p) = tl p"
  by (induction p rule: path_steps.induct) auto

lemma sum_concat:
  fixes f :: "'b \<Rightarrow> int"
  shows "(\<Sum>x\<leftarrow>filter P (concat xss). f x) = (\<Sum>xs\<leftarrow>xss. \<Sum>x\<leftarrow>filter P xs. f x)"
  by (induction xss) auto

lemma node_items_sum:
  "(\<Sum>(n, ms, c, ck)\<leftarrow>filter (\<lambda>(n, ms, c, ck). Q n) (node_items pf palette colors ps). metricValue ms metric) =
   (\<Sum>(p, ms)\<leftarrow>ps. \<Sum>n\<leftarrow>filter Q p. metricValue ms metric)"
  by (induction ps) (auto simp: node_items_def filter_map comp_def)

lemma link_items_sum:
  "(\<Sum>(s, ms, c, ck)\<leftarrow>filter (\<lambda>(s, ms, c, ck). Q s) (link_items pf palette colors ps). metricValue ms metric) =
   (\<Sum>(p, ms)\<leftarrow>ps. \<Sum>s\<leftarrow>filter Q (path_steps p). metricValue ms metric)"
  by (induction ps) (auto simp: link_items_def filter_map comp_def)

definition paths_wf where
  "paths_wf stages ps \<longleftrightarrow> distinct stages \<and> length stages \<ge> 2 \<and> (\<forall>(p, ms) \<in> set ps. path_wf stages p)"

lemma graph_paths_wf: "paths_wf (resolveVisibleStages role vs) (graph_paths pf rows metric role vs ctx options)"
  using stages_wf prepare_paths_wf by (fastforce simp: paths_wf_def graph_paths_def)

definition paths_total where
  "paths_total metric ps = (\<Sum>(p, ms)\<leftarrow>ps. metricValue ms metric)"

lemma raw_nodes_origin:
  assumes "(i, n) \<in> set (raw_nodes pf metric palette ps)"
  obtains x p ms where "(p, ms) \<in> set ps" "x \<in> set p" "pn_id x = i" "fn_id n = i" "fn_kind n = pn_kind x"
proof -
  obtain x ms c ck where x: "(x, ms, c, ck) \<in> set (node_items pf palette (graph_colors pf ps palette) ps)"
      "pn_id x = i" "(fn_id n, fn_kind n) = (pn_id x, pn_kind x)"
    using node_acc.entry_tag [OF assms [unfolded raw_nodes_def]] by auto
  then obtain p where "(p, ms) \<in> set ps" "x \<in> set p" by (auto simp: node_items_def)
  then show ?thesis using that x by auto
qed

lemma raw_nodes_kind:
  assumes "paths_wf stages ps" "(i, n) \<in> set (raw_nodes pf metric palette ps)"
  shows "fn_id n = i" "id_kind i = Some (fn_kind n)" "fn_kind n \<in> set stages"
proof -
  from assms(2) obtain x p ms where "(p, ms) \<in> set ps" "x \<in> set p" "pn_id x = i" "fn_id n = i" "fn_kind n = pn_kind x"
    by (rule raw_nodes_origin)
  moreover from this have "path_wf stages p" using assms(1) by (auto simp: paths_wf_def)
  ultimately show "fn_id n = i" "id_kind i = Some (fn_kind n)" "fn_kind n \<in> set stages"
    by (auto simp: path_wf_def list_all_iff node_wf_def)
qed

lemma raw_nodes_total:
  assumes wf: "paths_wf stages ps" and k: "k \<in> set stages"
  shows "(\<Sum>e\<leftarrow>filter (\<lambda>e. fn_kind (snd e) = k) (raw_nodes pf metric palette ps). fn_value (snd e)) = paths_total metric ps"
proof -
  let ?m = "raw_nodes pf metric palette ps"
  have "filter (\<lambda>e. fn_kind (snd e) = k) ?m = filter ((\<lambda>i. id_kind i = Some k) \<circ> fst) ?m"
    using raw_nodes_kind [OF wf] by (intro filter_cong) auto
  then have "(\<Sum>e\<leftarrow>filter (\<lambda>e. fn_kind (snd e) = k) ?m. fn_value (snd e)) =
      (\<Sum>(n, ms, c, ck)\<leftarrow>filter (\<lambda>(n, ms, c, ck). id_kind (pn_id n) = Some k)
        (node_items pf palette (graph_colors pf ps palette) ps). metricValue ms metric)"
    using node_acc.total_all [of "\<lambda>i. id_kind i = Some k" metric]
    by (simp add: raw_nodes_def comp_def case_prod_unfold)
  also have "\<dots> = (\<Sum>(p, ms)\<leftarrow>ps. \<Sum>n\<leftarrow>filter (\<lambda>n. id_kind (pn_id n) = Some k) p. metricValue ms metric)"
    by (rule node_items_sum)
  also have "\<dots> = paths_total metric ps" unfolding paths_total_def
  proof (intro arg_cong [of _ _ sum_list] map_cong refl)
    fix x assume x: "x \<in> set ps"
    obtain p ms where pm: "x = (p, ms)" by fastforce
    then have pw: "path_wf stages p" using wf x by (auto simp: paths_wf_def)
    then have "filter (\<lambda>n. id_kind (pn_id n) = Some k) p = filter (\<lambda>n. pn_kind n = k) p"
      by (intro filter_cong) (auto simp: path_wf_def list_all_iff node_wf_def)
    moreover have "distinct (map pn_kind p)" "k \<in> pn_kind ` set p"
      using pw wf k by (auto simp: path_wf_def paths_wf_def)
    ultimately show "(case x of (p, ms) \<Rightarrow> \<Sum>n\<leftarrow>filter (\<lambda>n. id_kind (pn_id n) = Some k) p. metricValue ms metric) =
        (case x of (p, ms) \<Rightarrow> metricValue ms metric)"
      using sum_single [where f = pn_kind and p = p and k = k] by (simp add: pm)
  qed
  finally show ?thesis .
qed

lemma raw_links_ends:
  assumes "(i, l) \<in> set (raw_links pf metric palette ps)"
  obtains a b p ms where "(p, ms) \<in> set ps" "(a, b) \<in> set (path_steps p)" "i = pathLinkKey a b"
    "fl_source l = pn_id a" "fl_target l = pn_id b"
proof -
  obtain a b ms c ck where x: "((a, b), ms, c, ck) \<in> set (link_items pf palette (graph_colors pf ps palette) ps)"
      "pathLinkKey a b = i" "(fl_source l, fl_target l) = (pn_id a, pn_id b)"
    using link_acc.entry_tag [OF assms [unfolded raw_links_def]] by auto
  then obtain p where "(p, ms) \<in> set ps" "(a, b) \<in> set (path_steps p)"
    by (auto simp: link_items_def)
  then show ?thesis using that x by auto
qed

text \<open>The metric of the links a key predicate selects.\<close>

lemma raw_links_sum:
  "(\<Sum>e\<leftarrow>filter (P \<circ> fst) (raw_links pf metric palette ps). fl_value (snd e)) =
   (\<Sum>(p, ms)\<leftarrow>ps. \<Sum>s\<leftarrow>filter (\<lambda>(a, b). P (pathLinkKey a b)) (path_steps p). metricValue ms metric)"
proof -
  have "(\<Sum>e\<leftarrow>filter (P \<circ> fst) (raw_links pf metric palette ps). fl_value (snd e)) =
    (\<Sum>(s, ms, c, ck)\<leftarrow>filter (\<lambda>(s, ms, c, ck). case s of (a, b) \<Rightarrow> P (pathLinkKey a b))
        (link_items pf palette (graph_colors pf ps palette) ps). metricValue ms metric)"
    using link_acc.total_all [of P metric] by (simp add: raw_links_def comp_def case_prod_unfold)
  then show ?thesis using link_items_sum [where Q = "\<lambda>(a, b). P (pathLinkKey a b)"] by simp
qed

lemma path_steps_sum:
  fixes c :: int
  shows "(\<Sum>s\<leftarrow>filter (\<lambda>s. Q (fst s)) (path_steps p). c) = (\<Sum>n\<leftarrow>filter Q (butlast p). c)"
    and "(\<Sum>s\<leftarrow>filter (\<lambda>s. Q (snd s)) (path_steps p). c) = (\<Sum>n\<leftarrow>filter Q (tl p). c)"
proof -
  have f: "(\<Sum>s\<leftarrow>filter (\<lambda>s. Q (f s)) xs. c) = (\<Sum>n\<leftarrow>filter Q (map f xs). c)"
    for f :: "'a \<times> 'a \<Rightarrow> 'a" and xs
    by (simp add: filter_map comp_def)
  show "(\<Sum>s\<leftarrow>filter (\<lambda>s. Q (fst s)) (path_steps p). c) = (\<Sum>n\<leftarrow>filter Q (butlast p). c)"
    "(\<Sum>s\<leftarrow>filter (\<lambda>s. Q (snd s)) (path_steps p). c) = (\<Sum>n\<leftarrow>filter Q (tl p). c)"
    unfolding f path_steps_fst path_steps_snd by (rule refl)+
qed

lemma path_steps_set: "(a, b) \<in> set (path_steps p) \<Longrightarrow> a \<in> set (butlast p) \<and> b \<in> set (tl p)"
  by (metis path_steps_fst path_steps_snd image_eqI fst_conv snd_conv set_map)

lemma node_wf_truthy: "node_wf n \<Longrightarrow> pn_id n \<noteq> []"
  by (auto simp: node_wf_def id_kind_iff)

lemma path_wf_hd: "path_wf stages p \<Longrightarrow> length stages \<ge> 2 \<Longrightarrow> p \<noteq> [] \<and> node_wf (hd p)"
  by (cases p) (auto simp: path_wf_def)

lemma path_wf_ends:
  assumes "path_wf stages p" "distinct stages"
  shows "distinct (map pn_kind (butlast p))" "pn_kind ` set (butlast p) = set (butlast stages)"
    "pn_kind ` set (tl p) = set (tl stages)"
proof -
  have "map pn_kind (butlast p) = butlast stages" "map pn_kind (tl p) = tl stages"
    using assms(1) by (auto simp: path_wf_def map_butlast map_tl)
  then show "distinct (map pn_kind (butlast p))" "pn_kind ` set (butlast p) = set (butlast stages)"
    "pn_kind ` set (tl p) = set (tl stages)"
    using assms(2) by (metis distinct_butlast, metis set_map, metis set_map)
qed

lemma hd_butlast: "length xs \<ge> 2 \<Longrightarrow> hd xs \<in> set (butlast xs)"
  by (cases xs; cases "tl xs") auto

lemma first_total_eq:
  assumes wf: "paths_wf stages ps"
  shows "first_total pf metric palette ps = paths_total metric ps"
proof -
  let ?m = "raw_links pf metric palette ps" and ?k = "hd stages"
  have pw: "\<And>p ms. (p, ms) \<in> set ps \<Longrightarrow> path_wf stages p" using wf by (auto simp: paths_wf_def)
  have st: "distinct stages" "length stages \<ge> 2" using wf by (auto simp: paths_wf_def)
  have first: "(a \<in> set p \<and> id_kind (pn_id a) = Some ?k \<longleftrightarrow> a = hd p \<and> p \<noteq> [])" if "path_wf stages p" for p a
    using that st by (cases p) (auto simp: path_wf_def list_all_iff node_wf_def, metis imageI)
  have firsts: "set (first_ids ps) = (\<lambda>x. pn_id (hd (fst x))) ` set ps"
  proof -
    have ne: "pn_id (hd (fst x)) \<noteq> []" "fst x \<noteq> []" if "x \<in> set ps" for x
      using path_wf_hd [OF pw [of "fst x" "snd x"]] that st(2) node_wf_truthy by simp_all
    have "filter (\<lambda>x. fst x \<noteq> []) ps = ps" by (rule filter_True) (use ne in auto)
    moreover have "filter truthy (map (\<lambda>x. pn_id (hd (fst x))) ps) = map (\<lambda>x. pn_id (hd (fst x))) ps"
      by (rule filter_True) (use ne in auto)
    ultimately show ?thesis by (simp add: first_ids_def)
  qed
  have "fl_source l \<in> set (first_ids ps) \<longleftrightarrow> id_kind i = Some ?k" if e: "(i, l) \<in> set ?m" for i l
  proof -
    from e obtain a b p ms where x: "(p, ms) \<in> set ps" "(a, b) \<in> set (path_steps p)" "i = pathLinkKey a b"
        "fl_source l = pn_id a" by (rule raw_links_ends)
    have a: "a \<in> set p" using path_steps_set [OF x(2)] in_set_butlastD by fast
    then have wa: "id_kind (pn_id a) = Some (pn_kind a)"
      using pw [OF x(1)] by (auto simp: path_wf_def list_all_iff node_wf_def)
    then have key: "id_kind i = Some (pn_kind a)" by (simp add: x(3) pathLinkKey_def id_kind_append)
    have "id_kind j = Some ?k" if j: "j \<in> set (first_ids ps)" for j
    proof -
      obtain q ns where q: "(q, ns) \<in> set ps" "j = pn_id (hd q)" using j firsts by auto
      then have "q \<noteq> []" using pw [OF q(1)] st by (auto simp: path_wf_def)
      then show ?thesis using first [OF pw [OF q(1)], of "hd q"] q by simp
    qed
    moreover have "fl_source l \<in> set (first_ids ps)" if "id_kind i = Some ?k"
      using first [OF pw [OF x(1)], of a] a wa key x firsts that by force
    ultimately show ?thesis using wa key x(4) by auto
  qed
  then have "filter (\<lambda>e. fl_source (snd e) \<in> set (first_ids ps)) ?m = filter ((\<lambda>i. id_kind i = Some ?k) \<circ> fst) ?m"
    by (intro filter_cong) auto
  then have "first_total pf metric palette ps =
      (\<Sum>e\<leftarrow>filter ((\<lambda>i. id_kind i = Some ?k) \<circ> fst) ?m. fl_value (snd e))"
    by (simp add: first_total_def filter_map comp_def)
  also have "\<dots> = paths_total metric ps"
    unfolding raw_links_sum paths_total_def
  proof (intro arg_cong [of _ _ sum_list] map_cong refl)
    fix x assume x: "x \<in> set ps"
    obtain p ms where pm: "x = (p, ms)" by fastforce
    have p: "path_wf stages p" using x pm pw by simp
    then have "filter (\<lambda>s. id_kind (pathLinkKey (fst s) (snd s)) = Some ?k) (path_steps p) =
        filter (\<lambda>s. pn_kind (fst s) = ?k) (path_steps p)"
      by (intro filter_cong) (auto dest!: path_steps_set in_set_butlastD
          simp: path_wf_def list_all_iff node_wf_def pathLinkKey_def id_kind_append)
    moreover have "distinct (map pn_kind (butlast p))" "?k \<in> pn_kind ` set (butlast p)"
      using path_wf_ends [OF p st(1)] hd_butlast [OF st(2)] by auto
    ultimately show "(case x of (p, ms) \<Rightarrow> \<Sum>s\<leftarrow>filter (\<lambda>(a, b). id_kind (pathLinkKey a b) = Some ?k) (path_steps p).
          metricValue ms metric) = (case x of (p, ms) \<Rightarrow> metricValue ms metric)"
      using sum_single [where f = pn_kind and p = "butlast p" and k = ?k]
        path_steps_sum(1) [where Q = "\<lambda>n. pn_kind n = ?k" and p = p]
      by (simp add: pm case_prod_unfold)
  qed
  finally show ?thesis .
qed

section \<open>Flow through a node\<close>

definition outflow :: "flow_graph \<Rightarrow> string \<Rightarrow> int" where
  "outflow g i = (\<Sum>l\<leftarrow>filter (\<lambda>l. fl_source l = i) (links g). fl_value l)"

definition inflow :: "flow_graph \<Rightarrow> string \<Rightarrow> int" where
  "inflow g i = (\<Sum>l\<leftarrow>filter (\<lambda>l. fl_target l = i) (links g). fl_value l)"

definition nul_free where
  "nul_free ps \<longleftrightarrow> (\<forall>(p, ms) \<in> set ps. \<forall>n \<in> set p. CHR 0x00 \<notin> set (pn_id n))"

definition key_source :: "string \<Rightarrow> string" where
  "key_source k = takeWhile (\<lambda>c. c \<noteq> CHR 0x00) k"

definition key_target :: "string \<Rightarrow> string" where
  "key_target k = tl (dropWhile (\<lambda>c. c \<noteq> CHR 0x00) k)"

lemma key_ends:
  "CHR 0x00 \<notin> set (pn_id a) \<Longrightarrow> key_source (pathLinkKey a b) = pn_id a \<and> key_target (pathLinkKey a b) = pn_id b"
  by (simp add: key_source_def key_target_def pathLinkKey_def takeWhile_append2 dropWhile_append2
      takeWhile_append dropWhile_append)

lemma raw_links_key:
  assumes "nul_free ps" "(i, l) \<in> set (raw_links pf metric palette ps)"
  shows "fl_source l = key_source i" "fl_target l = key_target i"
proof -
  from assms(2) obtain a b p ms where x: "(p, ms) \<in> set ps" "(a, b) \<in> set (path_steps p)" "i = pathLinkKey a b"
      "fl_source l = pn_id a" "fl_target l = pn_id b" by (rule raw_links_ends)
  have "a \<in> set p" using path_steps_set [OF x(2)] in_set_butlastD by fast
  then have "CHR 0x00 \<notin> set (pn_id a)" using assms(1) x(1) by (auto simp: nul_free_def)
  then show "fl_source l = key_source i" "fl_target l = key_target i" using key_ends x by auto
qed

lemma raw_flow:
  assumes nf: "nul_free ps"
  shows "(\<Sum>e\<leftarrow>filter (\<lambda>e. fl_source (snd e) = i) (raw_links pf metric palette ps). fl_value (snd e)) =
      (\<Sum>(p, ms)\<leftarrow>ps. \<Sum>n\<leftarrow>filter (\<lambda>n. pn_id n = i) (butlast p). metricValue ms metric)"
    and "(\<Sum>e\<leftarrow>filter (\<lambda>e. fl_target (snd e) = i) (raw_links pf metric palette ps). fl_value (snd e)) =
      (\<Sum>(p, ms)\<leftarrow>ps. \<Sum>n\<leftarrow>filter (\<lambda>n. pn_id n = i) (tl p). metricValue ms metric)"
proof -
  let ?m = "raw_links pf metric palette ps"
  have key: "(a, b) \<in> set (path_steps p) \<Longrightarrow> (p, ms) \<in> set ps \<Longrightarrow>
      key_source (pathLinkKey a b) = pn_id a \<and> key_target (pathLinkKey a b) = pn_id b" for a b p ms
    using nf by (intro key_ends) (auto simp: nul_free_def dest!: path_steps_set in_set_butlastD)
  have "filter (\<lambda>e. fl_source (snd e) = i) ?m = filter ((\<lambda>k. key_source k = i) \<circ> fst) ?m"
    "filter (\<lambda>e. fl_target (snd e) = i) ?m = filter ((\<lambda>k. key_target k = i) \<circ> fst) ?m"
    using raw_links_key [OF nf] by (auto intro!: filter_cong)
  then have sums: "(\<Sum>e\<leftarrow>filter (\<lambda>e. fl_source (snd e) = i) ?m. fl_value (snd e)) =
      (\<Sum>(p, ms)\<leftarrow>ps. \<Sum>s\<leftarrow>filter (\<lambda>(a, b). key_source (pathLinkKey a b) = i) (path_steps p). metricValue ms metric)"
    "(\<Sum>e\<leftarrow>filter (\<lambda>e. fl_target (snd e) = i) ?m. fl_value (snd e)) =
      (\<Sum>(p, ms)\<leftarrow>ps. \<Sum>s\<leftarrow>filter (\<lambda>(a, b). key_target (pathLinkKey a b) = i) (path_steps p). metricValue ms metric)"
    by (simp_all only: raw_links_sum)
  have steps: "(p, ms) \<in> set ps \<Longrightarrow>
      filter (\<lambda>(a, b). key_source (pathLinkKey a b) = i) (path_steps p) = filter (\<lambda>s. pn_id (fst s) = i) (path_steps p)
      \<and> filter (\<lambda>(a, b). key_target (pathLinkKey a b) = i) (path_steps p) = filter (\<lambda>s. pn_id (snd s) = i) (path_steps p)"
    for p ms
    using key by (auto intro!: filter_cong)
  show "(\<Sum>e\<leftarrow>filter (\<lambda>e. fl_source (snd e) = i) ?m. fl_value (snd e)) =
      (\<Sum>(p, ms)\<leftarrow>ps. \<Sum>n\<leftarrow>filter (\<lambda>n. pn_id n = i) (butlast p). metricValue ms metric)"
    unfolding sums path_steps_sum(1) [symmetric]
    by (intro arg_cong [of _ _ sum_list] map_cong refl) (auto simp: steps)
  show "(\<Sum>e\<leftarrow>filter (\<lambda>e. fl_target (snd e) = i) ?m. fl_value (snd e)) =
      (\<Sum>(p, ms)\<leftarrow>ps. \<Sum>n\<leftarrow>filter (\<lambda>n. pn_id n = i) (tl p). metricValue ms metric)"
    unfolding sums path_steps_sum(2) [symmetric]
    by (intro arg_cong [of _ _ sum_list] map_cong refl) (auto simp: steps)
qed

lemma raw_node_value:
  "(i, n) \<in> set (raw_nodes pf metric palette ps) \<Longrightarrow>
   fn_value n = (\<Sum>(p, ms)\<leftarrow>ps. \<Sum>x\<leftarrow>filter (\<lambda>x. pn_id x = i) p. metricValue ms metric)"
  unfolding raw_nodes_def
  using node_items_sum [where Q = "\<lambda>x. pn_id x = i" and ps = ps and metric = metric]
    node_acc.value_at [of i n metric]
  by (simp add: case_prod_unfold)

text \<open>The nodes with id \<open>i\<close> of a path, without its last or first node.\<close>

lemma filter_butlast:
  assumes "path_wf stages p" "distinct stages" "length stages \<ge> 2" "id_kind i = Some k"
  shows "filter (\<lambda>n. pn_id n = i) (butlast p) = (if k = last stages then [] else filter (\<lambda>n. pn_id n = i) p)"
    and "filter (\<lambda>n. pn_id n = i) (tl p) = (if k = hd stages then [] else filter (\<lambda>n. pn_id n = i) p)"
proof -
  have p: "p \<noteq> []" "map pn_kind p = stages" using assms by (auto simp: path_wf_def)
  have kind: "n \<in> set p \<Longrightarrow> pn_id n = i \<Longrightarrow> pn_kind n = k" for n
    using assms(1,4) by (auto simp: path_wf_def list_all_iff node_wf_def)
  have ends: "pn_kind (last p) = last stages" "pn_kind (hd p) = hd stages"
    using p by (auto simp: last_map hd_map)
  have "last stages \<notin> set (butlast stages)" using assms(2,3) by (cases stages rule: rev_cases) auto
  moreover have "hd stages \<notin> set (tl stages)" using assms(2,3) by (cases stages) auto
  ultimately have out: "n \<in> set (butlast p) \<Longrightarrow> pn_kind n \<noteq> last stages" "n \<in> set (tl p) \<Longrightarrow> pn_kind n \<noteq> hd stages" for n
    using path_wf_ends(2,3) [OF assms(1,2)] by (metis image_eqI)+
  have split: "p = butlast p @ [last p]" "p = hd p # tl p" using p by auto
  show "filter (\<lambda>n. pn_id n = i) (butlast p) = (if k = last stages then [] else filter (\<lambda>n. pn_id n = i) p)"
  proof (cases "k = last stages")
    case True
    have "pn_id n \<noteq> i" if "n \<in> set (butlast p)" for n
      using that kind [of n] out(1) [of n] True in_set_butlastD [of n p] by auto
    then show ?thesis using True by simp
  next
    case False
    then have "pn_id (last p) \<noteq> i" using kind ends p by auto
    then show ?thesis
      using False arg_cong [OF split(1), of "filter (\<lambda>n. pn_id n = i)"]
      by (simp del: append_butlast_last_id)
  qed
  show "filter (\<lambda>n. pn_id n = i) (tl p) = (if k = hd stages then [] else filter (\<lambda>n. pn_id n = i) p)"
  proof (cases "k = hd stages")
    case True
    have "pn_id n \<noteq> i" if "n \<in> set (tl p)" for n
      using that kind [of n] out(2) [of n] True list.set_sel(2) [OF p(1), of n] by auto
    then show ?thesis using True by simp
  next
    case False
    then have "pn_id (hd p) \<noteq> i" using kind ends p by auto
    then show ?thesis
      using False arg_cong [OF split(2), of "filter (\<lambda>n. pn_id n = i)"] by (simp del: list.collapse)
  qed
qed

lemma raw_balance:
  assumes wf: "paths_wf stages ps" and nf: "nul_free ps" and n: "(i, n) \<in> set (raw_nodes pf metric palette ps)"
  shows "(\<Sum>e\<leftarrow>filter (\<lambda>e. fl_source (snd e) = i) (raw_links pf metric palette ps). fl_value (snd e)) =
      (if fn_kind n = last stages then 0 else fn_value n)"
    and "(\<Sum>e\<leftarrow>filter (\<lambda>e. fl_target (snd e) = i) (raw_links pf metric palette ps). fl_value (snd e)) =
      (if fn_kind n = hd stages then 0 else fn_value n)"
proof -
  have st: "distinct stages" "length stages \<ge> 2" and pw: "\<And>p ms. (p, ms) \<in> set ps \<Longrightarrow> path_wf stages p"
    using wf by (auto simp: paths_wf_def)
  note f = filter_butlast [OF pw st raw_nodes_kind(2) [OF wf n]]
  have cut: "(\<Sum>(p, ms)\<leftarrow>ps. \<Sum>n\<leftarrow>filter Q (g p). metricValue ms metric) =
      (if c then 0 else (\<Sum>(p, ms)\<leftarrow>ps. \<Sum>n\<leftarrow>filter Q p. metricValue ms metric))"
    if "\<And>p ms. (p, ms) \<in> set ps \<Longrightarrow> filter Q (g p) = (if c then [] else filter Q p)" for Q g c
  proof -
    have "(\<Sum>(p, ms)\<leftarrow>ps. \<Sum>n\<leftarrow>filter Q (g p). metricValue ms metric) =
        (\<Sum>(p, ms)\<leftarrow>ps. \<Sum>n\<leftarrow>(if c then [] else filter Q p). metricValue ms metric)"
      by (intro arg_cong [of _ _ sum_list] map_cong refl) (auto simp: that)
    then show ?thesis by (simp add: case_prod_unfold)
  qed
  show "(\<Sum>e\<leftarrow>filter (\<lambda>e. fl_source (snd e) = i) (raw_links pf metric palette ps). fl_value (snd e)) =
      (if fn_kind n = last stages then 0 else fn_value n)"
    unfolding raw_flow(1) [OF nf] raw_node_value [OF n] by (rule cut) (rule f(1))
  show "(\<Sum>e\<leftarrow>filter (\<lambda>e. fl_target (snd e) = i) (raw_links pf metric palette ps). fl_value (snd e)) =
      (if fn_kind n = hd stages then 0 else fn_value n)"
    unfolding raw_flow(2) [OF nf] raw_node_value [OF n] by (rule cut) (rule f(2))
qed

section \<open>Properties of the graph\<close>

lemma summary_metric: "metricValue (buildSummary rows) metric = (\<Sum>row\<leftarrow>rows. metricValue (rowMetrics row) metric)"
proof -
  have add: "metricValue (add_metrics a b) metric = metricValue a metric + metricValue b metric" for a b
    by (cases metric) (simp_all add: metricValue_def add_metrics_def)
  have "metricValue (fold (\<lambda>row s. add_metrics s (rowMetrics row)) rows a) metric =
      metricValue a metric + (\<Sum>row\<leftarrow>rows. metricValue (rowMetrics row) metric)" for a
    by (induction rows arbitrary: a) (simp_all add: add)
  then show ?thesis
    by (cases metric) (simp_all add: buildSummary_def zero_metrics_def metricValue_def)
qed

lemma graph_paths_total:
  assumes "overflowMode options \<noteq> Some Hide"
  shows "paths_total metric (graph_paths pf rows metric role vs ctx options) = metricValue (buildSummary rows) metric"
proof -
  have "\<exists>p'. applyTopNodeLimit p ts (case overflowMode options of Some m \<Rightarrow> m | None \<Rightarrow> Aggregate) f = Some p'" for p ts f
    using assms overflow_mode.exhaust by (auto simp: applyTopNodeLimit_def split: option.splits)
  note ex = this
  have one: "paths_total metric (prepare_paths rows stages ctx ts
      (case overflowMode options of Some m \<Rightarrow> m | None \<Rightarrow> Aggregate) f) =
      (\<Sum>row\<leftarrow>rows. metricValue (rowMetrics row) metric)" for stages ts f
  proof (induction rows)
    case (Cons a rows)
    obtain p' where "applyTopNodeLimit (flowPathForStages a stages ctx) ts
        (case overflowMode options of Some m \<Rightarrow> m | None \<Rightarrow> Aggregate) f = Some p'"
      using ex by blast
    then show ?case using Cons by (simp add: prepare_paths_def paths_total_def)
  qed (simp add: prepare_paths_def paths_total_def)
  then show ?thesis unfolding graph_paths_def summary_metric .
qed

text \<open>
  Every column of the diagram shows the whole metric: unless overflowing nodes are hidden,
  the values of the nodes of each visible stage add up to the metric of the summary, whatever
  stages are visible and however many nodes are aggregated into \<open>Other\<close>.
\<close>

theorem stage_totals:
  assumes "overflowMode options \<noteq> Some Hide"
  shows "list_all (\<lambda>k. (\<Sum>n\<leftarrow>filter (\<lambda>n. fn_kind n = k)
        (nodes (buildFlowGraph pf rows metric role palette vs ctx options)). fn_value n)
      = metricValue (buildSummary rows) metric) (resolveVisibleStages role vs)"
proof -
  let ?ps = "graph_paths pf rows metric role vs ctx options"
  have "(\<Sum>n\<leftarrow>filter (\<lambda>n. fn_kind n = k) (nodes (buildFlowGraph pf rows metric role palette vs ctx options)). fn_value n)
      = paths_total metric ?ps" if "k \<in> set (resolveVisibleStages role vs)" for k
    using sum_core [OF graph_shape(1), where P = "\<lambda>c. fst (snd c) = k" and f = "\<lambda>c. snd (snd c)"]
      raw_nodes_total [OF graph_paths_wf that]
    by (simp add: node_core_def comp_def)
  then show ?thesis using graph_paths_total [OF assms] by (simp add: list_all_iff)
qed

text \<open>A name with a NUL character could make two links share a key; no database column holds one.\<close>

definition plain :: "string option \<Rightarrow> bool" where
  "plain s = (CHR 0x00 \<notin> set (opt_str s))"

definition plain_row :: "flow_row \<Rightarrow> bool" where
  "plain_row row \<longleftrightarrow> plain (username row) \<and> plain (node_name row) \<and> plain (use_group row)
     \<and> plain (token_name row) \<and> plain (channel_name row) \<and> plain (model_name row)"

lemma int_str_nul: "CHR 0x00 \<notin> set (int_str i)"
proof -
  have "CHR 0x00 \<notin> set (nat_str n)" for n using nat_str_digits [of "CHR 0x00" n] by (auto simp: is_digit_def)
  then show ?thesis by (simp add: int_str_def)
qed

lemma NODE_BUILDERS_nul: "plain_row row \<Longrightarrow> CHR 0x00 \<notin> set (pn_id (NODE_BUILDERS k row ctx))"
  by (cases k) (auto simp: plain_row_def plain_def userNode_def nodeNameNode_def tokenNode_def groupNode_def
      modelNode_def channelNode_def str_or_def int_str_nul Let_def)

lemma otherFlowNode_nul: "CHR 0x00 \<notin> set (pn_id (otherFlowNode k f))"
  by (cases k) (simp_all add: otherFlowNode_def)

lemma graph_paths_nul: "list_all plain_row rows \<Longrightarrow> nul_free (graph_paths pf rows metric role vs ctx options)"
proof -
  assume rows: "list_all plain_row rows"
  have path: "n \<in> set (flowPathForStages row stages ctx) \<Longrightarrow> row \<in> set rows \<Longrightarrow> CHR 0x00 \<notin> set (pn_id n)"
    for n row stages
    using rows NODE_BUILDERS_nul by (auto simp: flowPathForStages_def list_all_iff)
  have limit: "applyTopNodeLimit p ts mode f = Some p' \<Longrightarrow> n \<in> set p' \<Longrightarrow> n \<in> set p \<or> (\<exists>k. n = otherFlowNode k f)"
    for p ts mode f p' n
    by (auto simp: applyTopNodeLimit_def split: if_splits)
  show ?thesis
    unfolding nul_free_def graph_paths_def prepare_paths_def
    using path limit otherFlowNode_nul by (auto split: option.splits) metis+
qed

text \<open>
  C3. Flow is conserved at every node: what the links bring into a node of the diagram equals its
  value, except in the first column, where nothing comes in; and what leaves it equals its value,
  except in the last column.
\<close>

theorem flow_conserved:
  assumes "list_all plain_row rows"
  shows "list_all (\<lambda>n.
      inflow (buildFlowGraph pf rows metric role palette vs ctx options) (fn_id n) =
        (if fn_kind n = hd (resolveVisibleStages role vs) then 0 else fn_value n)
    \<and> outflow (buildFlowGraph pf rows metric role palette vs ctx options) (fn_id n) =
        (if fn_kind n = last (resolveVisibleStages role vs) then 0 else fn_value n))
    (nodes (buildFlowGraph pf rows metric role palette vs ctx options))"
proof -
  let ?ps = "graph_paths pf rows metric role vs ctx options"
    and ?g = "buildFlowGraph pf rows metric role palette vs ctx options"
  have flows: "outflow ?g i = (\<Sum>e\<leftarrow>filter (\<lambda>e. fl_source (snd e) = i) (raw_links pf metric palette ?ps). fl_value (snd e))"
    "inflow ?g i = (\<Sum>e\<leftarrow>filter (\<lambda>e. fl_target (snd e) = i) (raw_links pf metric palette ?ps). fl_value (snd e))" for i
    using sum_core [OF graph_shape(2), where P = "\<lambda>c. fst c = i" and f = "\<lambda>c. snd (snd c)"]
      sum_core [OF graph_shape(2), where P = "\<lambda>c. fst (snd c) = i" and f = "\<lambda>c. snd (snd c)"]
    by (simp_all add: outflow_def inflow_def link_core_def comp_def)
  have "\<exists>m. (fn_id n, m) \<in> set (raw_nodes pf metric palette ?ps) \<and> fn_kind m = fn_kind n \<and> fn_value m = fn_value n"
    if "n \<in> set (nodes ?g)" for n
  proof -
    have "node_core n \<in># mset (map node_core (nodes ?g))" using that by simp
    then obtain i m where "(i, m) \<in> set (raw_nodes pf metric palette ?ps)" "node_core n = node_core m"
      unfolding graph_shape(1) by auto
    moreover from this have "fn_id m = i" using raw_nodes_kind(1) [OF graph_paths_wf] by blast
    ultimately show ?thesis by (auto simp: node_core_def)
  qed
  then show ?thesis
    using raw_balance [OF graph_paths_wf graph_paths_nul [OF assms]] flows
    by (fastforce simp: list_all_iff)
qed

text \<open>
  The shares printed on the links leaving the first column add up to one, and a link's share
  is its value over the metric of the summary.
\<close>

theorem shares_sum_to_one:
  assumes "overflowMode options \<noteq> Some Hide" and "metricValue (buildSummary rows) metric > 0"
  shows "list_all (\<lambda>l. share l = of_int (fl_value l) / of_int (metricValue (buildSummary rows) metric))
      (links (buildFlowGraph pf rows metric role palette vs ctx options))
    \<and> (\<Sum>l\<leftarrow>filter (\<lambda>l. fl_source l \<in> set (first_ids (graph_paths pf rows metric role vs ctx options)))
        (links (buildFlowGraph pf rows metric role palette vs ctx options)). share l) = 1"
proof -
  let ?ps = "graph_paths pf rows metric role vs ctx options" and ?T = "metricValue (buildSummary rows) metric"
    and ?L = "links (buildFlowGraph pf rows metric role palette vs ctx options)"
  have tot: "first_total pf metric palette ?ps = ?T"
    by (simp only: first_total_eq [OF graph_paths_wf] graph_paths_total [OF assms(1)])
  then have sh: "l \<in> set ?L \<Longrightarrow> share l = of_int (fl_value l) / of_int ?T" for l
    using graph_shape(3) [of l pf rows metric role palette vs ctx options] assms(2) by simp
  have "(\<Sum>l\<leftarrow>filter (\<lambda>l. fl_source l \<in> set (first_ids ?ps)) ?L. fl_value l) = ?T"
    using sum_core [OF graph_shape(2), where P = "\<lambda>c. fst c \<in> set (first_ids ?ps)" and f = "\<lambda>c. snd (snd c)"] tot
    by (simp add: link_core_def first_total_def filter_map comp_def)
  moreover have "(\<Sum>l\<leftarrow>ls. share l) = of_int (\<Sum>l\<leftarrow>ls. fl_value l) / of_int ?T" if "set ls \<subseteq> set ?L" for ls
    using that by (induction ls) (auto simp: sh add_divide_distrib)
  ultimately have "(\<Sum>l\<leftarrow>filter (\<lambda>l. fl_source l \<in> set (first_ids ?ps)) ?L. share l) = 1"
    using assms(2) by (metis (no_types, lifting) divide_self filter_is_subset less_irrefl of_int_eq_0_iff)
  then show ?thesis using sh by (simp add: list_all_iff)
qed

section \<open>Node filters\<close>

definition selected_ids :: "node_filter list \<Rightarrow> node_kind \<Rightarrow> string list" where
  "selected_ids sel k = map nf_id (filter (\<lambda>f. nf_kind f = k) sel)"

lemma normalize_filters:
  "case map_of (normalizeSelectedNodeFilters sel stages) k of
     None \<Rightarrow> k \<notin> set stages \<or> selected_ids sel k = []
   | Some s \<Rightarrow> k \<in> set stages \<and> selected_ids sel k \<noteq> [] \<and> set s = set (selected_ids sel k)"
proof (induction sel rule: rev_induct)
  case (snoc f sel)
  then show ?case
    by (auto simp: normalizeSelectedNodeFilters_def selected_ids_def update_conv' filter_empty_conv
        split: option.splits if_splits)
qed (simp add: normalizeSelectedNodeFilters_def selected_ids_def)

lemma distinct_filters: "distinct (map fst (normalizeSelectedNodeFilters sel stages))"
  by (induction sel rule: rev_induct) (auto simp: normalizeSelectedNodeFilters_def distinct_update)

lemma filter_one: "distinct xs \<Longrightarrow> k \<in> set xs \<Longrightarrow> filter (\<lambda>s. s = k) xs = [k]"
  by (induction xs) (auto simp: filter_empty_conv)

text \<open>
  Node filters: within a kind the selected nodes are alternatives, across kinds they must all
  hold, and a selection of a stage that is not visible is ignored.
\<close>

theorem filter_rows_by_nodes:
  "filterRowsByNodes rows sel (resolveVisibleStages role vs) ctx =
     filter (\<lambda>row. list_all (\<lambda>k. selected_ids sel k = [] \<or> pn_id (NODE_BUILDERS k row ctx) \<in> set (selected_ids sel k))
       (resolveVisibleStages role vs)) rows"
proof -
  let ?st = "resolveVisibleStages role vs" and ?fs = "normalizeSelectedNodeFilters sel (resolveVisibleStages role vs)"
  have entry: "(k, s) \<in> set ?fs \<longleftrightarrow> map_of ?fs k = Some s" for k s
    using map_of_eq_Some_iff [OF distinct_filters] by metis
  have pathIds: "map pn_id (filter (\<lambda>n. pn_kind n = k) (flowPathForStages row ?st ctx)) = [pn_id (NODE_BUILDERS k row ctx)]"
    if "k \<in> set ?st" for k row
  proof -
    have "filter (\<lambda>s. s = k) ?st = [k]" using that stages_wf(1) [of role vs] by (rule filter_one [rotated])
    then show ?thesis by (simp add: flowPathForStages_def filter_map comp_def NODE_BUILDERS_wf)
  qed
  have "pathMatchesNodeFilters (flowPathForStages row ?st ctx) ?fs \<longleftrightarrow>
      (\<forall>k s. map_of ?fs k = Some s \<longrightarrow> pn_id (NODE_BUILDERS k row ctx) \<in> set s)" for row
  proof -
    have "pathMatchesNodeFilters (flowPathForStages row ?st ctx) ?fs \<longleftrightarrow>
        (\<forall>(k, s) \<in> set ?fs. pn_id (NODE_BUILDERS k row ctx) \<in> set s)"
      unfolding pathMatchesNodeFilters_def list_all_iff
    proof (rule ball_cong [OF refl])
      fix e assume "e \<in> set ?fs"
      then obtain k s where e: "e = (k, s)" "map_of ?fs k = Some s" using entry by (metis prod.collapse)
      then have k: "k \<in> set ?st" using normalize_filters [where sel = sel and stages = ?st and k = k] by simp
      show "(case e of (kind, selectedIds) \<Rightarrow>
          let pathIds = map pn_id (filter (\<lambda>node. pn_kind node = kind) (flowPathForStages row ?st ctx))
          in pathIds \<noteq> [] \<and> list_ex (\<lambda>i. i \<in> set pathIds) selectedIds) =
          (case e of (k, s) \<Rightarrow> pn_id (NODE_BUILDERS k row ctx) \<in> set s)"
        unfolding e(1) Let_def split pathIds [OF k] by (auto simp: list_ex_iff)
    qed
    also have "\<dots> \<longleftrightarrow> (\<forall>k s. map_of ?fs k = Some s \<longrightarrow> pn_id (NODE_BUILDERS k row ctx) \<in> set s)"
      using entry by blast
    finally show ?thesis .
  qed
  also have "\<dots> row \<longleftrightarrow> list_all (\<lambda>k. selected_ids sel k = [] \<or> pn_id (NODE_BUILDERS k row ctx) \<in> set (selected_ids sel k)) ?st" for row
  proof -
    have "(\<forall>s. map_of ?fs k = Some s \<longrightarrow> x \<in> set s) \<longleftrightarrow> (k \<in> set ?st \<longrightarrow> selected_ids sel k = [] \<or> x \<in> set (selected_ids sel k))" for k x
      using normalize_filters [where sel = sel and stages = ?st and k = k] by (auto split: option.splits)
    then show ?thesis by (simp add: list_all_iff) metis
  qed
  finally have match: "pathMatchesNodeFilters (flowPathForStages row ?st ctx) ?fs \<longleftrightarrow>
      list_all (\<lambda>k. selected_ids sel k = [] \<or> pn_id (NODE_BUILDERS k row ctx) \<in> set (selected_ids sel k)) ?st" for row .
  show ?thesis
  proof (cases "?fs = []")
    case True
    then have "pathMatchesNodeFilters p ?fs" for p by (simp add: pathMatchesNodeFilters_def)
    then show ?thesis using True match by (simp add: filterRowsByNodes_def Let_def)
  qed (simp add: filterRowsByNodes_def match Let_def)
qed

section \<open>Top nodes\<close>

lemma rank_path_keys: "map fst (rank_path v p totals) = map fst totals"
proof (induction p arbitrary: totals)
  case (Cons n p)
  have "map fst (case map_of totals (pn_kind n) of None \<Rightarrow> totals
      | Some st \<Rightarrow> AList.update (pn_kind n) (add_rank v n st) totals) = map fst totals"
    using map_of_eq_None_iff [of totals "pn_kind n"] by (simp add: keys_update split: option.split)
  then show ?case using Cons by (simp add: rank_path_def)
qed (simp add: rank_path_def)

lemma top_sets_entry:
  assumes "buildTopNodeSets pf rows metric stages (Some l) ctx = Some sets" "k \<in> set stages"
  shows "\<exists>ids. map_of sets k = Some ids \<and> length ids \<le> l"
proof -
  define totals where "totals = fold (\<lambda>row. rank_path (metricValue (rowMetrics row) metric)
      (flowPathForStages row stages ctx)) rows (map (\<lambda>stage. (stage, [])) stages)"
  have "map fst (fold (\<lambda>row. rank_path (metricValue (rowMetrics row) metric)
      (flowPathForStages row stages ctx)) rows t) = map fst t" for t
    by (induction rows arbitrary: t) (simp_all add: rank_path_keys)
  then have "map fst totals = stages" by (simp add: totals_def comp_def)
  then obtain st where "map_of totals k = Some st"
    using assms(2) by (metis map_of_eq_None_iff not_None_eq set_map)
  moreover have "sets = map (\<lambda>(kind, st). (kind, map (pn_id \<circ> fst) (take l (sort_by (rank_cmp pf) (map snd st))))) totals"
    using assms(1) by (simp add: buildTopNodeSets_def totals_def Let_def)
  ultimately show ?thesis by (simp add: map_of_map)
qed

lemma limited_nodes:
  assumes "applyTopNodeLimit p (Some sets) mode f = Some p'" "n \<in> set p'" "map_of sets (pn_kind n) = Some ids"
  shows "pn_id n \<in> set ids \<or> mode = Aggregate \<and> pn_id n = OTHER_FLOW_NODE_IDS (pn_kind n)"
proof -
  have top: "isTopFlowNode n (Some sets) \<Longrightarrow> pn_id n \<in> set ids" using assms(3) by (simp add: isTopFlowNode_def)
  show ?thesis
  proof (cases "list_ex (\<lambda>n. \<not> isTopFlowNode n (Some sets)) p")
    case False
    then have "isTopFlowNode n (Some sets)" using assms(1,2) by (auto simp: applyTopNodeLimit_def list_ex_iff)
    then show ?thesis using top by simp
  next
    case True
    then have m: "mode = Aggregate" using assms(1) by (cases mode) (auto simp: applyTopNodeLimit_def)
    then have "p' = map (\<lambda>n. if isTopFlowNode n (Some sets) then n else otherFlowNode (pn_kind n) f) p"
      using True assms(1) by (simp add: applyTopNodeLimit_def)
    then obtain n0 where "n0 \<in> set p" "n = (if isTopFlowNode n0 (Some sets) then n0 else otherFlowNode (pn_kind n0) f)"
      using assms(2) by auto
    then show ?thesis using top m by (cases "isTopFlowNode n0 (Some sets)") (auto simp: otherFlowNode_def)
  qed
qed

text \<open>
  A top-node limit bounds every column: at most that many nodes, and one more for \<open>Other\<close> when
  the overflow is aggregated.
\<close>

theorem top_node_limit:
  assumes "topNodeLimit options = Some l" and "l > 0"
  shows "list_all (\<lambda>k. length (filter (\<lambda>n. fn_kind n = k)
        (nodes (buildFlowGraph pf rows metric role palette vs ctx options)))
      \<le> nat l + (if overflowMode options = Some Hide then 0 else 1)) (resolveVisibleStages role vs)"
proof -
  let ?st = "resolveVisibleStages role vs" and ?ps = "graph_paths pf rows metric role vs ctx options"
    and ?raw = "raw_nodes pf metric palette (graph_paths pf rows metric role vs ctx options)"
  define mode where "mode = (case overflowMode options of Some m \<Rightarrow> m | None \<Rightarrow> Aggregate)"
  have lim: "normalizeTopNodeLimit (topNodeLimit options) = Some (nat l)"
    using assms by (simp add: normalizeTopNodeLimit_def)
  obtain sets where sets: "buildTopNodeSets pf rows metric ?st (Some (nat l)) ctx = Some sets"
    by (simp add: buildTopNodeSets_def Let_def)
  have "length (filter (\<lambda>n. fn_kind n = k) (nodes (buildFlowGraph pf rows metric role palette vs ctx options)))
      \<le> nat l + (if mode = Hide then 0 else 1)" if k: "k \<in> set ?st" for k
  proof -
    obtain ids where ids: "map_of sets k = Some ids" "length ids \<le> nat l" using top_sets_entry [OF sets k] by blast
    define allowed where "allowed = set ids \<union> (if mode = Hide then {} else {OTHER_FLOW_NODE_IDS k})"
    have "int (length (filter (\<lambda>n. fn_kind n = k) (nodes (buildFlowGraph pf rows metric role palette vs ctx options))))
        = int (length (filter (\<lambda>e. fn_kind (snd e) = k) ?raw))"
      using sum_core [OF graph_shape(1), where P = "\<lambda>c. fst (snd c) = k" and f = "\<lambda>c. 1"]
      by (simp add: node_core_def comp_def sum_list_triv)
    then have len: "length (filter (\<lambda>n. fn_kind n = k) (nodes (buildFlowGraph pf rows metric role palette vs ctx options)))
        = length (filter (\<lambda>e. fn_kind (snd e) = k) ?raw)" by simp
    let ?f = "filter (\<lambda>e. fn_kind (snd e) = k) ?raw"
    have fin: "finite allowed" by (simp add: allowed_def)
    have "fst e \<in> allowed" if e: "e \<in> set ?f" for e
    proof -
      have "(fst e, snd e) \<in> set ?raw" using e by simp
      then obtain x p ms where x: "(p, ms) \<in> set ?ps" "x \<in> set p" "pn_id x = fst e" "fn_id (snd e) = fst e"
          "fn_kind (snd e) = pn_kind x"
        by (rule raw_nodes_origin)
      then obtain row where "applyTopNodeLimit (flowPathForStages row ?st ctx) (Some sets) mode (otherNodeLabel options) = Some p"
        using sets lim by (auto simp: graph_paths_def prepare_paths_def simp flip: mode_def split: option.splits)
      then show ?thesis
        using limited_nodes [of _ sets mode _ p x ids] x e ids(1) overflow_mode.exhaust [of mode]
        by (auto simp: allowed_def)
    qed
    moreover have "distinct (map fst ?f)"
      using node_acc.distinct_fold [of "[]" metric] by (simp add: raw_nodes_def distinct_map_filter)
    ultimately have "set (map fst ?f) \<subseteq> allowed" "card (set (map fst ?f)) = length ?f"
      using distinct_card [of "map fst ?f"] by (simp_all only: set_map length_map image_subset_iff) blast
    then have "length ?f \<le> card allowed"
      using card_mono [OF fin] by metis
    also have "card allowed \<le> nat l + (if mode = Hide then 0 else 1)"
      using ids(2) card_length [of ids] card_insert_le_m1 [of "Suc (nat l)" "set ids"]
      by (auto simp: allowed_def card_insert_if)
    finally show ?thesis using len by simp
  qed
  moreover have "mode = Hide \<longleftrightarrow> overflowMode options = Some Hide" by (simp add: mode_def split: option.split)
  ultimately show ?thesis by (simp add: list_all_iff)
qed

section \<open>Masking\<close>

definition hidden_label :: "string \<Rightarrow> string \<Rightarrow> bool" where
  "hidden_label i lab \<longleftrightarrow>
     id_kind i = Some KModel \<or> i \<in> set (map OTHER_FLOW_NODE_IDS FLOW_NODE_KINDS) \<or> lab = [] \<or> lab = FLOW_MASK_TEXT"

lemma map_of_fold_update:
  "k \<in> f ` set xs \<Longrightarrow> \<exists>x \<in> set xs. map_of (fold (\<lambda>x m. AList.update (f x) (g x) m) xs m) k = Some (g x)"
proof (induction xs rule: rev_induct)
  case (snoc y xs)
  then show ?case by (cases "k = f y") (auto simp: update_conv')
qed simp

lemma maskFlowLabel_cases: "maskFlowLabel lab = [] \<or> maskFlowLabel lab = FLOW_MASK_TEXT"
  by (simp add: maskFlowLabel_def)

lemma is_masked_iff:
  "id_kind (fn_id n) = Some (fn_kind n) \<Longrightarrow> is_masked n \<or> (\<forall>lab. hidden_label (fn_id n) lab)"
  by (cases "fn_kind n") (auto simp: is_masked_def hidden_label_def SENSITIVE_FLOW_KINDS_def)

lemma raw_nodes_keys:
  assumes "(p, ms) \<in> set ps" "x \<in> set p"
  obtains n where "(pn_id x, n) \<in> set (raw_nodes pf metric palette ps)"
proof -
  have "pn_id x \<in> set (map fst (raw_nodes pf metric palette ps))"
    unfolding raw_nodes_def node_acc.keys_all using assms by (force simp: node_items_def)
  then show ?thesis using that by auto
qed

lemma masked_labels:
  assumes wf: "paths_wf stages ps"
    and m: "maskFlowGraphLabels (raw_nodes pf metric palette ps) (raw_links pf metric palette ps) = (ns, ls)"
  shows "(i, n) \<in> set ns \<Longrightarrow> hidden_label (fn_id n) (fn_label n)"
    and "(i, l) \<in> set ls \<Longrightarrow> hidden_label (fl_source l) (sourceLabel l) \<and> hidden_label (fl_target l) (targetLabel l)"
proof -
  let ?rn = "raw_nodes pf metric palette ps" and ?rl = "raw_links pf metric palette ps"
  define mk where "mk = fold (\<lambda>n m. AList.update (fn_id n) (maskFlowLabel (fn_label n)) m) (filter is_masked (map snd ?rn)) []"
  have ns: "ns = map (\<lambda>(k, n). (k, if is_masked n then n\<lparr>fn_label := maskFlowLabel (fn_label n)\<rparr> else n)) ?rn"
    using m by (auto simp: maskFlowGraphLabels_def Let_def split: if_splits)
  show "(i, n) \<in> set ns \<Longrightarrow> hidden_label (fn_id n) (fn_label n)"
    unfolding ns using is_masked_iff raw_nodes_kind(1,2) [OF wf] maskFlowLabel_cases
    by (auto simp: hidden_label_def split: if_splits) metis+
  have ls: "ls = (if mk = [] then ?rl else map (\<lambda>(k, l). (k,
      l\<lparr>sourceLabel := (case map_of mk (fl_source l) of Some s \<Rightarrow> s | None \<Rightarrow> sourceLabel l),
        targetLabel := (case map_of mk (fl_target l) of Some s \<Rightarrow> s | None \<Rightarrow> targetLabel l)\<rparr>)) ?rl)"
    using m by (auto simp: maskFlowGraphLabels_def mk_def Let_def split: if_splits)
  have known: "(\<forall>lab. hidden_label (pn_id x) lab) \<or> (\<exists>s. map_of mk (pn_id x) = Some s \<and> hidden_label (pn_id x) s)"
    if x: "(p, ms) \<in> set ps" "x \<in> set p" for x p ms
  proof -
    from x obtain n where n: "(pn_id x, n) \<in> set ?rn" by (rule raw_nodes_keys)
    note id = raw_nodes_kind(1,2) [OF wf n]
    show ?thesis
    proof (cases "is_masked n")
      case True
      have "pn_id x \<in> fn_id ` set (filter is_masked (map snd ?rn))" using n id True by force
      from map_of_fold_update [OF this, of "\<lambda>n. maskFlowLabel (fn_label n)" "[]"]
      obtain y :: flow_node where "map_of mk (pn_id x) = Some (maskFlowLabel (fn_label y))" unfolding mk_def by blast
      then show ?thesis using maskFlowLabel_cases [of "fn_label y"] by (auto simp: hidden_label_def)
    next
      case False
      then show ?thesis using is_masked_iff [of n] id by simp
    qed
  qed
  assume "(i, l) \<in> set ls"
  then obtain l0 where l0: "(i, l0) \<in> set ?rl" "fl_source l = fl_source l0" "fl_target l = fl_target l0"
      "mk = [] \<or> sourceLabel l = (case map_of mk (fl_source l) of Some s \<Rightarrow> s | None \<Rightarrow> sourceLabel l0)
        \<and> targetLabel l = (case map_of mk (fl_target l) of Some s \<Rightarrow> s | None \<Rightarrow> targetLabel l0)"
    unfolding ls by (auto split: if_splits)
  from l0(1) obtain a b p ms where e: "(p, ms) \<in> set ps" "(a, b) \<in> set (path_steps p)" "fl_source l0 = pn_id a"
      "fl_target l0 = pn_id b" by (rule raw_links_ends)
  have "a \<in> set p" "b \<in> set p" using path_steps_set [OF e(2)] by (auto dest: in_set_butlastD list.set_sel(2) [rotated])
  from known [OF e(1) this(1)] known [OF e(1) this(2)]
  show "hidden_label (fl_source l) (sourceLabel l) \<and> hidden_label (fl_target l) (targetLabel l)"
    using l0 e(3,4) by auto
qed

lemma graph_labels:
  fixes pf rows metric role palette vs ctx options
  defines "ps \<equiv> graph_paths pf rows metric role vs ctx options"
  assumes mask: "maskSensitive options"
    and m: "maskFlowGraphLabels (raw_nodes pf metric palette ps) (raw_links pf metric palette ps) = (ns, ls)"
  shows "n \<in> set (nodes (buildFlowGraph pf rows metric role palette vs ctx options)) \<Longrightarrow>
      \<exists>e \<in> set ns. fn_id n = fn_id (snd e) \<and> fn_label n = fn_label (snd e)"
    and "l \<in> set (links (buildFlowGraph pf rows metric role palette vs ctx options)) \<Longrightarrow>
      \<exists>e \<in> set ls. fl_source l = fl_source (snd e) \<and> fl_target l = fl_target (snd e)
        \<and> sourceLabel l = sourceLabel (snd e) \<and> targetLabel l = targetLabel (snd e)"
proof -
  have set_sort [simp]: "set (sort_by c xs) = set xs" for c and xs :: "'z list" by (simp add: sort_by_def)
  have h: "fn_id (highlight_node hs x) = fn_id x" "fn_label (highlight_node hs x) = fn_label x"
    "fl_source (highlight_link hs y) = fl_source y" "fl_target (highlight_link hs y) = fl_target y"
    "sourceLabel (highlight_link hs y) = sourceLabel y" "targetLabel (highlight_link hs y) = targetLabel y" for hs x y
    by (auto simp: highlight_node_def highlight_link_def split: option.split)
  have d: "fl_source (link_display pf' ks (share_of t y)) = fl_source y" "fl_target (link_display pf' ks (share_of t y)) = fl_target y"
    "sourceLabel (link_display pf' ks (share_of t y)) = sourceLabel y" "targetLabel (link_display pf' ks (share_of t y)) = targetLabel y"
    for pf' ks t y
    by (simp_all add: link_display_def share_of_def Let_def)
  obtain hs c t where g: "nodes (buildFlowGraph pf rows metric role palette vs ctx options) =
        sort_by (byValueThenLabel pf) (map (highlight_node hs) (map snd ns))"
      "links (buildFlowGraph pf rows metric role palette vs ctx options) =
        assignLinkDisplayColors pf (map (share_of t) (sort_by c (map (highlight_link hs) (map snd ls))))"
  proof -
    have "fold (add_path pf palette (stableColorMap pf (sort_by (localeCompare pf) (first_ids ps)) palette) metric) ps ([], []) =
        (raw_nodes pf metric palette ps, raw_links pf metric palette ps)"
      by (simp add: graph_split raw_nodes_def raw_links_def graph_colors_def)
    then show ?thesis
      using that mask m
      unfolding buildFlowGraph_def Let_def case_prod_beta ps_def [unfolded graph_paths_def, symmetric]
        applyFlowHighlights_def
      by simp
  qed
  show "n \<in> set (nodes (buildFlowGraph pf rows metric role palette vs ctx options)) \<Longrightarrow>
      \<exists>e \<in> set ns. fn_id n = fn_id (snd e) \<and> fn_label n = fn_label (snd e)"
    unfolding g by (force simp: h)
  show "l \<in> set (links (buildFlowGraph pf rows metric role palette vs ctx options)) \<Longrightarrow>
      \<exists>e \<in> set ls. fl_source l = fl_source (snd e) \<and> fl_target l = fl_target (snd e)
        \<and> sourceLabel l = sourceLabel (snd e) \<and> targetLabel l = targetLabel (snd e)"
    unfolding g assignLinkDisplayColors_def by (force simp: h d)
qed

text \<open>
  C30. With masking on, no label of the diagram names a user, a node, a token, a group or a channel:
  each such node and each end of a link shows the mask (or an empty label), only models and the
  aggregated \<open>Other\<close> nodes keep theirs.
\<close>

theorem masking_hides_labels:
  assumes "maskSensitive options"
  shows "list_all (\<lambda>n. hidden_label (fn_id n) (fn_label n))
      (nodes (buildFlowGraph pf rows metric role palette vs ctx options))
    \<and> list_all (\<lambda>l. hidden_label (fl_source l) (sourceLabel l) \<and> hidden_label (fl_target l) (targetLabel l))
      (links (buildFlowGraph pf rows metric role palette vs ctx options))"
proof -
  let ?ps = "graph_paths pf rows metric role vs ctx options"
  obtain ns ls where m: "maskFlowGraphLabels (raw_nodes pf metric palette ?ps) (raw_links pf metric palette ?ps) = (ns, ls)"
    by fastforce
  show ?thesis
    using graph_labels [OF assms m] masked_labels [OF graph_paths_wf m] by (fastforce simp: list_all_iff)
qed

section \<open>Witnesses\<close>

definition sample_platform :: flow_platform where
  "sample_platform = \<lparr>localeCompare = \<lambda>a b. if a = b then 0 else if str_le a b then - 1 else 1,
     formatNumber = int_str, vchartDefaultDataScheme = [(None, [Some ''#1664FF''])]\<rparr>"

definition sample_row :: "string \<Rightarrow> string \<Rightarrow> int \<Rightarrow> flow_row" where
  "sample_row tok model q = \<lparr>user_id = Some 1, username = Some ''ann'', node_name = None, use_group = Some ''vip'',
     token_id = None, token_name = Some tok, channel_id = None, channel_name = None, model_name = Some model,
     token_used = Some 10, row_count = Some 1, row_quota = Some q\<rparr>"

definition sample_options :: graph_options where
  "sample_options = \<lparr>topNodeLimit = Some 1, overflowMode = None, otherNodeLabel = None, activeNode = None,
     activeLink = None, maskSensitive = True\<rparr>"

definition sample_rows :: "flow_row list" where
  "sample_rows = [sample_row ''k1'' ''gpt'' 5, sample_row ''k2'' ''gpt'' 7]"

definition sample_graph :: flow_graph where
  "sample_graph = buildFlowGraph sample_platform sample_rows Quota_Metric User_Role [] None None sample_options"

lemma sample_facts:
  "overflowMode sample_options \<noteq> Some Hide" "topNodeLimit sample_options = Some 1" "maskSensitive sample_options"
  "list_all plain_row sample_rows" "metricValue (buildSummary sample_rows) Quota_Metric = 12"
  "resolveVisibleStages User_Role None = [KToken, KGroup, KModel]"
  by (simp_all add: sample_options_def sample_rows_def sample_row_def plain_row_def plain_def opt_str_def
      buildSummary_def add_metrics_def zero_metrics_def rowMetrics_def metricValue_def numberValue_def
      resolveVisibleStages_def getFlowStages_def)

theorem stage_totals_witness:
  "list_all (\<lambda>k. (\<Sum>n\<leftarrow>filter (\<lambda>n. fn_kind n = k) (nodes sample_graph). fn_value n) = 12) [KToken, KGroup, KModel]"
  using stage_totals [OF sample_facts(1), of sample_platform sample_rows Quota_Metric User_Role "[]" None None]
  unfolding sample_graph_def sample_facts .

theorem flow_conserved_witness:
  "list_all (\<lambda>n. inflow sample_graph (fn_id n) = (if fn_kind n = KToken then 0 else fn_value n)
     \<and> outflow sample_graph (fn_id n) = (if fn_kind n = KModel then 0 else fn_value n)) (nodes sample_graph)"
  using flow_conserved [OF sample_facts(4), of sample_platform Quota_Metric User_Role "[]" None None sample_options]
  unfolding sample_graph_def sample_facts by simp

theorem shares_sum_to_one_witness:
  "list_all (\<lambda>l. share l = of_int (fl_value l) / 12) (links sample_graph)"
  using shares_sum_to_one [OF sample_facts(1), of sample_rows Quota_Metric sample_platform User_Role "[]" None None]
  unfolding sample_graph_def sample_facts by simp

theorem top_node_limit_witness:
  "list_all (\<lambda>k. length (filter (\<lambda>n. fn_kind n = k) (nodes sample_graph)) \<le> 2) [KToken, KGroup, KModel]"
  using top_node_limit [OF sample_facts(2), of sample_platform sample_rows Quota_Metric User_Role "[]" None None] sample_facts(1)
  unfolding sample_graph_def sample_facts by simp

theorem masking_hides_labels_witness:
  "list_all (\<lambda>n. hidden_label (fn_id n) (fn_label n)) (nodes sample_graph)"
  using masking_hides_labels [OF sample_facts(3), of sample_platform sample_rows Quota_Metric User_Role "[]" None None]
  unfolding sample_graph_def by simp

end
