(* ===== verification/Billing_Expr.thy ===== *)
theory Billing_Expr
  imports Json
begin

text \<open>
  Billing expressions: \<open>web/src/features/pricing/lib/billing-expr.ts\<close>. A billing expression is a
  price expression multiplied by request rules, each a factor
  \<open>(condition && ... ? multiplier : 1)\<close>. The editor builds the text from rule groups and parses it
  back.

  Each regular expression of the source is a matching function on the text: the character classes
  that repeat are disjoint from what follows them, so every match is unique and is found by
  \<open>takeWhile\<close>. \<open>JSON.parse\<close> of a string literal may throw; a throw that no caller on the way catches
  is \<open>Throw\<close>.
\<close>

section \<open>Variable registry\<close>

datatype var_side = Side_Input | Side_Output | Side_Condition

record billing_var =
  bv_key :: string
  bv_field :: "string option"
  bv_tierField :: "string option"
  bv_label :: string
  bv_shortLabel :: string
  bv_side :: var_side
  isBase :: bool
  isConditionOnly :: bool
  bv_group :: "string option"

definition BILLING_VARS :: "billing_var list" where
  "BILLING_VARS =
    [\<lparr>bv_key = ''p'', bv_field = Some ''inputPrice'', bv_tierField = Some ''input_unit_cost'',
      bv_label = ''Input price'', bv_shortLabel = ''Input'', bv_side = Side_Input, isBase = True,
      isConditionOnly = False, bv_group = None\<rparr>,
     \<lparr>bv_key = ''c'', bv_field = Some ''outputPrice'', bv_tierField = Some ''output_unit_cost'',
      bv_label = ''Completion price'', bv_shortLabel = ''Output'', bv_side = Side_Output, isBase = True,
      isConditionOnly = False, bv_group = None\<rparr>,
     \<lparr>bv_key = ''len'', bv_field = None, bv_tierField = None,
      bv_label = ''Input length'', bv_shortLabel = ''Length'', bv_side = Side_Condition, isBase = False,
      isConditionOnly = True, bv_group = None\<rparr>,
     \<lparr>bv_key = ''cr'', bv_field = Some ''cacheReadPrice'', bv_tierField = Some ''cache_read_unit_cost'',
      bv_label = ''Cache read price'', bv_shortLabel = ''Cache Read'', bv_side = Side_Input, isBase = False,
      isConditionOnly = False, bv_group = Some ''cache''\<rparr>,
     \<lparr>bv_key = ''cc'', bv_field = Some ''cacheCreatePrice'', bv_tierField = Some ''cache_create_unit_cost'',
      bv_label = ''Cache create price'', bv_shortLabel = ''Cache Write'', bv_side = Side_Input, isBase = False,
      isConditionOnly = False, bv_group = Some ''cache''\<rparr>,
     \<lparr>bv_key = ''cc1h'', bv_field = Some ''cacheCreate1hPrice'', bv_tierField = Some ''cache_create_1h_unit_cost'',
      bv_label = ''Cache create (1h) price'', bv_shortLabel = ''Cache Write (1h)'', bv_side = Side_Input,
      isBase = False, isConditionOnly = False, bv_group = Some ''cache''\<rparr>,
     \<lparr>bv_key = ''img'', bv_field = Some ''imagePrice'', bv_tierField = Some ''image_unit_cost'',
      bv_label = ''Image input price'', bv_shortLabel = ''Image In'', bv_side = Side_Input, isBase = False,
      isConditionOnly = False, bv_group = Some ''media''\<rparr>,
     \<lparr>bv_key = ''img_o'', bv_field = Some ''imageOutputPrice'', bv_tierField = Some ''image_output_unit_cost'',
      bv_label = ''Image output price'', bv_shortLabel = ''Image Out'', bv_side = Side_Output, isBase = False,
      isConditionOnly = False, bv_group = Some ''media''\<rparr>,
     \<lparr>bv_key = ''ai'', bv_field = Some ''audioInputPrice'', bv_tierField = Some ''audio_input_unit_cost'',
      bv_label = ''Audio input price'', bv_shortLabel = ''Audio In'', bv_side = Side_Input, isBase = False,
      isConditionOnly = False, bv_group = Some ''media''\<rparr>,
     \<lparr>bv_key = ''ao'', bv_field = Some ''audioOutputPrice'', bv_tierField = Some ''audio_output_unit_cost'',
      bv_label = ''Audio output price'', bv_shortLabel = ''Audio Out'', bv_side = Side_Output, isBase = False,
      isConditionOnly = False, bv_group = Some ''media''\<rparr>]"

definition BILLING_PRICING_VARS :: "billing_var list" where
  "BILLING_PRICING_VARS = filter (\<lambda>v. \<not> isConditionOnly v) BILLING_VARS"

definition BILLING_CONDITION_VARS :: "string list" where
  "BILLING_CONDITION_VARS = map bv_key (filter (\<lambda>v. isBase v \<or> isConditionOnly v) BILLING_VARS)"

definition BILLING_EXTRA_VARS :: "billing_var list" where
  "BILLING_EXTRA_VARS = filter (\<lambda>v. \<not> isBase v \<and> \<not> isConditionOnly v) BILLING_VARS"

definition BILLING_CACHE_VAR_MAP :: "(string \<times> string) list" where
  "BILLING_CACHE_VAR_MAP = map (\<lambda>v. (the (bv_tierField v), bv_key v)) BILLING_EXTRA_VARS"

section \<open>Conditions\<close>

definition TIME_FUNCS :: "string list" where
  "TIME_FUNCS = [''hour'', ''minute'', ''weekday'', ''month'', ''day'']"

record time_condition =
  timeFunc :: string
  timezone :: string
  tc_mode :: string
  tc_value :: string
  rangeStart :: string
  rangeEnd :: string

datatype ph_source = Param | Header

record param_header_condition =
  ph_src :: ph_source
  ph_path :: string
  ph_mode :: string
  ph_value :: string

datatype request_condition = TimeCondition time_condition | ParamHeaderCondition param_header_condition

record rule_group =
  conditions :: "request_condition list"
  multiplier :: string
  conditionText :: "string option"
  matched :: "bool option"

record rule_trace =
  trace_cond :: string
  trace_multiplier :: dec
  trace_matched :: bool

datatype 'a js_result = Throw | Ret 'a

section \<open>Matching\<close>

definition quote :: char where
  "quote = CHR 0x22"

definition strip_pre :: "string \<Rightarrow> string \<Rightarrow> string option" where
  "strip_pre p s = (if prefix p s then Some (drop (length p) s) else None)"

text \<open>\<open>"([^"]+)"\<close> at the start of the text: the group and the rest.\<close>

definition quoted_arg :: "string \<Rightarrow> (string \<times> string) option" where
  "quoted_arg s =
     (case s of
        [] \<Rightarrow> None
      | c # r \<Rightarrow>
          if c = quote \<and> takeWhile (\<lambda>x. x \<noteq> quote) r \<noteq> [] \<and> dropWhile (\<lambda>x. x \<noteq> quote) r \<noteq> []
          then Some (takeWhile (\<lambda>x. x \<noteq> quote) r, tl (dropWhile (\<lambda>x. x \<noteq> quote) r))
          else None)"

text \<open>\<open>name\("([^"]+)"\)\<close>.\<close>

definition call_arg :: "string \<Rightarrow> string \<Rightarrow> (string \<times> string) option" where
  "call_arg name s =
     Option.bind (strip_pre (name @ ''('') s) (\<lambda>s1.
     Option.bind (quoted_arg s1) (\<lambda>(arg, s2).
     Option.bind (strip_pre '')'' s2) (\<lambda>s3. Some (arg, s3))))"

definition call_text :: "string \<Rightarrow> string \<Rightarrow> string" where
  "call_text name arg = name @ ''('' @ [quote] @ arg @ [quote] @ '')''"

fun first_call :: "string list \<Rightarrow> string \<Rightarrow> (string \<times> string \<times> string) option" where
  "first_call [] s = None"
| "first_call (f # fs) s =
     (case call_arg f s of Some (arg, r) \<Rightarrow> Some (f, arg, r) | None \<Rightarrow> first_call fs s)"

text \<open>\<open>[\d.eE+-]\<close>.\<close>

definition num_class :: "char \<Rightarrow> bool" where
  "num_class c = (is_digit c \<or> c \<in> set ''.eE+-'')"

definition num_end :: "string \<Rightarrow> bool" where
  "num_end s = (s \<noteq> [] \<and> list_all num_class s)"

text \<open>\<open>NUMERIC_LITERAL_REGEX\<close>: sign, digits with an optional fraction, exponent.\<close>

definition exponent_ok :: "string \<Rightarrow> bool" where
  "exponent_ok s =
     (case s of
        [] \<Rightarrow> True
      | c # r \<Rightarrow> c \<in> set ''eE'' \<and>
          (let d = (case r of x # y \<Rightarrow> if x \<in> set ''+-'' then y else r | [] \<Rightarrow> r) in d \<noteq> [] \<and> list_all is_digit d))"

definition numeric_literal :: "string \<Rightarrow> bool" where
  "numeric_literal s =
     (let s1 = (case s of c # r \<Rightarrow> if c = CHR ''-'' then r else s | [] \<Rightarrow> s);
          whole = takeWhile is_digit s1; r1 = dropWhile is_digit s1
      in if whole \<noteq> []
         then (case r1 of
             c # r \<Rightarrow> if c = CHR ''.'' then exponent_ok (dropWhile is_digit r) else exponent_ok r1
           | [] \<Rightarrow> True)
         else (case r1 of
             c # r \<Rightarrow> c = CHR ''.'' \<and> takeWhile is_digit r \<noteq> [] \<and> exponent_ok (dropWhile is_digit r)
           | [] \<Rightarrow> False))"

text \<open>A line terminator at the start of the text (what \<open>.\<close> does not match), and one anywhere.\<close>

definition line_term :: "string \<Rightarrow> bool" where
  "line_term s =
     (case s of
        [] \<Rightarrow> False
      | c # r \<Rightarrow> c = CHR 0x0A \<or> c = CHR 0x0D
          \<or> prefix [CHR 0xE2, CHR 0x80, CHR 0xA8] s \<or> prefix [CHR 0xE2, CHR 0x80, CHR 0xA9] s)"

fun has_line_term :: "string \<Rightarrow> bool" where
  "has_line_term [] = False"
| "has_line_term (c # r) = (line_term (c # r) \<or> has_line_term r)"

text \<open>\<open>(?:[^"\\]|\\.)*"\<close> after the opening quote: the text up to and with the closing quote.\<close>

fun lit_scan :: "string \<Rightarrow> (string \<times> string) option" where
  "lit_scan [] = None"
| "lit_scan (c # s) =
     (if c = quote then Some ([c], s)
      else if c = CHR 0x5C then
        (case s of
           [] \<Rightarrow> None
         | d # t \<Rightarrow>
             if line_term (d # t) then None
             else (case lit_scan t of Some (a, r) \<Rightarrow> Some (c # d # a, r) | None \<Rightarrow> None))
      else (case lit_scan s of Some (a, r) \<Rightarrow> Some (c # a, r) | None \<Rightarrow> None))"

text \<open>\<open>((?:"(?:[^"\\]|\\.)*"))\)$\<close>.\<close>

definition literal_end :: "string \<Rightarrow> string option" where
  "literal_end s =
     (case s of
        [] \<Rightarrow> None
      | c # r \<Rightarrow>
          if c = quote then (case lit_scan r of Some (a, t) \<Rightarrow> if t = '')'' then Some (c # a) else None | None \<Rightarrow> None)
          else None)"

section \<open>Splitting at the top level\<close>

definition depth_step :: "char \<Rightarrow> int \<Rightarrow> int" where
  "depth_step c d = (if c = CHR ''('' then d + 1 else if c = CHR '')'' then d - 1 else d)"

function split_top :: "string \<Rightarrow> int \<Rightarrow> string \<Rightarrow> string \<Rightarrow> string list" where
  "split_top sep d cur [] = [js_trim cur]"
| "split_top sep d cur (c # s) =
     (if depth_step c d = 0 \<and> sep \<noteq> [] \<and> prefix sep (c # s)
      then js_trim cur # split_top sep (depth_step c d) [] (drop (length sep) (c # s))
      else split_top sep (depth_step c d) (cur @ [c]) s)"
  by pat_completeness auto
termination
  by (relation "measure (\<lambda>(sep, d, cur, s). length s)") (auto simp: length_greater_0_conv [symmetric] simp del: length_greater_0_conv)

definition splitTopLevelMultiply :: "string \<Rightarrow> string list" where
  "splitTopLevelMultiply expr = filter truthy (split_top '' * '' 0 [] expr)"

definition splitTopLevelAnd :: "string \<Rightarrow> string list" where
  "splitTopLevelAnd expr = filter truthy (split_top '' && '' 0 [] expr)"

section \<open>Parsing conditions\<close>

definition parseExprLiteral :: "string \<Rightarrow> string option" where
  "parseExprLiteral raw =
     (let text = js_trim raw
      in if text = ''true'' \<or> text = ''false'' then Some text
         else if numeric_literal text then Some text
         else (case json_parse text of
             None \<Rightarrow> None
           | Some JNull \<Rightarrow> None
           | Some v \<Rightarrow> Some (json_string v)))"

text \<open>\<open>f("tz") >= a || f("tz") < b\<close>.\<close>

definition match_range :: "string \<Rightarrow> time_condition option" where
  "match_range s =
     (case first_call TIME_FUNCS s of
        None \<Rightarrow> None
      | Some (f, tz, r) \<Rightarrow>
          (case strip_pre '' >= '' r of
             None \<Rightarrow> None
           | Some r1 \<Rightarrow>
               (let a = takeWhile num_class r1
                in if a = [] then None
                   else (case strip_pre ('' || '' @ call_text f tz @ '' < '') (dropWhile num_class r1) of
                       None \<Rightarrow> None
                     | Some b \<Rightarrow>
                         if num_end b
                         then Some \<lparr>timeFunc = f, timezone = tz, tc_mode = ''range'', tc_value = [],
                                rangeStart = a, rangeEnd = b\<rparr>
                         else None))))"

definition match_range_parens :: "string \<Rightarrow> time_condition option" where
  "match_range_parens s =
     (case s of
        [] \<Rightarrow> None
      | c # r \<Rightarrow> if c = CHR ''('' \<and> r \<noteq> [] \<and> last r = CHR '')'' then match_range (butlast r) else None)"

definition match_time_cmp :: "string \<Rightarrow> time_condition option" where
  "match_time_cmp s =
     (case first_call TIME_FUNCS s of
        None \<Rightarrow> None
      | Some (f, tz, r) \<Rightarrow>
          (let hit = (\<lambda>op mode. case strip_pre ('' '' @ op @ '' '') r of
                 Some v \<Rightarrow> if num_end v
                   then Some \<lparr>timeFunc = f, timezone = tz, tc_mode = mode, tc_value = v, rangeStart = [], rangeEnd = []\<rparr>
                   else None
               | None \<Rightarrow> None)
           in case hit ''=='' ''eq'' of
                Some c \<Rightarrow> Some c
              | None \<Rightarrow> (case hit ''>='' ''gte'' of Some c \<Rightarrow> Some c | None \<Rightarrow> hit ''<'' ''lt'')))"

definition tryParseTimeCondition :: "string \<Rightarrow> request_condition option" where
  "tryParseTimeCondition expr =
     map_option TimeCondition
       (case match_range expr of
          Some c \<Rightarrow> Some c
        | None \<Rightarrow> (case match_range_parens expr of Some c \<Rightarrow> Some c | None \<Rightarrow> match_time_cmp expr))"

definition ph :: "ph_source \<Rightarrow> string \<Rightarrow> string \<Rightarrow> string \<Rightarrow> request_condition" where
  "ph src path mode val =
     ParamHeaderCondition \<lparr>ph_src = src, ph_path = path, ph_mode = mode, ph_value = val\<rparr>"

text \<open>The value of a literal that matched the string pattern; \<open>JSON.parse\<close> may still throw.\<close>

definition parsed_literal :: "string \<Rightarrow> (string \<Rightarrow> request_condition) \<Rightarrow> request_condition option js_result" where
  "parsed_literal lit k =
     (case json_parse lit of None \<Rightarrow> Throw | Some v \<Rightarrow> Ret (Some (k (json_string v))))"

definition match_header_exists :: "string \<Rightarrow> string option" where
  "match_header_exists s =
     (case call_arg ''header'' s of
        Some (p, r) \<Rightarrow> if r = '' != '' @ [quote, quote] then Some p else None
      | None \<Rightarrow> None)"

definition match_param_exists :: "string \<Rightarrow> string option" where
  "match_param_exists s =
     (case call_arg ''param'' s of Some (p, r) \<Rightarrow> if r = '' != nil'' then Some p else None | None \<Rightarrow> None)"

definition match_header_has :: "string \<Rightarrow> (string \<times> string) option" where
  "match_header_has s =
     (case strip_pre ''has('' s of
        None \<Rightarrow> None
      | Some s1 \<Rightarrow>
          (case call_arg ''header'' s1 of
             None \<Rightarrow> None
           | Some (p, r) \<Rightarrow>
               (case strip_pre '', '' r of
                  None \<Rightarrow> None
                | Some r1 \<Rightarrow> map_option (\<lambda>lit. (p, lit)) (literal_end r1))))"

definition match_param_has :: "string \<Rightarrow> (string \<times> string) option" where
  "match_param_has s =
     (case call_arg ''param'' s of
        None \<Rightarrow> None
      | Some (p, r) \<Rightarrow>
          (case strip_pre '' != nil && has('' r of
             None \<Rightarrow> None
           | Some r1 \<Rightarrow>
               (case call_arg ''param'' r1 of
                  None \<Rightarrow> None
                | Some (p2, r2) \<Rightarrow>
                    (case strip_pre '', '' r2 of
                       None \<Rightarrow> None
                     | Some r3 \<Rightarrow> if p = p2 then map_option (\<lambda>lit. (p, lit)) (literal_end r3) else None))))"

definition match_param_cmp :: "string \<Rightarrow> (string \<times> string \<times> string) option" where
  "match_param_cmp s =
     (case call_arg ''param'' s of
        None \<Rightarrow> None
      | Some (p, r) \<Rightarrow>
          (case strip_pre '' != nil && '' r of
             None \<Rightarrow> None
           | Some r1 \<Rightarrow>
               (case call_arg ''param'' r1 of
                  None \<Rightarrow> None
                | Some (p2, r2) \<Rightarrow>
                    (let hit = (\<lambda>op mode. case strip_pre ('' '' @ op @ '' '') r2 of
                           Some v \<Rightarrow> if num_end v \<and> p = p2 then Some (p, mode, v) else None
                         | None \<Rightarrow> None)
                     in case hit ''>'' ''gt'' of Some x \<Rightarrow> Some x
                        | None \<Rightarrow> (case hit ''>='' ''gte'' of Some x \<Rightarrow> Some x
                        | None \<Rightarrow> (case hit ''<'' ''lt'' of Some x \<Rightarrow> Some x
                        | None \<Rightarrow> hit ''<='' ''lte''))))))"

definition match_eq :: "string \<Rightarrow> (ph_source \<times> string \<times> string) option" where
  "match_eq s =
     (case first_call [''param'', ''header''] s of
        None \<Rightarrow> None
      | Some (f, p, r) \<Rightarrow>
          (case strip_pre '' == '' r of
             None \<Rightarrow> None
           | Some v \<Rightarrow>
               if v \<noteq> [] \<and> \<not> has_line_term v then Some (if f = ''param'' then Param else Header, p, v) else None))"

definition tryParseRequestCondition :: "string \<Rightarrow> request_condition option js_result" where
  "tryParseRequestCondition expr =
     (case tryParseTimeCondition expr of
        Some tc \<Rightarrow> Ret (Some tc)
      | None \<Rightarrow>
      (case match_header_exists expr of
        Some p \<Rightarrow> Ret (Some (ph Header p ''exists'' []))
      | None \<Rightarrow>
      (case match_param_exists expr of
        Some p \<Rightarrow> Ret (Some (ph Param p ''exists'' []))
      | None \<Rightarrow>
      (case match_header_has expr of
        Some (p, lit) \<Rightarrow> parsed_literal lit (ph Header p ''contains'')
      | None \<Rightarrow>
      (case match_param_has expr of
        Some (p, lit) \<Rightarrow> parsed_literal lit (ph Param p ''contains'')
      | None \<Rightarrow>
      (case match_param_cmp expr of
        Some (p, mode, v) \<Rightarrow> Ret (Some (ph Param p mode v))
      | None \<Rightarrow>
      (case match_eq expr of
        Some (src, p, v) \<Rightarrow> Ret (map_option (ph src p ''eq'') (parseExprLiteral v))
      | None \<Rightarrow> Ret None)))))))"

fun parse_conditions :: "string list \<Rightarrow> request_condition list option js_result" where
  "parse_conditions [] = Ret (Some [])"
| "parse_conditions (part # parts) =
     (case tryParseRequestCondition (js_trim part) of
        Throw \<Rightarrow> Throw
      | Ret None \<Rightarrow> Ret None
      | Ret (Some c) \<Rightarrow>
          (case parse_conditions parts of
             Ret (Some cs) \<Rightarrow> Ret (Some (c # cs))
           | e \<Rightarrow> e))"

definition tryParseRequestConditions :: "string \<Rightarrow> request_condition list option js_result" where
  "tryParseRequestConditions conditionStr =
     (case parse_conditions (splitTopLevelAnd conditionStr) of
        Ret (Some cs) \<Rightarrow> Ret (if cs = [] then None else Some cs)
      | e \<Rightarrow> e)"

text \<open>\<open>^\((.+) \? ([\d.eE+-]+) : 1\)$\<close>: the condition and the multiplier.\<close>

definition match_factor :: "string \<Rightarrow> (string \<times> string) option" where
  "match_factor s =
     (case s of
        [] \<Rightarrow> None
      | c # r \<Rightarrow>
          if c = CHR ''('' \<and> suffix '' : 1)'' r
          then (let body = take (length r - 5) r;
                    num = rev (takeWhile num_class (rev body));
                    head = take (length body - length num) body
            in if num \<noteq> [] \<and> suffix '' ? '' head \<and> length head > 3
               then Some (take (length head - 3) head, num) else None)
          else None)"

definition tryParseRuleGroupFactor :: "string \<Rightarrow> rule_group option js_result" where
  "tryParseRuleGroupFactor part =
     (case match_factor part of
        None \<Rightarrow> Ret None
      | Some (c, m) \<Rightarrow>
          (case tryParseRequestConditions c of
             Throw \<Rightarrow> Throw
           | Ret None \<Rightarrow> Ret None
           | Ret (Some cs) \<Rightarrow> Ret (Some \<lparr>conditions = cs, multiplier = m, conditionText = None, matched = None\<rparr>)))"

fun traces :: "rule_trace list \<Rightarrow> rule_group list js_result" where
  "traces [] = Ret []"
| "traces (rule # rules) =
     (let text = js_trim (trace_cond rule)
      in case tryParseRequestConditions text of
           Throw \<Rightarrow> Throw
         | Ret cs \<Rightarrow>
             (case traces rules of
                Throw \<Rightarrow> Throw
              | Ret gs \<Rightarrow>
                  Ret (\<lparr>conditions = (case cs of Some l \<Rightarrow> l | None \<Rightarrow> []), multiplier = dec_str (trace_multiplier rule),
                        conditionText = Some text, matched = Some (trace_matched rule)\<rparr> # gs)))"

definition requestRuleGroupsFromTrace :: "rule_trace list \<Rightarrow> rule_group list js_result" where
  "requestRuleGroupsFromTrace requestRules = traces requestRules"

fun parse_groups :: "string list \<Rightarrow> rule_group list option js_result" where
  "parse_groups [] = Ret (Some [])"
| "parse_groups (part # parts) =
     (case tryParseRuleGroupFactor part of
        Throw \<Rightarrow> Throw
      | Ret None \<Rightarrow> Ret None
      | Ret (Some g) \<Rightarrow>
          (case parse_groups parts of Ret (Some gs) \<Rightarrow> Ret (Some (g # gs)) | e \<Rightarrow> e))"

definition tryParseRequestRuleExpr :: "string \<Rightarrow> rule_group list option js_result" where
  "tryParseRequestRuleExpr expr =
     (let trimmed = js_trim expr
      in if trimmed = [] then Ret (Some []) else parse_groups (splitTopLevelMultiply trimmed))"

section \<open>Combining and splitting\<close>

fun outer_scan :: "int \<Rightarrow> string \<Rightarrow> bool" where
  "outer_scan d [] = (d = 0)"
| "outer_scan d (c # s) = (if depth_step c d = 0 \<and> s \<noteq> [] then False else outer_scan (depth_step c d) s)"

definition hasFullOuterParens :: "string \<Rightarrow> bool" where
  "hasFullOuterParens expr =
     (if expr = [] \<or> hd expr \<noteq> CHR ''('' \<or> last expr \<noteq> CHR '')'' then False else outer_scan 0 expr)"

lemma length_js_trim: "length (js_trim s) \<le> length s"
  by (metis js_trim_def length_rev sublist_length_le suffix_drop_seqs suffix_length_le order_trans)

text \<open>\<open>current.slice(1, -1)\<close> of a text with both parentheses.\<close>

function unwrap_loop :: "string \<Rightarrow> string" where
  "unwrap_loop current =
     (if hasFullOuterParens current then unwrap_loop (js_trim (butlast (tl current))) else current)"
  by pat_completeness auto
termination
proof (relation "measure length")
  fix s :: string assume "hasFullOuterParens s"
  then have "s \<noteq> []" by (auto simp: hasFullOuterParens_def)
  then have "length (butlast (tl s)) < length s" by (cases s) auto
  then show "(js_trim (butlast (tl s)), s) \<in> measure length"
    using length_js_trim [of "butlast (tl s)"] by simp
qed simp

declare unwrap_loop.simps [simp del]

definition unwrapOuterParens :: "string \<Rightarrow> string" where
  "unwrapOuterParens expr = unwrap_loop (js_trim expr)"

text \<open>A part is a rule when it parses to at least one group.\<close>

fun classify_parts :: "string list \<Rightarrow> (string list \<times> string list) js_result" where
  "classify_parts [] = Ret ([], [])"
| "classify_parts (part # parts) =
     (case tryParseRequestRuleExpr part of
        Throw \<Rightarrow> Throw
      | Ret parsed \<Rightarrow>
          (case classify_parts parts of
             Throw \<Rightarrow> Throw
           | Ret (rules, bases) \<Rightarrow>
               (case parsed of
                  Some (g # gs) \<Rightarrow> Ret (part # rules, bases)
                | _ \<Rightarrow> Ret (rules, part # bases))))"

definition splitBillingExprAndRequestRules :: "string \<Rightarrow> (string \<times> string) js_result" where
  "splitBillingExprAndRequestRules expr =
     (let trimmed = js_trim expr
      in if trimmed = [] then Ret ([], [])
         else (let parts = splitTopLevelMultiply trimmed
           in if length parts \<le> 1 then Ret (trimmed, [])
              else (case classify_parts parts of
                  Throw \<Rightarrow> Throw
                | Ret (ruleParts, baseParts) \<Rightarrow>
                    if ruleParts = [] \<or> length baseParts \<noteq> 1 then Ret (trimmed, [])
                    else Ret (unwrapOuterParens (hd baseParts), js_join '' * '' ruleParts))))"

definition combineBillingExpr :: "string \<Rightarrow> string \<Rightarrow> string" where
  "combineBillingExpr baseExpr requestRuleExpr =
     (let base = js_trim baseExpr; rules = js_trim requestRuleExpr
      in if base = [] then [] else if rules = [] then base else ''('' @ base @ '') * '' @ rules)"

section \<open>Editor\<close>

definition createEmptyCondition :: param_header_condition where
  "createEmptyCondition = \<lparr>ph_src = Param, ph_path = [], ph_mode = ''eq'', ph_value = []\<rparr>"

definition createEmptyTimeCondition :: time_condition where
  "createEmptyTimeCondition =
     \<lparr>timeFunc = ''hour'', timezone = ''Asia/Shanghai'', tc_mode = ''gte'', tc_value = [], rangeStart = [], rangeEnd = []\<rparr>"

definition createEmptyRuleGroup :: rule_group where
  "createEmptyRuleGroup =
     \<lparr>conditions = [ParamHeaderCondition createEmptyCondition], multiplier = [], conditionText = None, matched = None\<rparr>"

definition createEmptyTimeRuleGroup :: rule_group where
  "createEmptyTimeRuleGroup =
     \<lparr>conditions = [TimeCondition createEmptyTimeCondition], multiplier = [], conditionText = None, matched = None\<rparr>"

definition time_match_options :: "(string \<times> string) list" where
  "time_match_options =
     [(''eq'', ''Equals''), (''gte'', ''Greater than or equal''), (''lt'', ''Less than''), (''range'', ''Overnight range'')]"

definition getRequestRuleMatchOptions :: "string \<Rightarrow> (string \<times> string) list" where
  "getRequestRuleMatchOptions source =
     (if source = ''time'' then time_match_options
      else (let base = [(''eq'', ''Equals''), (''contains'', ''Contains''), (''exists'', ''Exists'')]
        in if source = ''header'' then base
           else base @ [(''gt'', ''Greater than''), (''gte'', ''Greater than or equal''), (''lt'', ''Less than''),
                        (''lte'', ''Less than or equal'')]))"

fun source_name :: "ph_source \<Rightarrow> string" where
  "source_name Param = ''param''"
| "source_name Header = ''header''"

definition normalize_time :: "time_condition \<Rightarrow> time_condition" where
  "normalize_time c =
     c\<lparr>timeFunc := (if timeFunc c \<in> set TIME_FUNCS then timeFunc c else ''hour''),
       timezone := str_or (timezone c) ''Asia/Shanghai'',
       tc_mode := (if tc_mode c \<in> set (map fst (getRequestRuleMatchOptions ''time'')) then tc_mode c else ''gte'')\<rparr>"

definition normalize_ph :: "param_header_condition \<Rightarrow> param_header_condition" where
  "normalize_ph c =
     c\<lparr>ph_mode := (if ph_mode c \<in> set (map fst (getRequestRuleMatchOptions (source_name (ph_src c)))) then ph_mode c
                   else ''eq'')\<rparr>"

fun normalizeCondition :: "request_condition \<Rightarrow> request_condition" where
  "normalizeCondition (TimeCondition c) = TimeCondition (normalize_time c)"
| "normalizeCondition (ParamHeaderCondition c) = ParamHeaderCondition (normalize_ph c)"

definition buildExprLiteral :: "string \<Rightarrow> string \<Rightarrow> string" where
  "buildExprLiteral mode val =
     (let text = js_trim val
      in if mode = ''contains'' then json_quote text
         else if text = ''true'' \<or> text = ''false'' then text
         else if numeric_literal text then text
         else json_quote text)"

definition buildTimeConditionExpr :: "time_condition \<Rightarrow> string" where
  "buildTimeConditionExpr cond =
     (let n = normalize_time cond; fn = timeFunc n @ ''('' @ json_quote (timezone n) @ '')''
      in if tc_mode n = ''range'' then
           (let s = js_trim (rangeStart n); e = js_trim (rangeEnd n)
            in if \<not> numeric_literal s \<or> \<not> numeric_literal e then []
               else fn @ '' >= '' @ s @ '' || '' @ fn @ '' < '' @ e)
         else (let v = js_trim (tc_value n)
           in if \<not> numeric_literal v then []
              else fn @ '' '' @ (if tc_mode n = ''gte'' then ''>='' else if tc_mode n = ''lt'' then ''<'' else ''=='')
                @ '' '' @ v))"

definition cmp_op :: "string \<Rightarrow> string" where
  "cmp_op mode =
     (if mode = ''gt'' then ''>'' else if mode = ''gte'' then ''>='' else if mode = ''lt'' then ''<'' else ''<='')"

fun buildRequestConditionExpr :: "request_condition \<Rightarrow> string" where
  "buildRequestConditionExpr (TimeCondition c) = buildTimeConditionExpr c"
| "buildRequestConditionExpr (ParamHeaderCondition c) =
     (let n = normalize_ph c; path = js_trim (ph_path n)
      in if path = [] then []
         else (let sourceExpr = source_name (ph_src n) @ ''('' @ json_quote path @ '')''
           in if ph_mode n = ''exists'' then
                (if ph_src n = Header then sourceExpr @ '' != '' @ [quote, quote] else sourceExpr @ '' != nil'')
              else if ph_mode n = ''contains'' then
                (if ph_src n = Header then ''has('' @ sourceExpr @ '', '' @ buildExprLiteral (ph_mode n) (ph_value n) @ '')''
                 else sourceExpr @ '' != nil && has('' @ sourceExpr @ '', '' @ buildExprLiteral (ph_mode n) (ph_value n) @ '')'')
              else if ph_mode n \<in> {''gt'', ''gte'', ''lt'', ''lte''} then
                (let numText = js_trim (ph_value n)
                 in if \<not> numeric_literal numText then []
                    else sourceExpr @ '' != nil && '' @ sourceExpr @ '' '' @ cmp_op (ph_mode n) @ '' '' @ numText)
              else sourceExpr @ '' == '' @ buildExprLiteral (ph_mode n) (ph_value n)))"

definition buildRuleGroupFactor :: "rule_group \<Rightarrow> string" where
  "buildRuleGroupFactor g =
     (let m = js_trim (multiplier g)
      in if \<not> numeric_literal m then []
         else (let condExprs = filter truthy (map buildRequestConditionExpr (conditions g))
           in if condExprs = [] then []
              else (let combined =
                  (if length condExprs = 1 then hd condExprs
                   else js_join '' && '' (map (\<lambda>e. if sublist '' || '' e then ''('' @ e @ '')'' else e) condExprs))
                in ''('' @ combined @ '' ? '' @ m @ '' : 1)'')))"

definition buildRequestRuleExpr :: "rule_group list \<Rightarrow> string" where
  "buildRequestRuleExpr groups = js_join '' * '' (filter truthy (map buildRuleGroupFactor groups))"

end
