(* ===== verification/Billing_Rules.thy ===== *)
theory Billing_Rules
  imports Billing_Expr
begin

text \<open>
  What the rule editor relies on: the text it builds from rule groups parses back to the same
  groups, and a billing expression splits into the parts it was combined from. The supported
  conditions are those whose literals are free of the characters the splitter looks for; for the
  comparisons on request parameters the round trip fails for every input.
\<close>

section \<open>Literals\<close>

text \<open>Printable ASCII without the characters that steer the splitters and the quoting.\<close>

definition lit_char :: "char \<Rightarrow> bool" where
  "lit_char c \<longleftrightarrow> 32 \<le> (of_char c :: nat) \<and> (of_char c :: nat) \<le> 126
     \<and> c \<notin> set ([quote, CHR 0x5C] @ ''()&|'')"

definition plain_text :: "string \<Rightarrow> bool" where
  "plain_text s = list_all lit_char s"

lemma quote_char_lit: "lit_char c \<Longrightarrow> quote_char c = [c]"
proof -
  have "d \<in> special_chars \<Longrightarrow> d = quote \<or> d = CHR 0x5C \<or> (of_char d :: nat) < 32" for d
    by (auto simp: special_chars_def quote_def)
  moreover assume "lit_char c"
  ultimately have "c \<notin> special_chars" "\<not> (of_char c :: nat) < 32" by (fastforce simp: lit_char_def)+
  then show ?thesis using quote_plain by blast
qed

lemma json_quote_plain: "plain_text s \<Longrightarrow> json_quote s = [quote] @ s @ [quote]"
proof -
  assume "plain_text s"
  then have "concat (map quote_char s) = s"
    by (induction s) (auto simp: plain_text_def quote_char_lit)
  then show ?thesis by (simp add: json_quote_def quote_def)
qed

lemma plain_no_quote: "plain_text s \<Longrightarrow> quote \<notin> set s"
  by (auto simp: plain_text_def list_all_iff lit_char_def)

lemma plain_chars: "plain_text s \<Longrightarrow> c \<in> set ''()&|'' \<Longrightarrow> c \<notin> set s"
  by (auto simp: plain_text_def list_all_iff lit_char_def)

lemma num_class_chars: "num_class c \<Longrightarrow> visible c \<and> lit_char c"
  by (auto simp: num_class_def is_digit_def visible_def lit_char_def quote_def)

lemma exponent_num: "exponent_ok s \<Longrightarrow> list_all num_class s"
  by (cases s; cases "tl s") (auto simp: exponent_ok_def num_class_def list_all_iff Let_def split: if_splits)

lemma digits_then:
  "list_all num_class (dropWhile is_digit s) \<Longrightarrow> list_all num_class s"
proof -
  assume "list_all num_class (dropWhile is_digit s)"
  moreover have "list_all num_class (takeWhile is_digit s)"
    by (auto simp: list_all_iff num_class_def dest: set_takeWhileD)
  ultimately show ?thesis by (metis list_all_append takeWhile_dropWhile_id)
qed

lemma numeric_num_end: "numeric_literal s \<Longrightarrow> num_end s"
proof -
  assume n: "numeric_literal s"
  define s1 where "s1 = (case s of c # r \<Rightarrow> if c = CHR ''-'' then r else s | [] \<Rightarrow> s)"
  have sign: "list_all num_class s1 \<Longrightarrow> list_all num_class s"
    by (cases s) (auto simp: s1_def num_class_def split: if_splits)
  have dot: "list_all num_class r \<Longrightarrow> list_all num_class (CHR ''.'' # r)" for r by (simp add: num_class_def)
  have "list_all num_class (dropWhile is_digit s1)"
  proof (cases "dropWhile is_digit s1")
    case Nil
    then show ?thesis by (simp only: list.pred_inject)
  next
    case (Cons c r)
    have "exponent_ok (c # r) \<or> c = CHR ''.'' \<and> exponent_ok (dropWhile is_digit r)"
      using n Cons unfolding numeric_literal_def Let_def s1_def [symmetric] by (auto split: if_splits)
    then show ?thesis using Cons exponent_num digits_then dot by metis
  qed
  then have "list_all num_class s" using sign digits_then by blast
  moreover have "s \<noteq> []" using n by (auto simp: numeric_literal_def)
  ultimately show ?thesis by (simp add: num_end_def)
qed

lemma num_end_facts:
  assumes "num_end s"
  shows "trimmed s" "plain_text s" "s \<noteq> []" "list_all num_class s"
proof -
  show "s \<noteq> []" "list_all num_class s" using assms by (auto simp: num_end_def)
  then show "plain_text s" "trimmed s"
    using num_class_chars by (auto simp: plain_text_def list_all_iff intro!: trimmed_visible)
qed

section \<open>Matching what was built\<close>

lemma strip_pre_append [simp]: "strip_pre p (p @ s) = Some s"
  by (simp add: strip_pre_def)

lemma strip_pre_Nil [simp]: "strip_pre [] s = Some s"
  by (simp add: strip_pre_def)

lemma strip_pre_Cons [simp]:
  "strip_pre (c # p) [] = None"
  "strip_pre (c # p) (d # s) = (if c = d then strip_pre p s else None)"
  by (auto simp: strip_pre_def)

definition arg_ok :: "string \<Rightarrow> bool" where
  "arg_ok a \<longleftrightarrow> a \<noteq> [] \<and> plain_text a \<and> trimmed a"

lemma quoted_arg_quoted: "a \<noteq> [] \<Longrightarrow> quote \<notin> set a \<Longrightarrow> quoted_arg (quote # a @ quote # r) = Some (a, r)"
proof -
  assume "a \<noteq> []" "quote \<notin> set a"
  moreover from this have "takeWhile (\<lambda>x. x \<noteq> quote) (a @ quote # r) = a" "dropWhile (\<lambda>x. x \<noteq> quote) (a @ quote # r) = quote # r"
    by (simp_all add: takeWhile_append2 dropWhile_append2 takeWhile_append dropWhile_append)
  ultimately show ?thesis by (simp add: quoted_arg_def)
qed

lemma call_arg_text [simp]: "arg_ok a \<Longrightarrow> call_arg f (call_text f a @ r) = Some (a, r)"
proof -
  assume "arg_ok a"
  then have "quoted_arg (quote # a @ quote # CHR '')'' # r) = Some (a, CHR '')'' # r)"
    using plain_no_quote by (intro quoted_arg_quoted) (auto simp: arg_ok_def)
  moreover have "strip_pre (f @ ''('') (call_text f a @ r) = Some (quote # a @ quote # CHR '')'' # r)"
    using strip_pre_append [of "f @ ''(''" "quote # a @ quote # CHR '')'' # r"] by (simp add: call_text_def)
  ultimately show ?thesis by (simp add: call_arg_def)
qed

lemma time_call:
  assumes "f \<in> set TIME_FUNCS" "arg_ok a"
  shows "first_call TIME_FUNCS (call_text f a @ r) = Some (f, a, r)"
proof -
  have "call_arg g (call_text f a @ r) = None" if "g \<in> set TIME_FUNCS" "g \<noteq> f" for g
    using assms(1) that by (simp add: TIME_FUNCS_def) (elim disjE; simp add: call_arg_def call_text_def)
  moreover have "call_arg f (call_text f a @ r) = Some (a, r)" using assms(2) by simp
  moreover have "first_call gs s = Some (f, a, r)"
    if "call_arg f s = Some (a, r)" "f \<in> set gs" "\<And>g. g \<in> set gs \<Longrightarrow> g \<noteq> f \<Longrightarrow> call_arg g s = None" for gs s
    using that
  proof (induction gs)
    case (Cons g gs)
    then show ?case by (cases "g = f") (auto simp: Cons.prems(3))
  qed simp
  ultimately show ?thesis using assms(1) by blast
qed

lemma no_time_call:
  "first_call TIME_FUNCS (call_text ''param'' a @ r) = None"
  "first_call TIME_FUNCS (call_text ''header'' a @ r) = None"
  "first_call TIME_FUNCS (CHR ''('' # r) = None"
  "first_call TIME_FUNCS (''has('' @ r) = None"
  by (simp_all add: TIME_FUNCS_def call_arg_def call_text_def)

lemma other_call:
  "f \<in> set TIME_FUNCS \<Longrightarrow> call_arg ''param'' (call_text f a @ r) = None"
  "f \<in> set TIME_FUNCS \<Longrightarrow> call_arg ''header'' (call_text f a @ r) = None"
  "call_arg ''param'' (call_text ''header'' a @ r) = None"
  "call_arg ''header'' (call_text ''param'' a @ r) = None"
  "call_arg ''param'' (''has('' @ r) = None" "call_arg ''header'' (''has('' @ r) = None"
proof -
  have "call_arg ''param'' (call_text f a @ r) = None \<and> call_arg ''header'' (call_text f a @ r) = None"
    if "f \<in> set TIME_FUNCS"
    using that by (simp add: TIME_FUNCS_def) (elim disjE; simp add: call_arg_def call_text_def)
  then show "f \<in> set TIME_FUNCS \<Longrightarrow> call_arg ''param'' (call_text f a @ r) = None"
    "f \<in> set TIME_FUNCS \<Longrightarrow> call_arg ''header'' (call_text f a @ r) = None" by blast+
qed (simp_all add: call_arg_def call_text_def)

lemma takeWhile_num: "list_all num_class a \<Longrightarrow> \<not> num_class c \<Longrightarrow>
    takeWhile num_class (a @ c # r) = a \<and> dropWhile num_class (a @ c # r) = c # r"
  by (auto simp: list_all_iff takeWhile_append2 dropWhile_append2)

lemma space_not_num [simp]: "\<not> num_class (CHR '' '')"
  by (simp add: num_class_def is_digit_def)

lemma quoted_call: "plain_text a \<Longrightarrow> f @ ''('' @ json_quote a @ '')'' = call_text f a"
  by (simp add: json_quote_plain call_text_def)

section \<open>Conditions\<close>

fun cond_ok :: "request_condition \<Rightarrow> bool" where
  "cond_ok (TimeCondition c) =
     (timeFunc c \<in> set TIME_FUNCS \<and> arg_ok (timezone c)
      \<and> (if tc_mode c = ''range''
         then tc_value c = [] \<and> numeric_literal (rangeStart c) \<and> numeric_literal (rangeEnd c)
         else tc_mode c \<in> {''eq'', ''gte'', ''lt''} \<and> numeric_literal (tc_value c)
           \<and> rangeStart c = [] \<and> rangeEnd c = []))"
| "cond_ok (ParamHeaderCondition c) =
     (arg_ok (ph_path c)
      \<and> (ph_mode c = ''exists'' \<and> ph_value c = []
         \<or> ph_mode c = ''eq'' \<and> plain_text (ph_value c) \<and> trimmed (ph_value c)
         \<or> ph_mode c = ''contains'' \<and> ph_src c = Header \<and> plain_text (ph_value c) \<and> trimmed (ph_value c)))"

fun is_range :: "request_condition \<Rightarrow> bool" where
  "is_range (TimeCondition c) = (tc_mode c = ''range'')"
| "is_range _ = False"

declare buildRequestConditionExpr.simps [simp del]

lemma build_time_cond [simp]: "buildRequestConditionExpr (TimeCondition c) = buildTimeConditionExpr c"
  by (rule buildRequestConditionExpr.simps)

lemma numeric_trim: "numeric_literal v \<Longrightarrow> js_trim v = v"
  using numeric_num_end num_end_facts trim_trimmed by blast

lemma build_time:
  assumes "cond_ok (TimeCondition c)"
  shows "buildTimeConditionExpr c =
    (if tc_mode c = ''range''
     then call_text (timeFunc c) (timezone c) @ '' >= '' @ rangeStart c @ '' || ''
       @ call_text (timeFunc c) (timezone c) @ '' < '' @ rangeEnd c
     else call_text (timeFunc c) (timezone c) @ '' ''
       @ (if tc_mode c = ''gte'' then ''>='' else if tc_mode c = ''lt'' then ''<'' else ''=='') @ '' '' @ tc_value c)"
proof -
  have n: "normalize_time c = c"
    using assms
    by (auto simp: normalize_time_def arg_ok_def str_or_def getRequestRuleMatchOptions_def time_match_options_def
        split: if_splits)
  have q: "timeFunc c @ ''('' @ json_quote (timezone c) @ '')'' = call_text (timeFunc c) (timezone c)"
    using assms by (intro quoted_call) (auto simp: arg_ok_def)
  show ?thesis
    using assms unfolding buildTimeConditionExpr_def n Let_def q
    by (auto simp: numeric_trim split: if_splits)
qed

lemma match_range_built:
  assumes "f \<in> set TIME_FUNCS" "arg_ok tz" "num_end a" "num_end b"
  shows "match_range (call_text f tz @ '' >= '' @ a @ '' || '' @ call_text f tz @ '' < '' @ b) =
    Some \<lparr>timeFunc = f, timezone = tz, tc_mode = ''range'', tc_value = [], rangeStart = a, rangeEnd = b\<rparr>"
proof -
  let ?r = "'' || '' @ call_text f tz @ '' < '' @ b"
  have "takeWhile num_class (a @ ?r) = a \<and> dropWhile num_class (a @ ?r) = ?r"
    using takeWhile_num [of a "CHR '' ''" "''|| '' @ call_text f tz @ '' < '' @ b"] assms(3)
    by (simp add: num_end_def)
  moreover have "strip_pre ('' || '' @ call_text f tz @ '' < '') ?r = Some b"
    using strip_pre_append [of "'' || '' @ call_text f tz @ '' < ''" b] by simp
  moreover have "a \<noteq> []" using assms(3) by (simp add: num_end_def)
  ultimately show ?thesis
    using assms(4) unfolding match_range_def time_call [OF assms(1,2)] by simp
qed

lemma parse_range:
  assumes "cond_ok (TimeCondition c)" "tc_mode c = ''range''"
  shows "tryParseRequestCondition (buildTimeConditionExpr c) = Ret (Some (TimeCondition c))"
    and "tryParseRequestCondition (''('' @ buildTimeConditionExpr c @ '')'') = Ret (Some (TimeCondition c))"
proof -
  have m: "match_range (buildTimeConditionExpr c) = Some c"
    using assms match_range_built [of "timeFunc c" "timezone c" "rangeStart c" "rangeEnd c"] numeric_num_end
    by (simp add: build_time)
  then show "tryParseRequestCondition (buildTimeConditionExpr c) = Ret (Some (TimeCondition c))"
    by (simp add: tryParseRequestCondition_def tryParseTimeCondition_def)
  have "match_range (CHR ''('' # s) = None" for s by (simp add: match_range_def no_time_call)
  moreover have "match_range_parens (''('' @ buildTimeConditionExpr c @ '')'') = Some c"
    using m by (simp add: match_range_parens_def)
  ultimately show "tryParseRequestCondition (''('' @ buildTimeConditionExpr c @ '')'') = Ret (Some (TimeCondition c))"
    by (simp add: tryParseRequestCondition_def tryParseTimeCondition_def)
qed

lemma num_end_no_space: "num_end v \<Longrightarrow> \<exists>c r. v = c # r \<and> c \<noteq> CHR ''=''"
  by (cases v) (auto simp: num_end_def num_class_def is_digit_def)

lemma parse_time_cmp:
  assumes "cond_ok (TimeCondition c)" "tc_mode c \<noteq> ''range''"
  shows "tryParseRequestCondition (buildTimeConditionExpr c) = Ret (Some (TimeCondition c))"
proof -
  have f: "timeFunc c \<in> set TIME_FUNCS" "arg_ok (timezone c)" "num_end (tc_value c)" "tc_mode c \<in> {''eq'', ''gte'', ''lt''}"
    "rangeStart c = []" "rangeEnd c = []"
    using assms numeric_num_end by auto
  let ?v = "tc_value c" and ?op = "if tc_mode c = ''gte'' then ''>='' else if tc_mode c = ''lt'' then ''<'' else ''==''"
  have b: "buildTimeConditionExpr c = call_text (timeFunc c) (timezone c) @ '' '' @ ?op @ '' '' @ ?v"
    using assms by (simp add: build_time)
  have tw: "dropWhile num_class ?v = []"
    using f(3) by (auto simp: num_end_def list_all_iff)
  have "match_range (buildTimeConditionExpr c) = None"
    unfolding b match_range_def time_call [OF f(1,2)] using f(4) by (auto simp: tw Let_def simp del: dropWhile_eq_Nil_conv)
  moreover have "match_range_parens (buildTimeConditionExpr c) = None"
    using f(1) unfolding b match_range_parens_def call_text_def by (auto simp: TIME_FUNCS_def)
  moreover have "match_time_cmp (buildTimeConditionExpr c) = Some c"
    unfolding b match_time_cmp_def time_call [OF f(1,2)] using f(3-6) by (auto simp: Let_def)
  ultimately show ?thesis by (simp add: tryParseRequestCondition_def tryParseTimeCondition_def)
qed

text \<open>The text of a supported parameter or header condition.\<close>

lemma build_ph:
  assumes "cond_ok (ParamHeaderCondition c)"
  shows "buildRequestConditionExpr (ParamHeaderCondition c) =
    (let src = call_text (source_name (ph_src c)) (ph_path c)
     in if ph_mode c = ''exists'' then (if ph_src c = Header then src @ '' != '' @ [quote, quote] else src @ '' != nil'')
        else if ph_mode c = ''contains'' then ''has('' @ src @ '', '' @ json_quote (ph_value c) @ '')''
        else src @ '' == '' @ buildExprLiteral ''eq'' (ph_value c))"
proof -
  have n: "normalize_ph c = c"
    using assms by (cases "ph_src c") (auto simp: normalize_ph_def getRequestRuleMatchOptions_def Let_def)
  have p: "js_trim (ph_path c) = ph_path c" "ph_path c \<noteq> []"
    "source_name (ph_src c) @ ''('' @ json_quote (ph_path c) @ '')'' = call_text (source_name (ph_src c)) (ph_path c)"
    using assms quoted_call by (auto simp: arg_ok_def trim_trimmed)
  show ?thesis
    using assms unfolding buildRequestConditionExpr.simps n Let_def p(1,3)
    by (auto simp: p(2) buildExprLiteral_def trim_trimmed Let_def)
qed

lemma lit_scan_plain: "plain_text v \<Longrightarrow> lit_scan (v @ quote # r) = Some (v @ [quote], r)"
  by (induction v) (auto simp: plain_text_def lit_char_def)

lemma literal_end_plain: "plain_text v \<Longrightarrow> literal_end (json_quote v @ '')'') = Some (json_quote v)"
  using lit_scan_plain [of v "'')''"] by (simp add: literal_end_def json_quote_plain)

lemma lit_char_line: "lit_char c \<Longrightarrow> \<not> line_term (c # s)"
proof -
  assume "lit_char c"
  then have "32 \<le> (of_char c :: nat)" "(of_char c :: nat) \<le> 126" unfolding lit_char_def by blast+
  then show ?thesis by (auto simp: line_term_def)
qed

lemma plain_no_line_term: "plain_text v \<Longrightarrow> \<not> has_line_term (v @ r) \<longleftrightarrow> \<not> has_line_term r"
proof (induction v)
  case (Cons c v)
  have "\<not> line_term (c # v @ r)" using Cons.prems lit_char_line by (simp add: plain_text_def)
  then show ?case using Cons by (simp add: plain_text_def)
qed simp

lemma literal_back:
  assumes "plain_text v" "trimmed v"
  shows "parseExprLiteral (buildExprLiteral ''eq'' v) = Some v" and "buildExprLiteral ''eq'' v \<noteq> []"
    and "\<not> has_line_term (buildExprLiteral ''eq'' v)"
proof -
  have t: "js_trim v = v" using assms(2) trim_trimmed by blast
  have q: "json_quote v = quote # v @ [quote]" using json_quote_plain [OF assms(1)] by simp
  have tq: "js_trim (json_quote v) = json_quote v"
    by (rule trim_trimmed, rule trimmed_visible_ends) (simp add: q quote_def visible_def)
  have nq: "\<not> numeric_literal (json_quote v)" "json_quote v \<noteq> ''true''" "json_quote v \<noteq> ''false''"
    using numeric_num_end [of "json_quote v"] by (auto simp: q num_end_def num_class_def is_digit_def quote_def)
  show "parseExprLiteral (buildExprLiteral ''eq'' v) = Some v"
    by (auto simp: buildExprLiteral_def parseExprLiteral_def t tq nq Let_def)
  show "buildExprLiteral ''eq'' v \<noteq> []"
    using numeric_num_end [of v] by (auto simp: buildExprLiteral_def t q num_end_def Let_def)
  have "\<not> has_line_term v" using plain_no_line_term [OF assms(1), of "[]"] by simp
  moreover have "\<not> has_line_term (quote # v @ [quote])"
    using plain_no_line_term [OF assms(1), of "[quote]"] by (simp add: line_term_def quote_def)
  ultimately show "\<not> has_line_term (buildExprLiteral ''eq'' v)"
    by (auto simp: buildExprLiteral_def t q line_term_def Let_def)
qed

lemma no_time_parse:
  "tryParseTimeCondition (call_text ''param'' a @ r) = None"
  "tryParseTimeCondition (call_text ''header'' a @ r) = None"
  "tryParseTimeCondition (''has('' @ r) = None"
proof -
  have "match_range_parens (call_text ''param'' a @ r) = None" "match_range_parens (call_text ''header'' a @ r) = None"
    "match_range_parens (''has('' @ r) = None"
    by (simp_all add: match_range_parens_def call_text_def)
  then show "tryParseTimeCondition (call_text ''param'' a @ r) = None"
    "tryParseTimeCondition (call_text ''header'' a @ r) = None" "tryParseTimeCondition (''has('' @ r) = None"
    unfolding tryParseTimeCondition_def match_range_def match_time_cmp_def no_time_call by simp_all
qed

lemmas request_matchers = match_header_exists_def match_param_exists_def match_header_has_def match_param_has_def
  match_param_cmp_def match_eq_def

lemma has_no_call: "strip_pre ''has('' (call_text ''param'' a @ r) = None" "strip_pre ''has('' (call_text ''header'' a @ r) = None"
  by (simp_all add: call_text_def)

lemma param_parse:
  assumes "arg_ok p"
  shows "tryParseRequestCondition (call_text ''param'' p @ '' != nil'') = Ret (Some (ph Param p ''exists'' []))"
    and "v \<noteq> [] \<Longrightarrow> \<not> has_line_term v \<Longrightarrow>
      tryParseRequestCondition (call_text ''param'' p @ '' == '' @ v) = Ret (map_option (ph Param p ''eq'') (parseExprLiteral v))"
    and "tryParseRequestCondition (call_text ''param'' p @ '' > '' @ v) = Ret None"
    and "tryParseRequestCondition (call_text ''param'' p @ '' >= '' @ v) = Ret None"
    and "tryParseRequestCondition (call_text ''param'' p @ '' < '' @ v) = Ret None"
    and "tryParseRequestCondition (call_text ''param'' p @ '' <= '' @ v) = Ret None"
  unfolding tryParseRequestCondition_def no_time_parse request_matchers other_call has_no_call call_arg_text [OF assms]
    first_call.simps
  by simp_all

lemma header_parse:
  assumes "arg_ok p"
  shows "tryParseRequestCondition (call_text ''header'' p @ '' != '' @ [quote, quote]) = Ret (Some (ph Header p ''exists'' []))"
    and "v \<noteq> [] \<Longrightarrow> \<not> has_line_term v \<Longrightarrow>
      tryParseRequestCondition (call_text ''header'' p @ '' == '' @ v) = Ret (map_option (ph Header p ''eq'') (parseExprLiteral v))"
  unfolding tryParseRequestCondition_def no_time_parse request_matchers other_call has_no_call call_arg_text [OF assms]
    first_call.simps
  by simp_all

lemma has_parse:
  assumes "arg_ok p" "plain_text v"
  shows "tryParseRequestCondition (''has('' @ call_text ''header'' p @ '', '' @ json_quote v @ '')'') =
      Ret (Some (ph Header p ''contains'' v))"
    and "tryParseRequestCondition (''has('' @ call_text ''param'' p @ '', '' @ r) = Ret None"
  unfolding tryParseRequestCondition_def no_time_parse request_matchers other_call strip_pre_append call_arg_text [OF assms(1)]
    first_call.simps
  by (simp_all add: literal_end_plain [OF assms(2), simplified] parsed_literal_def other_call call_arg_text [OF assms(1)])

lemma parse_built:
  assumes "cond_ok c"
  shows "tryParseRequestCondition (buildRequestConditionExpr c) = Ret (Some c)"
proof (cases c)
  case (TimeCondition t)
  then show ?thesis using assms parse_range(1) parse_time_cmp by (cases "tc_mode t = ''range''") auto
next
  case (ParamHeaderCondition q)
  have c: "c = ph (ph_src q) (ph_path q) (ph_mode q) (ph_value q)" by (simp add: ParamHeaderCondition ph_def)
  have ok: "arg_ok (ph_path q)" using assms ParamHeaderCondition by simp
  have b: "buildRequestConditionExpr c =
    (let src = call_text (source_name (ph_src q)) (ph_path q)
     in if ph_mode q = ''exists'' then (if ph_src q = Header then src @ '' != '' @ [quote, quote] else src @ '' != nil'')
        else if ph_mode q = ''contains'' then ''has('' @ src @ '', '' @ json_quote (ph_value q) @ '')''
        else src @ '' == '' @ buildExprLiteral ''eq'' (ph_value q))"
    using build_ph assms ParamHeaderCondition by simp
  consider "ph_mode q = ''exists''" "ph_value q = []" | "ph_mode q = ''eq''" "plain_text (ph_value q)" "trimmed (ph_value q)"
    | "ph_mode q = ''contains''" "ph_src q = Header" "plain_text (ph_value q)"
    using assms ParamHeaderCondition by auto
  then show ?thesis
  proof cases
    case 1
    then show ?thesis using param_parse(1) [OF ok] header_parse(1) [OF ok] b c by (cases "ph_src q") (simp_all add: Let_def)
  next
    case 2
    then show ?thesis
      using param_parse(2) [OF ok literal_back(2,3) [OF 2(2,3)]] header_parse(2) [OF ok literal_back(2,3) [OF 2(2,3)]]
        literal_back(1) [OF 2(2,3)] b c
      by (cases "ph_src q") (simp_all add: Let_def)
  next
    case 3
    then show ?thesis using has_parse(1) [OF ok 3(3)] b c by (simp add: Let_def)
  qed
qed

section \<open>Splitting what was joined\<close>

text \<open>Parenthesis depth: \<open>balance k s\<close> never falls below zero inside \<open>s\<close>.\<close>

fun balance :: "nat \<Rightarrow> string \<Rightarrow> nat option" where
  "balance k [] = Some k"
| "balance k (c # s) =
     (if c = CHR ''('' then balance (k + 1) s
      else if c = CHR '')'' then (if k = 0 then None else balance (k - 1) s)
      else balance k s)"

definition balanced :: "string \<Rightarrow> bool" where
  "balanced s \<longleftrightarrow> balance 0 s = Some 0"

lemma balance_append: "balance k (a @ b) = Option.bind (balance k a) (\<lambda>j. balance j b)"
  by (induction a arbitrary: k) auto

lemma balance_shift: "balance k s = Some j \<Longrightarrow> balance (k + n) s = Some (j + n)"
proof (induction s arbitrary: k)
  case (Cons c s)
  have "k \<noteq> 0 \<Longrightarrow> k - 1 + n = k + n - 1" by simp
  then show ?case
    using Cons.IH [of "k + 1"] Cons.IH [of "k - 1"] Cons.IH [of k] Cons.prems
    by (auto split: if_splits simp: ac_simps)
qed simp

text \<open>One character of a text that stays inside its parentheses.\<close>

lemma balance_step:
  assumes "balance k (c # s) = Some j"
  obtains k' where "balance k' s = Some j" "depth_step c (int k) = int k'"
  using assms that [of "k + 1"] that [of "k - 1"] that [of k]
  by (auto simp: depth_step_def split: if_splits)

lemma depth_step_shift: "depth_step c (d + 1) = depth_step c d + 1"
  by (simp add: depth_step_def)

lemma split_top_skip:
  "\<not> (depth_step c d = 0 \<and> prefix sep (c # s)) \<Longrightarrow>
   split_top sep d cur (c # s) = split_top sep (depth_step c d) (cur @ [c]) s"
  unfolding split_top.simps(2) by (rule if_not_P) blast

lemma balanced_at: "balanced s \<Longrightarrow> balance k s = Some k"
  using balance_shift [of 0 s 0 k] by (simp add: balanced_def)

lemma balance_free: "CHR ''('' \<notin> set s \<Longrightarrow> CHR '')'' \<notin> set s \<Longrightarrow> balance k s = Some k"
  by (induction s) auto

lemma balanced_append: "balanced a \<Longrightarrow> balanced b \<Longrightarrow> balanced (a @ b)"
  by (simp add: balanced_def balance_append)

lemma balanced_plain: "plain_text s \<Longrightarrow> balanced s"
  using plain_chars by (auto simp: balanced_def intro!: balance_free)

lemma balanced_parens: "balanced s \<Longrightarrow> balanced (''('' @ s @ '')'')"
  by (simp add: balanced_def balance_append balanced_at [unfolded balanced_def])

lemma split_inside:
  "balance k s = Some j \<Longrightarrow>
   split_top '' * '' (int k + 1) cur (s @ r) = split_top '' * '' (int j + 1) (cur @ s) r"
proof (induction s arbitrary: k cur)
  case (Cons c s)
  from Cons.prems obtain k' where k': "balance k' s = Some j" "depth_step c (int k) = int k'" by (rule balance_step)
  then have "split_top '' * '' (int k + 1) cur (c # s @ r) = split_top '' * '' (int k' + 1) (cur @ [c]) (s @ r)"
    using split_top_skip [of c "int k + 1"] by (simp add: depth_step_shift)
  then show ?case using Cons.IH [OF k'(1)] by simp
qed simp

lemma split_factor:
  assumes "balanced b"
  shows "split_top '' * '' 0 cur (''('' @ b @ '')'' @ r) = split_top '' * '' 0 (cur @ ''('' @ b @ '')'') r"
  using split_inside [of 0 b 0 "cur @ ''(''" "'')'' @ r"] assms by (simp add: balanced_def depth_step_def)

definition is_factor :: "string \<Rightarrow> bool" where
  "is_factor f \<longleftrightarrow> (\<exists>b. balanced b \<and> f = ''('' @ b @ '')'')"

lemma trimmed_parens: "trimmed (''('' @ b @ '')'')"
  by (rule trimmed_visible_ends) (simp add: visible_def)

lemma split_factors:
  "fs \<noteq> [] \<Longrightarrow> list_all is_factor fs \<Longrightarrow> split_top '' * '' 0 [] (js_join '' * '' fs) = fs"
proof (induction fs)
  case (Cons f fs)
  then obtain b where f: "balanced b" "f = ''('' @ b @ '')''" by (auto simp: is_factor_def)
  have t: "js_trim f = f" unfolding f(2) by (rule trim_trimmed [OF trimmed_parens])
  show ?case
  proof (cases "fs = []")
    case True
    then show ?thesis using split_factor [OF f(1), of "[]" "[]"] f(2) t by simp
  next
    case False
    then show ?thesis
      using split_factor [OF f(1), of "[]" "'' * '' @ js_join '' * '' fs"] Cons f(2) t
      by (simp add: js_join_Cons depth_step_def)
  qed
qed simp

lemma factor_truthy: "list_all is_factor fs \<Longrightarrow> filter truthy fs = fs"
  by (auto simp: is_factor_def list_all_iff intro!: filter_True)

lemma multiply_factors: "fs \<noteq> [] \<Longrightarrow> list_all is_factor fs \<Longrightarrow> splitTopLevelMultiply (js_join '' * '' fs) = fs"
  using split_factors factor_truthy by (simp add: splitTopLevelMultiply_def)

lemma trimmed_factors: "fs \<noteq> [] \<Longrightarrow> list_all is_factor fs \<Longrightarrow> js_trim (js_join '' * '' fs) = js_join '' * '' fs"
proof (rule trim_trimmed, rule trimmed_visible_ends)
  assume fs: "fs \<noteq> []" "list_all is_factor fs"
  have hd: "hd (js_join '' * '' fs) = CHR ''('' \<and> js_join '' * '' fs \<noteq> []"
    using fs by (cases fs rule: list.exhaust; cases "tl fs") (auto simp: is_factor_def)
  have "last (js_join '' * '' fs) = CHR '')'' \<and> js_join '' * '' fs \<noteq> []"
    using fs
  proof (induction fs)
    case (Cons f fs)
    then show ?case by (cases "fs = []") (auto simp: is_factor_def js_join_Cons)
  qed simp
  with hd show "js_join '' * '' fs = [] \<or> visible (hd (js_join '' * '' fs)) \<and> visible (last (js_join '' * '' fs))"
    by (simp add: visible_def)
qed

text \<open>At the conjunctions: a part without \<open>&\<close> is never cut.\<close>

definition depth_after :: "int \<Rightarrow> string \<Rightarrow> int" where
  "depth_after d s = fold depth_step s d"

lemma depth_after_balance: "balance k s = Some j \<Longrightarrow> depth_after (int k) s = int j"
proof (induction s arbitrary: k)
  case (Cons c s)
  from Cons.prems obtain k' where "balance k' s = Some j" "depth_step c (int k) = int k'" by (rule balance_step)
  then show ?case using Cons.IH by (simp add: depth_after_def)
qed (simp add: depth_after_def)

lemma split_no_amp:
  "CHR ''&'' \<notin> set e \<Longrightarrow> r = [] \<or> prefix '' && '' r \<Longrightarrow>
   split_top '' && '' d cur (e @ r) = split_top '' && '' (depth_after d e) (cur @ e) r"
proof (induction e arbitrary: d cur)
  case (Cons c e)
  have "\<not> prefix '' && '' (c # e @ r)"
    using Cons.prems by (cases e) (auto simp: prefix_def)
  then have "split_top '' && '' d cur (c # e @ r) = split_top '' && '' (depth_step c d) (cur @ [c]) (e @ r)"
    by (intro split_top_skip) blast
  then show ?case using Cons by (simp add: depth_after_def del: split_top.simps)
qed (simp add: depth_after_def)

definition is_part :: "string \<Rightarrow> bool" where
  "is_part e \<longleftrightarrow> e \<noteq> [] \<and> trimmed e \<and> balanced e \<and> CHR ''&'' \<notin> set e"

lemma split_parts:
  "es \<noteq> [] \<Longrightarrow> list_all is_part es \<Longrightarrow> split_top '' && '' 0 [] (js_join '' && '' es) = es"
proof (induction es)
  case (Cons e es)
  then have e: "js_trim e = e" "CHR ''&'' \<notin> set e" "depth_after 0 e = 0"
    using depth_after_balance [of 0 e 0] by (auto simp: is_part_def balanced_def trim_trimmed)
  show ?case
  proof (cases "es = []")
    case True
    then show ?thesis using split_no_amp [OF e(2), of "[]" 0 "[]"] e by simp
  next
    case False
    then show ?thesis
      using split_no_amp [OF e(2), of "'' && '' @ js_join '' && '' es" 0 "[]"] Cons e
      by (simp add: js_join_Cons depth_step_def)
  qed
qed simp

lemma and_parts: "es \<noteq> [] \<Longrightarrow> list_all is_part es \<Longrightarrow> splitTopLevelAnd (js_join '' && '' es) = es"
  using split_parts by (auto simp: splitTopLevelAnd_def is_part_def list_all_iff intro!: filter_True)

lemma take_strip: "length s = n \<Longrightarrow> take (length (x @ s) - n) (x @ s) = x"
  by simp

lemma match_factor_built:
  assumes "num_end m" "c \<noteq> []"
  shows "match_factor (''('' @ c @ '' ? '' @ m @ '' : 1)'') = Some (c, m)"
proof -
  define head where "head = c @ '' ? ''"
  define body where "body = head @ m"
  define full where "full = body @ '' : 1)''"
  have m: "list_all num_class m" "m \<noteq> []" using assms(1) by (auto simp: num_end_def)
  have tw: "takeWhile num_class (rev body) = rev m"
    using takeWhile_num [of "rev m" "CHR '' ''" "CHR ''?'' # CHR '' '' # rev c"] m
    by (simp add: list_all_iff body_def head_def)
  have cut: "take (length full - 5) full = body" "take (length head - 3) head = c"
    unfolding full_def head_def by (rule take_strip; simp)+
  have "suffix '' : 1)'' full" "suffix '' ? '' head" unfolding full_def head_def by (simp_all add: suffixI)
  moreover have "length head > 3" "length body - length m = length head" "take (length head) body = head"
    using assms(2) by (simp_all add: head_def body_def)
  ultimately have "match_factor (CHR ''('' # full) = Some (c, m)"
    using m(2) unfolding match_factor_def by (simp add: cut tw Let_def)
  then show ?thesis by (simp add: full_def body_def head_def)
qed

section \<open>Built texts\<close>

lemma plain_lit: "plain_text v \<Longrightarrow> trimmed v \<Longrightarrow>
    buildExprLiteral ''eq'' v = v \<and> (v = ''true'' \<or> v = ''false'' \<or> num_end v) \<or> buildExprLiteral ''eq'' v = [quote] @ v @ [quote]"
  using json_quote_plain numeric_num_end by (auto simp: buildExprLiteral_def trim_trimmed Let_def)

text \<open>A text made of literal characters, quotes and matched parentheses.\<close>

definition frag :: "string \<Rightarrow> bool" where
  "frag s \<longleftrightarrow> balanced s \<and> CHR ''&'' \<notin> set s \<and> CHR ''|'' \<notin> set s"

lemma frag_append: "frag a \<Longrightarrow> frag b \<Longrightarrow> frag (a @ b)"
  by (auto simp: frag_def balanced_append)

lemma frag_parens: "frag s \<Longrightarrow> frag (''('' @ s @ '')'')"
  using balanced_parens [of s] by (simp add: frag_def)

lemma frag_plain: "plain_text s \<Longrightarrow> frag s"
  using plain_chars [of s] by (auto simp: frag_def balanced_plain)

lemma frag_free: "list_all (\<lambda>c. c \<notin> set ''()&|'') s \<Longrightarrow> frag s"
  by (auto simp: frag_def balanced_def list_all_iff intro!: balance_free)

lemma frag_quoted: "plain_text s \<Longrightarrow> frag ([quote] @ s @ [quote])"
proof -
  have q: "frag [quote]" by (rule frag_free) (simp add: quote_def)
  assume "plain_text s"
  then show ?thesis using frag_append [OF q frag_append [OF frag_plain q]] by blast
qed

lemma frag_call: "list_all (\<lambda>c. c \<notin> set ''()&|'') f \<Longrightarrow> plain_text a \<Longrightarrow> frag (call_text f a)"
  using frag_append [OF frag_free frag_parens [OF frag_quoted]] by (simp add: call_text_def)

lemma time_name_free: "f \<in> set TIME_FUNCS \<Longrightarrow> list_all (\<lambda>c. c \<notin> set ''()&|'') f \<and> f \<noteq> [] \<and> visible (hd f)"
  by (simp add: TIME_FUNCS_def) (elim disjE; simp add: visible_def)

lemma source_name_free: "list_all (\<lambda>c. c \<notin> set ''()&|'') (source_name x) \<and> source_name x \<noteq> [] \<and> visible (hd (source_name x))"
  by (cases x) (simp_all add: visible_def)

lemma num_end_last: "num_end v \<Longrightarrow> v \<noteq> [] \<and> visible (last v)"
  using num_class_chars by (auto simp: num_end_def list_all_iff)

lemma trimmed_call: "f \<noteq> [] \<Longrightarrow> visible (hd f) \<Longrightarrow> r \<noteq> [] \<Longrightarrow> visible (last r) \<Longrightarrow> trimmed (call_text f a @ r)"
  by (rule trimmed_visible_ends) (simp add: call_text_def)

lemma lit_last: "plain_text v \<Longrightarrow> trimmed v \<Longrightarrow> buildExprLiteral ''eq'' v \<noteq> [] \<and> visible (last (buildExprLiteral ''eq'' v))
    \<and> frag (buildExprLiteral ''eq'' v)"
proof -
  assume v: "plain_text v" "trimmed v"
  then consider "buildExprLiteral ''eq'' v = v" "v = ''true'' \<or> v = ''false'' \<or> num_end v"
    | "buildExprLiteral ''eq'' v = [quote] @ v @ [quote]"
    using plain_lit by blast
  then show ?thesis
  proof cases
    case 1
    then show ?thesis using num_end_last [of v] frag_plain [OF v(1)] by (auto simp: visible_def)
  next
    case 2
    then show ?thesis using frag_quoted [OF v(1)] by (simp add: quote_def visible_def)
  qed
qed

lemma time_part:
  assumes "cond_ok (TimeCondition c)"
  shows "is_part (buildTimeConditionExpr c) \<and> (tc_mode c \<noteq> ''range'' \<longrightarrow> CHR ''|'' \<notin> set (buildTimeConditionExpr c))"
proof -
  have f: "frag (call_text (timeFunc c) (timezone c))" "timeFunc c \<noteq> []" "visible (hd (timeFunc c))"
    using assms frag_call [of "timeFunc c" "timezone c"] time_name_free [of "timeFunc c"] by (auto simp: arg_ok_def)
  have num: "numeric_literal v \<Longrightarrow> frag v \<and> v \<noteq> [] \<and> visible (last v)" for v
    using numeric_num_end num_end_last num_end_facts(2) frag_plain by blast
  show ?thesis
  proof (cases "tc_mode c = ''range''")
    case True
    let ?m = "'' || ''"
    have ops: "frag '' >= ''" "frag '' < ''" by (simp_all add: frag_free)
    have n: "numeric_literal (rangeStart c)" "numeric_literal (rangeEnd c)" using assms True by auto
    have "balanced ?m" "CHR ''&'' \<notin> set ?m" by (simp_all add: balanced_def)
    moreover have "frag ('' >= '' @ rangeStart c)" "frag ('' < '' @ rangeEnd c)"
      using frag_append [OF ops(1)] frag_append [OF ops(2)] num n by blast+
    ultimately have "balanced (buildTimeConditionExpr c)" "CHR ''&'' \<notin> set (buildTimeConditionExpr c)"
      using f(1) True unfolding build_time [OF assms] frag_def
      by (simp_all add: balanced_append [of _ "_ # _"] balanced_def balance_append)
    moreover have "trimmed (buildTimeConditionExpr c)"
      unfolding build_time [OF assms] if_P [OF True] using f num [OF n(2)]
      by (intro trimmed_call) simp_all
    moreover have "buildTimeConditionExpr c \<noteq> []" using True by (simp add: build_time [OF assms])
    ultimately show ?thesis using True by (simp add: is_part_def)
  next
    case False
    have n: "numeric_literal (tc_value c)" using assms False by auto
    have "frag (buildTimeConditionExpr c)"
      unfolding build_time [OF assms] if_not_P [OF False] using f(1) num [OF n]
      by (intro frag_append) (auto intro!: frag_free)
    moreover have "trimmed (buildTimeConditionExpr c)"
      unfolding build_time [OF assms] if_not_P [OF False] using f num [OF n]
      by (intro trimmed_call) simp_all
    moreover have "buildTimeConditionExpr c \<noteq> []" using False by (simp add: build_time [OF assms])
    ultimately show ?thesis by (simp add: is_part_def frag_def)
  qed
qed

lemma ph_part:
  assumes "cond_ok (ParamHeaderCondition c)"
  shows "is_part (buildRequestConditionExpr (ParamHeaderCondition c))
    \<and> CHR ''|'' \<notin> set (buildRequestConditionExpr (ParamHeaderCondition c))"
proof -
  let ?s = "call_text (source_name (ph_src c)) (ph_path c)" and ?e = "buildRequestConditionExpr (ParamHeaderCondition c)"
  have s: "frag ?s" "source_name (ph_src c) \<noteq> []" "visible (hd (source_name (ph_src c)))"
    using assms frag_call source_name_free [of "ph_src c"] by (auto simp: arg_ok_def)
  have "frag ?e \<and> trimmed ?e"
  proof -
    consider "ph_mode c = ''exists''" | "ph_mode c = ''eq''" "plain_text (ph_value c)" "trimmed (ph_value c)"
      | "ph_mode c = ''contains''" "plain_text (ph_value c)"
      using assms by auto
    then show ?thesis
    proof cases
      case 1
      define t where "t = (if ph_src c = Header then '' != '' @ [quote, quote] else '' != nil'')"
      have "?e = ?s @ t" using 1 by (simp add: build_ph [OF assms] t_def)
      moreover have "frag t" "t \<noteq> []" "visible (last t)" by (simp_all add: t_def frag_free quote_def visible_def)
      ultimately show ?thesis using s frag_append trimmed_call by metis
    next
      case 2
      have "?e = ?s @ '' == '' @ buildExprLiteral ''eq'' (ph_value c)" using 2 by (simp add: build_ph [OF assms] Let_def)
      moreover have "frag ('' == '' @ buildExprLiteral ''eq'' (ph_value c))"
        using lit_last [OF 2(2,3)] by (intro frag_append) (simp_all add: frag_free)
      moreover have "trimmed (?s @ '' == '' @ buildExprLiteral ''eq'' (ph_value c))"
        using lit_last [OF 2(2,3)] s by (intro trimmed_call) simp_all
      ultimately show ?thesis using s(1) frag_append by metis
    next
      case 3
      have e: "?e = ''has'' @ ''('' @ (?s @ '', '' @ [quote] @ ph_value c @ [quote]) @ '')''"
        using 3 json_quote_plain [OF 3(2)] by (simp add: build_ph [OF assms] Let_def)
      have "frag (?s @ '', '' @ [quote] @ ph_value c @ [quote])"
        by (rule frag_append [OF s(1) frag_append [OF frag_free frag_quoted [OF 3(2)]]]) simp
      then have "frag ?e" unfolding e by (intro frag_append [OF frag_free frag_parens]) simp_all
      moreover have "trimmed ?e" unfolding e by (rule trimmed_visible_ends) (simp add: visible_def)
      ultimately show ?thesis by blast
    qed
  qed
  moreover have "?e \<noteq> []" using s(2) by (simp add: build_ph [OF assms] call_text_def Let_def)
  ultimately show ?thesis by (simp add: is_part_def frag_def)
qed

section \<open>Rule groups\<close>

lemma built_part: "cond_ok c \<Longrightarrow> is_part (buildRequestConditionExpr c)"
  using time_part ph_part by (cases c) auto

lemma sublist_bars: "cond_ok c \<Longrightarrow> sublist '' || '' (buildRequestConditionExpr c) \<longleftrightarrow> is_range c"
proof (cases c)
  case (TimeCondition t)
  moreover assume ok: "cond_ok c"
  ultimately have t: "cond_ok (TimeCondition t)" by metis
  show ?thesis
  proof (cases "tc_mode t = ''range''")
    case True
    then have "buildTimeConditionExpr t = (call_text (timeFunc t) (timezone t) @ '' >= '' @ rangeStart t) @ '' || ''
        @ (call_text (timeFunc t) (timezone t) @ '' < '' @ rangeEnd t)"
      by (simp add: build_time [OF t])
    then have "sublist '' || '' (buildTimeConditionExpr t)" by (metis sublist_appendI)
    then show ?thesis using TimeCondition True by simp
  next
    case False
    then have "CHR ''|'' \<notin> set (buildTimeConditionExpr t)" using time_part [OF t] by blast
    then have "\<not> sublist '' || '' (buildTimeConditionExpr t)" by (auto dest!: set_mono_sublist)
    then show ?thesis using TimeCondition False by simp
  qed
next
  case (ParamHeaderCondition q)
  moreover assume "cond_ok c"
  ultimately have "CHR ''|'' \<notin> set (buildRequestConditionExpr c)" using ph_part by simp
  then have "\<not> sublist '' || '' (buildRequestConditionExpr c)" by (auto dest!: set_mono_sublist)
  then show ?thesis using ParamHeaderCondition by simp
qed

definition part_text :: "request_condition \<Rightarrow> string" where
  "part_text c = (if is_range c then ''('' @ buildRequestConditionExpr c @ '')'' else buildRequestConditionExpr c)"

lemma part_text_ok:
  assumes "cond_ok c"
  shows "is_part (part_text c)" "tryParseRequestCondition (js_trim (part_text c)) = Ret (Some c)"
proof -
  have "is_range c \<Longrightarrow> \<exists>t. c = TimeCondition t \<and> tc_mode t = ''range''" by (cases c) auto
  then have "tryParseRequestCondition (part_text c) = Ret (Some c)"
    using parse_built [OF assms] parse_range(2) assms by (auto simp: part_text_def)
  moreover show p: "is_part (part_text c)"
    using built_part [OF assms] balanced_parens [of "buildRequestConditionExpr c"] trimmed_parens [of "buildRequestConditionExpr c"]
    by (auto simp: part_text_def is_part_def)
  ultimately show "tryParseRequestCondition (js_trim (part_text c)) = Ret (Some c)"
    by (simp add: is_part_def trim_trimmed)
qed

lemma parse_conditions_all:
  "(\<And>c. c \<in> set cs \<Longrightarrow> tryParseRequestCondition (js_trim (e c)) = Ret (Some c)) \<Longrightarrow>
   parse_conditions (map e cs) = Ret (Some cs)"
  by (induction cs) auto

definition group_ok :: "rule_group \<Rightarrow> bool" where
  "group_ok g \<longleftrightarrow> conditions g \<noteq> [] \<and> list_all cond_ok (conditions g) \<and> numeric_literal (multiplier g)
     \<and> conditionText g = None \<and> matched g = None"

text \<open>The condition text of a group, as a conjunction of parts.\<close>

definition group_parts :: "rule_group \<Rightarrow> string list" where
  "group_parts g = (if length (conditions g) = 1 then map buildRequestConditionExpr (conditions g)
     else map part_text (conditions g))"

lemma group_parts_ok:
  assumes "group_ok g"
  shows "group_parts g \<noteq> []" "list_all is_part (group_parts g)" "parse_conditions (group_parts g) = Ret (Some (conditions g))"
proof -
  have c: "c \<in> set (conditions g) \<Longrightarrow> cond_ok c" for c using assms by (auto simp: group_ok_def list_all_iff)
  show "group_parts g \<noteq> []" using assms by (auto simp: group_parts_def group_ok_def)
  show "list_all is_part (group_parts g)"
    using c built_part part_text_ok(1) by (auto simp: group_parts_def list_all_iff)
  have "tryParseRequestCondition (js_trim (buildRequestConditionExpr c)) = Ret (Some c)" if "cond_ok c" for c
    using parse_built [OF that] built_part [OF that] by (simp add: is_part_def trim_trimmed)
  then show "parse_conditions (group_parts g) = Ret (Some (conditions g))"
    using c part_text_ok(2) parse_conditions_all [of "conditions g" buildRequestConditionExpr]
      parse_conditions_all [of "conditions g" part_text]
    by (auto simp: group_parts_def)
qed

lemma balanced_join: "list_all balanced es \<Longrightarrow> balanced (js_join '' && '' es)"
proof (induction es)
  case (Cons e es)
  then show ?case
  proof (cases "es = []")
    case False
    have amp: "balanced '' && ''" by (simp add: balanced_def)
    have "balanced (e @ '' && '' @ js_join '' && '' es)"
      by (rule balanced_append [OF _ balanced_append [OF amp]]) (use Cons in simp_all)
    then show ?thesis by (simp only: js_join_Cons [OF False])
  qed simp
qed (simp add: balanced_def)

lemma build_factor:
  assumes "group_ok g"
  shows "buildRuleGroupFactor g = ''('' @ js_join '' && '' (group_parts g) @ '' ? '' @ multiplier g @ '' : 1)''"
proof -
  have c: "c \<in> set (conditions g) \<Longrightarrow> cond_ok c" for c using assms by (auto simp: group_ok_def list_all_iff)
  have m: "js_trim (multiplier g) = multiplier g" "numeric_literal (multiplier g)" "conditions g \<noteq> []"
    using assms numeric_trim by (auto simp: group_ok_def)
  have f: "filter truthy (map buildRequestConditionExpr (conditions g)) = map buildRequestConditionExpr (conditions g)"
    using c built_part by (auto simp: is_part_def intro!: filter_True)
  have "map (\<lambda>e. if sublist '' || '' e then ''('' @ e @ '')'' else e) (map buildRequestConditionExpr (conditions g))
      = map part_text (conditions g)"
    using c sublist_bars by (auto simp: part_text_def)
  moreover have "length (conditions g) = 1 \<Longrightarrow> hd (map buildRequestConditionExpr (conditions g)) = js_join '' && '' (group_parts g)"
    by (cases "conditions g") (auto simp: group_parts_def)
  ultimately show ?thesis
    using m f unfolding buildRuleGroupFactor_def by (simp add: group_parts_def Let_def del: map_map)
qed

lemma factor_ok:
  assumes "group_ok g"
  shows "is_factor (buildRuleGroupFactor g)" "tryParseRuleGroupFactor (buildRuleGroupFactor g) = Ret (Some g)"
proof -
  note p = group_parts_ok [OF assms]
  have m: "num_end (multiplier g)" using assms numeric_num_end by (auto simp: group_ok_def)
  have j: "balanced (js_join '' && '' (group_parts g))" "js_join '' && '' (group_parts g) \<noteq> []"
    using p(1,2) balanced_join [of "group_parts g"]
    by (auto simp: is_part_def list_all_iff neq_Nil_conv js_join_Cons split: if_splits)
       (metis js_join.simps(2,3) append_is_Nil_conv list.exhaust)
  have "balanced (js_join '' && '' (group_parts g) @ '' ? '' @ multiplier g @ '' : 1'')"
    using j(1) balanced_plain [OF num_end_facts(2) [OF m]] by (simp add: balanced_def balance_append)
  then show "is_factor (buildRuleGroupFactor g)"
    unfolding is_factor_def build_factor [OF assms]
    by (intro exI [of _ "js_join '' && '' (group_parts g) @ '' ? '' @ multiplier g @ '' : 1''"]) simp
  have "tryParseRequestConditions (js_join '' && '' (group_parts g)) = Ret (Some (conditions g))"
    using p and_parts [OF p(1,2)] assms by (simp add: tryParseRequestConditions_def group_ok_def)
  then show "tryParseRuleGroupFactor (buildRuleGroupFactor g) = Ret (Some g)"
    using assms unfolding tryParseRuleGroupFactor_def build_factor [OF assms] match_factor_built [OF m j(2)]
    by (simp add: group_ok_def)
qed

lemma groups_ok:
  assumes "list_all group_ok gs"
  shows "list_all is_factor (map buildRuleGroupFactor gs)" "parse_groups (map buildRuleGroupFactor gs) = Ret (Some gs)"
    "buildRequestRuleExpr gs = js_join '' * '' (map buildRuleGroupFactor gs)"
proof -
  show f: "list_all is_factor (map buildRuleGroupFactor gs)" using assms factor_ok(1) by (auto simp: list_all_iff)
  show "parse_groups (map buildRuleGroupFactor gs) = Ret (Some gs)"
    using assms factor_ok(2) by (induction gs) auto
  show "buildRequestRuleExpr gs = js_join '' * '' (map buildRuleGroupFactor gs)"
    using factor_truthy [OF f] by (simp add: buildRequestRuleExpr_def)
qed

lemma request_rules_back:
  assumes "list_all group_ok gs"
  shows "tryParseRequestRuleExpr (buildRequestRuleExpr gs) = Ret (Some gs)"
proof (cases "gs = []")
  case True
  then show ?thesis by (simp add: tryParseRequestRuleExpr_def buildRequestRuleExpr_def)
next
  case False
  note g = groups_ok [OF assms]
  have ne: "map buildRuleGroupFactor gs \<noteq> []" using False by simp
  have "js_join '' * '' (map buildRuleGroupFactor gs) \<noteq> []"
    using False g(1) by (cases gs; cases "tl gs") (auto simp: is_factor_def)
  then show ?thesis
    using trimmed_factors [OF ne g(1)] multiply_factors [OF ne g(1)] g(2,3)
    by (simp add: tryParseRequestRuleExpr_def)
qed

text \<open>
  C5. Rule groups survive the round trip through their text: for groups of time conditions,
  existence tests, equality tests and header substring tests whose names and literals are free of
  quotes, backslashes, parentheses and the characters of \<open>&&\<close> and \<open>||\<close>, the parser returns exactly
  the groups the text was built from.
\<close>

theorem request_rules_roundtrip:
  assumes "list_all group_ok gs"
  shows "tryParseRequestRuleExpr (buildRequestRuleExpr gs) = Ret (Some gs)"
  using assms by (rule request_rules_back)

definition sample_groups :: "rule_group list" where
  "sample_groups =
    [\<lparr>conditions = [ph Header ''x-tier'' ''contains'' ''gold'',
        TimeCondition \<lparr>timeFunc = ''hour'', timezone = ''UTC'', tc_mode = ''range'', tc_value = [],
          rangeStart = ''22'', rangeEnd = ''6''\<rparr>],
      multiplier = ''1.5'', conditionText = None, matched = None\<rparr>,
     \<lparr>conditions = [ph Param ''stream'' ''eq'' ''true''], multiplier = ''2'', conditionText = None, matched = None\<rparr>]"

lemma sample_groups_ok: "list_all group_ok sample_groups"
proof -
  have p: "arg_ok ''x-tier''" "arg_ok ''UTC''" "arg_ok ''stream''" "plain_text ''gold''" "plain_text ''true''"
    "trimmed ''gold''" "trimmed ''true''"
    by (simp_all add: arg_ok_def plain_text_def lit_char_def quote_def trimmed_visible visible_def)
  show ?thesis
    by (simp add: sample_groups_def group_ok_def ph_def p TIME_FUNCS_def)
      (simp add: numeric_literal_def is_digit_def exponent_ok_def)
qed

theorem request_rules_roundtrip_witness:
  "tryParseRequestRuleExpr (buildRequestRuleExpr sample_groups) = Ret (Some sample_groups)"
  by (rule request_rules_roundtrip [OF sample_groups_ok])

section \<open>Combining and splitting\<close>

lemma outer_inside:
  "balance k s = Some j \<Longrightarrow> r \<noteq> [] \<Longrightarrow> outer_scan (int k + 1) (s @ r) = outer_scan (int j + 1) r"
proof (induction s arbitrary: k)
  case (Cons c s)
  from Cons.prems(1) obtain k' where "balance k' s = Some j" "depth_step c (int k) = int k'" by (rule balance_step)
  then show ?case using Cons by (simp add: depth_step_shift)
qed simp

lemma unwrap_parens:
  assumes "balanced b"
  shows "unwrapOuterParens (''('' @ b @ '')'') = unwrapOuterParens b"
proof -
  have "outer_scan 0 (''('' @ b @ '')'')"
    using outer_inside [of 0 b 0 "'')''"] assms by (simp add: balanced_def depth_step_def)
  then have "hasFullOuterParens (''('' @ b @ '')'')" by (simp add: hasFullOuterParens_def)
  then have "unwrap_loop (''('' @ b @ '')'') = unwrap_loop (js_trim b)"
    by (subst unwrap_loop.simps) simp
  then show ?thesis using trim_trimmed [OF trimmed_parens, of b] by (simp add: unwrapOuterParens_def)
qed

lemma classify_factors: "list_all group_ok gs \<Longrightarrow> classify_parts (map buildRuleGroupFactor gs) = Ret (map buildRuleGroupFactor gs, [])"
proof (induction gs)
  case (Cons g gs)
  have f: "is_factor (buildRuleGroupFactor g)" "tryParseRuleGroupFactor (buildRuleGroupFactor g) = Ret (Some g)"
    using factor_ok Cons.prems by simp_all
  have "tryParseRequestRuleExpr (buildRuleGroupFactor g) = Ret (Some [g])"
    using multiply_factors [of "[buildRuleGroupFactor g]"] trimmed_factors [of "[buildRuleGroupFactor g]"] f
    by (auto simp: tryParseRequestRuleExpr_def is_factor_def)
  then show ?case using Cons by simp
qed simp

lemma split_combined_parts:
  assumes rules: "list_all group_ok gs" "gs \<noteq> []"
    and base: "balanced b" "trimmed b" "b \<noteq> []" "tryParseRequestRuleExpr (''('' @ b @ '')'') = Ret None"
  shows "splitBillingExprAndRequestRules (combineBillingExpr b (buildRequestRuleExpr gs)) =
    Ret (unwrapOuterParens b, buildRequestRuleExpr gs)"
proof -
  let ?f = "map buildRuleGroupFactor gs" and ?b = "''('' @ b @ '')''"
  note g = groups_ok [OF rules(1)]
  have ne: "?f \<noteq> []" using rules(2) by simp
  have all: "list_all is_factor (?b # ?f)" using g(1) base(1) by (auto simp: is_factor_def)
  have t: "js_trim (buildRequestRuleExpr gs) = buildRequestRuleExpr gs" "js_trim b = b"
    using trimmed_factors [OF ne g(1)] g(3) base(2) by (simp_all add: trim_trimmed)
  have r: "buildRequestRuleExpr gs \<noteq> []"
    using ne g(1) unfolding g(3) by (cases ?f; cases "tl ?f") (auto simp: is_factor_def)
  have c: "combineBillingExpr b (buildRequestRuleExpr gs) = js_join '' * '' (?b # ?f)"
    using t r base(3) by (simp add: combineBillingExpr_def js_join_Cons [OF ne] g(3) [symmetric] Let_def)
  define x where "x = js_join '' * '' (?b # ?f)"
  have x: "x \<noteq> []" "js_trim x = x" "splitTopLevelMultiply x = ?b # ?f"
    using trimmed_factors [OF _ all] multiply_factors [OF _ all] by (simp_all add: x_def js_join_Cons [OF ne])
  have "classify_parts (?b # ?f) = Ret (?f, [?b])"
    using classify_factors [OF rules(1)] base(4) by simp
  then have "splitBillingExprAndRequestRules x = Ret (unwrapOuterParens ?b, js_join '' * '' ?f)"
    using ne x unfolding splitBillingExprAndRequestRules_def by (simp add: Let_def)
  moreover have "combineBillingExpr b (buildRequestRuleExpr gs) = x" by (simp only: c x_def)
  ultimately show ?thesis using unwrap_parens [OF base(1)] by (simp only: g(3))
qed

text \<open>
  Combining a price expression with request rules and splitting the result again gives both
  back: the rules' text exactly, the price expression up to redundant outer parentheses. This holds
  for every price expression with matched parentheses that is not itself a request rule.
\<close>

theorem split_combined:
  assumes rules: "list_all group_ok gs" "gs \<noteq> []"
    and base: "balanced b" "trimmed b" "b \<noteq> []" "tryParseRequestRuleExpr (''('' @ b @ '')'') = Ret None"
  shows "splitBillingExprAndRequestRules (combineBillingExpr b (buildRequestRuleExpr gs)) =
    Ret (unwrapOuterParens b, buildRequestRuleExpr gs)"
  using assms by (rule split_combined_parts)

lemma sample_base: "balanced ''p * 2 + c * 3''" "trimmed ''p * 2 + c * 3''"
  "tryParseRequestRuleExpr (''('' @ ''p * 2 + c * 3'' @ '')'') = Ret None"
proof -
  show b: "balanced ''p * 2 + c * 3''" by (simp add: balanced_def)
  show "trimmed ''p * 2 + c * 3''" by (rule trimmed_visible_ends) (simp add: visible_def)
  have "is_factor (''('' @ ''p * 2 + c * 3'' @ '')'')"
    unfolding is_factor_def by (intro exI [of _ "''p * 2 + c * 3''"] conjI b refl)
  then have f: "list_all is_factor [''('' @ ''p * 2 + c * 3'' @ '')'']" by (simp only: list.pred_inject simp_thms)
  have "match_factor (''('' @ ''p * 2 + c * 3'' @ '')'') = None" by (simp add: match_factor_def suffix_def)
  then show "tryParseRequestRuleExpr (''('' @ ''p * 2 + c * 3'' @ '')'') = Ret None"
    using multiply_factors [OF _ f] trimmed_factors [OF _ f]
    by (simp add: tryParseRequestRuleExpr_def tryParseRuleGroupFactor_def)
qed

theorem split_combined_witness:
  "splitBillingExprAndRequestRules (combineBillingExpr ''p * 2 + c * 3'' (buildRequestRuleExpr sample_groups)) =
   Ret (unwrapOuterParens ''p * 2 + c * 3'', buildRequestRuleExpr sample_groups)"
  by (rule split_combined [OF sample_groups_ok _ sample_base(1,2) _ sample_base(3)]) (simp_all add: sample_groups_def)

section \<open>Comparisons on request parameters\<close>

definition param_group :: "string \<Rightarrow> string \<Rightarrow> string \<Rightarrow> string \<Rightarrow> rule_group" where
  "param_group path mode v m =
     \<lparr>conditions = [ph Param path mode v], multiplier = m, conditionText = None, matched = None\<rparr>"

lemma build_param_cmp:
  assumes "arg_ok path" "mode \<in> {''gt'', ''gte'', ''lt'', ''lte''}" "numeric_literal v"
  shows "buildRequestConditionExpr (ph Param path mode v) =
    js_join '' && '' [call_text ''param'' path @ '' != nil'', call_text ''param'' path @ '' '' @ cmp_op mode @ '' '' @ v]"
proof -
  have q: "''param'' @ ''('' @ json_quote path @ '')'' = call_text ''param'' path"
    using assms(1) by (intro quoted_call) (simp add: arg_ok_def)
  have n: "normalize_ph \<lparr>ph_src = Param, ph_path = path, ph_mode = mode, ph_value = v\<rparr> =
      \<lparr>ph_src = Param, ph_path = path, ph_mode = mode, ph_value = v\<rparr>"
    using assms(2) by (auto simp: normalize_ph_def getRequestRuleMatchOptions_def)
  have "js_trim path = path" "path \<noteq> []" using assms(1) by (auto simp: arg_ok_def trim_trimmed)
  then show ?thesis
    using assms(2,3) numeric_trim [OF assms(3)] unfolding ph_def buildRequestConditionExpr.simps n
    by (auto simp: q [simplified] Let_def)
qed

text \<open>
  C31. A rule that compares a request parameter with a number never survives the round trip: the
  text the editor builds for it joins a presence test and the comparison by \<open>&&\<close>, the parser
  splits it there, and the comparison alone is not a condition. The parser rejects every rule
  built from such a group.
\<close>

theorem param_comparison_lost:
  assumes "arg_ok path" "mode \<in> {''gt'', ''gte'', ''lt'', ''lte''}" "numeric_literal v" "numeric_literal m"
  shows "tryParseRequestRuleExpr (buildRequestRuleExpr [param_group path mode v m]) = Ret None"
proof -
  let ?s = "call_text ''param'' path"
  let ?parts = "[?s @ '' != nil'', ?s @ '' '' @ cmp_op mode @ '' '' @ v]"
  let ?e = "js_join '' && '' ?parts"
  have s: "frag ?s" using assms(1) by (intro frag_call) (simp_all add: arg_ok_def)
  have num: "frag v" "v \<noteq> []" "visible (last v)" "num_end m" "plain_text m"
    using numeric_num_end [OF assms(3)] numeric_num_end [OF assms(4)] num_end_last num_end_facts(2) frag_plain by blast+
  have op: "frag ('' '' @ cmp_op mode @ '' '')" "cmp_op mode \<in> {''>'', ''>='', ''<'', ''<=''}"
    using assms(2) by (auto simp: cmp_op_def frag_free)
  have p2: "frag (?s @ '' '' @ cmp_op mode @ '' '' @ v)" "trimmed (?s @ '' '' @ cmp_op mode @ '' '' @ v)"
    using frag_append [OF s frag_append [OF op(1) num(1)]] trimmed_call [of "''param''" "'' '' @ cmp_op mode @ '' '' @ v" path] num(2,3)
    by (simp_all add: visible_def)
  have p1: "frag (?s @ '' != nil'')" "trimmed (?s @ '' != nil'')"
    using frag_append [OF s frag_free] trimmed_call [of "''param''" "'' != nil''" path] by (simp_all add: visible_def)
  have parts: "list_all is_part ?parts" using p1 p2 by (simp add: is_part_def frag_def)
  have "tryParseRequestCondition (?s @ '' '' @ cmp_op mode @ '' '' @ v) = Ret None"
    using param_parse(3-6) [OF assms(1)] op(2) by auto
  then have none: "parse_conditions ?parts = Ret None"
    using param_parse(1) [OF assms(1)] p1(2) p2(2) by (simp add: trim_trimmed)
  have ne: "?e \<noteq> []" by simp
  have build: "buildRuleGroupFactor (param_group path mode v m) = ''('' @ ?e @ '' ? '' @ m @ '' : 1)''"
    using build_param_cmp [OF assms(1-3)] numeric_trim [OF assms(4)] assms(4) ne
    by (simp add: buildRuleGroupFactor_def param_group_def Let_def)
  have "balanced (?e @ '' ? '' @ m @ '' : 1'')"
  proof -
    have "balanced ?e" by (rule balanced_join) (use parts in \<open>simp add: is_part_def\<close>)
    then show ?thesis by (intro balanced_append balanced_plain [OF num(5)]) (simp_all add: balanced_def)
  qed
  then have f: "list_all is_factor [buildRuleGroupFactor (param_group path mode v m)]"
    unfolding build is_factor_def list.pred_inject
    by (intro conjI exI [of _ "?e @ '' ? '' @ m @ '' : 1''"]) simp_all
  have "tryParseRequestConditions ?e = Ret None"
    using and_parts [OF _ parts] none by (simp add: tryParseRequestConditions_def)
  then have "tryParseRuleGroupFactor (buildRuleGroupFactor (param_group path mode v m)) = Ret None"
    unfolding tryParseRuleGroupFactor_def build match_factor_built [OF num(4) ne] by simp
  then show ?thesis
    using multiply_factors [OF _ f] trimmed_factors [OF _ f] f
    by (auto simp: tryParseRequestRuleExpr_def buildRequestRuleExpr_def is_factor_def)
qed

theorem param_comparison_lost_witness:
  "tryParseRequestRuleExpr (buildRequestRuleExpr [param_group ''max_tokens'' ''gt'' ''4000'' ''2'']) = Ret None"
proof (rule param_comparison_lost)
  show "arg_ok ''max_tokens''" by (simp add: arg_ok_def plain_text_def lit_char_def quote_def trimmed_visible visible_def)
  show "numeric_literal ''4000''" "numeric_literal ''2''" by (simp_all add: numeric_literal_def is_digit_def exponent_ok_def)
qed simp

end
