(* ===== verification/Playground.thy ===== *)
theory Playground
  imports Json
begin

text \<open>
  The messages of the playground: \<open>web/src/features/playground/types.ts\<close> and the pure functions of
  \<open>web/src/features/playground/lib/message\<close> and \<open>lib/streaming\<close>. A message carries its text, the
  reasoning of the model, a status and timing. Optional properties are \<open>option\<close> fields; times are
  integral milliseconds. \<open>Date.now()\<close> and \<open>nanoid()\<close> are arguments, \<open>t\<close> (the translation of a key) too.

  Values that arrive from the network are JSON values; the fields the wire types declare as strings
  are read with \<open>str_prop\<close>, a value of another type counting as absent.
\<close>

section \<open>types.ts\<close>

datatype message_role = Role_User | Role_Assistant | Role_System

datatype message_status = St_Loading | St_Streaming | St_Complete | St_Error

record message_version =
  ver_id :: string
  ver_content :: string

record reasoning_info =
  rs_content :: string
  rs_duration :: int
  rs_startedAt :: "int option"
  rs_completedAt :: "int option"
  rs_durationMs :: "int option"

record message =
  msg_key :: string
  msg_from :: message_role
  versions :: "message_version list"
  createdAt :: "int option"
  startedAt :: "int option"
  completedAt :: "int option"
  durationMs :: "int option"
  msg_sources :: "(string \<times> string) list option"
  reasoning :: "reasoning_info option"
  isReasoningStreaming :: "bool option"
  isReasoningComplete :: "bool option"
  isContentComplete :: "bool option"
  msg_status :: "message_status option"
  errorCode :: "string option option"

record content_part =
  part_type :: string
  part_text :: "string option"
  part_image_url :: "string option"

datatype message_content = Text_Content string | Parts_Content "content_part list"

record chat_message =
  role :: message_role
  chat_content :: message_content

record playground_config =
  cf_model :: string
  cf_group :: string
  cf_temperature :: dec
  cf_top_p :: dec
  cf_max_tokens :: dec
  cf_frequency_penalty :: dec
  cf_presence_penalty :: dec
  cf_seed :: "dec option"
  cf_stream :: bool

record parameter_enabled =
  en_temperature :: bool
  en_top_p :: bool
  en_max_tokens :: bool
  en_frequency_penalty :: bool
  en_presence_penalty :: bool
  en_seed :: bool

record chat_request =
  rq_model :: string
  rq_group :: "string option"
  rq_messages :: "chat_message list"
  rq_stream :: bool
  rq_temperature :: "dec option"
  rq_top_p :: "dec option"
  rq_max_tokens :: "dec option"
  rq_frequency_penalty :: "dec option"
  rq_presence_penalty :: "dec option"
  rq_seed :: "dec option"

text \<open>\<open>choices[0]\<close> of a response: its \<open>message\<close>, absent in a malformed one.\<close>

record response_choice =
  ch_content :: "string option"
  ch_reasoning :: "string option"

section \<open>constants.ts\<close>

definition API_REQUEST_ERROR :: string where
  "API_REQUEST_ERROR = ''Request error occurred''"

definition NETWORK_ERROR :: string where
  "NETWORK_ERROR = ''Network connection failed or server not responding''"

definition PARSE_ERROR :: string where
  "PARSE_ERROR = ''Error parsing response data''"

definition STREAM_START_ERROR :: string where
  "STREAM_START_ERROR = ''Error establishing connection''"

definition CONNECTION_CLOSED :: string where
  "CONNECTION_CLOSED = ''Connection closed''"

definition INTERRUPTED :: string where
  "INTERRUPTED = ''Generation was interrupted''"

definition ERROR_MESSAGES :: "string list" where
  "ERROR_MESSAGES = [API_REQUEST_ERROR, NETWORK_ERROR, PARSE_ERROR, STREAM_START_ERROR, CONNECTION_CLOSED, INTERRUPTED]"

section \<open>message-utils.ts\<close>

definition createMessageVersion :: "string \<Rightarrow> string \<Rightarrow> message_version" where
  "createMessageVersion nanoid content = \<lparr>ver_id = nanoid, ver_content = content\<rparr>"

definition getCurrentVersion :: "message \<Rightarrow> message_version" where
  "getCurrentVersion message =
     (case versions message of v # vs \<Rightarrow> v | [] \<Rightarrow> \<lparr>ver_id = ''default'', ver_content = ''''\<rparr>)"

definition getMessageContent :: "message \<Rightarrow> string" where
  "getMessageContent message = ver_content (getCurrentVersion message)"

definition hasMessageContent :: "message \<Rightarrow> bool" where
  "hasMessageContent message \<longleftrightarrow> js_trim (getMessageContent message) \<noteq> []"

definition updateCurrentVersionContent :: "message \<Rightarrow> string \<Rightarrow> message" where
  "updateCurrentVersionContent message content =
     message\<lparr>versions := [(getCurrentVersion message)\<lparr>ver_content := content\<rparr>]\<rparr>"

definition createUserMessage :: "string \<Rightarrow> string \<Rightarrow> string \<Rightarrow> int \<Rightarrow> message" where
  "createUserMessage key version content created =
     \<lparr>msg_key = key, msg_from = Role_User, versions = [createMessageVersion version content],
      createdAt = Some created, startedAt = None, completedAt = None, durationMs = None, msg_sources = None,
      reasoning = None, isReasoningStreaming = None, isReasoningComplete = None, isContentComplete = None,
      msg_status = None, errorCode = None\<rparr>"

definition createLoadingAssistantMessage :: "string \<Rightarrow> string \<Rightarrow> int \<Rightarrow> message" where
  "createLoadingAssistantMessage key version started =
     \<lparr>msg_key = key, msg_from = Role_Assistant, versions = [createMessageVersion version ''''],
      createdAt = Some started, startedAt = Some started, completedAt = None, durationMs = None, msg_sources = None,
      reasoning = None, isReasoningStreaming = Some False, isReasoningComplete = Some False,
      isContentComplete = Some False, msg_status = Some St_Loading, errorCode = None\<rparr>"

definition buildMessageContent :: "string \<Rightarrow> string list \<Rightarrow> message_content" where
  "buildMessageContent text imageUrls =
     (let validImages = filter (\<lambda>url. js_trim url \<noteq> []) imageUrls
      in if validImages = [] then Text_Content text
         else Parts_Content (\<lparr>part_type = ''text'', part_text = Some text, part_image_url = None\<rparr>
           # map (\<lambda>url. \<lparr>part_type = ''image_url'', part_text = None, part_image_url = Some (js_trim url)\<rparr>) validImages))"

fun getTextContent :: "message_content \<Rightarrow> string" where
  "getTextContent (Text_Content s) = s"
| "getTextContent (Parts_Content ps) =
     (case find (\<lambda>p. part_type p = ''text'') ps of None \<Rightarrow> '''' | Some p \<Rightarrow> opt_str (part_text p))"

definition formatMessageForAPI :: "message \<Rightarrow> chat_message" where
  "formatMessageForAPI message =
     \<lparr>role = msg_from message, chat_content = Text_Content (ver_content (getCurrentVersion message))\<rparr>"

definition isValidMessage :: "message \<Rightarrow> bool" where
  "isValidMessage message \<longleftrightarrow>
     versions message \<noteq> [] \<and> \<not> (msg_from message = Role_Assistant \<and> \<not> hasMessageContent message)"

section \<open>message-reasoning-utils.ts\<close>

text \<open>
  The first occurrence of a tag: the text before and after it (\<open>indexOf\<close> with the two slices).
\<close>

fun cut :: "string \<Rightarrow> string \<Rightarrow> (string \<times> string) option" where
  "cut p [] = (if p = [] then Some ([], []) else None)"
| "cut p (c # s) =
     (if prefix p (c # s) then Some ([], drop (length p) (c # s))
      else map_option (\<lambda>(a, b). (c # a, b)) (cut p s))"

definition open_tag :: string where
  "open_tag = ''<think>''"

definition close_tag :: string where
  "close_tag = ''</think>''"

lemma cut_Some: "cut p s = Some (a, b) \<Longrightarrow> s = a @ p @ b"
  by (induction s arbitrary: a b) (auto simp: prefix_def split: if_splits)

lemma tag_not_Nil [simp]: "open_tag \<noteq> []" "close_tag \<noteq> []"
  by (simp_all add: open_tag_def close_tag_def)

text \<open>The loop: visible parts, reasoning parts, and whether the last tag is open.\<close>

function think_loop :: "string \<Rightarrow> string list \<times> string list \<times> bool" where
  "think_loop s =
     (case cut open_tag s of
        None \<Rightarrow> (if s \<noteq> [] then [s] else [], [], False)
      | Some (a, r) \<Rightarrow>
          (let visible = (if a \<noteq> [] then [a] else [])
           in case cut close_tag r of
                None \<Rightarrow> (visible, [r], True)
              | Some (b, rest) \<Rightarrow>
                  (let (vs, rs, unclosed) = think_loop rest in (visible @ vs, b # rs, unclosed))))"
  by pat_completeness auto
termination
  by (relation "measure length") (auto dest!: cut_Some simp: open_tag_def)

declare think_loop.simps [simp del]

record parsed_think =
  visibleContent :: string
  pt_reasoning :: string
  hasUnclosedTag :: bool

definition parseThinkTags :: "string \<Rightarrow> parsed_think" where
  "parseThinkTags content =
     (if \<not> sublist open_tag content
      then \<lparr>visibleContent = content, pt_reasoning = '''', hasUnclosedTag = False\<rparr>
      else (let (visibleParts, reasoningParts, unclosed) = think_loop content
        in \<lparr>visibleContent = js_trim (concat visibleParts),
            pt_reasoning = js_trim (js_join [CHR 0x0A, CHR 0x0A] reasoningParts), hasUnclosedTag = unclosed\<rparr>))"

section \<open>message-timing-utils.ts\<close>

text \<open>\<open>a ?? b\<close> on optional values.\<close>

definition opt_or :: "'a option \<Rightarrow> 'a \<Rightarrow> 'a" where
  "opt_or a b = (case a of Some x \<Rightarrow> x | None \<Rightarrow> b)"

definition completeAssistantTiming :: "message \<Rightarrow> int \<Rightarrow> message" where
  "completeAssistantTiming message completed =
     (if msg_from message \<noteq> Role_Assistant then message
      else (let started = opt_or (startedAt message) (opt_or (createdAt message) completed)
        in message\<lparr>startedAt := Some started, completedAt := Some completed,
             durationMs := Some (max 0 (completed - started))\<rparr>))"

definition startReasoningTiming :: "message \<Rightarrow> int \<Rightarrow> reasoning_info" where
  "startReasoningTiming message started =
     (case reasoning message of
        None \<Rightarrow> \<lparr>rs_content = '''', rs_duration = 0, rs_startedAt = Some started, rs_completedAt = None, rs_durationMs = None\<rparr>
      | Some r \<Rightarrow> r\<lparr>rs_startedAt := Some (opt_or (rs_startedAt r) started)\<rparr>)"

text \<open>\<open>Math.ceil(ms / 1000)\<close>.\<close>

definition ceil_seconds :: "int \<Rightarrow> int" where
  "ceil_seconds ms = - ((- ms) div 1000)"

definition completeReasoningTiming :: "message \<Rightarrow> int \<Rightarrow> message" where
  "completeReasoningTiming message completed =
     (case reasoning message of
        None \<Rightarrow> message
      | Some r \<Rightarrow>
          if rs_durationMs r \<noteq> None then message
          else (let started = opt_or (rs_startedAt r) (opt_or (startedAt message) completed);
                    ms = max 0 (completed - started)
            in message\<lparr>reasoning := Some (r\<lparr>rs_startedAt := Some started, rs_completedAt := Some completed,
                 rs_durationMs := Some ms, rs_duration := ceil_seconds ms\<rparr>)\<rparr>))"

section \<open>message-streaming-utils.ts\<close>

definition processStreamingContent :: "int \<Rightarrow> message \<Rightarrow> string \<Rightarrow> message" where
  "processStreamingContent now message contentChunk =
     (let fullContent = ver_content (getCurrentVersion message) @ contentChunk
      in if reasoning message = None \<and> \<not> sublist open_tag fullContent
         then (updateCurrentVersionContent message fullContent)\<lparr>isReasoningStreaming := Some False\<rparr>
         else (let parsed = parseThinkTags fullContent
           in (updateCurrentVersionContent message fullContent)
                \<lparr>reasoning := (if pt_reasoning parsed \<noteq> []
                    then Some ((startReasoningTiming message now)\<lparr>rs_content := pt_reasoning parsed\<rparr>)
                    else reasoning message),
                 isReasoningStreaming := Some (hasUnclosedTag parsed)\<rparr>))"

datatype chunk_type = Reasoning_Chunk | Content_Chunk

definition getAppendableChunk :: "string \<Rightarrow> string \<Rightarrow> string" where
  "getAppendableChunk currentContent chunk =
     (if currentContent = [] \<or> \<not> prefix currentContent chunk then chunk
      else drop (length currentContent) chunk)"

definition applyStreamingChunk :: "int \<Rightarrow> message \<Rightarrow> chunk_type \<Rightarrow> string \<Rightarrow> message" where
  "applyStreamingChunk now message type chunk =
     (if msg_status message = Some St_Error then message
      else (case type of
          Reasoning_Chunk \<Rightarrow>
            (let r = startReasoningTiming message now
             in message\<lparr>reasoning := Some (r\<lparr>rs_content := rs_content r @ getAppendableChunk (rs_content r) chunk\<rparr>),
                  isReasoningStreaming := Some True, msg_status := Some St_Streaming\<rparr>)
        | Content_Chunk \<Rightarrow>
            (let appendable = getAppendableChunk (ver_content (getCurrentVersion message)) chunk;
                 contentMessage = processStreamingContent now message appendable
             in (if isReasoningStreaming contentMessage = Some True then contentMessage
                 else completeReasoningTiming contentMessage now)\<lparr>msg_status := Some St_Streaming\<rparr>)))"

definition finalizeMessage :: "int \<Rightarrow> message \<Rightarrow> string option \<Rightarrow> message" where
  "finalizeMessage now message apiReasoningContent =
     (let content = ver_content (getCurrentVersion message);
          parsed = (if sublist open_tag content then Some (parseThinkTags content) else None);
          visible = (case parsed of Some p \<Rightarrow> visibleContent p | None \<Rightarrow> content);
          finalReasoning = str_or (opt_str apiReasoningContent)
            (str_or (case reasoning message of Some r \<Rightarrow> rs_content r | None \<Rightarrow> '''')
              (case parsed of Some p \<Rightarrow> pt_reasoning p | None \<Rightarrow> ''''))
      in completeReasoningTiming
           ((updateCurrentVersionContent message visible)
              \<lparr>reasoning := (if finalReasoning \<noteq> []
                  then Some ((startReasoningTiming message now)\<lparr>rs_content := finalReasoning\<rparr>) else None),
               isReasoningStreaming := Some False\<rparr>) now)"

definition completeAssistantMessage :: "int \<Rightarrow> message \<Rightarrow> message" where
  "completeAssistantMessage now message =
     completeAssistantTiming ((finalizeMessage now message None)\<lparr>msg_status := Some St_Complete\<rparr>) now"

definition isAssistantMessageFinal :: "message \<Rightarrow> bool" where
  "isAssistantMessageFinal message \<longleftrightarrow> msg_status message = Some St_Complete \<or> msg_status message = Some St_Error"

definition isAssistantMessagePending :: "message \<Rightarrow> bool" where
  "isAssistantMessagePending message \<longleftrightarrow> msg_status message = Some St_Loading \<or> msg_status message = Some St_Streaming"

definition isPendingAssistantMessage :: "message option \<Rightarrow> bool" where
  "isPendingAssistantMessage message =
     (case message of Some m \<Rightarrow> msg_from m = Role_Assistant \<and> isAssistantMessagePending m | None \<Rightarrow> False)"

text \<open>A response is the list of its choices.\<close>

definition hasChatCompletionChoice :: "response_choice list \<Rightarrow> bool" where
  "hasChatCompletionChoice choices \<longleftrightarrow> choices \<noteq> []"

definition applyChatCompletionChoice :: "int \<Rightarrow> message \<Rightarrow> response_choice \<Rightarrow> message" where
  "applyChatCompletionChoice now message choice =
     completeAssistantTiming
       ((finalizeMessage now (updateCurrentVersionContent message (opt_str (ch_content choice))) (ch_reasoning choice))
          \<lparr>msg_status := Some St_Complete\<rparr>) now"

definition applyChatCompletionResponse :: "int \<Rightarrow> message \<Rightarrow> response_choice list \<Rightarrow> message option" where
  "applyChatCompletionResponse now message choices =
     (case choices of [] \<Rightarrow> None | choice # _ \<Rightarrow> Some (applyChatCompletionChoice now message choice))"

text \<open>The last pending assistant message of a loaded list is brought to a final state.\<close>

definition sanitize_message :: "(string \<Rightarrow> string) \<Rightarrow> int \<Rightarrow> message \<Rightarrow> message" where
  "sanitize_message t now message =
     (let finalized = finalizeMessage now message None;
          hasReasoning = (case reasoning finalized of Some r \<Rightarrow> js_trim (rs_content r) \<noteq> [] | None \<Rightarrow> False)
      in completeAssistantTiming
           (if hasMessageContent finalized \<or> hasReasoning
            then finalized\<lparr>msg_status := Some St_Complete, isReasoningStreaming := Some False\<rparr>
            else (updateCurrentVersionContent finalized (t API_REQUEST_ERROR @ '': '' @ t INTERRUPTED))
                   \<lparr>msg_status := Some St_Error, isReasoningStreaming := Some False\<rparr>) now)"

fun last_index :: "('a \<Rightarrow> bool) \<Rightarrow> 'a list \<Rightarrow> nat option" where
  "last_index P [] = None"
| "last_index P (x # xs) =
     (case last_index P xs of Some i \<Rightarrow> Some (Suc i) | None \<Rightarrow> if P x then Some 0 else None)"

definition sanitizeMessagesOnLoad :: "(string \<Rightarrow> string) \<Rightarrow> int \<Rightarrow> message list \<Rightarrow> message list" where
  "sanitizeMessagesOnLoad t now messages =
     (case last_index (\<lambda>m. isPendingAssistantMessage (Some m)) messages of
        None \<Rightarrow> messages
      | Some i \<Rightarrow> messages[i := sanitize_message t now (messages ! i)])"

section \<open>message-update-utils.ts\<close>

definition updateLastAssistantMessage :: "message list \<Rightarrow> (message \<Rightarrow> message) \<Rightarrow> message list" where
  "updateLastAssistantMessage messages updater =
     (if messages = [] then messages
      else if msg_from (last messages) \<noteq> Role_Assistant then messages
      else messages[length messages - 1 := updater (last messages)])"

definition error_message :: "int \<Rightarrow> string \<Rightarrow> string option \<Rightarrow> string \<Rightarrow> message \<Rightarrow> message" where
  "error_message now text code title message =
     completeAssistantTiming
       ((updateCurrentVersionContent message (title @ '': '' @ text))
          \<lparr>msg_status := Some St_Error, isReasoningStreaming := Some False,
           errorCode := Some (if opt_str code \<noteq> [] then code else None)\<rparr>) now"

definition updateAssistantMessageWithError ::
  "int \<Rightarrow> message list \<Rightarrow> string \<Rightarrow> string option \<Rightarrow> string \<Rightarrow> message list" where
  "updateAssistantMessageWithError now messages text code title =
     updateLastAssistantMessage messages (error_message now text code title)"

section \<open>conversation-message-utils.ts\<close>

definition appendUserMessagePair :: "string \<times> string \<times> string \<times> string \<Rightarrow> int \<Rightarrow> message list \<Rightarrow> string \<Rightarrow> message list" where
  "appendUserMessagePair ids submitted messages content =
     (case ids of (k1, v1, k2, v2) \<Rightarrow>
        messages @ [createUserMessage k1 v1 content submitted, createLoadingAssistantMessage k2 v2 submitted])"

fun find_index :: "('a \<Rightarrow> bool) \<Rightarrow> 'a list \<Rightarrow> nat option" where
  "find_index P [] = None"
| "find_index P (x # xs) = (if P x then Some 0 else map_option Suc (find_index P xs))"

definition createRegeneratedMessages ::
  "string \<times> string \<Rightarrow> int \<Rightarrow> message list \<Rightarrow> string \<Rightarrow> message list option" where
  "createRegeneratedMessages ids now messages messageKey =
     (case find_index (\<lambda>m. msg_key m = messageKey) messages of
        None \<Rightarrow> None
      | Some i \<Rightarrow>
          Some (take (if msg_from (messages ! i) = Role_User then i + 1 else i) messages
            @ [createLoadingAssistantMessage (fst ids) (snd ids) now]))"

definition removeMessageByKey :: "message list \<Rightarrow> string \<Rightarrow> message list" where
  "removeMessageByKey messages messageKey = filter (\<lambda>m. msg_key m \<noteq> messageKey) messages"

definition getPreviousUserMessage :: "message list \<Rightarrow> nat \<Rightarrow> message option" where
  "getPreviousUserMessage messages beforeIndex =
     find (\<lambda>m. msg_from m = Role_User) (rev (take beforeIndex messages))"

definition edit_message :: "string \<Rightarrow> string \<Rightarrow> int \<Rightarrow> bool \<Rightarrow> message \<Rightarrow> message" where
  "edit_message messageKey content submitted shouldSubmit m =
     (if msg_key m = messageKey
      then (updateCurrentVersionContent m content)
             \<lparr>createdAt := (if shouldSubmit then Some submitted else createdAt m)\<rparr>
      else m)"

text \<open>The result is \<open>null\<close>, or the messages and \<open>shouldSend\<close>.\<close>

definition applyMessageEdit ::
  "string \<times> string \<Rightarrow> int \<Rightarrow> message list \<Rightarrow> string \<Rightarrow> string \<Rightarrow> bool \<Rightarrow> (message list \<times> bool) option" where
  "applyMessageEdit ids submitted messages messageKey content shouldSubmit =
     (case find_index (\<lambda>m. msg_key m = messageKey) messages of
        None \<Rightarrow> None
      | Some i \<Rightarrow>
          (let updatedMessages = map (edit_message messageKey content submitted shouldSubmit) messages
           in if \<not> shouldSubmit \<or> msg_from (updatedMessages ! i) \<noteq> Role_User then Some (updatedMessages, False)
              else Some (take (i + 1) updatedMessages
                     @ [createLoadingAssistantMessage (fst ids) (snd ids) submitted], True)))"

definition getEditingMessageContent :: "message list \<Rightarrow> string option \<Rightarrow> string" where
  "getEditingMessageContent messages editingKey =
     (if opt_str editingKey = [] then []
      else (case find (\<lambda>m. msg_key m = opt_str editingKey) messages of
          None \<Rightarrow> [] | Some m \<Rightarrow> getMessageContent m))"

section \<open>message-content-utils.ts\<close>

record content_state =
  displayContent :: string
  hasSources :: bool
  isAssistant :: bool
  showLoader :: bool
  showMessageContent :: bool
  cs_sources :: "(string \<times> string) list"
  reasoningContent :: "string option"

definition shouldShowMessageLoader :: "message \<Rightarrow> bool \<Rightarrow> string \<Rightarrow> bool" where
  "shouldShowMessageLoader message assistant versionContent \<longleftrightarrow>
     assistant \<and> isReasoningStreaming message \<noteq> Some True
     \<and> (msg_status message = Some St_Loading \<or> (msg_status message = Some St_Streaming \<and> versionContent = []))"

definition shouldShowMessageContent :: "message \<Rightarrow> string \<Rightarrow> bool" where
  "shouldShowMessageContent message versionContent \<longleftrightarrow>
     (msg_from message = Role_User \<or> isReasoningStreaming message \<noteq> Some True) \<and> versionContent \<noteq> []"

definition getDisplayContent :: "message \<Rightarrow> string \<Rightarrow> string" where
  "getDisplayContent message versionContent =
     (if msg_from message \<noteq> Role_Assistant then versionContent
      else if \<not> sublist open_tag versionContent then versionContent
      else visibleContent (parseThinkTags versionContent))"

definition getMessageContentState :: "message \<Rightarrow> string \<Rightarrow> content_state" where
  "getMessageContentState message versionContent =
     (let assistant = (msg_from message = Role_Assistant);
          srcs = (case msg_sources message of Some l \<Rightarrow> l | None \<Rightarrow> []);
          r = (if assistant then map_option rs_content (reasoning message) else None)
      in \<lparr>displayContent = getDisplayContent message versionContent, hasSources = (srcs \<noteq> []),
          isAssistant = assistant, showLoader = shouldShowMessageLoader message assistant versionContent,
          showMessageContent = shouldShowMessageContent message versionContent, cs_sources = srcs,
          reasoningContent = (if opt_str r \<noteq> [] then r else None)\<rparr>)"

section \<open>lib/streaming\<close>

definition buildChatCompletionPayload ::
  "message list \<Rightarrow> playground_config \<Rightarrow> parameter_enabled \<Rightarrow> chat_request" where
  "buildChatCompletionPayload messages config enabled =
     \<lparr>rq_model = cf_model config, rq_group = Some (cf_group config),
      rq_messages = map formatMessageForAPI (filter isValidMessage messages), rq_stream = cf_stream config,
      rq_temperature = (if en_temperature enabled then Some (cf_temperature config) else None),
      rq_top_p = (if en_top_p enabled then Some (cf_top_p config) else None),
      rq_max_tokens = (if en_max_tokens enabled then Some (cf_max_tokens config) else None),
      rq_frequency_penalty = (if en_frequency_penalty enabled then Some (cf_frequency_penalty config) else None),
      rq_presence_penalty = (if en_presence_penalty enabled then Some (cf_presence_penalty config) else None),
      rq_seed = (if en_seed enabled then cf_seed config else None)\<rparr>"

record error_details =
  ed_code :: "string option"
  ed_message :: string

text \<open>A non-empty string property, as \<open>o.k || undefined\<close> reads it.\<close>

definition text_prop :: "json \<Rightarrow> string \<Rightarrow> string option" where
  "text_prop v k = (case str_prop v k of Some s \<Rightarrow> if s = [] then None else Some s | None \<Rightarrow> None)"

text \<open>A caught request error is the JSON image of the properties it is asked for.\<close>

definition parseRequestErrorDetails :: "json \<Rightarrow> error_details" where
  "parseRequestErrorDetails error =
     (let dat = Option.bind (jget error ''response'') (\<lambda>r. jget r ''data'')
      in \<lparr>ed_code = Option.bind (Option.bind dat (\<lambda>d. jget d ''error'')) (\<lambda>e. text_prop e ''code''),
          ed_message = str_or (opt_str (Option.bind dat (\<lambda>d. text_prop d ''message'')))
            (str_or (opt_str (text_prop error ''message'')) API_REQUEST_ERROR)\<rparr>)"

definition parseStreamErrorDetails :: "string option \<Rightarrow> error_details" where
  "parseStreamErrorDetails data =
     (let fallback = str_or (opt_str data) API_REQUEST_ERROR;
          plain = \<lparr>ed_code = None, ed_message = fallback\<rparr>
      in if opt_str data = [] then plain
         else (case json_parse (opt_str data) of
             None \<Rightarrow> plain
           | Some parsed \<Rightarrow>
               (case jget parsed ''error'' of
                  None \<Rightarrow> plain
                | Some e \<Rightarrow>
                    \<lparr>ed_code = text_prop e ''code'', ed_message = str_or (opt_str (text_prop e ''message'')) fallback\<rparr>)))"

text \<open>
  \<open>chunk.choices?.[0]?.delta\<close>. \<open>None\<close> is the exception of \<open>JSON.parse\<close> or of a property of \<open>null\<close>.
\<close>

fun first_item :: "json \<Rightarrow> json option" where
  "first_item (JArr (x # xs)) = Some x"
| "first_item (JObj fs) = map_of fs ''0''"
| "first_item _ = None"

definition parseStreamMessageUpdates :: "string \<Rightarrow> (chunk_type \<times> string) list option" where
  "parseStreamMessageUpdates data =
     (case json_parse data of
        None \<Rightarrow> None
      | Some chunk \<Rightarrow>
          if chunk = JNull then None
          else (case Option.bind (Option.bind (jget chunk ''choices'') first_item) (\<lambda>c. jget c ''delta'') of
              None \<Rightarrow> Some []
            | Some delta \<Rightarrow>
                Some ((case text_prop delta ''reasoning_content'' of Some r \<Rightarrow> [(Reasoning_Chunk, r)] | None \<Rightarrow> [])
                  @ (case text_prop delta ''content'' of Some c \<Rightarrow> [(Content_Chunk, c)] | None \<Rightarrow> []))))"

definition STREAM_DONE_MESSAGE :: string where
  "STREAM_DONE_MESSAGE = ''[DONE]''"

definition STREAM_CLOSED_READY_STATE :: int where
  "STREAM_CLOSED_READY_STATE = 2"

definition isStreamDoneMessage :: "string \<Rightarrow> bool" where
  "isStreamDoneMessage data \<longleftrightarrow> data = STREAM_DONE_MESSAGE"

definition isStreamClosedReadyState :: "int option \<Rightarrow> bool" where
  "isStreamClosedReadyState readyState \<longleftrightarrow> readyState = Some STREAM_CLOSED_READY_STATE"

definition getStreamReadyStateError :: "int option \<Rightarrow> int option \<Rightarrow> string option" where
  "getStreamReadyStateError eventReadyState status =
     (case (eventReadyState, status) of
        (Some r, Some st) \<Rightarrow>
          if r \<ge> STREAM_CLOSED_READY_STATE \<and> st \<noteq> 200
          then Some (''HTTP '' @ int_str st @ '': '' @ CONNECTION_CLOSED) else None
      | _ \<Rightarrow> None)"

end
