(* ===== verification/Playground_Chat.thy ===== *)
theory Playground_Chat
  imports Playground
begin

text \<open>
  Sending a conversation: \<open>web/src/features/playground/hooks/use-chat-handler.ts\<close> and
  \<open>web/src/features/playground/hooks/use-stream-request.ts\<close>. The two hooks share one state here.
  A stream source (\<open>sse.js\<close>) is its index in \<open>sources\<close> with the variables its listeners close over;
  a request generation identifies the abort controller of a non-streaming request.

  \<open>onMessageUpdate\<close> hands an updater function to the state of the page. The library runs queued updaters
  in order when it renders; an implementation may also run the first one at once (\<open>eager\<close>). Updaters are
  the values of \<open>message_update\<close>, so that what they close over is explicit.
\<close>

section \<open>State\<close>

datatype message_update =
    Flush_Update nat string string
  | Complete_Update nat
  | Error_Update nat string "string option" string
  | Response_Update nat "response_choice list"
  | Stop_Update nat
  | Page_Update "message list \<Rightarrow> message list"

datatype queued = Computed "message list" | Deferred message_update

record pending_chunks =
  p_generation :: nat
  p_content :: string
  p_reasoning :: string

record stream_source =
  src_generation :: nat
  src_chat :: nat
  src_payload :: chat_request
  src_completed :: bool
  src_closed :: bool

record chat_state =
  source :: "nat option"
  generation :: nat
  sources :: "stream_source list"
  header_waits :: "(nat \<times> nat \<times> chat_request) list"
  isStreaming :: bool
  requestGeneration :: nat
  pendingStreamChunks :: pending_chunks
  streamFlushTimer :: "nat option"
  isRequesting :: bool
  abortController :: "nat option"
  aborted :: "nat list"
  http_waits :: "(nat \<times> chat_request) list"
  mounted :: bool
  toasts :: "string list"
  clock :: int
  eager :: bool
  base :: "message list"
  queue :: "queued list"

definition chat_init :: "bool \<Rightarrow> message list \<Rightarrow> chat_state" where
  "chat_init e messages =
     \<lparr>source = None, generation = 0, sources = [], header_waits = [], isStreaming = False, requestGeneration = 0,
      pendingStreamChunks = \<lparr>p_generation = 0, p_content = [], p_reasoning = []\<rparr>, streamFlushTimer = None,
      isRequesting = False, abortController = None, aborted = [], http_waits = [], mounted = True, toasts = [],
      clock = 0, eager = e, base = messages, queue = []\<rparr>"

definition isGenerating :: "chat_state \<Rightarrow> bool" where
  "isGenerating s \<longleftrightarrow> isStreaming s \<or> isRequesting s"

section \<open>Updaters\<close>

definition flush_message :: "int \<Rightarrow> string \<Rightarrow> string \<Rightarrow> message \<Rightarrow> message" where
  "flush_message now r c message =
     (let m1 = (if r \<noteq> [] then applyStreamingChunk now message Reasoning_Chunk r else message)
      in if c \<noteq> [] then applyStreamingChunk now m1 Content_Chunk c else m1)"

text \<open>What an updater does when it runs, in a state whose current generation is \<open>g\<close>.\<close>

fun run_update :: "nat \<Rightarrow> int \<Rightarrow> message_update \<Rightarrow> message list \<Rightarrow> message list" where
  "run_update g now (Flush_Update gen r c) prev =
     (if gen \<noteq> g then prev else updateLastAssistantMessage prev (flush_message now r c))"
| "run_update g now (Complete_Update gen) prev =
     (if gen \<noteq> g then prev
      else updateLastAssistantMessage prev
        (\<lambda>m. if isAssistantMessageFinal m then m else completeAssistantMessage now m))"
| "run_update g now (Error_Update gen text code title) prev =
     (if gen \<noteq> g then prev else updateAssistantMessageWithError now prev text code title)"
| "run_update g now (Response_Update gen choices) prev =
     (if g \<noteq> gen then prev
      else updateLastAssistantMessage prev
        (\<lambda>m. case applyChatCompletionResponse now m choices of Some m' \<Rightarrow> m' | None \<Rightarrow> m))"
| "run_update g now (Stop_Update idle) prev =
     (if g \<noteq> idle then prev
      else updateLastAssistantMessage prev
        (\<lambda>m. if isAssistantMessagePending m then completeAssistantMessage now m else m))"
| "run_update g now (Page_Update f) prev = f prev"

definition onMessageUpdate :: "message_update \<Rightarrow> chat_state \<Rightarrow> chat_state" where
  "onMessageUpdate u s =
     (if eager s \<and> queue s = []
      then s\<lparr>queue := [Computed (run_update (requestGeneration s) (clock s) u (base s))]\<rparr>
      else s\<lparr>queue := queue s @ [Deferred u]\<rparr>)"

fun apply_queued :: "nat \<Rightarrow> int \<Rightarrow> queued \<Rightarrow> message list \<Rightarrow> message list" where
  "apply_queued g now (Computed v) prev = v"
| "apply_queued g now (Deferred u) prev = run_update g now u prev"

definition render :: "chat_state \<Rightarrow> chat_state" where
  "render s = s\<lparr>base := fold (apply_queued (requestGeneration s) (clock s)) (queue s) (base s), queue := []\<rparr>"

section \<open>use-chat-handler.ts: buffering\<close>

definition mergePendingStreamChunk :: "string \<Rightarrow> string \<Rightarrow> string" where
  "mergePendingStreamChunk currentChunk nextChunk =
     (if currentChunk = [] \<or> \<not> prefix currentChunk nextChunk then currentChunk @ nextChunk else nextChunk)"

definition discardPendingStreamUpdates :: "nat \<Rightarrow> chat_state \<Rightarrow> chat_state" where
  "discardPendingStreamUpdates gen s =
     s\<lparr>streamFlushTimer := None, pendingStreamChunks := \<lparr>p_generation = gen, p_content = [], p_reasoning = []\<rparr>\<rparr>"

definition flushStreamUpdates :: "nat \<Rightarrow> chat_state \<Rightarrow> chat_state" where
  "flushStreamUpdates gen s =
     (if gen \<noteq> requestGeneration s then s
      else (let s = s\<lparr>streamFlushTimer := None\<rparr>; pendingChunks = pendingStreamChunks s
        in if p_generation pendingChunks \<noteq> gen then s
           else if p_reasoning pendingChunks = [] \<and> p_content pendingChunks = [] then s
           else onMessageUpdate (Flush_Update gen (p_reasoning pendingChunks) (p_content pendingChunks))
                  (s\<lparr>pendingStreamChunks := \<lparr>p_generation = gen, p_content = [], p_reasoning = []\<rparr>\<rparr>)))"

definition scheduleStreamFlush :: "nat \<Rightarrow> chat_state \<Rightarrow> chat_state" where
  "scheduleStreamFlush gen s =
     (if gen \<noteq> requestGeneration s then s
      else if streamFlushTimer s \<noteq> None then s
      else s\<lparr>streamFlushTimer := Some gen\<rparr>)"

definition merge_pending :: "chunk_type \<Rightarrow> string \<Rightarrow> pending_chunks \<Rightarrow> pending_chunks" where
  "merge_pending type chunk p =
     (case type of
        Content_Chunk \<Rightarrow> p\<lparr>p_content := mergePendingStreamChunk (p_content p) chunk\<rparr>
      | Reasoning_Chunk \<Rightarrow> p\<lparr>p_reasoning := mergePendingStreamChunk (p_reasoning p) chunk\<rparr>)"

definition handleStreamUpdate :: "nat \<Rightarrow> chunk_type \<Rightarrow> string \<Rightarrow> chat_state \<Rightarrow> chat_state" where
  "handleStreamUpdate gen type chunk s =
     (if gen \<noteq> requestGeneration s then s
      else if p_generation (pendingStreamChunks s) \<noteq> gen then s
      else scheduleStreamFlush gen
             (s\<lparr>pendingStreamChunks := merge_pending type chunk (pendingStreamChunks s)\<rparr>))"

definition handleStreamComplete :: "nat \<Rightarrow> chat_state \<Rightarrow> chat_state" where
  "handleStreamComplete gen s =
     (if gen \<noteq> requestGeneration s then s
      else onMessageUpdate (Complete_Update gen) ((flushStreamUpdates gen s)\<lparr>isRequesting := False\<rparr>))"

definition getDisplayError :: "(string \<Rightarrow> string) \<Rightarrow> string \<Rightarrow> string" where
  "getDisplayError t error =
     (if error \<in> set ERROR_MESSAGES then t error
      else if suffix ('': '' @ CONNECTION_CLOSED) error
      then take (length error - length CONNECTION_CLOSED) error @ t CONNECTION_CLOSED
      else error)"

definition handleStreamError :: "(string \<Rightarrow> string) \<Rightarrow> nat \<Rightarrow> string \<Rightarrow> string option \<Rightarrow> chat_state \<Rightarrow> chat_state" where
  "handleStreamError t gen error code s =
     (if gen \<noteq> requestGeneration s then s
      else (let s = (flushStreamUpdates gen s)\<lparr>isRequesting := False\<rparr>; displayError = getDisplayError t error
        in onMessageUpdate (Error_Update gen displayError code (t API_REQUEST_ERROR))
             (s\<lparr>toasts := toasts s @ [displayError]\<rparr>)))"

section \<open>use-stream-request.ts: the stream controller\<close>

definition close_source :: "nat \<Rightarrow> chat_state \<Rightarrow> chat_state" where
  "close_source i s = s\<lparr>sources := (sources s)[i := (sources s ! i)\<lparr>src_closed := True\<rparr>]\<rparr>"

definition closeActiveSource :: "nat \<Rightarrow> chat_state \<Rightarrow> chat_state" where
  "closeActiveSource target s =
     (let s = close_source target s
      in if source s = Some target then s\<lparr>source := None, isStreaming := False\<rparr> else s)"

definition drop_source :: "chat_state \<Rightarrow> chat_state" where
  "drop_source s = (case source s of None \<Rightarrow> s | Some i \<Rightarrow> close_source i (s\<lparr>source := None\<rparr>))"

definition cancel :: "bool \<Rightarrow> chat_state \<Rightarrow> chat_state" where
  "cancel notify s =
     (let s = drop_source (s\<lparr>generation := generation s + 1\<rparr>)
      in if notify then s\<lparr>isStreaming := False\<rparr> else s)"

text \<open>\<open>send\<close> up to \<open>await runtime.getHeaders()\<close>.\<close>

definition send_request :: "chat_request \<Rightarrow> nat \<Rightarrow> chat_state \<Rightarrow> chat_state" where
  "send_request payload chat s =
     (let s = drop_source (s\<lparr>generation := generation s + 1\<rparr>)
      in s\<lparr>isStreaming := False, header_waits := header_waits s @ [(generation s, chat, payload)]\<rparr>)"

definition isCurrent :: "nat \<Rightarrow> chat_state \<Rightarrow> bool" where
  "isCurrent i s \<longleftrightarrow>
     i < length (sources s) \<and> generation s = src_generation (sources s ! i) \<and> source s = Some i"

definition listening :: "nat \<Rightarrow> chat_state \<Rightarrow> bool" where
  "listening i s \<longleftrightarrow> isCurrent i s \<and> \<not> src_completed (sources s ! i)"

definition set_completed :: "nat \<Rightarrow> chat_state \<Rightarrow> chat_state" where
  "set_completed i s = s\<lparr>sources := (sources s)[i := (sources s ! i)\<lparr>src_completed := True\<rparr>]\<rparr>"

definition handle_error :: "(string \<Rightarrow> string) \<Rightarrow> nat \<Rightarrow> string \<Rightarrow> string option \<Rightarrow> chat_state \<Rightarrow> chat_state" where
  "handle_error t i text code s =
     (if \<not> listening i s then s
      else closeActiveSource i
             (handleStreamError t (src_chat (sources s ! i)) text code (set_completed i s)))"

definition on_message :: "(string \<Rightarrow> string) \<Rightarrow> nat \<Rightarrow> string option \<Rightarrow> chat_state \<Rightarrow> chat_state" where
  "on_message t i data s =
     (if \<not> listening i s then s
      else if isStreamDoneMessage (opt_str data)
      then handleStreamComplete (src_chat (sources s ! i)) (closeActiveSource i (set_completed i s))
      else (case parseStreamMessageUpdates (opt_str data) of
          None \<Rightarrow> handle_error t i PARSE_ERROR None s
        | Some updates \<Rightarrow>
            fold (\<lambda>(type, chunk). handleStreamUpdate (src_chat (sources s ! i)) type chunk) updates s))"

definition on_error_event :: "(string \<Rightarrow> string) \<Rightarrow> nat \<Rightarrow> string option \<Rightarrow> int option \<Rightarrow> chat_state \<Rightarrow> chat_state" where
  "on_error_event t i data readyState s =
     (if \<not> listening i s then s
      else if \<not> isStreamClosedReadyState readyState
      then (let d = parseStreamErrorDetails data in handle_error t i (ed_message d) (ed_code d) s)
      else s)"

definition on_readystatechange :: "(string \<Rightarrow> string) \<Rightarrow> nat \<Rightarrow> int option \<Rightarrow> int option \<Rightarrow> chat_state \<Rightarrow> chat_state" where
  "on_readystatechange t i eventReadyState status s =
     (if \<not> listening i s then s
      else (case getStreamReadyStateError eventReadyState status of
          Some text \<Rightarrow> if text \<noteq> [] then handle_error t i text None s else s
        | None \<Rightarrow> s))"

text \<open>
  \<open>send\<close> after the headers: an exception with its message (\<open>None\<close> when it is no \<open>Error\<close>), or the headers.
  The headers only travel to the source. \<open>starts\<close>: whether \<open>nextSource.stream()\<close> returns.
\<close>

datatype header_result = Header_Exception "string option" | Headers "(string \<times> string) list"

definition on_headers ::
  "(string \<Rightarrow> string) \<Rightarrow> (nat \<times> nat \<times> chat_request) \<Rightarrow> header_result \<Rightarrow> bool \<Rightarrow> chat_state \<Rightarrow> chat_state" where
  "on_headers t w result starts s =
     (case w of (gen, chat, payload) \<Rightarrow>
        let s = s\<lparr>header_waits := remove1 w (header_waits s)\<rparr>
        in if generation s \<noteq> gen then s
           else (case result of
               Header_Exception e \<Rightarrow>
                 handleStreamError t chat (case e of Some m \<Rightarrow> m | None \<Rightarrow> STREAM_START_ERROR) None s
             | Headers headers \<Rightarrow>
                 (let i = length (sources s);
                      s = s\<lparr>sources := sources s @ [\<lparr>src_generation = gen, src_chat = chat, src_payload = payload,
                              src_completed = False, src_closed = False\<rparr>],
                            source := Some i, isStreaming := True\<rparr>
                  in if starts then s else handle_error t i STREAM_START_ERROR None s)))"

section \<open>use-chat-handler.ts: sending and stopping\<close>

definition abort_request :: "chat_state \<Rightarrow> chat_state" where
  "abort_request s =
     (case abortController s of None \<Rightarrow> s | Some g \<Rightarrow> s\<lparr>aborted := g # aborted s, abortController := None\<rparr>)"

definition sendStreamingChat :: "chat_request \<Rightarrow> chat_state \<Rightarrow> chat_state" where
  "sendStreamingChat payload s =
     (let gen = requestGeneration s + 1;
          s = discardPendingStreamUpdates gen (abort_request (s\<lparr>requestGeneration := gen\<rparr>))
      in send_request payload gen (s\<lparr>isRequesting := True\<rparr>))"

text \<open>\<open>sendNonStreamingChat\<close> up to \<open>await sendChatCompletion\<close>.\<close>

definition sendNonStreamingChat :: "chat_request \<Rightarrow> chat_state \<Rightarrow> chat_state" where
  "sendNonStreamingChat payload s =
     (let gen = requestGeneration s + 1;
          s = abort_request (discardPendingStreamUpdates gen (cancel True (s\<lparr>requestGeneration := gen\<rparr>)))
      in s\<lparr>abortController := Some gen, isRequesting := True, http_waits := http_waits s @ [(gen, payload)]\<rparr>)"

definition sendChat ::
  "playground_config \<Rightarrow> parameter_enabled \<Rightarrow> message list \<Rightarrow> chat_state \<Rightarrow> chat_state" where
  "sendChat config enabled messages s =
     (let payload = buildChatCompletionPayload messages config enabled
      in if cf_stream config then sendStreamingChat payload s else sendNonStreamingChat payload s)"

text \<open>\<open>sendNonStreamingChat\<close> after the request: an exception or the choices of the response.\<close>

definition on_http_result ::
  "(string \<Rightarrow> string) \<Rightarrow> nat \<times> chat_request \<Rightarrow> json + response_choice list \<Rightarrow> chat_state \<Rightarrow> chat_state" where
  "on_http_result t w result s =
     (let gen = fst w; s = s\<lparr>http_waits := remove1 w (http_waits s)\<rparr>;
          body = (if gen \<in> set (aborted s) \<or> requestGeneration s \<noteq> gen then s
            else (case result of
                Inl error \<Rightarrow>
                  (let d = parseRequestErrorDetails error in handleStreamError t gen (ed_message d) (ed_code d) s)
              | Inr response \<Rightarrow>
                  if \<not> hasChatCompletionChoice response then handleStreamError t gen API_REQUEST_ERROR None s
                  else onMessageUpdate (Response_Update gen response) s))
      in if requestGeneration body = gen then body\<lparr>abortController := None, isRequesting := False\<rparr> else body)"

definition stopGeneration :: "chat_state \<Rightarrow> chat_state" where
  "stopGeneration s =
     (let stopped = requestGeneration s; idle = stopped + 1;
          s = discardPendingStreamUpdates idle ((flushStreamUpdates stopped s)\<lparr>requestGeneration := idle\<rparr>);
          s = (abort_request (cancel True s))\<lparr>isRequesting := False\<rparr>
      in onMessageUpdate (Stop_Update idle) s)"

text \<open>The effect clean-ups of both hooks.\<close>

definition unmount :: "chat_state \<Rightarrow> chat_state" where
  "unmount s =
     cancel False (abort_request (s\<lparr>requestGeneration := requestGeneration s + 1, streamFlushTimer := None, mounted := False\<rparr>))"

text \<open>The timer of \<open>scheduleStreamFlush\<close> fires.\<close>

definition on_timer :: "nat \<Rightarrow> chat_state \<Rightarrow> chat_state" where
  "on_timer gen s = flushStreamUpdates gen s"

section \<open>Steps\<close>

text \<open>
  What can happen to the page: the user sends or stops, the page edits the messages, the network and
  the timer call back, the library renders, time passes. Listeners of a source may still be called
  after it was closed or the page was left.
\<close>

inductive user_step :: "chat_state \<Rightarrow> chat_state \<Rightarrow> bool" where
  send: "mounted s \<Longrightarrow> user_step s (sendChat config enabled messages s)"
| stop: "mounted s \<Longrightarrow> user_step s (stopGeneration s)"
| page: "mounted s \<Longrightarrow> user_step s (onMessageUpdate (Page_Update f) s)"
| leave: "mounted s \<Longrightarrow> user_step s (unmount s)"

inductive env_step :: "(string \<Rightarrow> string) \<Rightarrow> chat_state \<Rightarrow> chat_state \<Rightarrow> bool" for t where
  headers: "w \<in> set (header_waits s) \<Longrightarrow> env_step t s (on_headers t w result starts s)"
| message: "i < length (sources s) \<Longrightarrow> env_step t s (on_message t i data s)"
| error: "i < length (sources s) \<Longrightarrow> env_step t s (on_error_event t i data readyState s)"
| ready: "i < length (sources s) \<Longrightarrow> env_step t s (on_readystatechange t i eventReadyState status s)"
| http: "w \<in> set (http_waits s) \<Longrightarrow> env_step t s (on_http_result t w result s)"
| timer: "streamFlushTimer s = Some gen \<Longrightarrow> env_step t s (on_timer gen s)"
| render: "env_step t s (render s)"
| tick: "0 \<le> d \<Longrightarrow> env_step t s (s\<lparr>clock := clock s + d\<rparr>)"

inductive chat_reach :: "(string \<Rightarrow> string) \<Rightarrow> chat_state \<Rightarrow> bool" for t where
  init: "chat_reach t (chat_init e messages)"
| user: "chat_reach t s \<Longrightarrow> user_step s s' \<Longrightarrow> chat_reach t s'"
| env: "chat_reach t s \<Longrightarrow> env_step t s s' \<Longrightarrow> chat_reach t s'"

inductive_cases user_stepE: "user_step s s'"
inductive_cases env_stepE: "env_step t s s'"

end
