(* ===== verification/Playground_Turn.thy ===== *)
theory Playground_Turn
  imports Playground_Chat
begin

text \<open>
  What the playground relies on: at most one request is live and the page shows \<open>generating\<close> exactly
  while one is; a superseded or settled request changes nothing any more; every end of a request brings
  its message to a final state; and streaming in any schedule of flushes and renders shows the text a
  single response would have shown.
\<close>

section \<open>What the handlers leave alone\<close>

lemma onMessageUpdate_frame [simp]:
  "source (onMessageUpdate u s) = source s" "generation (onMessageUpdate u s) = generation s"
  "sources (onMessageUpdate u s) = sources s" "header_waits (onMessageUpdate u s) = header_waits s"
  "isStreaming (onMessageUpdate u s) = isStreaming s" "requestGeneration (onMessageUpdate u s) = requestGeneration s"
  "pendingStreamChunks (onMessageUpdate u s) = pendingStreamChunks s"
  "streamFlushTimer (onMessageUpdate u s) = streamFlushTimer s" "isRequesting (onMessageUpdate u s) = isRequesting s"
  "abortController (onMessageUpdate u s) = abortController s" "aborted (onMessageUpdate u s) = aborted s"
  "http_waits (onMessageUpdate u s) = http_waits s" "mounted (onMessageUpdate u s) = mounted s"
  "clock (onMessageUpdate u s) = clock s" "base (onMessageUpdate u s) = base s" "eager (onMessageUpdate u s) = eager s"
  by (simp_all add: onMessageUpdate_def)

lemma flush_frame [simp]:
  "source (flushStreamUpdates g s) = source s" "generation (flushStreamUpdates g s) = generation s"
  "sources (flushStreamUpdates g s) = sources s" "header_waits (flushStreamUpdates g s) = header_waits s"
  "isStreaming (flushStreamUpdates g s) = isStreaming s" "requestGeneration (flushStreamUpdates g s) = requestGeneration s"
  "isRequesting (flushStreamUpdates g s) = isRequesting s" "abortController (flushStreamUpdates g s) = abortController s"
  "aborted (flushStreamUpdates g s) = aborted s" "http_waits (flushStreamUpdates g s) = http_waits s"
  "mounted (flushStreamUpdates g s) = mounted s" "clock (flushStreamUpdates g s) = clock s"
  "base (flushStreamUpdates g s) = base s" "eager (flushStreamUpdates g s) = eager s"
  by (simp_all add: flushStreamUpdates_def Let_def)

lemma flush_pending:
  "pendingStreamChunks (flushStreamUpdates g s) =
     (if g = requestGeneration s \<and> p_generation (pendingStreamChunks s) = g
      then \<lparr>p_generation = g, p_content = [], p_reasoning = []\<rparr> else pendingStreamChunks s)"
  by (cases "pendingStreamChunks s") (simp add: flushStreamUpdates_def Let_def)

lemma flush_timer:
  "streamFlushTimer (flushStreamUpdates g s) = (if g = requestGeneration s then None else streamFlushTimer s)"
  by (simp add: flushStreamUpdates_def Let_def)

lemma complete_frame [simp]:
  "source (handleStreamComplete g s) = source s" "generation (handleStreamComplete g s) = generation s"
  "sources (handleStreamComplete g s) = sources s" "header_waits (handleStreamComplete g s) = header_waits s"
  "isStreaming (handleStreamComplete g s) = isStreaming s" "requestGeneration (handleStreamComplete g s) = requestGeneration s"
  "isRequesting (handleStreamComplete g s) = (isRequesting s \<and> g \<noteq> requestGeneration s)"
  "abortController (handleStreamComplete g s) = abortController s"
  "aborted (handleStreamComplete g s) = aborted s" "http_waits (handleStreamComplete g s) = http_waits s"
  "mounted (handleStreamComplete g s) = mounted s" "clock (handleStreamComplete g s) = clock s"
  "pendingStreamChunks (handleStreamComplete g s) =
     (if g = requestGeneration s \<and> p_generation (pendingStreamChunks s) = g
      then \<lparr>p_generation = g, p_content = [], p_reasoning = []\<rparr> else pendingStreamChunks s)"
  "streamFlushTimer (handleStreamComplete g s) = (if g = requestGeneration s then None else streamFlushTimer s)"
  by (simp_all add: handleStreamComplete_def flush_timer flush_pending)

lemma error_frame [simp]:
  "source (handleStreamError t g e c s) = source s" "generation (handleStreamError t g e c s) = generation s"
  "sources (handleStreamError t g e c s) = sources s" "header_waits (handleStreamError t g e c s) = header_waits s"
  "isStreaming (handleStreamError t g e c s) = isStreaming s"
  "requestGeneration (handleStreamError t g e c s) = requestGeneration s"
  "isRequesting (handleStreamError t g e c s) = (isRequesting s \<and> g \<noteq> requestGeneration s)"
  "abortController (handleStreamError t g e c s) = abortController s"
  "aborted (handleStreamError t g e c s) = aborted s" "http_waits (handleStreamError t g e c s) = http_waits s"
  "mounted (handleStreamError t g e c s) = mounted s" "clock (handleStreamError t g e c s) = clock s"
  "pendingStreamChunks (handleStreamError t g e c s) =
     (if g = requestGeneration s \<and> p_generation (pendingStreamChunks s) = g
      then \<lparr>p_generation = g, p_content = [], p_reasoning = []\<rparr> else pendingStreamChunks s)"
  "streamFlushTimer (handleStreamError t g e c s) = (if g = requestGeneration s then None else streamFlushTimer s)"
  by (simp_all add: handleStreamError_def Let_def flush_timer flush_pending)

lemma update_frame [simp]:
  "source (handleStreamUpdate g ty c s) = source s" "generation (handleStreamUpdate g ty c s) = generation s"
  "sources (handleStreamUpdate g ty c s) = sources s" "header_waits (handleStreamUpdate g ty c s) = header_waits s"
  "isStreaming (handleStreamUpdate g ty c s) = isStreaming s"
  "requestGeneration (handleStreamUpdate g ty c s) = requestGeneration s"
  "isRequesting (handleStreamUpdate g ty c s) = isRequesting s"
  "abortController (handleStreamUpdate g ty c s) = abortController s"
  "aborted (handleStreamUpdate g ty c s) = aborted s" "http_waits (handleStreamUpdate g ty c s) = http_waits s"
  "mounted (handleStreamUpdate g ty c s) = mounted s" "clock (handleStreamUpdate g ty c s) = clock s"
  "p_generation (pendingStreamChunks (handleStreamUpdate g ty c s)) = p_generation (pendingStreamChunks s)"
  "base (handleStreamUpdate g ty c s) = base s" "queue (handleStreamUpdate g ty c s) = queue s"
  by (simp_all add: handleStreamUpdate_def scheduleStreamFlush_def merge_pending_def split: chunk_type.splits)

lemma update_timer:
  "streamFlushTimer (handleStreamUpdate g ty c s) = Some g' \<Longrightarrow> streamFlushTimer s = Some g' \<or> g' = requestGeneration s"
  by (auto simp: handleStreamUpdate_def scheduleStreamFlush_def split: if_splits)

lemma render_frame [simp]:
  "source (render s) = source s" "generation (render s) = generation s"
  "sources (render s) = sources s" "header_waits (render s) = header_waits s"
  "isStreaming (render s) = isStreaming s" "requestGeneration (render s) = requestGeneration s"
  "pendingStreamChunks (render s) = pendingStreamChunks s"
  "streamFlushTimer (render s) = streamFlushTimer s" "isRequesting (render s) = isRequesting s"
  "abortController (render s) = abortController s" "aborted (render s) = aborted s"
  "http_waits (render s) = http_waits s" "mounted (render s) = mounted s" "clock (render s) = clock s"
  "queue (render s) = []"
  by (simp_all add: render_def)

section \<open>The invariant\<close>

definition current_waits :: "chat_state \<Rightarrow> (nat \<times> nat \<times> chat_request) list" where
  "current_waits s = filter (\<lambda>w. fst w = generation s) (header_waits s)"

definition current_http :: "chat_state \<Rightarrow> (nat \<times> chat_request) list" where
  "current_http s = filter (\<lambda>w. fst w = requestGeneration s) (http_waits s)"

text \<open>The requests that can still change the page: waiting for headers, streaming, or awaiting a response.\<close>

definition live_count :: "chat_state \<Rightarrow> nat" where
  "live_count s =
     length (current_waits s) + (if source s = None then 0 else 1) + length (current_http s)"

definition sources_ok :: "chat_state \<Rightarrow> bool" where
  "sources_ok s \<longleftrightarrow>
     (\<forall>i < length (sources s). src_closed (sources s ! i) \<longleftrightarrow> source s \<noteq> Some i)
     \<and> (\<forall>i \<in> set_option (source s). i < length (sources s) \<and> src_generation (sources s ! i) = generation s
            \<and> src_chat (sources s ! i) = requestGeneration s \<and> \<not> src_completed (sources s ! i))"

definition waits_ok :: "chat_state \<Rightarrow> bool" where
  "waits_ok s \<longleftrightarrow>
     (\<forall>(g, c, p) \<in> set (header_waits s). g \<le> generation s \<and> (g = generation s \<longrightarrow> c = requestGeneration s))
     \<and> (\<forall>(g, p) \<in> set (http_waits s). g \<le> requestGeneration s)
     \<and> (\<forall>g \<in> set (aborted s). g < requestGeneration s)
     \<and> (\<forall>g \<in> set_option (abortController s). g \<le> requestGeneration s)"

definition buffer_ok :: "chat_state \<Rightarrow> bool" where
  "buffer_ok s \<longleftrightarrow>
     (mounted s \<longrightarrow> p_generation (pendingStreamChunks s) = requestGeneration s)
     \<and> (\<forall>g \<in> set_option (streamFlushTimer s). g = requestGeneration s)
     \<and> (source s = None \<longrightarrow> streamFlushTimer s = None
          \<and> (mounted s \<longrightarrow> p_content (pendingStreamChunks s) = [] \<and> p_reasoning (pendingStreamChunks s) = []))"

definition flags_ok :: "chat_state \<Rightarrow> bool" where
  "flags_ok s \<longleftrightarrow>
     live_count s = (if mounted s \<and> isRequesting s then 1 else 0)
     \<and> (mounted s \<longrightarrow> isStreaming s = (source s \<noteq> None))"

definition chat_inv :: "chat_state \<Rightarrow> bool" where
  "chat_inv s \<longleftrightarrow> sources_ok s \<and> waits_ok s \<and> buffer_ok s \<and> flags_ok s"

lemmas chat_inv_defs = chat_inv_def sources_ok_def waits_ok_def buffer_ok_def flags_ok_def live_count_def
  current_waits_def current_http_def

lemma inv_init: "chat_inv (chat_init e messages)"
  by (simp add: chat_inv_defs chat_init_def)

lemma inv_update [simp]: "chat_inv (onMessageUpdate u s) = chat_inv s"
  by (simp add: chat_inv_defs)

lemma inv_render [simp]: "chat_inv (render s) = chat_inv s"
  by (simp add: chat_inv_defs)

lemma buffer_flush: "buffer_ok s \<Longrightarrow> buffer_ok (flushStreamUpdates g s)"
  by (cases "g = requestGeneration s") (simp_all add: buffer_ok_def flush_timer flush_pending)

lemma inv_flush: "chat_inv s \<Longrightarrow> chat_inv (flushStreamUpdates g s)"
  using buffer_flush [of s g]
  by (simp add: chat_inv_def sources_ok_def waits_ok_def flags_ok_def live_count_def current_waits_def current_http_def)

lemma inv_tick [simp]: "chat_inv (s\<lparr>clock := c\<rparr>) = chat_inv s"
  by (simp add: chat_inv_defs)

lemma inv_stream_update: "chat_inv s \<Longrightarrow> source s \<noteq> None \<Longrightarrow> chat_inv (handleStreamUpdate g ty c s)"
  by (auto simp: chat_inv_defs dest: update_timer split: option.splits)

lemma inv_stream_updates: "chat_inv s \<Longrightarrow> source s \<noteq> None \<Longrightarrow> chat_inv (fold (\<lambda>(ty, c). handleStreamUpdate g ty c) us s)"
  by (induction us arbitrary: s) (auto simp: inv_stream_update)

lemma inv_listening: "chat_inv s \<Longrightarrow> listening i s \<longleftrightarrow> source s = Some i"
  by (auto simp: listening_def isCurrent_def chat_inv_def sources_ok_def)

lemma inv_source:
  "chat_inv s \<Longrightarrow> source s = Some i \<Longrightarrow>
     i < length (sources s) \<and> src_chat (sources s ! i) = requestGeneration s \<and> mounted s \<and> isRequesting s
     \<and> current_waits s = [] \<and> current_http s = []"
  by (auto simp: chat_inv_def sources_ok_def flags_ok_def live_count_def split: if_splits)

lemma inv_end_source:
  assumes "chat_inv s" "source s = Some i" 
  shows "chat_inv (handleStreamComplete (src_chat (sources s ! i)) (closeActiveSource i (set_completed i s)))"
    and "chat_inv (closeActiveSource i (handleStreamError t (src_chat (sources s ! i)) text code (set_completed i s)))"
  using assms inv_source [OF assms]
  by (auto simp: chat_inv_defs closeActiveSource_def close_source_def set_completed_def Let_def nth_list_update split: if_splits)

lemma inv_handle_error: "chat_inv s \<Longrightarrow> chat_inv (handle_error t i text code s)"
  by (auto simp: handle_error_def inv_listening inv_end_source)

lemma inv_message: "chat_inv s \<Longrightarrow> chat_inv (on_message t i data s)"
  by (auto simp: on_message_def inv_listening inv_end_source inv_handle_error inv_stream_updates split: option.splits)

lemma inv_error_event: "chat_inv s \<Longrightarrow> chat_inv (on_error_event t i data rs s)"
  by (auto simp: on_error_event_def Let_def inv_handle_error)

lemma inv_ready: "chat_inv s \<Longrightarrow> chat_inv (on_readystatechange t i rs st s)"
  by (auto simp: on_readystatechange_def inv_handle_error split: option.splits)

lemma drop_source_simps [simp]:
  "source (drop_source s) = None" "generation (drop_source s) = generation s"
  "header_waits (drop_source s) = header_waits s"
  "isStreaming (drop_source s) = isStreaming s" "requestGeneration (drop_source s) = requestGeneration s"
  "pendingStreamChunks (drop_source s) = pendingStreamChunks s"
  "streamFlushTimer (drop_source s) = streamFlushTimer s" "isRequesting (drop_source s) = isRequesting s"
  "abortController (drop_source s) = abortController s" "aborted (drop_source s) = aborted s"
  "http_waits (drop_source s) = http_waits s" "mounted (drop_source s) = mounted s" "clock (drop_source s) = clock s"
  "base (drop_source s) = base s" "queue (drop_source s) = queue s" "eager (drop_source s) = eager s"
  "length (sources (drop_source s)) = length (sources s)"
  by (simp_all add: drop_source_def close_source_def split: option.splits)

lemma abort_frame [simp]:
  "source (abort_request s) = source s" "generation (abort_request s) = generation s"
  "sources (abort_request s) = sources s" "header_waits (abort_request s) = header_waits s"
  "isStreaming (abort_request s) = isStreaming s" "requestGeneration (abort_request s) = requestGeneration s"
  "pendingStreamChunks (abort_request s) = pendingStreamChunks s"
  "streamFlushTimer (abort_request s) = streamFlushTimer s" "isRequesting (abort_request s) = isRequesting s"
  "http_waits (abort_request s) = http_waits s" "mounted (abort_request s) = mounted s" "clock (abort_request s) = clock s"
  "base (abort_request s) = base s" "queue (abort_request s) = queue s" "eager (abort_request s) = eager s"
  "abortController (abort_request s) = None"
  "set (aborted (abort_request s)) = set (aborted s) \<union> set_option (abortController s)"
  by (auto simp: abort_request_def split: option.splits)


lemma drop_source_sources: "sources (drop_source s) = (case source s of None \<Rightarrow> sources s | Some i \<Rightarrow> (sources s)[i := (sources s ! i)\<lparr>src_closed := True\<rparr>])"
  by (simp add: drop_source_def close_source_def split: option.splits)

lemma inv_waits_old:
  assumes "chat_inv s"
  shows "filter (\<lambda>w. fst w = Suc (generation s)) (header_waits s) = []"
    and "filter (\<lambda>w. fst w = Suc (requestGeneration s)) (http_waits s) = []"
  using assms by (auto simp: chat_inv_def waits_ok_def filter_empty_conv)

lemma inv_stream: "chat_inv s \<Longrightarrow> mounted s \<Longrightarrow> chat_inv (sendStreamingChat payload s)"
  using inv_waits_old [of s]
  by (auto simp: chat_inv_defs sendStreamingChat_def send_request_def discardPendingStreamUpdates_def Let_def
      drop_source_sources nth_list_update split: option.splits)

lemma inv_nonstream: "chat_inv s \<Longrightarrow> mounted s \<Longrightarrow> chat_inv (sendNonStreamingChat payload s)"
  using inv_waits_old [of s]
  by (auto simp: chat_inv_defs sendNonStreamingChat_def cancel_def discardPendingStreamUpdates_def Let_def
      drop_source_sources nth_list_update split: option.splits)

lemma inv_stop: "chat_inv s \<Longrightarrow> mounted s \<Longrightarrow> chat_inv (stopGeneration s)"
  using inv_waits_old [of s]
  by (auto simp: chat_inv_defs flush_timer flush_pending stopGeneration_def cancel_def discardPendingStreamUpdates_def Let_def
      drop_source_sources nth_list_update split: option.splits)

lemma inv_unmount: "chat_inv s \<Longrightarrow> mounted s \<Longrightarrow> chat_inv (unmount s)"
  using inv_waits_old [of s]
  by (auto simp: chat_inv_defs unmount_def cancel_def Let_def
      drop_source_sources nth_list_update split: option.splits)


lemma inv_drop_wait:
  assumes "chat_inv s"
  shows "fst w \<noteq> generation s \<Longrightarrow> chat_inv (s\<lparr>header_waits := remove1 w (header_waits s)\<rparr>)"
    and "fst v \<noteq> requestGeneration s \<Longrightarrow> chat_inv (s\<lparr>http_waits := remove1 v (http_waits s)\<rparr>)"
  using assms by (auto simp: chat_inv_defs filter_remove1 remove1_idem dest!: set_remove1_subset [THEN subsetD])

lemma only_member: "x \<in> set xs \<Longrightarrow> length xs + n = Suc 0 \<Longrightarrow> xs = [x] \<and> n = 0"
  by (cases xs) auto

lemma inv_current_http:
  assumes "chat_inv s" "w \<in> set (http_waits s)" "fst w = requestGeneration s"
  shows "current_http s = [w] \<and> current_waits s = [] \<and> source s = None \<and> mounted s \<and> isRequesting s"
  using only_member [of w "current_http s" "length (current_waits s)"] assms
  by (auto simp: chat_inv_def flags_ok_def live_count_def add.commute split: if_splits)
    (auto simp: current_http_def filter_empty_conv)

lemma inv_current_wait:
  assumes "chat_inv s" "w \<in> set (header_waits s)" "fst w = generation s"
  shows "current_waits s = [w] \<and> current_http s = [] \<and> source s = None \<and> mounted s \<and> isRequesting s"
  using only_member [of w "current_waits s" "length (current_http s)"] assms
  by (auto simp: chat_inv_def flags_ok_def live_count_def split: if_splits)
    (auto simp: current_waits_def filter_empty_conv)

lemma inv_http: 
  assumes "chat_inv s" "w \<in> set (http_waits s)" shows "chat_inv (on_http_result t w r s)"
proof (cases "fst w = requestGeneration s")
  case False
  then show ?thesis using inv_drop_wait(2) [OF assms(1) False] by (auto simp: on_http_result_def Let_def)
next
  case True
  then show ?thesis using inv_current_http [OF assms True] assms
    by (auto simp: on_http_result_def Let_def chat_inv_defs filter_remove1 split: sum.splits dest!: set_remove1_subset [THEN subsetD])
qed

lemma inv_headers: 
  assumes "chat_inv s" "w \<in> set (header_waits s)" shows "chat_inv (on_headers t w r st s)"
proof (cases "fst w = generation s")
  case False
  then show ?thesis using inv_drop_wait(1) [OF assms(1) False] by (auto simp: on_headers_def Let_def split: prod.splits)
next
  case True
  obtain g c p where w: "w = (g, c, p)" by (cases w)
  have c: "c = requestGeneration s" "g = generation s" using assms True w by (auto simp: chat_inv_def waits_ok_def)
  have "chat_inv (handleStreamError t c e None (s\<lparr>header_waits := remove1 w (header_waits s)\<rparr>))" for e
    using inv_current_wait [OF assms True] assms c w
    by (auto simp: chat_inv_defs filter_remove1 dest!: set_remove1_subset [THEN subsetD])
  moreover have "chat_inv (s\<lparr>header_waits := remove1 w (header_waits s),
      sources := sources s @ [\<lparr>src_generation = g, src_chat = c, src_payload = p, src_completed = False, src_closed = False\<rparr>],
      source := Some (length (sources s)), isStreaming := True\<rparr>)"
    using inv_current_wait [OF assms True] assms c w
    by (auto simp: chat_inv_defs filter_remove1 nth_append dest!: set_remove1_subset [THEN subsetD])
  ultimately show ?thesis using True w
    by (auto simp: on_headers_def Let_def inv_handle_error split: header_result.splits)
qed

lemma inv_user: "user_step s s' \<Longrightarrow> chat_inv s \<Longrightarrow> chat_inv s'"
  by (erule user_stepE)
    (auto simp: sendChat_def Let_def inv_stream inv_nonstream inv_stop inv_unmount)

lemma inv_env: "env_step t s s' \<Longrightarrow> chat_inv s \<Longrightarrow> chat_inv s'"
  by (erule env_stepE)
    (auto simp: on_timer_def inv_headers inv_message inv_error_event inv_ready inv_http inv_flush)

lemma chat_reach_inv: "chat_reach t s \<Longrightarrow> chat_inv s"
  by (induction rule: chat_reach.induct) (auto simp: inv_init intro: inv_user inv_env)

section \<open>One live request\<close>

lemma inv_generating: "chat_inv s \<Longrightarrow> mounted s \<Longrightarrow> isGenerating s \<longleftrightarrow> isRequesting s"
  by (auto simp: isGenerating_def chat_inv_def flags_ok_def live_count_def split: if_splits)

text \<open>
  C7. In every reachable state at most one request is live (waiting for headers, streaming, or awaiting a
  response), and the page counts as generating exactly while one is. Every stream source that is not
  closed is the current one and belongs to the latest request; after the page was left none is open.
\<close>

theorem one_live_request:
  assumes "chat_reach t s"
  shows "live_count s = (if mounted s \<and> isGenerating s then 1 else 0)
     \<and> list_all (\<lambda>i. src_closed (sources s ! i)
          \<or> (source s = Some i \<and> mounted s \<and> src_chat (sources s ! i) = requestGeneration s)) [0..<length (sources s)]"
  using chat_reach_inv [OF assms] inv_source [OF chat_reach_inv [OF assms]]
  by (auto simp: inv_generating list_all_iff chat_inv_def flags_ok_def sources_ok_def)

section \<open>Idle states\<close>

definition same_page :: "chat_state \<Rightarrow> chat_state \<Rightarrow> bool" where
  "same_page s s' \<longleftrightarrow> base s' = base s \<and> queue s' = queue s \<and> toasts s' = toasts s \<and> mounted s' = mounted s
     \<and> isStreaming s' = isStreaming s \<and> isRequesting s' = isRequesting s"

lemma idle_facts:
  assumes "chat_inv s" "\<not> (mounted s \<and> isGenerating s)"
  shows "source s = None" "streamFlushTimer s = None"
    "w \<in> set (header_waits s) \<Longrightarrow> fst w \<noteq> generation s" "v \<in> set (http_waits s) \<Longrightarrow> fst v \<noteq> requestGeneration s"
proof -
  have "live_count s = 0"
    using assms inv_generating [OF assms(1)] by (auto simp: chat_inv_def flags_ok_def split: if_splits)
  then show "source s = None" "w \<in> set (header_waits s) \<Longrightarrow> fst w \<noteq> generation s"
      "v \<in> set (http_waits s) \<Longrightarrow> fst v \<noteq> requestGeneration s"
    by (auto simp: live_count_def current_waits_def current_http_def filter_empty_conv split: if_splits)
  then show "streamFlushTimer s = None" using assms(1) by (auto simp: chat_inv_def buffer_ok_def)
qed

lemma idle_listening: "chat_inv s \<Longrightarrow> \<not> (mounted s \<and> isGenerating s) \<Longrightarrow> \<not> listening i s"
  by (simp add: idle_facts(1) inv_listening)

lemma idle_step:
  assumes "env_step t s s'" "chat_inv s" "\<not> (mounted s \<and> isGenerating s)" "queue s = []"
  shows "same_page s s'"
  using assms(1)
proof cases
  case (headers w result starts)
  then show ?thesis using idle_facts(3) [OF assms(2,3) headers(2)]
    by (auto simp: same_page_def on_headers_def Let_def split: prod.splits)
next
  case (http w result)
  then show ?thesis using idle_facts(4) [OF assms(2,3) http(2)]
    by (auto simp: same_page_def on_http_result_def Let_def)
qed (use assms idle_facts(2) [OF assms(2,3)] idle_listening [OF assms(2,3)] in
  \<open>auto simp: same_page_def on_message_def on_error_event_def on_readystatechange_def render_def\<close>)

text \<open>
  C2. A settled, stopped or abandoned request stays without effect: from a rendered state in which the
  page does not generate (or was left), no sequence of late callbacks, whether from the network, from
  stream sources, from the timer or from renders, changes the messages, queues an update, shows a toast
  or changes the flags.
\<close>

theorem idle_is_quiet:
  assumes "chat_reach t s" "\<not> (mounted s \<and> isGenerating s)" "queue s = []" "(env_step t)\<^sup>*\<^sup>* s s'"
  shows "same_page s s'"
proof -
  from assms(4) have "chat_inv s' \<and> same_page s s'"
  proof (induction rule: rtranclp_induct)
    case base
    show ?case using chat_reach_inv [OF assms(1)] by (simp add: same_page_def)
  next
    case (step y z)
    then have "same_page y z" using idle_step [OF step(2)] assms(2,3)
      by (auto simp: same_page_def isGenerating_def)
    then show ?case using step inv_env by (auto simp: same_page_def)
  qed
  then show ?thesis ..
qed

section \<open>Ends\<close>

definition last_settled :: "message list \<Rightarrow> bool" where
  "last_settled ms \<longleftrightarrow> ms = [] \<or> msg_from (last ms) \<noteq> Role_Assistant \<or> \<not> isAssistantMessagePending (last ms)"

lemma render_update:
  "\<exists>b. base (render (onMessageUpdate u s)) = run_update (requestGeneration s) (clock s) u b"
  by (auto simp: render_def onMessageUpdate_def)

lemma last_update:
  "(\<And>m. \<not> isAssistantMessagePending (f m)) \<Longrightarrow> last_settled (updateLastAssistantMessage ms f)"
  by (auto simp: last_settled_def updateLastAssistantMessage_def last_list_update)

lemma completed_status [simp]:
  "msg_status (completeAssistantMessage now m) = Some St_Complete" "msg_status (error_message now x c ti m) = Some St_Error"
  "msg_status (applyChatCompletionChoice now m ch) = Some St_Complete"
  by (simp_all add: completeAssistantMessage_def error_message_def applyChatCompletionChoice_def completeAssistantTiming_def Let_def)

lemma settle_updates:
  "last_settled (run_update g now (Complete_Update g) ms)"
  "last_settled (run_update g now (Error_Update g x c ti) ms)"
  "choices \<noteq> [] \<Longrightarrow> last_settled (run_update g now (Response_Update g choices) ms)"
  "last_settled (run_update g now (Stop_Update g) ms)"
  by (auto simp: updateAssistantMessageWithError_def applyChatCompletionResponse_def isAssistantMessagePending_def
      isAssistantMessageFinal_def neq_Nil_conv intro!: last_update split: option.splits list.splits if_splits)


lemma settles:
  assumes "g = requestGeneration s"
  shows "last_settled (base (render (handleStreamComplete g s)))"
    and "last_settled (base (render (handleStreamError t g e c s)))"
    and "choices \<noteq> [] \<Longrightarrow> last_settled (base (render (onMessageUpdate (Response_Update g choices) s)))"
    and "last_settled (base (render (onMessageUpdate (Stop_Update g) s)))"
proof -
  have *: "(\<And>b. last_settled (run_update (requestGeneration x) (clock x) u b)) \<Longrightarrow> last_settled (base (render (onMessageUpdate u x)))"
    for u x using render_update [of u x] by auto
  show "last_settled (base (render (handleStreamComplete g s)))"
    "last_settled (base (render (handleStreamError t g e c s)))"
    "choices \<noteq> [] \<Longrightarrow> last_settled (base (render (onMessageUpdate (Response_Update g choices) s)))"
    "last_settled (base (render (onMessageUpdate (Stop_Update g) s)))"
    using assms settle_updates
    by (simp_all add: handleStreamComplete_def handleStreamError_def Let_def * del: run_update.simps)
qed

lemma render_base [simp]:
  "base (render (closeActiveSource i s)) = base (render s)"
  "base (render (s\<lparr>abortController := a, isRequesting := r\<rparr>)) = base (render s)"
  by (simp_all add: render_def closeActiveSource_def close_source_def Let_def)

lemma stop_settles: "last_settled (base (render (stopGeneration s)))"
  by (simp add: stopGeneration_def Let_def settles discardPendingStreamUpdates_def cancel_def)


lemma close_frame [simp]:
  "isRequesting (closeActiveSource i s) = isRequesting s"
  "source s = Some i \<Longrightarrow> \<not> isStreaming (closeActiveSource i s)"
  "source (set_completed i s) = source s" "requestGeneration (set_completed i s) = requestGeneration s"
  "requestGeneration (closeActiveSource i s) = requestGeneration s"
  "isRequesting (set_completed i s) = isRequesting s"
  by (simp_all add: closeActiveSource_def close_source_def set_completed_def Let_def)

lemma handle_error_end:
  assumes "chat_inv s" "source s = Some i"
  shows "\<not> isGenerating (handle_error t i x c s) \<and> last_settled (base (render (handle_error t i x c s)))"
  using inv_source [OF assms] assms by (simp add: handle_error_def inv_listening isGenerating_def settles)

lemma done_end:
  assumes "chat_inv s" "source s = Some i" "isStreamDoneMessage (opt_str data)"
  shows "\<not> isGenerating (on_message t i data s) \<and> last_settled (base (render (on_message t i data s)))"
  using inv_source [OF assms(1,2)] assms by (simp add: on_message_def inv_listening isGenerating_def settles)

lemma update_generating [simp]: "isGenerating (handleStreamUpdate g ty c s) = isGenerating s"
  by (simp add: isGenerating_def)

lemma updates_generating [simp]:
  "isGenerating (fold (\<lambda>(ty, c). handleStreamUpdate g ty c) us s) = isGenerating s"
  by (induction us arbitrary: s) (simp_all add: split_beta)

lemma http_end:
  assumes "chat_inv s" "w \<in> set (http_waits s)" "fst w = requestGeneration s"
  shows "\<not> isGenerating (on_http_result t w r s) \<and> last_settled (base (render (on_http_result t w r s)))"
proof -
  have "\<forall>g \<in> set (aborted s). g < requestGeneration s" "mounted s \<longrightarrow> isStreaming s = (source s \<noteq> None)"
    using assms(1) by (simp_all add: chat_inv_def waits_ok_def flags_ok_def)
  then have w: "fst w \<notin> set (aborted s)" "\<not> isStreaming s"
    using inv_current_http [OF assms] assms(3) by auto
  show ?thesis
  proof (cases r)
    case (Inl e)
    then show ?thesis using w assms(3) by (simp add: on_http_result_def Let_def isGenerating_def settles)
  next
    case (Inr choices)
    then show ?thesis using w assms(3)
      by (simp add: on_http_result_def Let_def isGenerating_def settles hasChatCompletionChoice_def)
  qed
qed

lemma header_end:
  assumes "chat_inv s" "w \<in> set (header_waits s)" "fst w = generation s"
  shows "\<not> isGenerating (on_headers t w (Header_Exception e) st s)
     \<and> last_settled (base (render (on_headers t w (Header_Exception e) st s)))"
    and "isGenerating (on_headers t w (Headers h) st s) \<longleftrightarrow> st"
    and "\<not> st \<Longrightarrow> last_settled (base (render (on_headers t w (Headers h) st s)))"
    and "st \<Longrightarrow> source (on_headers t w (Headers h) st s) = Some (length (sources s))"
proof -
  obtain g c p where w: "w = (g, c, p)" by (cases w)
  have c: "c = requestGeneration s" "g = generation s" using assms w by (auto simp: chat_inv_def waits_ok_def)
  have *: "source s = None" "\<not> isStreaming s"
    using inv_current_wait [OF assms] assms(1) by (auto simp: chat_inv_def flags_ok_def)
  show "\<not> isGenerating (on_headers t w (Header_Exception e) st s)
     \<and> last_settled (base (render (on_headers t w (Header_Exception e) st s)))"
    using w c * by (simp add: on_headers_def Let_def isGenerating_def settles)
  show "isGenerating (on_headers t w (Headers h) st s) \<longleftrightarrow> st"
    "\<not> st \<Longrightarrow> last_settled (base (render (on_headers t w (Headers h) st s)))"
    "st \<Longrightarrow> source (on_headers t w (Headers h) st s) = Some (length (sources s))"
    using w c by (auto simp: on_headers_def Let_def isGenerating_def handle_error_def listening_def isCurrent_def settles)
qed

lemma env_end:
  assumes "env_step t s s'" "chat_inv s" "mounted s" "isGenerating s" "\<not> isGenerating s'"
  shows "last_settled (base (render s'))"
  using assms(1)
proof cases
  case (headers w result starts)
  show ?thesis
  proof (cases "fst w = generation s")
    case True
    then show ?thesis using headers header_end [OF assms(2) headers(2) True] assms(5)
      by (cases result) auto
  next
    case False
    then have "isGenerating s' = isGenerating s" using headers
      by (auto simp: on_headers_def Let_def isGenerating_def split: prod.splits)
    then show ?thesis using assms(4,5) by simp
  qed
next
  case (http w result)
  show ?thesis
  proof (cases "fst w = requestGeneration s")
    case True
    then show ?thesis using http http_end [OF assms(2) http(2) True] by auto
  next
    case False
    then have "isGenerating s' = isGenerating s" using http
      by (auto simp: on_http_result_def Let_def isGenerating_def)
    then show ?thesis using assms(4,5) by simp
  qed
next
  case (message i data)
  then show ?thesis using done_end [OF assms(2), of i data] handle_error_end [OF assms(2), of i] assms
    by (cases "isStreamDoneMessage (opt_str data)") (auto simp: on_message_def inv_listening split: if_splits option.splits)
next
  case (error i data readyState)
  show ?thesis using error assms handle_error_end [OF assms(2)]
    by (auto simp: on_error_event_def inv_listening Let_def split: if_splits)
next
  case (ready i rs st)
  show ?thesis using ready assms handle_error_end [OF assms(2)]
    by (auto simp: on_readystatechange_def inv_listening split: if_splits option.splits)
qed (use assms in \<open>auto simp: on_timer_def isGenerating_def\<close>)

text \<open>What the live request waits for, and the answers that end it.\<close>

definition can_end :: "(string \<Rightarrow> string) \<Rightarrow> chat_state \<Rightarrow> bool" where
  "can_end t s \<longleftrightarrow>
     (\<exists>w \<in> set (header_waits s). (\<forall>e st. \<not> isGenerating (on_headers t w (Header_Exception e) st s))
        \<and> (\<forall>h. source (on_headers t w (Headers h) True s) = Some (length (sources s))))
     \<or> (\<exists>i < length (sources s). \<not> isGenerating (on_message t i (Some STREAM_DONE_MESSAGE) s)
        \<and> (\<forall>x c. \<not> isGenerating (handle_error t i x c s)))
     \<or> (\<exists>w \<in> set (http_waits s). \<forall>r. \<not> isGenerating (on_http_result t w r s))"

text \<open>
  C8. A page that generates can always leave that state: the live request is there, its failure or its
  normal end settles it (headers that arrive open its stream), and so does the stop button. Whenever a
  callback ends the generation, and after a stop, the last reply is no longer pending once the page
  has rendered.
\<close>

theorem request_settles:
  assumes "chat_reach t s" "mounted s" "isGenerating s"
  shows "can_end t s \<and> \<not> isGenerating (stopGeneration s) \<and> last_settled (base (render (stopGeneration s)))
     \<and> (\<forall>s'. env_step t s s' \<and> \<not> isGenerating s' \<longrightarrow> last_settled (base (render s')))"
proof -
  note inv = chat_reach_inv [OF assms(1)]
  have "live_count s = 1"
    using inv inv_generating [OF inv assms(2)] assms by (simp add: chat_inv_def flags_ok_def)
  then have "current_waits s \<noteq> [] \<or> source s \<noteq> None \<or> current_http s \<noteq> []"
    by (auto simp: live_count_def)
  then consider w where "w \<in> set (header_waits s)" "fst w = generation s"
    | i where "source s = Some i" | w where "w \<in> set (http_waits s)" "fst w = requestGeneration s"
    by (auto simp: current_waits_def current_http_def filter_empty_conv)
  then have "can_end t s"
  proof cases
    case (1 w)
    have "\<forall>e st. \<not> isGenerating (on_headers t w (Header_Exception e) st s)"
      "\<forall>h. source (on_headers t w (Headers h) True s) = Some (length (sources s))"
      using header_end(1,4) [OF inv 1] by simp_all
    then show ?thesis using 1(1) unfolding can_end_def by blast
  next
    case (2 i)
    then show ?thesis using inv_source [OF inv 2] done_end [OF inv 2] handle_error_end [OF inv 2]
      by (auto simp: can_end_def isStreamDoneMessage_def opt_str_def)
  next
    case (3 w)
    have "\<forall>r. \<not> isGenerating (on_http_result t w r s)" using http_end [OF inv 3] by simp
    then show ?thesis using 3(1) unfolding can_end_def by blast
  qed
  moreover have "\<not> isGenerating (stopGeneration s)"
    by (simp add: stopGeneration_def Let_def isGenerating_def cancel_def)
  ultimately show ?thesis using stop_settles env_end [OF _ inv assms(2,3)] by blast
qed
end
