(* ===== verification/Playground_Text.thy ===== *)
theory Playground_Text
  imports Playground
begin

text \<open>
  Lemmas on the text of messages: the grammar of think tags and what each chunk, a finalization and a
  response leave of content and reasoning.
\<close>

section \<open>Think tags\<close>

text \<open>
  The grammar of a tagged text: segments of visible text and closed reasoning, then visible text or a tag
  that is still open.
\<close>

datatype think_rest = Shown string | Thinking string string

definition render_segments :: "(string \<times> string) list \<Rightarrow> string" where
  "render_segments segs = concat (map (\<lambda>(v, r). v @ open_tag @ r @ close_tag) segs)"

fun render_rest :: "think_rest \<Rightarrow> string" where
  "render_rest (Shown v) = v"
| "render_rest (Thinking v r) = v @ open_tag @ r"

fun rest_ok :: "think_rest \<Rightarrow> bool" where
  "rest_ok (Shown v) \<longleftrightarrow> \<not> sublist open_tag v"
| "rest_ok (Thinking v r) \<longleftrightarrow> \<not> sublist open_tag v \<and> \<not> sublist close_tag r"

definition think_ok :: "(string \<times> string) list \<Rightarrow> think_rest \<Rightarrow> bool" where
  "think_ok segs rest \<longleftrightarrow>
     list_all (\<lambda>(v, r). \<not> sublist open_tag v \<and> \<not> sublist close_tag r) segs \<and> rest_ok rest"

fun rest_visible :: "think_rest \<Rightarrow> string" where
  "rest_visible (Shown v) = v"
| "rest_visible (Thinking v r) = v"

fun rest_reasoning :: "think_rest \<Rightarrow> string list" where
  "rest_reasoning (Shown v) = []"
| "rest_reasoning (Thinking v r) = [r]"

text \<open>The visible text without the tags, the reasoning parts joined by blank lines.\<close>

definition think_spec :: "(string \<times> string) list \<Rightarrow> think_rest \<Rightarrow> parsed_think" where
  "think_spec segs rest =
     (if segs = [] \<and> rest_reasoning rest = []
      then \<lparr>visibleContent = rest_visible rest, pt_reasoning = [], hasUnclosedTag = False\<rparr>
      else \<lparr>visibleContent = js_trim (concat (map fst segs) @ rest_visible rest),
            pt_reasoning = js_trim (js_join [CHR 0x0A, CHR 0x0A] (map snd segs @ rest_reasoning rest)),
            hasUnclosedTag = (rest_reasoning rest \<noteq> [])\<rparr>)"

lemma cut_None: "cut p s = None \<longleftrightarrow> \<not> sublist p s"
  by (induction s) (auto simp: sublist_Cons_right split: if_splits)

lemma cut_first:
  assumes "c \<notin> set q" "\<not> sublist (c # q) a"
  shows "cut (c # q) (a @ (c # q) @ b) = Some (a, b)"
  using assms(2)
proof (induction a)
  case (Cons x a)
  have "\<not> prefix (c # q) (x # a @ (c # q) @ b)"
  proof
    assume pre: "prefix (c # q) (x # a @ (c # q) @ b)"
    have "\<not> prefix (c # q) (x # a)" using Cons.prems prefix_imp_sublist by blast
    then obtain zs where zs: "c # q = (x # a) @ zs" "prefix zs ((c # q) @ b)"
      using pre unfolding append_Cons [symmetric] prefix_append by auto
    moreover have "zs \<noteq> []" using zs(1) \<open>\<not> prefix (c # q) (x # a)\<close> by auto
    ultimately have "hd zs = c" by (cases zs) auto
    then have "c \<in> set q" using zs(1) \<open>zs \<noteq> []\<close> by (cases zs) auto
    then show False using assms(1) by simp
  qed
  moreover have "\<not> sublist (c # q) a" using Cons.prems by (auto simp: sublist_Cons_right)
  ultimately show ?case using Cons.IH by simp
qed simp

lemma cut_tags [simp]:
  "\<not> sublist open_tag a \<Longrightarrow> cut open_tag (a @ open_tag @ b) = Some (a, b)"
  "\<not> sublist close_tag a \<Longrightarrow> cut close_tag (a @ close_tag @ b) = Some (a, b)"
  using cut_first [of "CHR ''<''" "''think>''" a b] cut_first [of "CHR ''<''" "''/think>''" a b]
  by (simp_all add: open_tag_def close_tag_def)

lemma cut_before:
  "cut p s = Some (a, b) \<Longrightarrow> \<not> sublist p a \<or> p = []"
proof (induction s arbitrary: a)
  case (Cons c s)
  show ?case
  proof (cases "prefix p (c # s)")
    case False
    then obtain a' where a': "cut p s = Some (a', b)" "a = c # a'" using Cons.prems by (auto split: if_splits)
    have "prefix a (c # s)" using cut_Some [OF Cons.prems] by (metis prefixI)
    then have "\<not> prefix p a" using False prefix_order.trans by blast
    then show ?thesis using Cons.IH [OF a'(1)] a'(2) by (auto simp: sublist_Cons_right)
  qed (use Cons.prems in auto)
qed (auto split: if_splits)

definition nonempty :: "string \<Rightarrow> string list" where
  "nonempty v = (if v \<noteq> [] then [v] else [])"

lemma think_loop_rendered:
  assumes "think_ok segs rest"
  shows "think_loop (render_segments segs @ render_rest rest) =
     (concat (map (nonempty \<circ> fst) segs) @ nonempty (rest_visible rest), map snd segs @ rest_reasoning rest, rest_reasoning rest \<noteq> [])"
  using assms
proof (induction segs)
  case Nil
  then show ?case
  proof (cases rest)
    case (Shown v)
    then have "cut open_tag v = None" using Nil by (simp add: think_ok_def cut_None)
    then show ?thesis using Shown by (simp add: think_loop.simps [of v] render_segments_def nonempty_def)
  next
    case (Thinking v r)
    then have "cut open_tag (v @ open_tag @ r) = Some (v, r)" "cut close_tag r = None"
      using Nil by (simp_all add: think_ok_def cut_None)
    then show ?thesis using Thinking
      by (simp add: think_loop.simps [of "v @ open_tag @ r"] render_segments_def nonempty_def)
  qed
next
  case (Cons vr segs)
  obtain v r where vr: "vr = (v, r)" by (cases vr)
  let ?t = "render_segments segs @ render_rest rest"
  have "cut open_tag (v @ open_tag @ r @ close_tag @ ?t) = Some (v, r @ close_tag @ ?t)"
    "cut close_tag (r @ close_tag @ ?t) = Some (r, ?t)"
    using Cons.prems vr by (simp_all add: think_ok_def)
  moreover have "render_segments (vr # segs) @ render_rest rest = v @ open_tag @ r @ close_tag @ ?t"
    by (simp add: render_segments_def vr)
  ultimately show ?case using Cons vr
    by (simp add: think_loop.simps [of "v @ open_tag @ r @ close_tag @ ?t"] think_ok_def nonempty_def)
qed

lemma concat_nonempty: "concat (concat (map (nonempty \<circ> fst) segs)) = concat (map fst segs)" "concat (nonempty v) = v"
  by (induction segs) (auto simp: nonempty_def)

lemma open_in_rendered:
  assumes "think_ok segs rest"
  shows "sublist open_tag (render_segments segs @ render_rest rest) \<longleftrightarrow> segs \<noteq> [] \<or> rest_reasoning rest \<noteq> []"
proof (cases segs)
  case Nil
  then show ?thesis using assms by (cases rest) (auto simp: think_ok_def render_segments_def sublist_appendI)
next
  case (Cons vr l)
  obtain v r where "vr = (v, r)" by (cases vr)
  then have "render_segments segs @ render_rest rest = v @ open_tag @ (r @ close_tag @ render_segments l @ render_rest rest)"
    using Cons by (simp add: render_segments_def)
  then show ?thesis using Cons by (simp add: sublist_appendI)
qed

lemma parse_rendered:
  assumes "think_ok segs rest"
  shows "parseThinkTags (render_segments segs @ render_rest rest) = think_spec segs rest"
proof (cases "segs = [] \<and> rest_reasoning rest = []")
  case True
  then show ?thesis using open_in_rendered [OF assms]
    by (cases rest) (simp_all add: parseThinkTags_def think_spec_def render_segments_def)
next
  case False
  then show ?thesis using open_in_rendered [OF assms]
    by (auto simp: parseThinkTags_def think_loop_rendered [OF assms] concat_nonempty think_spec_def)
qed

lemma think_decomposition:
  "\<exists>segs rest. think_ok segs rest \<and> render_segments segs @ render_rest rest = content"
proof (induction "length content" arbitrary: content rule: less_induct)
  case less
  show ?case
  proof (cases "cut open_tag content")
    case None
    then have "think_ok [] (Shown content)" by (simp add: think_ok_def cut_None)
    then show ?thesis by (intro exI [of _ "[]"] exI [of _ "Shown content"]) (simp add: render_segments_def)
  next
    case (Some vr)
    then obtain v r where vr: "cut open_tag content = Some (v, r)" by (cases vr) auto
    have v: "\<not> sublist open_tag v" "content = v @ open_tag @ r" using cut_before [OF vr] cut_Some [OF vr] by auto
    show ?thesis
    proof (cases "cut close_tag r")
      case None
      then have "think_ok [] (Thinking v r)" using v by (simp add: think_ok_def cut_None)
      then show ?thesis using v by (intro exI [of _ "[]"] exI [of _ "Thinking v r"]) (simp add: render_segments_def)
    next
      case (Some bt)
      then obtain b tl where bt: "cut close_tag r = Some (b, tl)" by (cases bt) auto
      have b: "\<not> sublist close_tag b" "r = b @ close_tag @ tl" using cut_before [OF bt] cut_Some [OF bt] by auto
      then have "length tl < length content" using v by (simp add: open_tag_def)
      from less [OF this] obtain segs rest where "think_ok segs rest" "render_segments segs @ render_rest rest = tl" by auto
      then show ?thesis using v b
        by (intro exI [of _ "(v, b) # segs"] exI [of _ rest]) (auto simp: think_ok_def render_segments_def)
    qed
  qed
qed

text \<open>
  C38. The tag parser implements the grammar of tagged texts. Every content is a sequence of segments, each
  visible text followed by a closed reasoning part, and then visible text or a tag still open; and for
  every such sequence the parser returns the visible text without the tags, the reasoning parts joined
  by blank lines, and whether a tag is open. A text without tags is returned as it is.
\<close>

theorem think_tags:
  "(think_ok segs rest \<longrightarrow> parseThinkTags (render_segments segs @ render_rest rest) = think_spec segs rest)
   \<and> (\<exists>segs' rest'. think_ok segs' rest' \<and> render_segments segs' @ render_rest rest' = content)"
  using parse_rendered think_decomposition by blast

theorem think_tags_witness:
  "parseThinkTags ''a<think>b</think>c<think>d'' = \<lparr>visibleContent = ''ac'', pt_reasoning = ''b'' @ [CHR 0x0A, CHR 0x0A] @ ''d'', hasUnclosedTag = True\<rparr>"
proof -
  have "think_ok [(''a'', ''b'')] (Thinking ''c'' ''d'')"
    "render_segments [(''a'', ''b'')] @ render_rest (Thinking ''c'' ''d'') = ''a<think>b</think>c<think>d''"
    "think_spec [(''a'', ''b'')] (Thinking ''c'' ''d'') = \<lparr>visibleContent = ''ac'', pt_reasoning = ''b'' @ [CHR 0x0A, CHR 0x0A] @ ''d'', hasUnclosedTag = True\<rparr>"
    by code_simp+
  then show ?thesis using think_tags [of "[(''a'', ''b'')]" "Thinking ''c'' ''d''"] by metis
qed

section \<open>The text of a message\<close>

lemma opt_str_simps [simp]: "opt_str (Some s) = s" "opt_str None = []"
  by (simp_all add: opt_str_def)

definition reasoning_text :: "message \<Rightarrow> string" where
  "reasoning_text m = (case reasoning m of Some r \<Rightarrow> rs_content r | None \<Rightarrow> [])"

text \<open>What the page shows of a message, its timing apart.\<close>

definition text_view :: "message \<Rightarrow> string \<times> message_role \<times> string \<times> string \<times> string option \<times> message_status option \<times> bool option \<times> string option option" where
  "text_view m = (msg_key m, msg_from m, ver_id (getCurrentVersion m), getMessageContent m,
     map_option rs_content (reasoning m), msg_status m, isReasoningStreaming m, errorCode m)"

lemmas message_defs = getMessageContent_def getCurrentVersion_def updateCurrentVersionContent_def reasoning_text_def
  completeReasoningTiming_def startReasoningTiming_def completeAssistantTiming_def Let_def

lemma update_content [simp]:
  "getMessageContent (updateCurrentVersionContent m c) = c" "msg_key (updateCurrentVersionContent m c) = msg_key m"
  "msg_from (updateCurrentVersionContent m c) = msg_from m" "msg_status (updateCurrentVersionContent m c) = msg_status m"
  "reasoning (updateCurrentVersionContent m c) = reasoning m" "errorCode (updateCurrentVersionContent m c) = errorCode m"
  "ver_id (getCurrentVersion (updateCurrentVersionContent m c)) = ver_id (getCurrentVersion m)"
  "ver_content (getCurrentVersion m) = getMessageContent m"
  by (simp_all add: message_defs)

lemma current_frame [simp]:
  "getCurrentVersion (m\<lparr>reasoning := r\<rparr>) = getCurrentVersion m"
  "getCurrentVersion (m\<lparr>isReasoningStreaming := b\<rparr>) = getCurrentVersion m"
  "getCurrentVersion (m\<lparr>msg_status := st\<rparr>) = getCurrentVersion m"
  "getMessageContent (m\<lparr>reasoning := r\<rparr>) = getMessageContent m"
  "getMessageContent (m\<lparr>isReasoningStreaming := b\<rparr>) = getMessageContent m"
  "getMessageContent (m\<lparr>msg_status := st\<rparr>) = getMessageContent m"
  by (simp_all add: getCurrentVersion_def getMessageContent_def)

lemma timing_frame [simp]:
  "getCurrentVersion (completeReasoningTiming m now) = getCurrentVersion m"
  "getMessageContent (completeReasoningTiming m now) = getMessageContent m"
  "msg_key (completeReasoningTiming m now) = msg_key m" "msg_from (completeReasoningTiming m now) = msg_from m"
  "msg_status (completeReasoningTiming m now) = msg_status m" "errorCode (completeReasoningTiming m now) = errorCode m"
  "isReasoningStreaming (completeReasoningTiming m now) = isReasoningStreaming m"
  "map_option rs_content (reasoning (completeReasoningTiming m now)) = map_option rs_content (reasoning m)"
  "getCurrentVersion (completeAssistantTiming m now) = getCurrentVersion m"
  "getMessageContent (completeAssistantTiming m now) = getMessageContent m"
  "msg_key (completeAssistantTiming m now) = msg_key m" "msg_from (completeAssistantTiming m now) = msg_from m"
  "msg_status (completeAssistantTiming m now) = msg_status m" "errorCode (completeAssistantTiming m now) = errorCode m"
  "isReasoningStreaming (completeAssistantTiming m now) = isReasoningStreaming m"
  "reasoning (completeAssistantTiming m now) = reasoning m"
  by (auto simp: message_defs split: option.splits list.splits)

lemma reasoning_text_alt: "reasoning_text m = opt_str (map_option rs_content (reasoning m))"
  by (simp add: reasoning_text_def opt_str_def split: option.splits)

lemma start_content [simp]: "rs_content (startReasoningTiming m now) = reasoning_text m"
  by (simp add: message_defs split: option.splits)

text \<open>Finalizing shows the visible part of the content; the reasoning is the first source that has any.\<close>

lemma finalize_view:
  "text_view ((finalizeMessage now m api)\<lparr>msg_status := st\<rparr>) =
     (let content = getMessageContent m; tagged = sublist open_tag content; p = parseThinkTags content;
          r = str_or (opt_str api) (str_or (reasoning_text m) (if tagged then pt_reasoning p else []))
      in (msg_key m, msg_from m, ver_id (getCurrentVersion m), if tagged then visibleContent p else content,
          if r = [] then None else Some r, st, Some False, errorCode m))"
proof -
  have eq: "map_option rs_content (reasoning ((completeReasoningTiming x now)\<lparr>msg_status := st\<rparr>)) = map_option rs_content (reasoning x)" for x
    by simp
  show ?thesis
    unfolding text_view_def finalizeMessage_def Let_def eq reasoning_text_def [symmetric]
    by (simp add: reasoning_text_def)
qed

lemma complete_view:
  "text_view (completeAssistantMessage now m) = text_view ((finalizeMessage now m None)\<lparr>msg_status := Some St_Complete\<rparr>)"
  by (simp add: completeAssistantMessage_def text_view_def)

lemma response_view:
  "text_view (applyChatCompletionChoice now m ch) =
     text_view ((finalizeMessage now (updateCurrentVersionContent m (opt_str (ch_content ch))) (ch_reasoning ch))\<lparr>msg_status := Some St_Complete\<rparr>)"
  by (simp add: applyChatCompletionChoice_def text_view_def)

text \<open>Chunks.\<close>

lemma no_tag_reasoning: "\<not> sublist open_tag s \<Longrightarrow> pt_reasoning (parseThinkTags s) = []"
  by (simp add: parseThinkTags_def)

lemma reasoning_chunk:
  assumes "msg_status m \<noteq> Some St_Error"
  shows "getMessageContent (applyStreamingChunk now m Reasoning_Chunk c) = getMessageContent m"
    and "reasoning_text (applyStreamingChunk now m Reasoning_Chunk c) = reasoning_text m @ getAppendableChunk (reasoning_text m) c"
  using assms by (simp_all add: applyStreamingChunk_def Let_def) (simp add: reasoning_text_def)

lemma content_chunk:
  fixes m :: message and c :: string
  assumes "msg_status m \<noteq> Some St_Error"
  defines "full \<equiv> getMessageContent m @ getAppendableChunk (getMessageContent m) c"
  shows "getMessageContent (applyStreamingChunk now m Content_Chunk c) = full"
    and "reasoning_text (applyStreamingChunk now m Content_Chunk c) =
      (if sublist open_tag full \<and> pt_reasoning (parseThinkTags full) \<noteq> [] then pt_reasoning (parseThinkTags full) else reasoning_text m)"
  using assms unfolding applyStreamingChunk_def processStreamingContent_def Let_def reasoning_text_alt
  by (auto simp: no_tag_reasoning)

lemma chunk_frame:
  assumes "msg_status m \<noteq> Some St_Error"
  shows "msg_key (applyStreamingChunk now m ty c) = msg_key m" "msg_from (applyStreamingChunk now m ty c) = msg_from m"
    "errorCode (applyStreamingChunk now m ty c) = errorCode m" "msg_status (applyStreamingChunk now m ty c) = Some St_Streaming"
    "ver_id (getCurrentVersion (applyStreamingChunk now m ty c)) = ver_id (getCurrentVersion m)"
  using assms by (auto simp: applyStreamingChunk_def processStreamingContent_def Let_def split: chunk_type.splits)
end
