(* ===== verification/Playground_Stream.thy ===== *)
theory Playground_Stream
  imports Playground_Turn Playground_Text
begin

text \<open>
  Streaming refines the unbuffered reply: however chunks are batched by the flush timer and however
  updates wait for a render, the page ends with the text that a single response would have shown.
  The last section states where this fails.
\<close>

section \<open>What the page will show\<close>

text \<open>
  Once the queue has run, whenever that is, the messages are \<open>ms\<close> followed by one that satisfies \<open>P\<close>.
\<close>

definition will_show :: "message list \<Rightarrow> (message \<Rightarrow> bool) \<Rightarrow> chat_state \<Rightarrow> bool" where
  "will_show ms P s \<longleftrightarrow>
     (\<forall>now. \<exists>m. fold (apply_queued (requestGeneration s) now) (queue s) (base s) = ms @ [m] \<and> P m)"

lemma will_show_update:
  assumes "will_show ms P s"
    "\<And>now m. P m \<Longrightarrow> \<exists>m'. run_update (requestGeneration s) now u (ms @ [m]) = ms @ [m'] \<and> Q m'"
  shows "will_show ms Q (onMessageUpdate u s)"
  unfolding will_show_def
proof
  fix now
  show "\<exists>m. fold (apply_queued (requestGeneration (onMessageUpdate u s)) now) (queue (onMessageUpdate u s))
      (base (onMessageUpdate u s)) = ms @ [m] \<and> Q m"
  proof (cases "eager s \<and> queue s = []")
    case True
    then obtain m where "base s = ms @ [m]" "P m" using assms(1) by (auto simp: will_show_def)
    then show ?thesis using assms(2) [of m "clock s"] True by (auto simp: onMessageUpdate_def)
  next
    case False
    obtain m where "fold (apply_queued (requestGeneration s) now) (queue s) (base s) = ms @ [m]" "P m"
      using assms(1) by (auto simp: will_show_def)
    then show ?thesis using assms(2) [of m now] False by (auto simp: onMessageUpdate_def)
  qed
qed

lemma will_show_render: "will_show ms P s \<Longrightarrow> will_show ms P (render s)"
  by (auto simp: will_show_def render_def)

lemma will_show_rendered: "will_show ms P s \<Longrightarrow> \<exists>m. base (render s) = ms @ [m] \<and> P m"
  by (simp add: will_show_def render_def)

lemma will_show_cong:
  "queue s' = queue s \<Longrightarrow> base s' = base s \<Longrightarrow> requestGeneration s' = requestGeneration s \<Longrightarrow> will_show ms P s' = will_show ms P s"
  by (simp add: will_show_def)

section \<open>Streams of deltas\<close>

text \<open>
  No run of chunks is followed directly by a repetition of its text. On such a stream the test that
  recognises snapshots (\<open>chunk.startsWith(current)\<close>) never fires.
\<close>

definition no_echo :: "string list \<Rightarrow> bool" where
  "no_echo cs \<longleftrightarrow>
     list_all (\<lambda>j. list_all (\<lambda>i. list_all (\<lambda>k.
       concat (drop i (take j cs)) = [] \<or> \<not> prefix (concat (drop i (take j cs))) (concat (drop j (take k cs))))
       [Suc j..<Suc (length cs)]) [0..<j]) [0..<length cs]"

lemma no_echo_iff:
  "no_echo cs \<longleftrightarrow> (\<forall>i j k. i < j \<longrightarrow> j < k \<longrightarrow> k \<le> length cs \<longrightarrow>
     concat (drop i (take j cs)) = [] \<or> \<not> prefix (concat (drop i (take j cs))) (concat (drop j (take k cs))))"
  unfolding no_echo_def list_all_iff set_upt
  by (force simp del: concat_eq_Nil_conv)

lemma no_echoD:
  "no_echo cs \<Longrightarrow> i < j \<Longrightarrow> j < k \<Longrightarrow> k \<le> length cs \<Longrightarrow> concat (drop i (take j cs)) \<noteq> [] \<Longrightarrow>
     \<not> prefix (concat (drop i (take j cs))) (concat (drop j (take k cs)))"
  unfolding no_echo_iff by blast

lemma no_echo_prefix: 
  assumes "no_echo (cs @ ds)" shows "no_echo cs"
  unfolding no_echo_iff
proof (intro allI impI)
  fix i j k assume "i < j" "j < k" "k \<le> length cs"
  then show "concat (drop i (take j cs)) = [] \<or> \<not> prefix (concat (drop i (take j cs))) (concat (drop j (take k cs)))"
    using no_echoD [OF assms, of i j k] by auto
qed

lemma no_echo_merge:
  assumes "no_echo (cs @ [c])" "k \<le> length cs"
  shows "mergePendingStreamChunk (concat (drop k cs)) c = concat (drop k (cs @ [c]))"
proof (cases "concat (drop k cs) = []")
  case False
  then have "k < length cs" using assms(2) by (cases "k = length cs") auto
  then show ?thesis using no_echoD [OF assms(1), of k "length cs" "Suc (length cs)"] False assms(2)
    by (simp add: mergePendingStreamChunk_def)
qed (use assms(2) in \<open>simp add: mergePendingStreamChunk_def\<close>)

lemma no_echo_append:
  assumes "no_echo cs" "k \<le> length cs"
  shows "getAppendableChunk (concat (take k cs)) (concat (drop k cs)) = concat (drop k cs)"
proof (cases "concat (take k cs) = [] \<or> concat (drop k cs) = []")
  case False
  then have "0 < k" by (cases k) auto
  moreover have "k < length cs" using assms(2) False by (cases "k = length cs") auto
  ultimately show ?thesis using no_echoD [OF assms(1), of 0 k "length cs"] False
    by (simp add: getAppendableChunk_def)
qed (auto simp: getAppendableChunk_def simp del: concat_eq_Nil_conv)

text \<open>
  The message after \<open>k\<close> content chunks and \<open>l\<close> reasoning chunks were applied to \<open>m0\<close>. \<open>tags\<close>: whether the
  content has think tags, in which case the reasoning is read from it.
\<close>

definition shown :: "message \<Rightarrow> bool \<Rightarrow> string \<Rightarrow> string \<Rightarrow> message \<Rightarrow> bool" where
  "shown m0 tags content rtext m \<longleftrightarrow>
     msg_key m = msg_key m0 \<and> msg_from m = Role_Assistant \<and> errorCode m = errorCode m0
     \<and> ver_id (getCurrentVersion m) = ver_id (getCurrentVersion m0) \<and> isAssistantMessagePending m
     \<and> getMessageContent m = content
     \<and> (if tags then sublist open_tag content \<longrightarrow> pt_reasoning (parseThinkTags content) \<noteq> [] \<longrightarrow>
          reasoning_text m = pt_reasoning (parseThinkTags content)
        else reasoning_text m = rtext)"

lemma pending_status: "isAssistantMessagePending m \<Longrightarrow> msg_status m \<noteq> Some St_Error"
  by (auto simp: isAssistantMessagePending_def)

lemma shown_flush:
  assumes "shown m0 tags x y m" "getAppendableChunk x c = c" "getAppendableChunk y r = r"
    "tags \<Longrightarrow> r = []" "\<not> tags \<Longrightarrow> \<not> sublist open_tag (x @ c)"
  shows "shown m0 tags (x @ c) (y @ r) (flush_message now r c m)"
proof -
  let ?m1 = "if r \<noteq> [] then applyStreamingChunk now m Reasoning_Chunk r else m"
  have m1: "shown m0 tags x (y @ r) ?m1"
    using assms(1,3,4) pending_status [of m]
    by (auto simp: shown_def chunk_frame reasoning_chunk isAssistantMessagePending_def)
  then have "msg_status ?m1 \<noteq> Some St_Error" by (simp add: shown_def pending_status)
  then show ?thesis using m1 assms(2,5)
    by (auto simp: shown_def flush_message_def Let_def chunk_frame content_chunk isAssistantMessagePending_def)
qed

definition streaming :: "nat \<Rightarrow> message list \<Rightarrow> message \<Rightarrow> bool \<Rightarrow> string list \<Rightarrow> string list \<Rightarrow> chat_state \<Rightarrow> bool" where
  "streaming i ms m0 tags cs rs s \<longleftrightarrow>
     chat_inv s \<and> source s = Some i
     \<and> (\<exists>k l. k \<le> length cs \<and> l \<le> length rs
          \<and> p_content (pendingStreamChunks s) = concat (drop k cs) \<and> p_reasoning (pendingStreamChunks s) = concat (drop l rs)
          \<and> will_show ms (shown m0 tags (concat (take k cs)) (concat (take l rs))) s)"

lemma pending_current:
  assumes "chat_inv s" "source s = Some i" shows "p_generation (pendingStreamChunks s) = requestGeneration s"
proof -
  have "mounted s" using inv_source [OF assms] by simp
  then show ?thesis using assms(1) by (simp add: chat_inv_def buffer_ok_def)
qed

lemma handle_update_pending:
  "p_generation (pendingStreamChunks s) = requestGeneration s \<Longrightarrow>
     pendingStreamChunks (handleStreamUpdate (requestGeneration s) ty c s) = merge_pending ty c (pendingStreamChunks s)"
  by (simp add: handleStreamUpdate_def scheduleStreamFlush_def)

lemma streaming_chunk:
  assumes "streaming i ms m0 tags cs rs s"
  shows "no_echo (cs @ [c]) \<Longrightarrow> streaming i ms m0 tags (cs @ [c]) rs (handleStreamUpdate (requestGeneration s) Content_Chunk c s)"
    and "no_echo (rs @ [c]) \<Longrightarrow> streaming i ms m0 tags cs (rs @ [c]) (handleStreamUpdate (requestGeneration s) Reasoning_Chunk c s)"
proof -
  from assms obtain k l where inv: "chat_inv s" "source s = Some i" and kl: "k \<le> length cs" "l \<le> length rs"
    and p: "p_content (pendingStreamChunks s) = concat (drop k cs)" "p_reasoning (pendingStreamChunks s) = concat (drop l rs)"
    and w: "will_show ms (shown m0 tags (concat (take k cs)) (concat (take l rs))) s"
    by (auto simp: streaming_def)
  have frame: "will_show ms P (handleStreamUpdate g ty c s) = will_show ms P s" for P g ty
    by (rule will_show_cong) simp_all
  have inv': "chat_inv (handleStreamUpdate g ty c s)" for g ty
    using inv by (simp add: inv_stream_update)
  note pend = handle_update_pending [OF pending_current [OF inv]]
  show "streaming i ms m0 tags (cs @ [c]) rs (handleStreamUpdate (requestGeneration s) Content_Chunk c s)"
    if "no_echo (cs @ [c])"
    using that kl p w inv inv' no_echo_merge [OF that kl(1)] unfolding streaming_def
    by (intro conjI exI [of _ k] exI [of _ l]) (simp_all add: pend merge_pending_def frame)
  show "streaming i ms m0 tags cs (rs @ [c]) (handleStreamUpdate (requestGeneration s) Reasoning_Chunk c s)"
    if "no_echo (rs @ [c])"
    using that kl p w inv inv' no_echo_merge [OF that kl(2)] unfolding streaming_def
    by (intro conjI exI [of _ k] exI [of _ l]) (simp_all add: pend merge_pending_def frame)
qed

lemma update_snoc:
  "msg_from m = Role_Assistant \<Longrightarrow> updateLastAssistantMessage (ms @ [m]) f = ms @ [f m]"
  by (simp add: updateLastAssistantMessage_def)

lemma shown_from: "shown m0 tags x y m \<Longrightarrow> msg_from m = Role_Assistant"
  by (simp add: shown_def)

lemma will_show_flush:
  assumes "p_generation (pendingStreamChunks s) = requestGeneration s"
    "will_show ms (shown m0 tags (concat (take k cs)) (concat (take l rs))) s"
    "p_content (pendingStreamChunks s) = concat (drop k cs)" "p_reasoning (pendingStreamChunks s) = concat (drop l rs)"
    "k \<le> length cs" "l \<le> length rs" "no_echo cs" "no_echo rs"
    "tags \<Longrightarrow> rs = []" "\<not> tags \<Longrightarrow> \<not> sublist open_tag (concat cs)"
  shows "will_show ms (shown m0 tags (concat cs) (concat rs)) (flushStreamUpdates (requestGeneration s) s)"
proof -
  have split: "concat (take k cs) @ concat (drop k cs) = concat cs" "concat (take l rs) @ concat (drop l rs) = concat rs"
    by (simp_all flip: concat_append)
  show ?thesis
  proof (cases "concat (drop k cs) = [] \<and> concat (drop l rs) = []")
    case True
    then have "flushStreamUpdates (requestGeneration s) s = s\<lparr>streamFlushTimer := None\<rparr>"
      using assms(1,3,4) by (simp add: flushStreamUpdates_def Let_def)
    then show ?thesis using assms(2) split True by (simp add: will_show_def)
  next
    case False
    let ?s = "s\<lparr>streamFlushTimer := None, pendingStreamChunks := \<lparr>p_generation = requestGeneration s, p_content = [], p_reasoning = []\<rparr>\<rparr>"
    have flush: "flushStreamUpdates (requestGeneration s) s =
        onMessageUpdate (Flush_Update (requestGeneration s) (concat (drop l rs)) (concat (drop k cs))) ?s"
      using False assms(1,3,4) by (auto simp: flushStreamUpdates_def Let_def)
    have app: "getAppendableChunk (concat (take k cs)) (concat (drop k cs)) = concat (drop k cs)"
      "getAppendableChunk (concat (take l rs)) (concat (drop l rs)) = concat (drop l rs)"
      using no_echo_append assms(5-8) by blast+
    have "will_show ms (shown m0 tags (concat (take k cs)) (concat (take l rs))) ?s"
      using assms(2) by (simp add: will_show_def)
    moreover have "\<exists>m'. run_update (requestGeneration ?s) now (Flush_Update (requestGeneration s) (concat (drop l rs)) (concat (drop k cs))) (ms @ [m])
        = ms @ [m'] \<and> shown m0 tags (concat cs) (concat rs) m'"
      if "shown m0 tags (concat (take k cs)) (concat (take l rs)) m" for now m
      using shown_flush [OF that app] assms(9,10) split by (simp add: update_snoc [OF shown_from [OF that]])
    ultimately show ?thesis unfolding flush by (rule will_show_update)
  qed
qed

lemma streaming_flush:
  assumes "streaming i ms m0 tags cs rs s" "no_echo cs" "no_echo rs" "tags \<Longrightarrow> rs = []"
    "\<not> tags \<Longrightarrow> \<not> sublist open_tag (concat cs)"
  shows "streaming i ms m0 tags cs rs (flushStreamUpdates (requestGeneration s) s)"
proof -
  have inv: "chat_inv s" "source s = Some i" using assms(1) by (auto simp: streaming_def)
  have "will_show ms (shown m0 tags (concat cs) (concat rs)) (flushStreamUpdates (requestGeneration s) s)"
    using assms will_show_flush [OF pending_current [OF inv]] unfolding streaming_def by blast
  then show ?thesis using inv unfolding streaming_def
    by (intro conjI exI [of _ "length cs"] exI [of _ "length rs"])
      (simp_all add: inv_flush flush_pending pending_current)
qed

section \<open>A streamed turn\<close>

text \<open>
  What happens between the first and the last message of a stream: data arrives, the flush timer fires,
  the page renders, time passes.
\<close>

datatype stream_event = Data string | Flush_Timer | Repaint | Pass nat

fun stream_step :: "(string \<Rightarrow> string) \<Rightarrow> nat \<Rightarrow> stream_event \<Rightarrow> chat_state \<Rightarrow> chat_state" where
  "stream_step t i (Data d) s = on_message t i (Some d) s"
| "stream_step t i Flush_Timer s = (case streamFlushTimer s of Some g \<Rightarrow> on_timer g s | None \<Rightarrow> s)"
| "stream_step t i Repaint s = render s"
| "stream_step t i (Pass d) s = s\<lparr>clock := clock s + int d\<rparr>"

fun event_updates :: "stream_event \<Rightarrow> (chunk_type \<times> string) list" where
  "event_updates (Data d) = (case parseStreamMessageUpdates d of Some us \<Rightarrow> us | None \<Rightarrow> [])"
| "event_updates _ = []"

fun data_ok :: "stream_event \<Rightarrow> bool" where
  "data_ok (Data d) \<longleftrightarrow> \<not> isStreamDoneMessage d \<and> parseStreamMessageUpdates d \<noteq> None"
| "data_ok _ = True"

definition texts :: "chunk_type \<Rightarrow> (chunk_type \<times> string) list \<Rightarrow> string list" where
  "texts ty us = map snd (filter (\<lambda>u. fst u = ty) us)"

definition chunks :: "chunk_type \<Rightarrow> stream_event list \<Rightarrow> string list" where
  "chunks ty evs = texts ty (concat (map event_updates evs))"

lemma texts_simps [simp]:
  "texts ty [] = []" "texts ty (u # us) = (if fst u = ty then [snd u] else []) @ texts ty us"
  "texts ty (us @ vs) = texts ty us @ texts ty vs"
  by (simp_all add: texts_def)

lemma chunks_simps [simp]: "chunks ty [] = []" "chunks ty (e # es) = texts ty (event_updates e) @ chunks ty es"
  by (simp_all add: chunks_def)

lemma streaming_updates:
  assumes "streaming i ms m0 tags cs rs s" "no_echo (cs @ texts Content_Chunk us)" "no_echo (rs @ texts Reasoning_Chunk us)"
    "g = requestGeneration s"
  shows "streaming i ms m0 tags (cs @ texts Content_Chunk us) (rs @ texts Reasoning_Chunk us)
     (fold (\<lambda>(ty, c). handleStreamUpdate g ty c) us s)"
  using assms
proof (induction us arbitrary: cs rs s)
  case (Cons u us)
  obtain ty c where u: "u = (ty, c)" by (cases u)
  show ?case
  proof (cases ty)
    case Content_Chunk
    have "no_echo (cs @ [c])" using no_echo_prefix [of "cs @ [c]"] Cons.prems(2) u Content_Chunk by simp
    then show ?thesis using Cons.IH [of "cs @ [c]" rs "handleStreamUpdate g ty c s"] streaming_chunk(1) Cons.prems u Content_Chunk
      by simp
  next
    case Reasoning_Chunk
    have "no_echo (rs @ [c])" using no_echo_prefix [of "rs @ [c]"] Cons.prems(3) u Reasoning_Chunk by simp
    then show ?thesis using Cons.IH [of cs "rs @ [c]" "handleStreamUpdate g ty c s"] streaming_chunk(2) Cons.prems u Reasoning_Chunk
      by simp
  qed
qed simp

lemma streaming_render: "streaming i ms m0 tags cs rs s \<Longrightarrow> streaming i ms m0 tags cs rs (render s)"
  unfolding streaming_def by (auto intro: will_show_render)

lemma streaming_clock: "streaming i ms m0 tags cs rs (s\<lparr>clock := x\<rparr>) = streaming i ms m0 tags cs rs s"
  by (simp add: streaming_def will_show_def)

lemma streaming_data:
  assumes "streaming i ms m0 tags cs rs s" "data_ok (Data d)" "no_echo (cs @ texts Content_Chunk (event_updates (Data d)))"
    "no_echo (rs @ texts Reasoning_Chunk (event_updates (Data d)))"
  shows "streaming i ms m0 tags (cs @ texts Content_Chunk (event_updates (Data d)))
     (rs @ texts Reasoning_Chunk (event_updates (Data d))) (on_message t i (Some d) s)"
proof -
  have inv: "chat_inv s" "source s = Some i" using assms(1) by (auto simp: streaming_def)
  obtain us where us: "parseStreamMessageUpdates d = Some us" using assms(2) by auto
  then have "on_message t i (Some d) s = fold (\<lambda>(ty, c). handleStreamUpdate (requestGeneration s) ty c) us s"
    using assms(2) inv inv_source [OF inv] by (simp add: on_message_def inv_listening)
  then show ?thesis using streaming_updates [OF assms(1)] assms(3,4) us by simp
qed

lemma sublist_extend: "sublist xs ys \<Longrightarrow> sublist xs (ys @ zs)"
  unfolding sublist_def by (metis append.assoc)

lemma streaming_run:
  assumes "streaming i ms m0 tags cs rs s" "list_all data_ok evs"
    "no_echo (cs @ chunks Content_Chunk evs)" "no_echo (rs @ chunks Reasoning_Chunk evs)"
    "tags \<Longrightarrow> rs @ chunks Reasoning_Chunk evs = []"
    "\<not> tags \<Longrightarrow> \<not> sublist open_tag (concat (cs @ chunks Content_Chunk evs))"
  shows "streaming i ms m0 tags (cs @ chunks Content_Chunk evs) (rs @ chunks Reasoning_Chunk evs) (fold (stream_step t i) evs s)"
  using assms
proof (induction evs arbitrary: cs rs s)
  case (Cons e evs)
  let ?cs = "cs @ texts Content_Chunk (event_updates e)" and ?rs = "rs @ texts Reasoning_Chunk (event_updates e)"
  have echo: "no_echo ?cs" "no_echo ?rs"
    using no_echo_prefix [of ?cs] no_echo_prefix [of ?rs] Cons.prems(3,4) by simp_all
  have side: "tags \<Longrightarrow> rs = []" "\<not> tags \<Longrightarrow> \<not> sublist open_tag (concat cs)"
    using Cons.prems(5,6) sublist_extend by auto
  have "streaming i ms m0 tags ?cs ?rs (stream_step t i e s)"
  proof (cases e)
    case (Data d)
    then show ?thesis using streaming_data [OF Cons.prems(1)] Cons.prems(2) echo by simp
  next
    case Flush_Timer
    have "g = requestGeneration s" if "streamFlushTimer s = Some g" for g
      using Cons.prems(1) that by (simp add: streaming_def chat_inv_def buffer_ok_def)
    then show ?thesis using Flush_Timer streaming_flush [OF Cons.prems(1) _ _ side] echo Cons.prems(1)
      by (auto simp: on_timer_def split: option.splits)
  qed (use Cons.prems(1) in \<open>simp_all add: streaming_render streaming_clock\<close>)
  then show ?case using Cons.IH [of ?cs ?rs "stream_step t i e s"] Cons.prems by simp
qed simp

text \<open>An assistant message that waits for its first chunk.\<close>

definition fresh_reply :: "message \<Rightarrow> bool" where
  "fresh_reply m \<longleftrightarrow> msg_from m = Role_Assistant \<and> getMessageContent m = [] \<and> reasoning m = None \<and> isAssistantMessagePending m"

lemma shown_fresh: "fresh_reply m \<Longrightarrow> shown m tags [] [] m"
  by (auto simp: fresh_reply_def shown_def reasoning_text_def open_tag_def)

lemma shown_complete:
  assumes "shown m0 tags c r m" "fresh_reply m0" "tags = sublist open_tag c" 
    "tags \<Longrightarrow> r = [] \<and> pt_reasoning (parseThinkTags c) \<noteq> []"
  shows "text_view (completeAssistantMessage now m) =
    text_view (applyChatCompletionChoice now' m0 \<lparr>ch_content = Some c, ch_reasoning = Some r\<rparr>)"
  using assms unfolding complete_view response_view finalize_view
  by (auto simp: shown_def Let_def str_or_def reasoning_text_def fresh_reply_def)

lemma will_show_complete:
  assumes "will_show ms (shown m tags c r) s"
  shows "will_show ms (\<lambda>reply. \<exists>p now. shown m tags c r p \<and> reply = completeAssistantMessage now p)
     (onMessageUpdate (Complete_Update (requestGeneration s)) s)"
  using assms
proof (rule will_show_update)
  fix now p assume p: "shown m tags c r p"
  then have "\<not> isAssistantMessageFinal p"
    by (auto simp: shown_def isAssistantMessagePending_def isAssistantMessageFinal_def)
  then show "\<exists>m'. run_update (requestGeneration s) now (Complete_Update (requestGeneration s)) (ms @ [p]) = ms @ [m'] \<and>
      (\<exists>p now. shown m tags c r p \<and> m' = completeAssistantMessage now p)"
    using p by (auto simp: update_snoc shown_from)
qed

text \<open>
  C4. Streaming shows what a single response would have shown. Take a reachable page whose last message
  is a reply that waits for its first chunk, and any interleaving of data, flush timer, renders and
  passing time. When the stream then ends and the page renders, the reply has the content and reasoning,
  the status and flags of a non-streaming response that carries the concatenated chunks; the other
  messages are unchanged. This holds for streams in which no run of chunks is directly followed by a
  repetition of its text, and whose content either has no think tag or is the only source of a
  reasoning that is not blank.
\<close>

theorem streamed_turn:
  assumes "chat_reach t s" "source s = Some i" "queue s = []" "base s = ms @ [m]" "fresh_reply m"
    "p_content (pendingStreamChunks s) = []" "p_reasoning (pendingStreamChunks s) = []"
    "list_all data_ok evs" "no_echo (chunks Content_Chunk evs)" "no_echo (chunks Reasoning_Chunk evs)"
  defines "content \<equiv> concat (chunks Content_Chunk evs)" and "rtext \<equiv> concat (chunks Reasoning_Chunk evs)"
  assumes "\<not> sublist open_tag content \<or> (chunks Reasoning_Chunk evs = [] \<and> pt_reasoning (parseThinkTags content) \<noteq> [])"
  shows "\<exists>reply. base (render (on_message t i (Some STREAM_DONE_MESSAGE) (fold (stream_step t i) evs s))) = ms @ [reply]
     \<and> text_view reply = text_view (applyChatCompletionChoice now m \<lparr>ch_content = Some content, ch_reasoning = Some rtext\<rparr>)"
proof -
  let ?tags = "sublist open_tag content"
  have start: "streaming i ms m ?tags [] [] s"
    using chat_reach_inv [OF assms(1)] assms(2-7) shown_fresh [OF assms(5)]
    by (auto simp: streaming_def will_show_def)
  let ?s = "fold (stream_step t i) evs s"
  have run: "streaming i ms m ?tags (chunks Content_Chunk evs) (chunks Reasoning_Chunk evs) ?s"
    using streaming_run [OF start assms(8)] assms(9,10,13) by (auto simp: content_def)
  then have inv: "chat_inv ?s" "source ?s = Some i" by (auto simp: streaming_def)
  let ?e = "closeActiveSource i (set_completed i ?s)"
  have e: "requestGeneration ?e = requestGeneration ?s" "queue ?e = queue ?s" "base ?e = base ?s"
    "pendingStreamChunks ?e = pendingStreamChunks ?s"
    by (simp_all add: closeActiveSource_def close_source_def set_completed_def Let_def)
  have "will_show ms (shown m ?tags content rtext) (flushStreamUpdates (requestGeneration ?e) ?e)"
    using run assms(9,10,13) will_show_flush [of ?e] pending_current [OF inv] will_show_cong [OF e(2,3,1)]
    unfolding streaming_def e content_def rtext_def by blast
  then have "will_show ms (shown m ?tags content rtext) ((flushStreamUpdates (requestGeneration ?e) ?e)\<lparr>isRequesting := False\<rparr>)"
    by (simp add: will_show_def)
  from will_show_complete [OF this]
  have "will_show ms (\<lambda>r. \<exists>p now'. shown m ?tags content rtext p \<and> r = completeAssistantMessage now' p)
      (handleStreamComplete (requestGeneration ?e) ?e)"
    by (simp add: handleStreamComplete_def)
  from will_show_rendered [OF this]
  obtain p now' where p: "shown m ?tags content rtext p"
    "base (render (handleStreamComplete (requestGeneration ?e) ?e)) = ms @ [completeAssistantMessage now' p]"
    by auto
  moreover have "on_message t i (Some STREAM_DONE_MESSAGE) ?s = handleStreamComplete (requestGeneration ?e) ?e"
    using inv inv_source [OF inv] by (simp add: on_message_def inv_listening isStreamDoneMessage_def)
  moreover have "text_view (completeAssistantMessage now' p) =
      text_view (applyChatCompletionChoice now m \<lparr>ch_content = Some content, ch_reasoning = Some rtext\<rparr>)"
    using shown_complete [OF p(1) assms(5)] assms(13) by (auto simp: rtext_def)
  ultimately show ?thesis by auto
qed

section \<open>A sample page\<close>

definition sample_config :: playground_config where
  "sample_config = \<lparr>cf_model = ''gpt-4o'', cf_group = ''default'', cf_temperature = Dec 7 (-1), cf_top_p = Dec 1 0,
     cf_max_tokens = Dec 4096 0, cf_frequency_penalty = Dec 0 0, cf_presence_penalty = Dec 0 0, cf_seed = None, cf_stream = True\<rparr>"

definition sample_enabled :: parameter_enabled where
  "sample_enabled = \<lparr>en_temperature = True, en_top_p = True, en_max_tokens = False, en_frequency_penalty = True,
     en_presence_penalty = True, en_seed = False\<rparr>"

definition sample_messages :: "message list" where
  "sample_messages = appendUserMessagePair (''k1'', ''v1'', ''k2'', ''v2'') 0 [] ''Hi''"

definition sample_wait :: chat_state where
  "sample_wait = sendChat sample_config sample_enabled sample_messages (chat_init True sample_messages)"

definition sample_stream :: chat_state where
  "sample_stream = on_headers id (hd (header_waits sample_wait)) (Headers []) True sample_wait"

definition sample_stopped :: chat_state where
  "sample_stopped = render (stopGeneration sample_stream)"

definition sample_events :: "stream_event list" where
  "sample_events =
     [Data ''{\"choices\":[{\"delta\":{\"content\":\"Hel\"}}]}'', Data ''{\"choices\":[{\"delta\":{\"content\":\"lo\"}}]}'',
      Flush_Timer, Pass 20, Data ''{\"choices\":[{\"delta\":{\"content\":\" you\"}}]}'', Repaint]"

lemma sample_wait_eq:
  "header_waits sample_wait = [(1, 1, buildChatCompletionPayload sample_messages sample_config sample_enabled)]"
  "mounted sample_wait" "sources sample_wait = []"
  by (simp_all add: sample_wait_def sendChat_def sendStreamingChat_def send_request_def Let_def chat_init_def sample_config_def
      discardPendingStreamUpdates_def abort_request_def drop_source_def)

lemma sample_reach: "chat_reach id sample_wait" "chat_reach id sample_stream" "chat_reach id sample_stopped"
proof -
  show w: "chat_reach id sample_wait"
    unfolding sample_wait_def by (rule chat_reach.user [OF chat_reach.init user_step.send]) (simp add: chat_init_def)
  show s: "chat_reach id sample_stream"
    unfolding sample_stream_def by (rule chat_reach.env [OF w]) (simp add: env_step.headers sample_wait_eq)
  show "chat_reach id sample_stopped"
    unfolding sample_stopped_def
    by (rule chat_reach.env [OF chat_reach.user [OF s]], rule user_step.stop)
      (simp_all add: env_step.render sample_stream_def on_headers_def sample_wait_eq Let_def split: prod.splits)
qed

lemma sample_stream_facts:
  "mounted sample_stream" "isGenerating sample_stream" "source sample_stream = Some 0" "queue sample_stream = []"
  "p_content (pendingStreamChunks sample_stream) = []" "p_reasoning (pendingStreamChunks sample_stream) = []"
  "base sample_stream = [createUserMessage ''k1'' ''v1'' ''Hi'' 0] @ [createLoadingAssistantMessage ''k2'' ''v2'' 0]"
  by code_simp+

lemma sample_stopped_facts:
  "\<not> isGenerating sample_stopped" "queue sample_stopped = []" "sources sample_stopped \<noteq> []" "mounted sample_stopped"
  by code_simp+

theorem one_live_request_witness:
  "live_count sample_stream = 1 \<and> live_count sample_stopped = 0
   \<and> list_all (\<lambda>i. src_closed (sources sample_stopped ! i)
        \<or> (source sample_stopped = Some i \<and> mounted sample_stopped
          \<and> src_chat (sources sample_stopped ! i) = requestGeneration sample_stopped)) [0..<length (sources sample_stopped)]"
  using one_live_request [OF sample_reach(2)] one_live_request [OF sample_reach(3)]
  by (simp add: sample_stream_facts sample_stopped_facts)

theorem idle_is_quiet_witness:
  "same_page sample_stopped (on_message id 0 (Some STREAM_DONE_MESSAGE) sample_stopped)"
  by (rule idle_is_quiet [OF sample_reach(3)])
    (auto simp: sample_stopped_facts intro!: r_into_rtranclp env_step.message)

theorem request_settles_witness:
  "can_end id sample_stream \<and> \<not> isGenerating (stopGeneration sample_stream)
   \<and> last_settled (base (render (stopGeneration sample_stream)))
   \<and> last_settled (base (render (on_message id 0 (Some STREAM_DONE_MESSAGE) sample_stream)))"
proof -
  have "env_step id sample_stream (on_message id 0 (Some STREAM_DONE_MESSAGE) sample_stream)"
    by (rule env_step.message) code_simp
  moreover have "\<not> isGenerating (on_message id 0 (Some STREAM_DONE_MESSAGE) sample_stream)" by code_simp
  ultimately show ?thesis
    using request_settles [OF sample_reach(2) sample_stream_facts(1,2)] by blast
qed

lemma sample_events_facts:
  "list_all data_ok sample_events" "chunks Content_Chunk sample_events = [''Hel'', ''lo'', '' you'']"
  "chunks Reasoning_Chunk sample_events = []"
  by code_simp+

lemma sample_echo: "no_echo [''Hel'', ''lo'', '' you'']" "no_echo []" "\<not> sublist open_tag ''Hello you''"
  by code_simp+

theorem streamed_turn_witness:
  "\<exists>reply. base (render (on_message id 0 (Some STREAM_DONE_MESSAGE) (fold (stream_step id 0) sample_events sample_stream)))
        = [createUserMessage ''k1'' ''v1'' ''Hi'' 0] @ [reply]
     \<and> text_view reply = text_view (applyChatCompletionChoice 0 (createLoadingAssistantMessage ''k2'' ''v2'' 0)
         \<lparr>ch_content = Some ''Hello you'', ch_reasoning = Some []\<rparr>)"
proof -
  have "fresh_reply (createLoadingAssistantMessage ''k2'' ''v2'' 0)" by code_simp
  then show ?thesis
    using streamed_turn [OF sample_reach(2) sample_stream_facts(3,4,7) _ sample_stream_facts(5,6) sample_events_facts(1), of 0]
      sample_echo by (simp add: sample_events_facts)
qed

section \<open>Where streaming and a single response differ\<close>

text \<open>A chunk that repeats the text so far is taken for a snapshot and dropped.\<close>

lemma repeated_delta_lost:
  assumes "fresh_reply m" "c \<noteq> []"
  shows "getMessageContent (applyStreamingChunk now' (applyStreamingChunk now m Content_Chunk c) Content_Chunk c) = c"
    and "mergePendingStreamChunk c c = c"
  using assms pending_status [of m]
  by (simp_all add: content_chunk chunk_frame fresh_reply_def getAppendableChunk_def mergePendingStreamChunk_def)

text \<open>A boundary inside the closing tag of an empty reasoning leaves the half tag as reasoning.\<close>

lemma half_tag_kept:
  "map_option rs_content (reasoning (completeAssistantMessage 0 (applyStreamingChunk 0
      (applyStreamingChunk 0 (createLoadingAssistantMessage ''k'' ''v'' 0) Content_Chunk ''<think></thi'') Content_Chunk ''nk>Hi'')))
     = Some ''</thi''"
  "reasoning (applyChatCompletionChoice 0 (createLoadingAssistantMessage ''k'' ''v'' 0)
      \<lparr>ch_content = Some ''<think></think>Hi'', ch_reasoning = None\<rparr>) = None"
  by code_simp+

text \<open>
  When updaters run at the next render, what \<open>stopGeneration\<close> flushes is discarded: the updater finds
  the generation already advanced.
\<close>

lemma flush_queue:
  "\<not> eager s \<Longrightarrow> queue (flushStreamUpdates g s) = queue s \<or> (\<exists>r c. queue (flushStreamUpdates g s) = queue s @ [Deferred (Flush_Update g r c)])"
  by (auto simp: flushStreamUpdates_def onMessageUpdate_def Let_def)

lemma stop_rendered:
  assumes "\<not> eager s"
  defines "g \<equiv> Suc (requestGeneration s)"
  shows "base (render (stopGeneration s)) =
     run_update g (clock s) (Stop_Update g) (fold (apply_queued g (clock s)) (queue s) (base s))"
proof -
  let ?y = "(abort_request (cancel True (discardPendingStreamUpdates g
      ((flushStreamUpdates (requestGeneration s) s)\<lparr>requestGeneration := g\<rparr>))))\<lparr>isRequesting := False\<rparr>"
  have y: "queue ?y = queue (flushStreamUpdates (requestGeneration s) s)" "base ?y = base s" "clock ?y = clock s"
    "requestGeneration ?y = g" "\<not> eager ?y"
    using assms by (simp_all add: cancel_def discardPendingStreamUpdates_def Let_def)
  have "stopGeneration s = onMessageUpdate (Stop_Update g) ?y"
    by (simp add: stopGeneration_def g_def Let_def)
  then have "base (render (stopGeneration s)) = run_update g (clock s) (Stop_Update g)
      (fold (apply_queued g (clock s)) (queue (flushStreamUpdates (requestGeneration s) s)) (base s))"
    using y by (simp add: render_def onMessageUpdate_def)
  moreover have "fold (apply_queued g (clock s)) (queue (flushStreamUpdates (requestGeneration s) s)) (base s)
      = fold (apply_queued g (clock s)) (queue s) (base s)"
    using flush_queue [OF assms(1), of "requestGeneration s"] by (auto simp: g_def)
  ultimately show ?thesis by simp
qed

lemma stop_drops_buffer:
  "\<not> eager s \<Longrightarrow> base (render (stopGeneration (s\<lparr>pendingStreamChunks := p\<rparr>))) = base (render (stopGeneration (s\<lparr>pendingStreamChunks := p'\<rparr>)))"
  by (simp add: stop_rendered)

text \<open>A stream that the server closes with status 200 and no final message is left waiting.\<close>

lemma closed_without_done: "on_readystatechange t i (Some 2) (Some 200) s = s" "on_error_event t i d (Some 2) s = s"
  by (simp_all add: on_readystatechange_def getStreamReadyStateError_def on_error_event_def isStreamClosedReadyState_def
      STREAM_CLOSED_READY_STATE_def)
end
