(* ===== verification/Json_Print.thy ===== *)
theory Json_Print
  imports Json
begin

text \<open>
  \<open>JSON.stringify(value)\<close> and \<open>JSON.stringify(value, null, 2)\<close>, and the theorem that parsing what was
  printed gives the value back. Both printers are one function of the line break at each depth and the
  separator after a key.
\<close>

section \<open>Printers\<close>

fun json_text :: "(nat \<Rightarrow> string) \<Rightarrow> string \<Rightarrow> nat \<Rightarrow> json \<Rightarrow> string" where
  "json_text nl sep d JNull = ''null''"
| "json_text nl sep d (JBool b) = (if b then ''true'' else ''false'')"
| "json_text nl sep d (JNum x) = dec_str x"
| "json_text nl sep d (JStr s) = json_quote s"
| "json_text nl sep d (JArr xs) =
     (if xs = [] then ''[]''
      else ''['' @ nl (Suc d) @ js_join ('','' @ nl (Suc d)) (map (json_text nl sep (Suc d)) xs) @ nl d @ '']'')"
| "json_text nl sep d (JObj fs) =
     (if fs = [] then ''{}''
      else ''{'' @ nl (Suc d)
        @ js_join ('','' @ nl (Suc d)) (map (\<lambda>kv. json_quote (fst kv) @ sep @ json_text nl sep (Suc d) (snd kv)) fs)
        @ nl d @ ''}'')"

definition json_stringify :: "json \<Rightarrow> string" where
  "json_stringify = json_text (\<lambda>_. []) '':'' 0"

definition json_stringify2 :: "json \<Rightarrow> string" where
  "json_stringify2 = json_text (\<lambda>d. CHR 0x0A # replicate (2 * d) (CHR '' '')) '': '' 0"

section \<open>Numbers\<close>

definition dec_ok :: "dec \<Rightarrow> bool" where
  "dec_ok d \<longleftrightarrow> dec_norm (mant d) (expo d) = d"

lemma dec_norm_0 [simp]: "dec_norm 0 e = Dec 0 0"
  by (simp add: dec_norm.simps)

lemma dec_norm_shift: "m \<noteq> 0 \<Longrightarrow> dec_norm (m * 10 ^ z) e = dec_norm m (e + int z)"
proof (induction z arbitrary: e)
  case (Suc z)
  have "dec_norm (m * 10 ^ z * 10) e = dec_norm (m * 10 ^ z) (e + 1)"
    using Suc.prems by (subst dec_norm.simps) simp
  then show ?case using Suc by (simp add: ac_simps)
qed simp

lemma dec_norm_ok: "dec_ok (dec_norm m e)"
proof (induction m e rule: dec_norm.induct)
  case (1 m e)
  then show ?case by (cases "m = 0"; cases "m mod 10 = 0") (simp_all add: dec_ok_def dec_norm.simps [of m e])
qed

lemma parse_dec_append: "parse_dec (a @ b) = parse_dec a * 10 ^ length b + parse_dec b"
proof (induction b rule: rev_induct)
  case (snoc c b)
  then show ?case by (simp add: parse_dec_snoc flip: append_assoc)
qed (simp add: parse_dec_def)

lemma parse_dec_zeros [simp]: "parse_dec (replicate n (CHR ''0'')) = 0"
  by (induction n) (simp_all add: parse_dec_def digit_val_def)

lemma nat_str_hd: "0 < n \<Longrightarrow> hd (nat_str n) \<noteq> CHR ''0''"
proof (induction n rule: less_induct)
  case (less n)
  show ?case
  proof (cases "n < 10")
    case True
    then have "n \<in> set [1..<10]" using less.prems by auto
    moreover have "\<forall>n \<in> set [1..<10]. digit_char n \<noteq> CHR ''0''" by code_simp
    ultimately show ?thesis using True by (simp add: nat_str.simps [of n] del: set_upt)
  next
    case False
    then show ?thesis using less.IH [of "n div 10"] by (simp add: nat_str.simps [of n])
  qed
qed


lemma takeWhile_digits:
  assumes "list_all is_digit a" "b = [] \<or> \<not> is_digit (hd b)"
  shows "takeWhile is_digit (a @ b) = a" "dropWhile is_digit (a @ b) = b"
  using assms by (induction a) (auto simp: takeWhile_eq_Nil_iff dropWhile_eq_self_iff)

lemma nat_str_all [simp]: "list_all is_digit (nat_str n)"
  using all_digits_nat_str [of n] by (simp add: all_digits_def)

lemma list_all_take_drop: "list_all P s \<Longrightarrow> list_all P (take n s) \<and> list_all P (drop n s)"
  by (auto simp: list_all_iff dest: in_set_takeD in_set_dropD)

lemma digit_zero [simp]: "is_digit (CHR ''0'')" "\<not> is_digit (CHR ''.'')" "\<not> is_digit (CHR ''e'')" "\<not> is_digit (CHR ''-'')" "\<not> is_digit (CHR ''+'')"
  by (simp_all add: is_digit_def)

text \<open>A printed number is sign, integer part, optional fraction, optional exponent.\<close>

definition num_shape :: "bool \<Rightarrow> string \<Rightarrow> string \<Rightarrow> int option \<Rightarrow> string" where
  "num_shape neg ip fp ex =
     (if neg then ''-'' else []) @ ip @ (if fp = [] then [] else ''.'' @ fp)
     @ (case ex of None \<Rightarrow> [] | Some x \<Rightarrow> ''e'' @ (if x < 0 then ''-'' else ''+'') @ nat_str (nat \<bar>x\<bar>))"

lemma lex_exp_shape:
  "lex_exp (case ex of None \<Rightarrow> [] | Some x \<Rightarrow> ''e'' @ (if x < 0 then ''-'' else ''+'') @ nat_str (nat \<bar>x\<bar>)) =
     Some (case ex of None \<Rightarrow> 0 | Some x \<Rightarrow> x)"
  by (auto simp: lex_exp_def split: option.splits)

lemma num_lexeme_shape:
  assumes "list_all is_digit ip" "ip \<noteq> []" "length ip > 1 \<longrightarrow> hd ip \<noteq> CHR ''0''" "list_all is_digit fp"
  shows "num_lexeme (num_shape neg ip fp ex) =
     Some (dec_norm ((if neg then - 1 else 1) * int (parse_dec (ip @ fp))) ((case ex of None \<Rightarrow> 0 | Some x \<Rightarrow> x) - int (length fp)))"
proof -
  let ?e = "case ex of None \<Rightarrow> [] | Some x \<Rightarrow> ''e'' @ (if x < 0 then ''-'' else ''+'') @ nat_str (nat \<bar>x\<bar>)"
  let ?f = "(if fp = [] then [] else ''.'' @ fp) @ ?e"
  let ?s = "num_shape neg ip fp ex"
  have e: "?e = [] \<or> \<not> is_digit (hd ?e)" "?e = [] \<or> hd ?e \<noteq> CHR ''.''" by (auto split: option.splits)
  have f: "?f = [] \<or> \<not> is_digit (hd ?f)" using e by auto
  have hd: "hd ip \<noteq> CHR ''-''" using assms(1,2) by (cases ip) auto
  have s: "(?s \<noteq> [] \<and> hd ?s = CHR ''-'') = neg" "(if neg then tl ?s else ?s) = ip @ ?f"
    using hd assms(2) by (auto simp: num_shape_def hd_append)
  have "lex_frac ?f = Some (fp, ?e)"
  proof (cases "fp = []")
    case True
    then show ?thesis using e(2) by (auto simp: lex_frac_def split: list.splits option.splits if_splits)
  next
    case False
    then show ?thesis using takeWhile_digits [OF assms(4) e(1)] by (simp add: lex_frac_def)
  qed
  then show ?thesis
    unfolding num_lexeme_def Let_def s takeWhile_digits [OF assms(1) f]
    using assms(2,3) by (simp add: lex_exp_shape)
qed

text \<open>The digits of a number that is not zero, with the decimal point where \<open>toString\<close> puts it.\<close>

definition dec_body :: "string \<Rightarrow> int \<Rightarrow> string" where
  "dec_body s e =
     (let k = int (length s); n = k + e
      in if k \<le> n \<and> n \<le> 21 then s @ replicate (nat (n - k)) (CHR ''0'')
         else if 0 < n \<and> n \<le> 21 then take (nat n) s @ ''.'' @ drop (nat n) s
         else if -6 < n \<and> n \<le> 0 then ''0.'' @ replicate (nat (- n)) (CHR ''0'') @ s
         else (let ex = (if n - 1 < 0 then ''-'' else ''+'') @ nat_str (nat \<bar>n - 1\<bar>)
               in if k = 1 then s @ ''e'' @ ex else take 1 s @ ''.'' @ drop 1 s @ ''e'' @ ex))"

lemma dec_str_body:
  "mant d \<noteq> 0 \<Longrightarrow> dec_str d = (if mant d < 0 then ''-'' else []) @ dec_body (nat_str (nat \<bar>mant d\<bar>)) (expo d)"
  by (simp add: dec_str_def dec_body_def Let_def)

lemma dec_body_shape:
  assumes "list_all is_digit s" "s \<noteq> []" "hd s \<noteq> CHR ''0''"
  shows "\<exists>ip fp ex. dec_body s e = num_shape False ip fp ex \<and> list_all is_digit ip \<and> ip \<noteq> []
     \<and> (length ip > 1 \<longrightarrow> hd ip \<noteq> CHR ''0'') \<and> list_all is_digit fp
     \<and> (\<exists>z. parse_dec (ip @ fp) = parse_dec s * 10 ^ z \<and> (case ex of None \<Rightarrow> 0 | Some x \<Rightarrow> x) - int (length fp) + int z = e)"
proof -
  let ?k = "int (length s)"
  let ?n = "?k + e"
  have k: "1 \<le> length s" using assms(2) by (cases s) auto
  consider (int) "?k \<le> ?n" "?n \<le> 21" | (mid) "?n < ?k" "0 < ?n" "?n \<le> 21"
    | (small) "-6 < ?n" "?n \<le> 0" | (exp) "?n \<le> -6 \<or> 21 < ?n" by linarith
  then show ?thesis
  proof cases
    case int
    then show ?thesis using assms
      by (intro exI [of _ "s @ replicate (nat e) (CHR ''0'')"] exI [of _ "[]"] exI [of _ None] conjI exI [of _ "nat e"])
        (auto simp: dec_body_def num_shape_def Let_def parse_dec_append list_all_iff)
  next
    case mid
    let ?i = "nat ?n"
    have i: "?i < length s" "0 < ?i" "int ?i = ?n" using mid by linarith+
    then show ?thesis using assms mid
      by (intro exI [of _ "take ?i s"] exI [of _ "drop ?i s"] exI [of _ None] conjI exI [of _ 0])
        (simp_all add: dec_body_def num_shape_def Let_def list_all_take_drop hd_take of_nat_diff)
  next
    case small
    let ?z = "replicate (nat (- ?n)) (CHR ''0'')"
    have "parse_dec (''0'' @ ?z @ s) = parse_dec s"
      by (simp only: parse_dec_append [of "''0''"] parse_dec_append [of ?z]) (simp add: parse_dec_def [of "''0''"] digit_val_def)
    then show ?thesis using assms small k
      by (intro exI [of _ "''0''"] exI [of _ "?z @ s"] exI [of _ None] conjI exI [of _ 0])
        (auto simp: dec_body_def num_shape_def Let_def list_all_iff)
  next
    case exp
    have "drop 1 s = [] \<longleftrightarrow> length s = 1" using k by auto
    then show ?thesis using assms exp k
      by (intro exI [of _ "take 1 s"] exI [of _ "drop 1 s"] exI [of _ "Some (?n - 1)"] conjI exI [of _ 0])
        (auto simp: dec_body_def num_shape_def Let_def list_all_take_drop hd_take of_nat_diff)
  qed
qed

lemma num_shape_neg: "(if neg then ''-'' else []) @ num_shape False ip fp ex = num_shape neg ip fp ex"
  by (simp add: num_shape_def)

lemma num_lexeme_dec_str:
  assumes "dec_ok d"
  shows "num_lexeme (dec_str d) = Some d"
proof (cases "mant d = 0")
  case True
  then have "d = Dec 0 0" using assms by (simp add: dec_ok_def)
  then show ?thesis by (simp, code_simp)
next
  case False
  let ?s = "nat_str (nat \<bar>mant d\<bar>)"
  obtain ip fp ex z where sh: "dec_body ?s (expo d) = num_shape False ip fp ex" "list_all is_digit ip" "ip \<noteq> []"
    "length ip > 1 \<longrightarrow> hd ip \<noteq> CHR ''0''" "list_all is_digit fp"
    "parse_dec (ip @ fp) = parse_dec ?s * 10 ^ z" "(case ex of None \<Rightarrow> 0 | Some x \<Rightarrow> x) - int (length fp) + int z = expo d"
    using dec_body_shape [of ?s "expo d"] nat_str_hd [of "nat \<bar>mant d\<bar>"] False by auto
  have "(if mant d < 0 then - 1 else 1) * int (parse_dec (ip @ fp)) = mant d * 10 ^ z"
    using sh(6) by auto
  then have "num_lexeme (dec_str d) = Some (dec_norm (mant d * 10 ^ z) ((case ex of None \<Rightarrow> 0 | Some x \<Rightarrow> x) - int (length fp)))"
    using num_lexeme_shape [OF sh(2-5), of "mant d < 0" ex] by (simp add: dec_str_body [OF False] sh(1) num_shape_neg)
  also have "dec_norm (mant d * 10 ^ z) ((case ex of None \<Rightarrow> 0 | Some x \<Rightarrow> x) - int (length fp)) = d"
    using dec_norm_shift [OF False, of z] sh(7) assms by (simp add: dec_ok_def)
  finally show ?thesis .
qed

section \<open>Numbers from text\<close>

definition ascii_lower :: "string \<Rightarrow> string" where
  "ascii_lower = map (\<lambda>c. if c \<in> set ''ABCDEFGHIJKLMNOPQRSTUVWXYZ'' then char_of (of_char c + 32 :: nat) else c)"

text \<open>\<open>Number(text)\<close>; \<open>None\<close> when it is not a finite number.\<close>

definition radix_number :: "nat \<Rightarrow> string \<Rightarrow> dec option" where
  "radix_number b ds =
     (if ds \<noteq> [] \<and> list_all (\<lambda>c. case hex_val c of Some v \<Rightarrow> v < b | None \<Rightarrow> False) ds
      then Some (of_int_dec (int (foldl (\<lambda>n c. b * n + the (hex_val c)) 0 ds))) else None)"

definition decimal_number :: "string \<Rightarrow> dec option" where
  "decimal_number t =
     (let neg = (t \<noteq> [] \<and> hd t = CHR ''-''); u = (if t \<noteq> [] \<and> (hd t = CHR ''-'' \<or> hd t = CHR ''+'') then tl t else t);
          ip = takeWhile is_digit u; r = dropWhile is_digit u;
          dot = (r \<noteq> [] \<and> hd r = CHR ''.''); fp = (if dot then takeWhile is_digit (tl r) else []);
          r2 = (if dot then dropWhile is_digit (tl r) else r)
      in if ip = [] \<and> fp = [] then None
         else map_option (\<lambda>ex. dec_norm ((if neg then -1 else 1) * int (parse_dec (ip @ fp))) (ex - int (length fp))) (lex_exp r2))"

definition str_number :: "string \<Rightarrow> dec option" where
  "str_number s =
     (let t = js_trim s; pre = ascii_lower (take 2 t)
      in if t = [] then Some (Dec 0 0)
         else if pre = ''0x'' then radix_number 16 (drop 2 t)
         else if pre = ''0o'' then radix_number 8 (drop 2 t)
         else if pre = ''0b'' then radix_number 2 (drop 2 t)
         else decimal_number t)"

section \<open>Lexing what was printed\<close>

definition delim :: "string \<Rightarrow> bool" where
  "delim s \<longleftrightarrow> s = [] \<or> (\<not> num_char (hd s) \<and> \<not> word_char (hd s))"

definition with_tokens :: "token list \<Rightarrow> token list option \<Rightarrow> token list option" where
  "with_tokens ts r = map_option ((@) ts) r"

lemma with_tokens_simps [simp]:
  "with_tokens [] r = r" "with_tokens (t # ts) r = cons_tok (Some t) (with_tokens ts r)"
  "with_tokens (ts @ us) r = with_tokens ts (with_tokens us r)"
  by (cases r; simp add: with_tokens_def cons_tok_def)+

lemma lex_open_end:
  "delim rest \<Longrightarrow> json_lex (LNum acc) rest = cons_tok (lex_flush (LNum acc)) (json_lex LStart rest)"
  "delim rest \<Longrightarrow> json_lex (LWord acc) rest = cons_tok (lex_flush (LWord acc)) (json_lex LStart rest)"
  by (cases rest; simp add: delim_def Let_def)+

lemma lex_open:
  "list_all num_char cs \<Longrightarrow> delim rest \<Longrightarrow>
     json_lex (LNum acc) (cs @ rest) = cons_tok (lex_flush (LNum (acc @ cs))) (json_lex LStart rest)"
  "list_all word_char cs \<Longrightarrow> delim rest \<Longrightarrow>
     json_lex (LWord acc) (cs @ rest) = cons_tok (lex_flush (LWord (acc @ cs))) (json_lex LStart rest)"
  by (induction cs arbitrary: acc) (simp_all add: lex_open_end del: lex_flush.simps)

lemma lex_ws: "list_all json_ws w \<Longrightarrow> json_lex LStart (w @ rest) = json_lex LStart rest"
  by (induction w) (simp_all add: lex_start_def Let_def)

lemma lex_punct: "punct c = Some t \<Longrightarrow> json_lex LStart (c # rest) = cons_tok (Some t) (json_lex LStart rest)"
proof -
  assume p: "punct c = Some t"
  then have "\<not> json_ws c" "c \<noteq> CHR 0x22" by (auto simp: punct_def json_ws_def split: if_splits)
  then show ?thesis using p by (simp add: lex_start_def Let_def)
qed

lemma lex_word:
  assumes "delim rest"
  shows "json_lex LStart (''null'' @ rest) = cons_tok (Some TNull) (json_lex LStart rest)"
    and "json_lex LStart (''true'' @ rest) = cons_tok (Some TTrue) (json_lex LStart rest)"
    and "json_lex LStart (''false'' @ rest) = cons_tok (Some TFalse) (json_lex LStart rest)"
proof -
  have st: "lex_start (CHR ''n'') = Some (None, LWord ''n'')" "lex_start (CHR ''t'') = Some (None, LWord ''t'')"
    "lex_start (CHR ''f'') = Some (None, LWord ''f'')" by code_simp+
  have "list_all word_char ''ull''" "list_all word_char ''rue''" "list_all word_char ''alse''" by code_simp+
  from this [THEN lex_open(2), OF assms] st
  show "json_lex LStart (''null'' @ rest) = cons_tok (Some TNull) (json_lex LStart rest)"
    "json_lex LStart (''true'' @ rest) = cons_tok (Some TTrue) (json_lex LStart rest)"
    "json_lex LStart (''false'' @ rest) = cons_tok (Some TFalse) (json_lex LStart rest)"
    by (simp_all add: Let_def word_token_def)
qed

lemma lex_number:
  assumes "c = CHR ''-'' \<or> is_digit c" "list_all num_char cs" "delim rest"
  shows "json_lex LStart ((c # cs) @ rest) = cons_tok (map_option TNum (num_lexeme (c # cs))) (json_lex LStart rest)"
proof -
  have "lex_start c = Some (None, LNum [c])"
    using assms(1) by (auto simp: lex_start_def json_ws_def punct_def is_digit_def)
  then show ?thesis using lex_open(1) [OF assms(2,3), of "[c]"] by (simp add: Let_def)
qed

lemma digits_num: "list_all is_digit s \<Longrightarrow> list_all num_char s"
  by (auto simp: list_all_iff num_char_def)

lemma num_shape_chars:
  assumes "list_all is_digit ip" "ip \<noteq> []" "list_all is_digit fp"
  shows "\<exists>c cs. num_shape neg ip fp ex = c # cs \<and> (c = CHR ''-'' \<or> is_digit c) \<and> list_all num_char cs"
proof -
  have "list_all num_char ip" "list_all num_char fp" "list_all num_char (nat_str n)" for n
    using assms digits_num by auto
  moreover have "num_char (CHR ''.'')" "num_char (CHR ''e'')" "num_char (CHR ''-'')" "num_char (CHR ''+'')" by code_simp+
  moreover obtain c cs where "ip = c # cs" using assms(2) by (cases ip) auto
  ultimately show ?thesis using assms(1) by (cases neg) (auto simp: num_shape_def split: option.splits)
qed

lemma lex_dec:
  assumes "dec_ok d" "delim rest"
  shows "json_lex LStart (dec_str d @ rest) = cons_tok (Some (TNum d)) (json_lex LStart rest)"
proof -
  have "\<exists>c cs. dec_str d = c # cs \<and> (c = CHR ''-'' \<or> is_digit c) \<and> list_all num_char cs"
  proof (cases "mant d = 0")
    case True
    then show ?thesis by (simp add: dec_str_def)
  next
    case False
    then obtain ip fp ex where "dec_body (nat_str (nat \<bar>mant d\<bar>)) (expo d) = num_shape False ip fp ex"
      "list_all is_digit ip" "ip \<noteq> []" "list_all is_digit fp"
      using dec_body_shape [of "nat_str (nat \<bar>mant d\<bar>)" "expo d"] nat_str_hd [of "nat \<bar>mant d\<bar>"] by auto
    then show ?thesis using num_shape_chars by (simp only: dec_str_body [OF False] num_shape_neg)
  qed
  then obtain c cs where c: "dec_str d = c # cs" "c = CHR ''-'' \<or> is_digit c" "list_all num_char cs" by blast
  show ?thesis using lex_number [OF c(2,3) assms(2)] num_lexeme_dec_str [OF assms(1)] by (simp only: c(1) option.map)
qed

fun tok_join :: "token list list \<Rightarrow> token list" where
  "tok_join [] = []"
| "tok_join [x] = x"
| "tok_join (x # y # ys) = x @ TComma # tok_join (y # ys)"

fun tokens_of :: "json \<Rightarrow> token list" where
  "tokens_of JNull = [TNull]"
| "tokens_of (JBool b) = [if b then TTrue else TFalse]"
| "tokens_of (JNum d) = [TNum d]"
| "tokens_of (JStr s) = [TStr s]"
| "tokens_of (JArr xs) = TLBrack # tok_join (map tokens_of xs) @ [TRBrack]"
| "tokens_of (JObj fs) = TLBrace # tok_join (map (\<lambda>kv. TStr (fst kv) # TColon # tokens_of (snd kv)) fs) @ [TRBrace]"

text \<open>Values as the parser builds them: normal numbers, keys in property order.\<close>

definition obj_ok :: "(string \<times> 'v) list \<Rightarrow> bool" where
  "obj_ok fs \<longleftrightarrow> fold (\<lambda>kv. obj_put (fst kv) (snd kv)) fs [] = fs"

fun json_wf :: "json \<Rightarrow> bool" where
  "json_wf (JNum d) = dec_ok d"
| "json_wf (JArr xs) = list_all json_wf xs"
| "json_wf (JObj fs) = (obj_ok fs \<and> list_all (\<lambda>kv. json_wf (snd kv)) fs)"
| "json_wf _ = True"

lemma delim_punct: "list_all json_ws w \<Longrightarrow> c \<in> set '',]}'' \<Longrightarrow> delim (w @ c # r)"
  by (cases w) (auto simp: delim_def json_ws_def num_char_def word_char_def is_digit_def)

lemma lex_join:
  assumes "\<And>x rest. x \<in> set xs \<Longrightarrow> delim rest \<Longrightarrow> json_lex LStart (f x @ rest) = with_tokens (g x) (json_lex LStart rest)"
    "list_all json_ws w" "delim rest"
  shows "json_lex LStart (js_join ('','' @ w) (map f xs) @ rest) = with_tokens (tok_join (map g xs)) (json_lex LStart rest)"
  using assms(1)
proof (induction xs rule: induct_list012)
  case (2 x)
  then show ?case using assms(3) by simp
next
  case (3 x y zs)
  let ?tail = "js_join ('','' @ w) (map f (y # zs)) @ rest"
  have "json_lex LStart (f x @ CHR '','' # w @ ?tail) = with_tokens (g x) (json_lex LStart (CHR '','' # w @ ?tail))"
    using 3(3) delim_punct [of "[]" "CHR '',''"] by simp
  also have "json_lex LStart (CHR '','' # w @ ?tail) = cons_tok (Some TComma) (json_lex LStart ?tail)"
    using lex_punct [of "CHR '',''" TComma] lex_ws [OF assms(2)] by (simp add: punct_def)
  also have "json_lex LStart ?tail = with_tokens (tok_join (map g (y # zs))) (json_lex LStart rest)"
    using 3 by simp
  finally show ?case by simp
qed simp

lemma lex_text:
  assumes "\<And>d. list_all json_ws (nl d)" "list_all json_ws w"
  shows "json_wf v \<Longrightarrow> delim rest \<Longrightarrow>
     json_lex LStart (json_text nl (CHR '':'' # w) d v @ rest) = with_tokens (tokens_of v) (json_lex LStart rest)"
proof (induction v arbitrary: d rest)
  case (JArr xs)
  show ?case
  proof (cases "xs = []")
    case True
    then show ?thesis using lex_punct [of "CHR ''[''" TLBrack] lex_punct [of "CHR '']''" TRBrack] by (simp add: punct_def)
  next
    case False
    have item: "json_lex LStart (json_text nl (CHR '':'' # w) (Suc d) x @ r) = with_tokens (tokens_of x) (json_lex LStart r)"
      if "x \<in> set xs" "delim r" for x r
      using JArr.IH [OF that(1) _ that(2)] JArr.prems(1) that(1) by (simp add: list_all_iff)
    have "delim (nl d @ CHR '']'' # rest)" using delim_punct assms(1) by simp
    then have "json_lex LStart (js_join ('','' @ nl (Suc d)) (map (json_text nl (CHR '':'' # w) (Suc d)) xs) @ nl d @ CHR '']'' # rest)
        = with_tokens (tok_join (map tokens_of xs)) (json_lex LStart (nl d @ CHR '']'' # rest))"
      using item assms(1) by (intro lex_join)
    then show ?thesis using False lex_punct [of "CHR ''[''" TLBrack] lex_punct [of "CHR '']''" TRBrack] lex_ws [OF assms(1)]
      by (simp add: punct_def)
  qed
next
  case (JObj fs)
  show ?case
  proof (cases "fs = []")
    case True
    then show ?thesis using lex_punct [of "CHR ''{''" TLBrace] lex_punct [of "CHR ''}''" TRBrace] by (simp add: punct_def)
  next
    case False
    let ?f = "\<lambda>kv. json_quote (fst kv) @ (CHR '':'' # w) @ json_text nl (CHR '':'' # w) (Suc d) (snd kv)"
    have item: "json_lex LStart (?f kv @ r) = with_tokens (TStr (fst kv) # TColon # tokens_of (snd kv)) (json_lex LStart r)"
      if "kv \<in> set fs" "delim r" for kv r
    proof -
      have "json_wf (snd kv)" using JObj.prems(1) that(1) by (auto simp: list_all_iff)
      then show ?thesis
        using JObj.IH [of kv "snd kv"] that lex_json_quote lex_punct [of "CHR '':''" TColon] lex_ws [OF assms(2)]
        by (simp add: punct_def snds.simps)
    qed
    have "delim (nl d @ CHR ''}'' # rest)" using delim_punct assms(1) by simp
    then have "json_lex LStart (js_join ('','' @ nl (Suc d)) (map ?f fs) @ nl d @ CHR ''}'' # rest)
        = with_tokens (tok_join (map (\<lambda>kv. TStr (fst kv) # TColon # tokens_of (snd kv)) fs)) (json_lex LStart (nl d @ CHR ''}'' # rest))"
      using item assms(1) by (intro lex_join)
    then show ?thesis using False lex_punct [of "CHR ''{''" TLBrace] lex_punct [of "CHR ''}''" TRBrace] lex_ws [OF assms(1)]
      by (simp add: punct_def)
  qed
next
  case JNull
  then show ?case using lex_word(1) by (simp only: json_text.simps tokens_of.simps with_tokens_simps)
next
  case (JBool b)
  then show ?case using lex_word(2,3) by (cases b) (simp_all only: json_text.simps tokens_of.simps with_tokens_simps if_True if_False)
qed (simp_all add: lex_dec lex_json_quote)

section \<open>Parsing what was lexed\<close>

lemma run_items:
  assumes "\<And>x m st ts. x \<in> set xs \<Longrightarrow> m \<in> {MVal, MArr0} \<Longrightarrow> json_run m st (tokens_of x @ ts) = json_run (MDone x) st ts"
    "xs \<noteq> []" "m \<in> {MVal, MArr0}"
  shows "json_run m (FArr acc # st) (tok_join (map tokens_of xs) @ TRBrack # ts) = json_run (MDone (JArr (acc @ xs))) st ts"
  using assms
proof (induction xs arbitrary: acc m rule: induct_list012)
  case (3 x y zs)
  then show ?case using 3(2) [of MVal "acc @ [x]"] 3(3) [of x m "FArr acc # st" "TComma # tok_join (map tokens_of (y # zs)) @ TRBrack # ts"]
    by simp
qed simp_all

lemma run_fields:
  assumes "\<And>kv st ts. kv \<in> set fs \<Longrightarrow> json_run MVal st (tokens_of (snd kv) @ ts) = json_run (MDone (snd kv)) st ts"
    "fs \<noteq> []" "m \<in> {MKey, MKey0}"
  shows "json_run m (FObj acc # st) (tok_join (map (\<lambda>kv. TStr (fst kv) # TColon # tokens_of (snd kv)) fs) @ TRBrace # ts) =
     json_run (MDone (JObj (fold (\<lambda>kv. obj_put (fst kv) (snd kv)) fs acc))) st ts"
  using assms
proof (induction fs arbitrary: acc m rule: induct_list012)
  case (3 x y zs)
  let ?tail = "tok_join (map (\<lambda>kv. TStr (fst kv) # TColon # tokens_of (snd kv)) (y # zs)) @ TRBrace # ts"
  have "json_run MKey (FObj (obj_put (fst x) (snd x) acc) # st) ?tail =
      json_run (MDone (JObj (fold (\<lambda>kv. obj_put (fst kv) (snd kv)) (y # zs) (obj_put (fst x) (snd x) acc)))) st ts"
    using 3(2) [of MKey "obj_put (fst x) (snd x) acc"] 3(3) by simp
  moreover have "json_run MVal (FKey acc (fst x) # st) (tokens_of (snd x) @ TComma # ?tail) =
      json_run (MDone (snd x)) (FKey acc (fst x) # st) (TComma # ?tail)"
    using 3(3) [of x] by simp
  ultimately show ?case using 3(5) by auto
qed auto

lemma run_tokens:
  "json_wf v \<Longrightarrow> m \<in> {MVal, MArr0} \<Longrightarrow> json_run m st (tokens_of v @ ts) = json_run (MDone v) st ts"
proof (induction v arbitrary: m st ts)
  case (JArr xs)
  then show ?case
    using run_items [of xs MArr0 "[]" st ts] by (cases "xs = []") (auto simp: list_all_iff)
next
  case (JObj fs)
  have "json_run MVal st (tokens_of (snd kv) @ ts) = json_run (MDone (snd kv)) st ts" if "kv \<in> set fs" for kv st ts
    using JObj that by (auto simp: list_all_iff snds.simps)
  then show ?case
    using run_fields [of fs MKey0 "[]" st ts] JObj.prems by (cases "fs = []") (auto simp: obj_ok_def)
qed auto

section \<open>Parsed values are well formed\<close>

lemma nat_str_0_hd: "hd (nat_str 0) = CHR ''0''"
  by code_simp

lemma nat_str_parse_dec:
  "all_digits k \<Longrightarrow> k = ''0'' \<or> hd k \<noteq> CHR ''0'' \<Longrightarrow> nat_str (parse_dec k) = k"
proof (induction k rule: rev_induct)
  case (snoc c k)
  have c: "is_digit c" using snoc.prems(1) by (simp add: all_digits_def)
  have "\<forall>c \<in> set ''0123456789''. digit_val c < 10 \<and> digit_char (digit_val c) = c" by code_simp
  then have dc: "digit_val c < 10" "digit_char (digit_val c) = c" using c unfolding is_digit_def by blast+
  show ?case
  proof (cases "k = []")
    case True
    then show ?thesis using dc by (simp add: parse_dec_def nat_str.simps [of "digit_val c"])
  next
    case False
    then have k: "all_digits k" "hd k \<noteq> CHR ''0''" using snoc.prems by (auto simp: all_digits_def hd_append)
    then have IH: "nat_str (parse_dec k) = k" using snoc.IH by simp
    then have "parse_dec k \<noteq> 0" using k False by (metis nat_str_0_hd)
    then show ?thesis using IH dc by (simp add: parse_dec_snoc nat_str.simps [of "10 * parse_dec k + digit_val c"])
  qed
qed (simp add: all_digits_def)

lemma is_index_inject: "is_index a \<Longrightarrow> is_index b \<Longrightarrow> parse_dec a = parse_dec b \<Longrightarrow> a = b"
  unfolding is_index_def by (metis nat_str_parse_dec)

definition key_before :: "string \<Rightarrow> string \<Rightarrow> bool" where
  "key_before a b \<longleftrightarrow> a \<noteq> b \<and> (is_index b \<longrightarrow> is_index a \<and> parse_dec a < parse_dec b)"

definition keys_ok :: "(string \<times> 'v) list \<Rightarrow> bool" where
  "keys_ok fs \<longleftrightarrow> sorted_wrt key_before (map fst fs)"

lemma keys_obj_put: "set (map fst (obj_put k v fs)) = insert k (set (map fst fs))"
  by (induction k v fs rule: obj_put.induct) (simp_all add: insert_commute)

lemma keys_ok_put: "keys_ok fs \<Longrightarrow> keys_ok (obj_put k v fs)"
proof (induction fs)
  case (Cons kv fs)
  obtain k' v' where kv: "kv = (k', v')" by (cases kv)
  have IH: "keys_ok (obj_put k v fs)" and rest: "\<forall>x \<in> set (map fst fs). key_before k' x" "keys_ok fs"
    using Cons by (auto simp: keys_ok_def kv)
  consider "k = k'" | "k \<noteq> k'" "is_index k \<and> (is_index k' \<longrightarrow> parse_dec k < parse_dec k')"
    | "k \<noteq> k'" "\<not> (is_index k \<and> (is_index k' \<longrightarrow> parse_dec k < parse_dec k'))" by blast
  then show ?case
  proof cases
    case 1
    then show ?thesis using Cons.prems by (simp add: keys_ok_def kv)
  next
    case 2
    then have "key_before k x" if "x \<in> insert k' (set (map fst fs))" for x
      using that rest(1) by (force simp: key_before_def)
    then show ?thesis using 2 Cons.prems by (auto simp: keys_ok_def kv)
  next
    case 3
    then have "key_before k' k" using is_index_inject [of k k'] by (auto simp: key_before_def not_less le_less)
    then show ?thesis using 3 IH rest(1) keys_obj_put [of k v fs] by (auto simp: keys_ok_def kv)
  qed
qed (simp add: keys_ok_def)

lemma keys_put_set: "fst ` set (obj_put k v o1) = insert k (fst ` set o1)"
  using keys_obj_put [of k v o1] by simp

lemma obj_put_nonempty: "obj_put k v o1 \<noteq> []"
  by (cases o1) (auto split: if_splits)

lemma keys_ok_distinct: "keys_ok fs \<Longrightarrow> distinct (map fst fs)"
proof -
  have "sorted_wrt key_before ks \<Longrightarrow> distinct ks" for ks by (induction ks) (auto simp: key_before_def)
  then show "keys_ok fs \<Longrightarrow> distinct (map fst fs)" by (simp add: keys_ok_def)
qed

lemma keys_ok_filter: "keys_ok fs \<Longrightarrow> keys_ok (filter P fs)"
  by (induction fs) (auto simp: keys_ok_def)

lemma set_obj_put: "set (obj_put k v o1) \<subseteq> insert (k, v) (set o1)"
  by (induction o1) (auto split: if_splits)

lemma del_simps [simp]: "map_of (obj_del k o1) = (map_of o1)(k := None)" "fst ` set (obj_del k o1) = fst ` set o1 - {k}"
proof -
  show "map_of (obj_del k o1) = (map_of o1)(k := None)" by (induction o1) (auto simp: obj_del_def fun_eq_iff)
  show "fst ` set (obj_del k o1) = fst ` set o1 - {k}" by (auto simp: obj_del_def)
qed

lemma keys_ok_del: "keys_ok o1 \<Longrightarrow> keys_ok (obj_del k o1)"
  by (simp add: obj_del_def keys_ok_filter)

lemma obj_put_same: "map_of o1 k = Some v \<Longrightarrow> keys_ok o1 \<Longrightarrow> obj_put k v o1 = o1"
proof (induction o1)
  case (Cons p o1)
  obtain k' v' where p: "p = (k', v')" by (cases p)
  show ?case
  proof (cases "k = k'")
    case False
    then have "map_of o1 k = Some v" using Cons.prems(1) p by simp
    then have "key_before k' k" using Cons.prems(2) p by (auto simp: keys_ok_def dest!: map_of_SomeD)
    then show ?thesis using False Cons p by (auto simp: key_before_def keys_ok_def)
  qed (use Cons.prems p in simp)
qed simp

lemma obj_del_absent: "map_of o1 k = None \<Longrightarrow> obj_del k o1 = o1"
  by (auto simp: obj_del_def map_of_eq_None_iff filter_id_conv)

lemma obj_put_last: "\<forall>x \<in> set (map fst fs). key_before x k \<Longrightarrow> obj_put k v fs = fs @ [(k, v)]"
  by (induction fs) (auto simp: key_before_def)

lemma fold_put_ok: "keys_ok (acc @ fs) \<Longrightarrow> fold (\<lambda>kv. obj_put (fst kv) (snd kv)) fs acc = acc @ fs"
proof (induction fs arbitrary: acc)
  case (Cons kv fs)
  then have "obj_put (fst kv) (snd kv) acc = acc @ [kv]"
    by (subst obj_put_last) (auto simp: keys_ok_def sorted_wrt_append)
  then show ?case using Cons by simp
qed simp

lemma obj_ok_iff: "obj_ok fs \<longleftrightarrow> keys_ok fs"
proof
  have "keys_ok acc \<Longrightarrow> keys_ok (fold (\<lambda>kv. obj_put (fst kv) (snd kv)) fs acc)" for acc
    by (induction fs arbitrary: acc) (simp_all add: keys_ok_put)
  from this [of "[]"] show "obj_ok fs \<Longrightarrow> keys_ok fs" by (simp add: obj_ok_def keys_ok_def)
next
  show "keys_ok fs \<Longrightarrow> obj_ok fs" using fold_put_ok [of "[]" fs] by (simp add: obj_ok_def)
qed

fun token_ok :: "token \<Rightarrow> bool" where
  "token_ok (TNum d) = dec_ok d"
| "token_ok _ = True"

lemma num_lexeme_ok: "num_lexeme s = Some d \<Longrightarrow> dec_ok d"
  by (auto simp: num_lexeme_def Let_def dec_norm_ok split: if_splits option.splits)

lemma flush_ok: "lex_flush st = Some t \<Longrightarrow> token_ok t"
  by (cases st) (auto simp: word_token_def num_lexeme_ok split: if_splits)

lemma cons_tok_Some: "cons_tok t r = Some ts \<longleftrightarrow> (\<exists>u us. t = Some u \<and> r = Some us \<and> ts = u # us)"
  by (auto simp: cons_tok_def split: option.splits)

lemma start_ok: "lex_start c = Some (Some t, st) \<Longrightarrow> token_ok t"
  by (auto simp: lex_start_def punct_def split: if_splits)

lemma lex_ok: "json_lex st s = Some ts \<Longrightarrow> list_all token_ok ts"
proof (induction s arbitrary: st ts)
  case Nil
  then show ?case by (cases st) (auto simp: cons_tok_Some dest: flush_ok simp del: lex_flush.simps)
next
  case (Cons c s)
  have start: "list_all token_ok us"
    if "(case lex_start c of None \<Rightarrow> None | Some (None, st') \<Rightarrow> json_lex st' s | Some (Some t, st') \<Rightarrow> cons_tok (Some t) (json_lex st' s)) = Some us" for us
    using that Cons.IH start_ok [of c] by (auto simp: cons_tok_Some split: option.splits)
  show ?case
    using Cons.prems Cons.IH start
    by (cases st) (auto simp: cons_tok_Some Let_def dest: flush_ok split: if_splits option.splits simp del: lex_flush.simps)
qed

fun frame_ok :: "frame \<Rightarrow> bool" where
  "frame_ok (FArr xs) = list_all json_wf xs"
| "frame_ok (FObj o1) = json_wf (JObj o1)"
| "frame_ok (FKey o1 k) = json_wf (JObj o1)"

fun mode_ok :: "mode \<Rightarrow> bool" where
  "mode_ok (MDone v) = json_wf v"
| "mode_ok _ = True"

lemma wf_put: "json_wf (JObj fs) \<Longrightarrow> json_wf v \<Longrightarrow> json_wf (JObj (obj_put k v fs))"
proof -
  assume "json_wf (JObj fs)" "json_wf v"
  moreover have "kv \<in> set (obj_put k v fs) \<Longrightarrow> kv = (k, v) \<or> kv \<in> set fs" for kv
    by (induction fs) (auto split: if_splits)
  ultimately show ?thesis by (fastforce simp: obj_ok_iff keys_ok_put list_all_iff)
qed

lemma wf_empty: "json_wf (JObj [])"
  by (simp add: obj_ok_def)

lemma scalar_ok: "token_ok t \<Longrightarrow> scalar t = Some v \<Longrightarrow> json_wf v"
  by (cases t) auto

lemma run_ok:
  "json_run m st ts = Some v \<Longrightarrow> list_all token_ok ts \<Longrightarrow> mode_ok m \<Longrightarrow> list_all frame_ok st \<Longrightarrow> json_wf v"
proof (induction m st ts rule: json_run.induct)
qed (auto simp: wf_put wf_empty simp del: json_wf.simps(3) dest: scalar_ok split: if_splits list.splits frame.splits token.splits option.splits)

lemma json_parse_wf: "json_parse s = Some v \<Longrightarrow> json_wf v"
  by (auto simp: json_parse_def bind_eq_Some_conv dest: lex_ok intro: run_ok)

section \<open>The text of a number\<close>

lemma num_char_visible: "num_char c \<Longrightarrow> visible c"
  by (auto simp: num_char_def is_digit_def visible_def)

lemma dec_str_chars: "\<exists>c cs. dec_str d = c # cs \<and> visible c \<and> list_all num_char cs"
proof (cases "mant d = 0")
  case True
  then show ?thesis by (simp add: dec_str_def visible_def)
next
  case False
  then obtain ip fp ex where "dec_body (nat_str (nat \<bar>mant d\<bar>)) (expo d) = num_shape False ip fp ex"
    "list_all is_digit ip" "ip \<noteq> []" "list_all is_digit fp"
    using dec_body_shape [of "nat_str (nat \<bar>mant d\<bar>)" "expo d"] nat_str_hd [of "nat \<bar>mant d\<bar>"] by auto
  then obtain c cs where "dec_str d = c # cs" "c = CHR ''-'' \<or> is_digit c" "list_all num_char cs"
    using num_shape_chars by (simp only: dec_str_body [OF False] num_shape_neg) blast
  then show ?thesis by (auto simp: num_char_visible num_char_def)
qed

lemma dec_str_visible: "dec_str d \<noteq> []" "visible (hd (dec_str d))" "visible (last (dec_str d))"
  using dec_str_chars [of d] num_char_visible by (auto simp: list_all_iff)

lemma lex_frac_dot:
  "lex_frac r =
     (if r \<noteq> [] \<and> hd r = CHR ''.''
      then if takeWhile is_digit (tl r) = [] then None else Some (takeWhile is_digit (tl r), dropWhile is_digit (tl r))
      else Some ([], r))"
  by (cases r) (auto simp: lex_frac_def Let_def split: char.splits bool.splits)

lemma lexeme_decimal: "num_lexeme s = Some d \<Longrightarrow> decimal_number s = Some d"
proof -
  assume a: "num_lexeme s = Some d"
  have plus: "\<not> (s \<noteq> [] \<and> hd s = CHR ''+'')" using a by (cases s) (auto simp: num_lexeme_def Let_def)
  show "decimal_number s = Some d"
    using a plus unfolding decimal_number_def num_lexeme_def Let_def lex_frac_dot by (auto split: option.splits if_splits)
qed

lemma number_prefix: "num_char e \<Longrightarrow> ascii_lower [c, e] \<notin> {''0x'', ''0o'', ''0b''}"
proof -
  define low where "low = (\<lambda>c. if c \<in> set ''ABCDEFGHIJKLMNOPQRSTUVWXYZ'' then char_of (of_char c + 32 :: nat) else c)"
  have "list_all (\<lambda>c. low c \<noteq> CHR ''x'' \<and> low c \<noteq> CHR ''o'' \<and> low c \<noteq> CHR ''b'') ''0123456789-+.eE''"
    unfolding low_def by code_simp
  moreover assume "num_char e"
  then have "e \<in> set ''0123456789-+.eE''" by (auto simp: num_char_def is_digit_def)
  ultimately show ?thesis unfolding list_all_iff ascii_lower_def low_def [symmetric] by auto
qed

lemma str_number_dec_str: "dec_ok d \<Longrightarrow> str_number (dec_str d) = Some d"
proof -
  assume ok: "dec_ok d"
  obtain c cs where s: "dec_str d = c # cs" "visible c" "list_all num_char cs" using dec_str_chars by blast
  have trim: "js_trim (dec_str d) = dec_str d"
    using dec_str_visible [of d] by (intro trim_trimmed trimmed_visible_ends) simp
  have pre: "ascii_lower (take 2 (dec_str d)) \<notin> {''0x'', ''0o'', ''0b''}"
  proof (cases cs)
    case (Cons e es)
    then show ?thesis using s number_prefix [of e c] by (simp add: numeral_2_eq_2)
  qed (simp add: s ascii_lower_def)
  have "decimal_number (dec_str d) = Some d" using lexeme_decimal num_lexeme_dec_str ok by blast
  then show "str_number (dec_str d) = Some d"
    unfolding str_number_def Let_def trim using pre by (simp only: insert_iff de_Morgan_disj if_False) (simp add: s)
qed

section \<open>Round trip\<close>

lemma json_parse_text:
  assumes "json_wf v" "\<And>d. list_all json_ws (nl d)" "list_all json_ws w"
  shows "json_parse (json_text nl (CHR '':'' # w) 0 v) = Some v"
  using lex_text [OF assms(2,3,1), where rest = "[]" and d = 0] run_tokens [OF assms(1), of MVal "[]" "[]"]
  by (simp add: json_parse_def delim_def with_tokens_def)

lemma json_parse_stringify: "json_wf v \<Longrightarrow> json_parse (json_stringify v) = Some v"
  using json_parse_text [of v "\<lambda>_. []" "[]"] by (simp add: json_stringify_def)

lemma json_parse_stringify2: "json_wf v \<Longrightarrow> json_parse (json_stringify2 v) = Some v"
  using json_parse_text [of v "\<lambda>d. CHR 0x0A # replicate (2 * d) (CHR '' '')" "'' ''"]
  by (simp add: json_stringify2_def json_ws_def list_all_iff)

end
