(* ===== verification/Param_Override.thy ===== *)
theory Param_Override
  imports Json_Print
begin

text \<open>
  The parameter override editor of a channel: the state and the conversions of
  \<open>web/src/features/channels/components/dialogs/param-override-editor-dialog.tsx\<close>. The stored value is a
  JSON text; the visual editor shows its operations as a list and writes them back.

  Objects of the source typed \<open>Record<string, unknown>\<close> are JSON values. Reading a property of \<open>null\<close>
  throws; a function that may do so returns \<open>None\<close>. Local identifiers come from a counter that is threaded
  through (\<open>localIdSeed\<close>), with the time of their creation as argument. Upper and lower case matter only in
  comparisons with ASCII words that no other letter is mapped to, so only ASCII letters are converted.
\<close>

section \<open>Types and tables\<close>

record po_condition =
  co_id :: string
  co_path :: string
  co_mode :: string
  co_value_text :: string
  co_invert :: bool
  co_pass_missing_key :: bool

record po_operation =
  po_id :: string
  po_description :: string
  po_path :: string
  po_mode :: string
  po_from :: string
  po_to :: string
  po_value_text :: string
  po_keep_origin :: bool
  po_logic :: string
  po_conditions :: "po_condition list"

definition OPERATION_MODE_OPTIONS :: "(string \<times> string) list" where
  "OPERATION_MODE_OPTIONS =
     [(''set'', ''Set Field''), (''delete'', ''Delete Field''), (''append'', ''Append to End''),
      (''prepend'', ''Prepend to Start''), (''copy'', ''Copy Field''), (''move'', ''Move Field''),
      (''replace'', ''String Replace''), (''regex_replace'', ''Regex Replace''), (''trim_prefix'', ''Trim Prefix''),
      (''trim_suffix'', ''Trim Suffix''), (''ensure_prefix'', ''Ensure Prefix''), (''ensure_suffix'', ''Ensure Suffix''),
      (''trim_space'', ''Trim Space''), (''to_lower'', ''To Lowercase''), (''to_upper'', ''To Uppercase''),
      (''return_error'', ''Return Custom Error''), (''prune_objects'', ''Prune Object Items''),
      (''pass_headers'', ''Pass Through Headers''), (''sync_fields'', ''Sync Fields''),
      (''set_header'', ''Set Request Header''), (''delete_header'', ''Delete Request Header''),
      (''copy_header'', ''Copy Request Header''), (''move_header'', ''Move Request Header'')]"

definition OPERATION_MODE_VALUES :: "string list" where
  "OPERATION_MODE_VALUES = map fst OPERATION_MODE_OPTIONS"

definition CONDITION_MODE_VALUES :: "string list" where
  "CONDITION_MODE_VALUES =
     [''full'', ''prefix'', ''suffix'', ''contains'', ''gt'', ''gte'', ''lt'', ''lte'']"

record mode_meta =
  mm_path :: bool
  mm_pathOptional :: bool
  mm_value :: bool
  mm_from :: bool
  mm_to :: bool
  mm_keepOrigin :: bool
  mm_pathAlias :: bool

abbreviation meta :: "bool \<Rightarrow> bool \<Rightarrow> bool \<Rightarrow> bool \<Rightarrow> bool \<Rightarrow> bool \<Rightarrow> bool \<Rightarrow> mode_meta" where
  "meta p po v f t k a \<equiv> \<lparr>mm_path = p, mm_pathOptional = po, mm_value = v, mm_from = f, mm_to = t, mm_keepOrigin = k, mm_pathAlias = a\<rparr>"

definition MODE_META :: "(string \<times> mode_meta) list" where
  "MODE_META =
     [(''delete'', meta True False False False False False False),
      (''set'', meta True False True False False True False),
      (''append'', meta True False True False False True False),
      (''prepend'', meta True False True False False True False),
      (''copy'', meta False False False True True False False),
      (''move'', meta False False False True True False False),
      (''replace'', meta True False False True False False False),
      (''regex_replace'', meta True False False True False False False),
      (''trim_prefix'', meta True False True False False False False),
      (''trim_suffix'', meta True False True False False False False),
      (''ensure_prefix'', meta True False True False False False False),
      (''ensure_suffix'', meta True False True False False False False),
      (''trim_space'', meta True False False False False False False),
      (''to_lower'', meta True False False False False False False),
      (''to_upper'', meta True False False False False False False),
      (''return_error'', meta False False True False False False False),
      (''prune_objects'', meta False True True False False False False),
      (''pass_headers'', meta False False True False False True False),
      (''sync_fields'', meta False False False True True False False),
      (''set_header'', meta True False True False False True False),
      (''delete_header'', meta True False False False False False False),
      (''copy_header'', meta False False False True True True True),
      (''move_header'', meta False False False True True True True)]"

definition mode_of :: "po_operation \<Rightarrow> string" where
  "mode_of operation = str_or (po_mode operation) ''set''"

text \<open>\<open>MODE_META[mode] || MODE_META.set\<close>.\<close>

definition meta_of :: "string \<Rightarrow> mode_meta" where
  "meta_of mode = (case map_of MODE_META mode of Some m \<Rightarrow> m | None \<Rightarrow> meta True False True False False True False)"

definition VALUE_REQUIRED_MODES :: "string list" where
  "VALUE_REQUIRED_MODES =
     [''trim_prefix'', ''trim_suffix'', ''ensure_prefix'', ''ensure_suffix'', ''set_header'', ''return_error'',
      ''prune_objects'', ''pass_headers'']"

definition FROM_REQUIRED_MODES :: "string list" where
  "FROM_REQUIRED_MODES =
     [''copy'', ''move'', ''replace'', ''regex_replace'', ''copy_header'', ''move_header'', ''sync_fields'']"

definition TO_REQUIRED_MODES :: "string list" where
  "TO_REQUIRED_MODES = [''copy'', ''move'', ''copy_header'', ''move_header'', ''sync_fields'']"

section \<open>Helpers\<close>

definition nextLocalId :: "int \<Rightarrow> nat \<Rightarrow> string" where
  "nextLocalId now localIdSeed = ''po_'' @ int_str now @ ''_'' @ nat_str localIdSeed"

definition toValueText :: "json option \<Rightarrow> string" where
  "toValueText value = (case value of None \<Rightarrow> [] | Some (JStr s) \<Rightarrow> s | Some v \<Rightarrow> json_stringify v)"

definition parseLooseValue :: "string \<Rightarrow> json" where
  "parseLooseValue valueText =
     (let raw = js_trim valueText
      in if raw = [] then JStr [] else (case json_parse raw of Some v \<Rightarrow> v | None \<Rightarrow> JStr raw))"

definition verifyJSON :: "string \<Rightarrow> bool" where
  "verifyJSON text \<longleftrightarrow> json_parse text \<noteq> None"

text \<open>Truthiness of a property, and \<open>String(value || d)\<close>.\<close>

fun json_truthy :: "json option \<Rightarrow> bool" where
  "json_truthy None = False"
| "json_truthy (Some JNull) = False"
| "json_truthy (Some (JBool b)) = b"
| "json_truthy (Some (JNum d)) = (mant d \<noteq> 0)"
| "json_truthy (Some (JStr s)) = (s \<noteq> [])"
| "json_truthy (Some _) = True"

definition string_or :: "json option \<Rightarrow> string \<Rightarrow> string" where
  "string_or v d = (if json_truthy v then json_string (the v) else d)"

definition ascii_upper :: "string \<Rightarrow> string" where
  "ascii_upper = map (\<lambda>c. if c \<in> set ''abcdefghijklmnopqrstuvwxyz'' then char_of (of_char c - 32 :: nat) else c)"

definition true_prop :: "json \<Rightarrow> string \<Rightarrow> bool" where
  "true_prop v k \<longleftrightarrow> jget v k = Some (JBool True)"

definition mode_prop :: "string list \<Rightarrow> string \<Rightarrow> json \<Rightarrow> string" where
  "mode_prop modes d v =
     (case jget v ''mode'' of Some (JStr s) \<Rightarrow> if s \<in> set modes then s else d | _ \<Rightarrow> d)"

text \<open>The argument is an array item; the property reads throw when it is \<open>null\<close>.\<close>

definition po_normalizeCondition :: "int \<Rightarrow> nat \<Rightarrow> json \<Rightarrow> (po_condition \<times> nat) option" where
  "po_normalizeCondition now seed condition =
     (if condition = JNull then None
      else Some (\<lparr>co_id = nextLocalId now seed, co_path = opt_str (str_prop condition ''path''),
             co_mode = mode_prop CONDITION_MODE_VALUES ''full'' condition,
             co_value_text = toValueText (jget condition ''value''), co_invert = true_prop condition ''invert'',
             co_pass_missing_key = true_prop condition ''pass_missing_key''\<rparr>, Suc seed))"

text \<open>\<open>items.map(f)\<close> where \<open>f\<close> uses the counter and may throw.\<close>

fun map_seed :: "(nat \<Rightarrow> json \<Rightarrow> ('a \<times> nat) option) \<Rightarrow> nat \<Rightarrow> json list \<Rightarrow> ('a list \<times> nat) option" where
  "map_seed f seed [] = Some ([], seed)"
| "map_seed f seed (x # xs) =
     (case f seed x of
        None \<Rightarrow> None
      | Some (y, seed1) \<Rightarrow>
          (case map_seed f seed1 xs of None \<Rightarrow> None | Some (ys, seed2) \<Rightarrow> Some (y # ys, seed2)))"

definition logic_prop :: "json \<Rightarrow> string" where
  "logic_prop v = (if ascii_upper (string_or (jget v ''logic'') ''OR'') = ''AND'' then ''AND'' else ''OR'')"

definition normalizeOperation :: "int \<Rightarrow> nat \<Rightarrow> json \<Rightarrow> (po_operation \<times> nat) option" where
  "normalizeOperation now seed operation =
     (if operation = JNull then None
      else (case map_seed (po_normalizeCondition now) (Suc seed)
              (case jget operation ''conditions'' of Some (JArr cs) \<Rightarrow> cs | _ \<Rightarrow> []) of
          None \<Rightarrow> None
        | Some (conds, seed') \<Rightarrow>
            Some (\<lparr>po_id = nextLocalId now seed, po_description = opt_str (str_prop operation ''description''),
               po_path = opt_str (str_prop operation ''path''),
               po_mode = mode_prop OPERATION_MODE_VALUES ''set'' operation,
               po_from = opt_str (str_prop operation ''from''), po_to = opt_str (str_prop operation ''to''),
               po_value_text = toValueText (jget operation ''value''),
               po_keep_origin = true_prop operation ''keep_origin'',
               po_logic = logic_prop operation, po_conditions = conds\<rparr>, seed')))"

definition createDefaultOperation :: "int \<Rightarrow> nat \<Rightarrow> po_operation" where
  "createDefaultOperation now seed = fst (the (normalizeOperation now seed (JObj [(''mode'', JStr ''set'')])))"

definition createDefaultCondition :: "int \<Rightarrow> nat \<Rightarrow> po_condition" where
  "createDefaultCondition now seed = fst (the (po_normalizeCondition now seed (JObj [])))"

datatype drop_position = Before | After

fun index_of :: "('a \<Rightarrow> bool) \<Rightarrow> 'a list \<Rightarrow> nat option" where
  "index_of P [] = None"
| "index_of P (x # xs) = (if P x then Some 0 else map_option Suc (index_of P xs))"

definition reorderOperations :: "po_operation list \<Rightarrow> string \<Rightarrow> string \<Rightarrow> drop_position \<Rightarrow> po_operation list" where
  "reorderOperations ops sourceId targetId position =
     (if sourceId = [] \<or> targetId = [] \<or> sourceId = targetId then ops
      else (case index_of (\<lambda>o1. po_id o1 = sourceId) ops of
          None \<Rightarrow> ops
        | Some srcIdx \<Rightarrow>
            (let next = take srcIdx ops @ drop (Suc srcIdx) ops; moved = ops ! srcIdx
             in case index_of (\<lambda>o1. po_id o1 = targetId) next of
                  None \<Rightarrow> ops
                | Some i \<Rightarrow>
                    (let insertIdx = (if position = After then i + 1 else i)
                     in take insertIdx next @ [moved] @ drop insertIdx next))))"

definition isOperationBlank :: "po_operation \<Rightarrow> bool" where
  "isOperationBlank operation \<longleftrightarrow>
     po_mode operation = ''set'' \<and> js_trim (po_path operation) = [] \<and> js_trim (po_from operation) = []
     \<and> js_trim (po_to operation) = [] \<and> js_trim (po_value_text operation) = [] \<and> \<not> po_keep_origin operation
     \<and> \<not> list_ex (\<lambda>c. js_trim (co_path c) \<noteq> [] \<or> js_trim (co_value_text c) \<noteq> [] \<or> co_mode c \<noteq> ''full''
          \<or> co_invert c \<or> co_pass_missing_key c) (po_conditions operation)"

definition getOperationSummary :: "po_operation \<Rightarrow> nat \<Rightarrow> string" where
  "getOperationSummary operation index =
     (let mode = mode_of operation;
          modeLabel = (case map_of OPERATION_MODE_OPTIONS mode of Some l \<Rightarrow> str_or l mode | None \<Rightarrow> mode);
          path = js_trim (po_path operation); from = js_trim (po_from operation); to = js_trim (po_to operation);
          tail = (if mode = ''sync_fields'' then str_or from (str_or to ''-'') else str_or path (str_or from (str_or to ''-'')))
      in nat_str (index + 1) @ ''. '' @ modeLabel @ [CHR '' '', CHR 0xC2, CHR 0xB7, CHR '' ''] @ tail)"

fun split_colon :: "string \<Rightarrow> (string \<times> string) option" where
  "split_colon [] = None"
| "split_colon (c # s) =
     (if c = CHR '':'' then Some ([], s) else map_option (\<lambda>(a, b). (c # a, b)) (split_colon s))"

text \<open>The type and the key of a sync target.\<close>

definition parseSyncTargetSpec :: "string \<Rightarrow> string \<times> string" where
  "parseSyncTargetSpec spec =
     (let raw = js_trim spec
      in if raw = [] then (''json'', [])
         else (case split_colon raw of
             None \<Rightarrow> (''json'', raw)
           | Some (a, b) \<Rightarrow>
               (if ascii_lower (js_trim a) = ''header'' then ''header'' else ''json'', js_trim b)))"

definition buildSyncTargetSpec :: "string \<Rightarrow> string \<Rightarrow> string" where
  "buildSyncTargetSpec type key =
     (let normalizedKey = js_trim key
      in if normalizedKey = [] then []
         else (if type = ''header'' then ''header'' else ''json'') @ '':'' @ normalizedKey)"

section \<open>Header names and conditions\<close>

text \<open>\<open>String(i ?? '').trim()\<close>.\<close>

definition item_text :: "json \<Rightarrow> string" where
  "item_text i = (if i = JNull then [] else js_trim (json_string i))"

definition parsePassHeaderNames :: "json \<Rightarrow> string list" where
  "parsePassHeaderNames rawValue =
     (case rawValue of
        JArr xs \<Rightarrow> filter truthy (map item_text xs)
      | JObj fs \<Rightarrow>
          (case map_of fs ''headers'' of
             Some (JArr hs) \<Rightarrow> filter truthy (map item_text hs)
           | _ \<Rightarrow>
               (case map_of fs ''header'' of
                  Some h \<Rightarrow> filter truthy [item_text h]
                | None \<Rightarrow> []))
      | JStr s \<Rightarrow> filter truthy (map js_trim (js_split (CHR '','') s))
      | _ \<Rightarrow> [])"

text \<open>A payload is an object under construction; \<open>put_if\<close> is a guarded assignment to a property.\<close>

definition put_if :: "bool \<Rightarrow> string \<Rightarrow> json \<Rightarrow> (string \<times> json) list \<Rightarrow> (string \<times> json) list" where
  "put_if b k v fs = (if b then obj_put k v fs else fs)"

definition buildConditionPayload :: "po_condition \<Rightarrow> json option" where
  "buildConditionPayload condition =
     (let path = js_trim (co_path condition)
      in if path = [] then None
         else Some (JObj (put_if (co_pass_missing_key condition) ''pass_missing_key'' (JBool True)
           (put_if (co_invert condition) ''invert'' (JBool True)
             [(''path'', JStr path), (''mode'', JStr (str_or (co_mode condition) ''full'')),
              (''value'', parseLooseValue (co_value_text condition))]))))"

section \<open>Validation\<close>

text \<open>The message of an operation, by its key; \<open>None\<close> when it is complete.\<close>

definition operation_error :: "po_operation \<Rightarrow> string option" where
  "operation_error op =
     (let mode = mode_of op; mt = meta_of mode; pathValue = js_trim (po_path op); fromValue = js_trim (po_from op);
          toValue = js_trim (po_to op); raw = js_trim (po_value_text op)
      in if mm_path mt \<and> pathValue = [] then Some ''Rule {{line}} is missing target path''
         else if mode \<in> set FROM_REQUIRED_MODES \<and> fromValue = [] \<and> \<not> (mm_pathAlias mt \<and> pathValue \<noteq> [])
         then Some ''Rule {{line}} is missing source field''
         else if mode \<in> set TO_REQUIRED_MODES \<and> toValue = [] \<and> \<not> (mm_pathAlias mt \<and> pathValue \<noteq> [])
         then Some ''Rule {{line}} is missing target field''
         else if mode \<in> set VALUE_REQUIRED_MODES \<and> raw = [] then Some ''Rule {{line}} is missing value''
         else if mode = ''return_error'' then
           (if raw = [] then Some ''Rule {{line}} is missing value''
            else (case json_parse raw of
                Some (JObj fs) \<Rightarrow>
                  if js_trim (string_or (map_of fs ''message'') []) = []
                  then Some ''Rule {{line}} return_error requires a message field'' else None
              | _ \<Rightarrow> None))
         else if mode = ''prune_objects'' \<and> raw = [] then Some ''Rule {{line}} prune_objects is missing conditions''
         else if mode = ''pass_headers'' then
           (if raw = [] then Some ''Rule {{line}} pass_headers is missing header names''
            else if parsePassHeaderNames (parseLooseValue raw) = []
            then Some ''Rule {{line}} pass_headers format is invalid'' else None)
         else None)"

text \<open>The loop over the operations; \<open>t\<close> translates a key for a line.\<close>

fun validate_from :: "(string \<Rightarrow> nat \<Rightarrow> string) \<Rightarrow> nat \<Rightarrow> po_operation list \<Rightarrow> string" where
  "validate_from t i [] = []"
| "validate_from t i (op # ops) =
     (case operation_error op of Some key \<Rightarrow> t key (i + 1) | None \<Rightarrow> validate_from t (i + 1) ops)"

definition validateOperations :: "(string \<Rightarrow> nat \<Rightarrow> string) \<Rightarrow> po_operation list \<Rightarrow> string" where
  "validateOperations t operations = validate_from t 0 operations"

section \<open>Reading and writing the stored value\<close>

datatype edit_mode = Edit_Visual | Edit_Json
datatype visual_mode = Visual_Operations | Visual_Legacy

record editor_state =
  editMode :: edit_mode
  visualMode :: visual_mode
  legacyValue :: string
  operations :: "po_operation list"
  jsonText :: string
  jsonError :: string

definition parseInitialState :: "int \<Rightarrow> nat \<Rightarrow> string \<Rightarrow> editor_state option" where
  "parseInitialState now seed text =
     (let trimmed = js_trim text; default_ops = [createDefaultOperation now seed];
          st = \<lparr>editMode = Edit_Visual, visualMode = Visual_Operations, legacyValue = [], operations = default_ops,
                jsonText = [], jsonError = []\<rparr>
      in if trimmed = [] then Some st
         else if \<not> verifyJSON trimmed
         then Some (st\<lparr>editMode := Edit_Json, jsonText := text, jsonError := ''Invalid JSON format''\<rparr>)
         else (case the (json_parse trimmed) of
             JObj fs \<Rightarrow>
               (let pretty = json_stringify2 (JObj fs)
                in case map_of fs ''operations'' of
                     Some (JArr xs) \<Rightarrow>
                       if xs = [] then Some (st\<lparr>jsonText := pretty\<rparr>)
                       else (case map_seed (normalizeOperation now) seed xs of
                           None \<Rightarrow> None
                         | Some (ops, _) \<Rightarrow> Some (st\<lparr>operations := ops, jsonText := pretty\<rparr>))
                   | _ \<Rightarrow> Some (st\<lparr>visualMode := Visual_Legacy, legacyValue := pretty, jsonText := pretty\<rparr>))
           | v \<Rightarrow> Some (st\<lparr>editMode := Edit_Json, jsonText := json_stringify2 v\<rparr>)))"

definition operation_payload :: "po_operation \<Rightarrow> json" where
  "operation_payload operation =
     (let mode = mode_of operation; mt = meta_of mode; descriptionValue = js_trim (po_description operation);
          pathValue = js_trim (po_path operation); fromValue = js_trim (po_from operation); toValue = js_trim (po_to operation);
          p = [(''mode'', JStr mode)];
          p = put_if (descriptionValue \<noteq> []) ''description'' (JStr descriptionValue) p;
          p = put_if (mm_path mt) ''path'' (JStr pathValue) p;
          p = put_if (mm_pathOptional mt \<and> pathValue \<noteq> []) ''path'' (JStr pathValue) p;
          p = put_if (mm_value mt) ''value'' (parseLooseValue (po_value_text operation)) p;
          p = put_if (mm_keepOrigin mt \<and> po_keep_origin operation) ''keep_origin'' (JBool True) p;
          p = put_if (mm_from mt) ''from'' (JStr fromValue) p;
          p = put_if (\<not> mm_to mt \<and> toValue \<noteq> []) ''to'' (JStr toValue) p;
          p = put_if (mm_to mt) ''to'' (JStr toValue) p;
          p = put_if (mm_pathAlias mt \<and> \<not> json_truthy (map_of p ''from'') \<and> pathValue \<noteq> []) ''from'' (JStr pathValue) p;
          p = put_if (mm_pathAlias mt \<and> \<not> json_truthy (map_of p ''to'') \<and> pathValue \<noteq> []) ''to'' (JStr pathValue) p;
          conditions = List.map_filter buildConditionPayload (po_conditions operation);
          p = put_if (conditions \<noteq> []) ''conditions'' (JArr conditions) p;
          p = put_if (conditions \<noteq> []) ''logic'' (JStr (if po_logic operation = ''AND'' then ''AND'' else ''OR'')) p
      in JObj p)"

text \<open>\<open>Inl\<close>: the message of the exception.\<close>

definition buildOperationsJson :: "(string \<Rightarrow> nat \<Rightarrow> string) \<Rightarrow> bool \<Rightarrow> po_operation list \<Rightarrow> string + string" where
  "buildOperationsJson t validate sourceOperations =
     (let filteredOps = filter (\<lambda>o1. \<not> isOperationBlank o1) sourceOperations;
          msg = (if validate then validateOperations t filteredOps else [])
      in if filteredOps = [] then Inr []
         else if msg \<noteq> [] then Inl msg
         else Inr (json_stringify2 (JObj [(''operations'', JArr (map operation_payload filteredOps))])))"

section \<open>Drafts of structured values\<close>

text \<open>\<open>Number(value)\<close>; \<open>None\<close> when it is not a finite number.\<close>

fun json_number :: "json option \<Rightarrow> dec option" where
  "json_number None = None"
| "json_number (Some JNull) = Some (Dec 0 0)"
| "json_number (Some (JBool b)) = Some (of_int_dec (if b then 1 else 0))"
| "json_number (Some (JNum d)) = Some d"
| "json_number (Some (JStr s)) = str_number s"
| "json_number (Some (JArr xs)) = str_number (json_string (JArr xs))"
| "json_number (Some (JObj fs)) = None"

definition http_status :: "dec option \<Rightarrow> int" where
  "http_status n =
     (case Option.bind n dec_int of Some i \<Rightarrow> if 100 \<le> i \<and> i \<le> 599 then i else 400 | None \<Rightarrow> 400)"

record return_error_draft =
  rd_message :: string
  rd_statusCode :: int
  rd_code :: string
  rd_type :: string
  rd_skipRetry :: bool
  rd_simpleMode :: bool

definition parseReturnErrorDraft :: "string \<Rightarrow> return_error_draft" where
  "parseReturnErrorDraft valueText =
     (let raw = js_trim valueText;
          defaults = \<lparr>rd_message = [], rd_statusCode = 400, rd_code = [], rd_type = [], rd_skipRetry = True, rd_simpleMode = True\<rparr>
      in if raw = [] then defaults
         else (case json_parse raw of
             Some (JObj fs) \<Rightarrow>
               (let statusRaw = (case map_of fs ''status_code'' of Some v \<Rightarrow> Some v | None \<Rightarrow> map_of fs ''status'')
                in \<lparr>rd_message = js_trim (string_or (map_of fs ''message'') (string_or (map_of fs ''msg'') [])),
                    rd_statusCode = http_status (json_number statusRaw),
                    rd_code = js_trim (string_or (map_of fs ''code'') []), rd_type = js_trim (string_or (map_of fs ''type'') []),
                    rd_skipRetry = (map_of fs ''skip_retry'' \<noteq> Some (JBool False)), rd_simpleMode = False\<rparr>)
           | _ \<Rightarrow> defaults\<lparr>rd_message := raw\<rparr>))"

definition buildReturnErrorValueText :: "return_error_draft \<Rightarrow> string" where
  "buildReturnErrorValueText draft =
     (let msg = js_trim (rd_message draft); code = js_trim (rd_code draft); type = js_trim (rd_type draft)
      in if rd_simpleMode draft then msg
         else json_stringify (JObj (put_if (\<not> rd_skipRetry draft) ''skip_retry'' (JBool False)
           (put_if (type \<noteq> []) ''type'' (JStr type) (put_if (code \<noteq> []) ''code'' (JStr code)
             [(''message'', JStr msg), (''status_code'', JNum (of_int_dec (http_status (Some (of_int_dec (rd_statusCode draft))))))])))))"

record prune_draft =
  pd_simpleMode :: bool
  pd_typeText :: string
  pd_logic :: string
  pd_recursive :: bool
  pd_rules :: "po_condition list"

text \<open>A prune rule has the fields of a condition; its source is never \<open>null\<close>.\<close>

definition normalizePruneRule :: "int \<Rightarrow> nat \<Rightarrow> json \<Rightarrow> po_condition" where
  "normalizePruneRule now seed rule =
     \<lparr>co_id = nextLocalId now seed, co_path = opt_str (str_prop rule ''path''),
      co_mode = mode_prop CONDITION_MODE_VALUES ''full'' rule, co_value_text = toValueText (jget rule ''value''),
      co_invert = true_prop rule ''invert'', co_pass_missing_key = true_prop rule ''pass_missing_key''\<rparr>"

definition entry_rules :: "json option \<Rightarrow> json list" where
  "entry_rules v =
     (case v of
        Some (JObj fs) \<Rightarrow> map (\<lambda>(k, x). JObj [(''path'', JStr k), (''mode'', JStr ''full''), (''value'', x)]) fs
      | _ \<Rightarrow> [])"

definition prune_sources :: "(string \<times> json) list \<Rightarrow> json list" where
  "prune_sources fs =
     entry_rules (map_of fs ''where'')
     @ (case map_of fs ''conditions'' of Some (JArr xs) \<Rightarrow> filter is_record xs | v \<Rightarrow> entry_rules v)"

definition parsePruneObjectsDraft :: "int \<Rightarrow> nat \<Rightarrow> string \<Rightarrow> prune_draft" where
  "parsePruneObjectsDraft now seed valueText =
     (let raw = js_trim valueText;
          defaults = \<lparr>pd_simpleMode = True, pd_typeText = [], pd_logic = ''AND'', pd_recursive = True, pd_rules = []\<rparr>
      in if raw = [] then defaults
         else (case json_parse raw of
             None \<Rightarrow> defaults\<lparr>pd_typeText := raw\<rparr>
           | Some (JStr s) \<Rightarrow> defaults\<lparr>pd_typeText := js_trim s\<rparr>
           | Some (JObj fs) \<Rightarrow>
               \<lparr>pd_simpleMode = (map_of fs ''logic'' = None \<and> map_of fs ''recursive'' = None \<and> map_of fs ''where'' = None
                    \<and> map_of fs ''conditions'' = None),
                pd_typeText = (case map_of fs ''type'' of None \<Rightarrow> [] | Some v \<Rightarrow> js_trim (json_string v)),
                pd_logic = (if ascii_upper (string_or (map_of fs ''logic'') ''AND'') = ''OR'' then ''OR'' else ''AND''),
                pd_recursive = (map_of fs ''recursive'' \<noteq> Some (JBool False)),
                pd_rules = map (\<lambda>(i, j). normalizePruneRule now i j) (List.enumerate seed (prune_sources fs))\<rparr>
           | Some v \<Rightarrow> defaults\<lparr>pd_typeText := item_text v\<rparr>))"

definition prune_rule_payload :: "po_condition \<Rightarrow> json" where
  "prune_rule_payload rule =
     (let valueRaw = js_trim (co_value_text rule)
      in JObj (put_if (co_pass_missing_key rule) ''pass_missing_key'' (JBool True)
           (put_if (co_invert rule) ''invert'' (JBool True)
             (put_if (valueRaw \<noteq> []) ''value'' (parseLooseValue valueRaw)
               [(''path'', JStr (js_trim (co_path rule))),
                (''mode'', JStr (if co_mode rule \<in> set CONDITION_MODE_VALUES then co_mode rule else ''full''))]))))"

definition buildPruneObjectsValueText :: "prune_draft \<Rightarrow> string" where
  "buildPruneObjectsValueText draft =
     (let typeText = js_trim (pd_typeText draft);
          conditions = map prune_rule_payload (filter (\<lambda>r. js_trim (co_path r) \<noteq> []) (pd_rules draft));
          p = put_if (typeText \<noteq> []) ''type'' (JStr typeText) [];
          p = put_if (ascii_upper (str_or (pd_logic draft) ''AND'') = ''OR'') ''logic'' (JStr ''OR'') p;
          p = put_if (\<not> pd_recursive draft) ''recursive'' (JBool False) p;
          p = put_if (conditions \<noteq> []) ''conditions'' (JArr conditions) p
      in if pd_simpleMode draft then typeText
         else if typeText = [] \<and> conditions = [] then json_stringify (JObj [(''logic'', JStr ''AND'')])
         else json_stringify (JObj p))"

end
