(* ===== verification/Override_Roundtrip.thy ===== *)
theory Override_Roundtrip
  imports Param_Override "HOL-Library.Multiset"
begin

text \<open>
  The parameter override editor keeps what it stores: values as text, one operation, the stored text, what the
  validation guarantees, the move of an operation, and the drafts of the structured values.
\<close>

section \<open>Values as text\<close>

lemma loose_wf: "json_wf (parseLooseValue t)"
  by (auto simp: parseLooseValue_def Let_def dest: json_parse_wf split: option.splits)

lemma stringify_ends:
  "json_stringify v \<noteq> [] \<and> visible (hd (json_stringify v)) \<and> visible (last (json_stringify v))"
proof -
  have "visible (CHR 0x22)" "visible (CHR ''['')" "visible (CHR '']'')" "visible (CHR ''{'')" "visible (CHR ''}'')"
    "list_all visible ''null''" "list_all visible ''true''" "list_all visible ''false''" by code_simp+
  then show ?thesis
    using dec_str_visible by (cases v) (auto simp: json_stringify_def json_quote_def list_all_iff)
qed

lemma stringify_trimmed [simp]: "js_trim (json_stringify v) = json_stringify v"
  using stringify_ends [of v] by (intro trim_trimmed trimmed_visible_ends) auto

lemma loose_stringify: "json_wf v \<Longrightarrow> parseLooseValue (json_stringify v) = v"
  using stringify_ends [of v] by (simp add: parseLooseValue_def Let_def json_parse_stringify)

text \<open>
  A value that is a string in the stored JSON does not keep its type: when its text reads as another
  JSON value, saving what was loaded writes that value. A field set to the string \<open>"0.7"\<close>, \<open>"true"\<close> or
  \<open>"[1]"\<close> is turned into a number, a boolean, an array.
\<close>

lemma string_value_retyped:
  assumes "json_wf v"
  shows "parseLooseValue (toValueText (Some (JStr (json_stringify v)))) = v"
  using loose_stringify [OF assms] by (simp add: toValueText_def)

lemma string_value_retyped_example:
  "parseLooseValue (toValueText (Some (JStr ''0.7''))) = JNum (Dec 7 (- 1))"
proof -
  have "json_wf (JNum (Dec 7 (- 1)))" "json_stringify (JNum (Dec 7 (- 1))) = ''0.7''" by code_simp+
  then show ?thesis using string_value_retyped [of "JNum (Dec 7 (- 1))"] by simp
qed

text \<open>
  The text a value has after it was stored and read: a text that is no JSON is trimmed, a quoted string loses its
  quotes, and any other JSON value gets the layout of \<open>JSON.stringify\<close>.
\<close>

definition canonical_text :: "string \<Rightarrow> string" where
  "canonical_text t =
     (case json_parse (js_trim t) of
        None \<Rightarrow> js_trim t
      | Some (JStr s) \<Rightarrow> s
      | Some v \<Rightarrow> json_stringify v)"

text \<open>Not a quoted string whose contents would be read as something else, as in \<open>string_value_retyped\<close>.\<close>

definition plain_text :: "string \<Rightarrow> bool" where
  "plain_text t \<longleftrightarrow>
     (case json_parse (js_trim t) of Some (JStr s) \<Rightarrow> s \<noteq> [] \<and> trimmed s \<and> json_parse s = None | _ \<Rightarrow> True)"

lemma parse_Nil [simp]: "json_parse [] = None"
  by code_simp

lemma text_canonical: "toValueText (Some (parseLooseValue t)) = canonical_text t"
  by (auto simp: toValueText_def parseLooseValue_def canonical_text_def Let_def split: option.split json.split)

lemma loose_canonical: "plain_text t \<Longrightarrow> parseLooseValue (canonical_text t) = parseLooseValue t"
proof (cases "json_parse (js_trim t)")
  case (Some v)
  then have v: "parseLooseValue t = v" by (auto simp: parseLooseValue_def Let_def)
  assume plain: "plain_text t"
  show ?thesis
  proof (cases "\<exists>s. v = JStr s")
    case True
    then show ?thesis using Some plain v
      by (auto simp: plain_text_def canonical_text_def parseLooseValue_def Let_def trim_trimmed)
  next
    case False
    then have "canonical_text t = json_stringify v" using Some by (auto simp: canonical_text_def split: json.split)
    then show ?thesis using Some v by (simp add: loose_stringify json_parse_wf)
  qed
qed (simp add: canonical_text_def parseLooseValue_def)

section \<open>One operation\<close>

text \<open>What the fields of the editor can hold: modes of the lists, and values that keep their type.\<close>

definition condition_writable :: "po_condition \<Rightarrow> bool" where
  "condition_writable c \<longleftrightarrow> co_mode c \<in> set CONDITION_MODE_VALUES \<and> plain_text (co_value_text c)"

definition operation_writable :: "po_operation \<Rightarrow> bool" where
  "operation_writable op \<longleftrightarrow>
     po_mode op \<in> set OPERATION_MODE_VALUES \<and> plain_text (po_value_text op)
     \<and> list_all condition_writable (po_conditions op)"

text \<open>
  The operation that is read back: its texts are trimmed, the fields its mode has no use for are empty, a header
  mode gets its missing ends from the path, and conditions without a path are gone.
\<close>

definition canonical_condition :: "po_condition \<Rightarrow> po_condition" where
  "canonical_condition c = c\<lparr>co_path := js_trim (co_path c), co_value_text := canonical_text (co_value_text c)\<rparr>"

definition canonical_operation :: "po_operation \<Rightarrow> po_operation" where
  "canonical_operation op =
     (let mt = meta_of (po_mode op); path = js_trim (po_path op); from = js_trim (po_from op); to = js_trim (po_to op);
          kept = filter (\<lambda>c. js_trim (co_path c) \<noteq> []) (po_conditions op)
      in op\<lparr>po_description := js_trim (po_description op),
            po_path := (if mm_path mt \<or> mm_pathOptional mt then path else []),
            po_from := (if \<not> mm_from mt then [] else if mm_pathAlias mt \<and> from = [] then path else from),
            po_to := (if mm_pathAlias mt \<and> to = [] then path else to),
            po_value_text := (if mm_value mt then canonical_text (po_value_text op) else []),
            po_keep_origin := (mm_keepOrigin mt \<and> po_keep_origin op),
            po_logic := (if kept \<noteq> [] \<and> po_logic op = ''AND'' then ''AND'' else ''OR''),
            po_conditions := map canonical_condition kept\<rparr>)"

text \<open>The operation without its local identifiers.\<close>

definition condition_view :: "po_condition \<Rightarrow> po_condition" where
  "condition_view c = c\<lparr>co_id := []\<rparr>"

definition operation_view :: "po_operation \<Rightarrow> po_operation" where
  "operation_view op = op\<lparr>po_id := [], po_conditions := map condition_view (po_conditions op)\<rparr>"

lemma put_if_lookup: "map_of (put_if b k v fs) = (if b then (map_of fs)(k \<mapsto> v) else map_of fs)"
  by (simp add: put_if_def map_of_obj_put)

lemma put_if_get:
  "map_of (put_if b k v fs) k' = (if k' = k then if b then Some v else map_of fs k' else map_of fs k')"
  by (simp add: put_if_lookup)

lemma jget_object [simp]: "jget (JObj fs) = map_of fs"
  by (rule ext) simp

lemma condition_payload_None: "buildConditionPayload c = None \<longleftrightarrow> js_trim (co_path c) = []"
  by (simp add: buildConditionPayload_def Let_def)

lemma condition_back:
  assumes "condition_writable c" "js_trim (co_path c) \<noteq> []"
  shows "\<exists>p. buildConditionPayload c = Some p \<and>
     (\<exists>c'. po_normalizeCondition now seed p = Some (c', Suc seed) \<and> condition_view c' = condition_view (canonical_condition c))"
proof -
  have "co_mode c \<noteq> []" using assms by (auto simp: condition_writable_def CONDITION_MODE_VALUES_def)
  then show ?thesis using assms
    by (auto simp: condition_writable_def buildConditionPayload_def po_normalizeCondition_def Let_def put_if_lookup str_prop_def
        mode_prop_def true_prop_def text_canonical canonical_condition_def condition_view_def str_or_def opt_str_def)
qed

lemma conditions_back:
  "list_all condition_writable cs \<Longrightarrow>
     \<exists>cs' seed'. map_seed (po_normalizeCondition now) seed (List.map_filter buildConditionPayload cs) = Some (cs', seed')
       \<and> map condition_view cs' = map (condition_view \<circ> canonical_condition) (filter (\<lambda>c. js_trim (co_path c) \<noteq> []) cs)"
proof (induction cs arbitrary: seed)
  case (Cons c cs)
  show ?case
  proof (cases "js_trim (co_path c) = []")
    case True
    then show ?thesis using Cons by (simp add: map_filter_simps condition_payload_None [THEN iffD2])
  next
    case False
    then obtain p c' where p: "buildConditionPayload c = Some p" "po_normalizeCondition now seed p = Some (c', Suc seed)"
      "condition_view c' = condition_view (canonical_condition c)"
      using condition_back [of c now seed] Cons.prems by auto
    obtain cs' seed' where "map_seed (po_normalizeCondition now) (Suc seed) (List.map_filter buildConditionPayload cs) = Some (cs', seed')"
      "map condition_view cs' = map (condition_view \<circ> canonical_condition) (filter (\<lambda>c. js_trim (co_path c) \<noteq> []) cs)"
      using Cons.IH [of "Suc seed"] Cons.prems by auto
    then show ?thesis using p False by (simp add: map_filter_simps)
  qed
qed (simp add: map_filter_simps)

lemma kept_conditions: "List.map_filter buildConditionPayload cs = [] \<longleftrightarrow> filter (\<lambda>c. js_trim (co_path c) \<noteq> []) cs = []"
  by (induction cs) (auto simp: map_filter_simps simp flip: condition_payload_None split: option.split)

lemma meta_alias:
  "mm_pathAlias (meta_of m) \<Longrightarrow> \<not> mm_path (meta_of m) \<and> \<not> mm_pathOptional (meta_of m) \<and> mm_from (meta_of m) \<and> mm_to (meta_of m)"
proof -
  have "list_all (\<lambda>e. mm_pathAlias (snd e) \<longrightarrow>
      \<not> mm_path (snd e) \<and> \<not> mm_pathOptional (snd e) \<and> mm_from (snd e) \<and> mm_to (snd e)) MODE_META" by code_simp
  then show "mm_pathAlias (meta_of m) \<Longrightarrow> ?thesis"
    by (fastforce simp: meta_of_def list_all_iff dest: map_of_SomeD split: option.splits)
qed

lemma mode_nonempty: "m \<in> set OPERATION_MODE_VALUES \<Longrightarrow> m \<noteq> []"
  by (auto simp: OPERATION_MODE_VALUES_def OPERATION_MODE_OPTIONS_def)

text \<open>The properties of a payload, read by name.\<close>

lemma payload_props:
  fixes op :: po_operation
  defines "mt \<equiv> meta_of (mode_of op)"
    and "path \<equiv> js_trim (po_path op)" and "from \<equiv> js_trim (po_from op)" and "to \<equiv> js_trim (po_to op)"
    and "conds \<equiv> List.map_filter buildConditionPayload (po_conditions op)"
  shows "jget (operation_payload op) ''mode'' = Some (JStr (mode_of op))"
    "jget (operation_payload op) ''description'' =
       (if js_trim (po_description op) = [] then None else Some (JStr (js_trim (po_description op))))"
    "jget (operation_payload op) ''path'' = (if mm_path mt \<or> mm_pathOptional mt \<and> path \<noteq> [] then Some (JStr path) else None)"
    "jget (operation_payload op) ''value'' = (if mm_value mt then Some (parseLooseValue (po_value_text op)) else None)"
    "jget (operation_payload op) ''keep_origin'' = (if mm_keepOrigin mt \<and> po_keep_origin op then Some (JBool True) else None)"
    "jget (operation_payload op) ''from'' =
       (if mm_pathAlias mt \<and> (\<not> mm_from mt \<or> from = []) \<and> path \<noteq> [] then Some (JStr path)
        else if mm_from mt then Some (JStr from) else None)"
    "jget (operation_payload op) ''to'' =
       (if mm_pathAlias mt \<and> to = [] \<and> path \<noteq> [] then Some (JStr path)
        else if mm_to mt \<or> to \<noteq> [] then Some (JStr to) else None)"
    "jget (operation_payload op) ''conditions'' = (if conds = [] then None else Some (JArr conds))"
    "jget (operation_payload op) ''logic'' =
       (if conds = [] then None else Some (JStr (if po_logic op = ''AND'' then ''AND'' else ''OR'')))"
  unfolding operation_payload_def Let_def assms by (simp_all add: put_if_get)

lemma operation_back:
  assumes "operation_writable op"
  shows "\<exists>op' seed'. normalizeOperation now seed (operation_payload op) = Some (op', seed')
     \<and> operation_view op' = operation_view (canonical_operation op)"
proof -
  note ok = assms [unfolded operation_writable_def]
  have mode: "mode_of op = po_mode op" using ok mode_nonempty by (simp add: mode_of_def str_or_def)
  let ?kept = "filter (\<lambda>c. js_trim (co_path c) \<noteq> []) (po_conditions op)"
  obtain cs' seed' where cs:
    "map_seed (po_normalizeCondition now) (Suc seed) (List.map_filter buildConditionPayload (po_conditions op)) = Some (cs', seed')"
    "map condition_view cs' = map (condition_view \<circ> canonical_condition) ?kept"
    using conditions_back [of "po_conditions op" now "Suc seed"] ok by blast
  have logic: "logic_prop (operation_payload op) = (if ?kept \<noteq> [] \<and> po_logic op = ''AND'' then ''AND'' else ''OR'')"
    unfolding logic_prop_def payload_props string_or_def ascii_upper_def kept_conditions by auto
  have conds: "(case jget (operation_payload op) ''conditions'' of Some (JArr ys) \<Rightarrow> ys | _ \<Rightarrow> [])
      = List.map_filter buildConditionPayload (po_conditions op)"
    unfolding payload_props by simp
  have obj: "operation_payload op \<noteq> JNull" by (simp add: operation_payload_def Let_def)
  let ?c = "canonical_operation op"
  have "opt_str (str_prop (operation_payload op) ''path'') = po_path ?c"
    "opt_str (str_prop (operation_payload op) ''from'') = po_from ?c"
    "opt_str (str_prop (operation_payload op) ''to'') = po_to ?c"
    "opt_str (str_prop (operation_payload op) ''description'') = po_description ?c"
    "mode_prop OPERATION_MODE_VALUES ''set'' (operation_payload op) = po_mode ?c"
    "toValueText (jget (operation_payload op) ''value'') = po_value_text ?c"
    "true_prop (operation_payload op) ''keep_origin'' = po_keep_origin ?c"
    unfolding str_prop_def mode_prop_def true_prop_def payload_props mode canonical_operation_def Let_def
    using ok meta_alias [of "po_mode op"] text_canonical [of "po_value_text op"]
    by (auto simp: opt_str_def toValueText_def split: if_splits)
  then show ?thesis
    by (simp add: normalizeOperation_def obj conds cs logic operation_view_def) (simp add: canonical_operation_def Let_def)
qed

section \<open>The stored text\<close>

lemma wf_put_if: "json_wf (JObj fs) \<Longrightarrow> json_wf v \<Longrightarrow> json_wf (JObj (put_if b k v fs))"
  by (simp add: put_if_def wf_put del: json_wf.simps)

lemma condition_wf: "buildConditionPayload c = Some p \<Longrightarrow> json_wf p"
proof -
  have "json_wf (JObj [(''path'', JStr a), (''mode'', JStr b), (''value'', parseLooseValue t)])" for a b t
  proof -
    have "\<not> is_index ''path''" "\<not> is_index ''mode''" "\<not> is_index ''value''" by code_simp+
    then show ?thesis by (simp add: obj_ok_iff keys_ok_def key_before_def loose_wf)
  qed
  then show "buildConditionPayload c = Some p \<Longrightarrow> json_wf p"
    by (auto simp: buildConditionPayload_def Let_def wf_put_if simp del: json_wf.simps(3) split: if_splits)
qed

lemma payload_wf: "json_wf (operation_payload op)"
proof -
  have "json_wf (JArr (List.map_filter buildConditionPayload (po_conditions op)))"
    by (auto simp: list_all_iff map_filter_def dest: condition_wf)
  moreover have "json_wf (JObj [(''mode'', JStr m)])" for m by (simp add: obj_ok_def)
  ultimately show ?thesis
    by (simp add: operation_payload_def Let_def wf_put_if loose_wf del: json_wf.simps(2,3))
qed

lemma operations_wf: "json_wf (JObj [(''operations'', JArr (map operation_payload ops))])"
  by (simp add: obj_ok_def list_all_iff payload_wf)

lemma stringify2_object_ends:
  "fs \<noteq> [] \<Longrightarrow> json_stringify2 (JObj fs) \<noteq> [] \<and> js_trim (json_stringify2 (JObj fs)) = json_stringify2 (JObj fs)"
proof -
  have "visible (CHR ''{'')" "visible (CHR ''}'')" by code_simp+
  then show "fs \<noteq> [] \<Longrightarrow> ?thesis"
    by (auto simp: json_stringify2_def intro!: trim_trimmed trimmed_visible_ends)
qed

lemma operations_back:
  "list_all operation_writable ops \<Longrightarrow>
     \<exists>ops' seed'. map_seed (normalizeOperation now) seed (map operation_payload ops) = Some (ops', seed')
       \<and> map operation_view ops' = map (operation_view \<circ> canonical_operation) ops"
proof (induction ops arbitrary: seed)
  case (Cons op ops)
  obtain op' seed1 where op: "normalizeOperation now seed (operation_payload op) = Some (op', seed1)"
    "operation_view op' = operation_view (canonical_operation op)"
    using operation_back [of op now seed] Cons.prems by auto
  obtain ops' seed' where "map_seed (normalizeOperation now) seed1 (map operation_payload ops) = Some (ops', seed')"
    "map operation_view ops' = map (operation_view \<circ> canonical_operation) ops"
    using Cons.IH [of seed1] Cons.prems by auto
  then show ?case using op by simp
qed simp

lemma stored_text:
  fixes ops :: "po_operation list"
  defines "text \<equiv> json_stringify2 (JObj [(''operations'', JArr (map operation_payload ops))])"
  shows "json_parse text = Some (JObj [(''operations'', JArr (map operation_payload ops))])" "js_trim text = text" "text \<noteq> []"
  using json_parse_stringify2 [OF operations_wf [of ops]] stringify2_object_ends by (simp_all add: text_def)

section \<open>Validation\<close>

text \<open>What the upstream needs of a stored operation, by its mode.\<close>

definition nonblank_prop :: "json \<Rightarrow> string \<Rightarrow> bool" where
  "nonblank_prop v k \<longleftrightarrow> (case jget v k of Some (JStr s) \<Rightarrow> s \<noteq> [] | _ \<Rightarrow> False)"

definition error_value_ok :: "json \<Rightarrow> bool" where
  "error_value_ok v \<longleftrightarrow> (case v of JObj fs \<Rightarrow> js_trim (string_or (map_of fs ''message'') []) \<noteq> [] | _ \<Rightarrow> True)"

definition payload_complete :: "json \<Rightarrow> bool" where
  "payload_complete p \<longleftrightarrow>
     (case jget p ''mode'' of
        Some (JStr mode) \<Rightarrow>
          (mm_path (meta_of mode) \<longrightarrow> nonblank_prop p ''path'')
          \<and> (mode \<in> set FROM_REQUIRED_MODES \<longrightarrow> nonblank_prop p ''from'')
          \<and> (mode \<in> set TO_REQUIRED_MODES \<longrightarrow> nonblank_prop p ''to'')
          \<and> (mode \<in> set VALUE_REQUIRED_MODES \<longrightarrow> jget p ''value'' \<noteq> None)
          \<and> (mode = ''pass_headers'' \<longrightarrow> parsePassHeaderNames (the (jget p ''value'')) \<noteq> [])
          \<and> (mode = ''return_error'' \<longrightarrow> error_value_ok (the (jget p ''value'')))
      | _ \<Rightarrow> False)"

text \<open>A required value is stored as the empty string only when it was typed as one, in quotes.\<close>

definition operation_complete :: "po_operation \<Rightarrow> bool" where
  "operation_complete op \<longleftrightarrow> payload_complete (operation_payload op)
     \<and> (mode_of op \<in> set VALUE_REQUIRED_MODES \<and> jget (operation_payload op) ''value'' = Some (JStr [])
          \<longrightarrow> json_parse (js_trim (po_value_text op)) = Some (JStr []))"

text \<open>The three lists of required fields agree with the table of fields a mode has.\<close>

lemma required_fields:
  "m \<in> set FROM_REQUIRED_MODES \<Longrightarrow> mm_from (meta_of m)" "m \<in> set TO_REQUIRED_MODES \<Longrightarrow> mm_to (meta_of m)"
  "m \<in> set VALUE_REQUIRED_MODES \<Longrightarrow> mm_value (meta_of m)"
proof -
  have "list_all (\<lambda>m. mm_from (meta_of m)) FROM_REQUIRED_MODES" "list_all (\<lambda>m. mm_to (meta_of m)) TO_REQUIRED_MODES"
    "list_all (\<lambda>m. mm_value (meta_of m)) VALUE_REQUIRED_MODES" by code_simp+
  then show "m \<in> set FROM_REQUIRED_MODES \<Longrightarrow> mm_from (meta_of m)" "m \<in> set TO_REQUIRED_MODES \<Longrightarrow> mm_to (meta_of m)"
    "m \<in> set VALUE_REQUIRED_MODES \<Longrightarrow> mm_value (meta_of m)" by (auto simp: list_all_iff)
qed

lemma loose_trim [simp]: "parseLooseValue (js_trim t) = parseLooseValue t"
  by (simp add: parseLooseValue_def)

lemma value_given: "js_trim t \<noteq> [] \<longleftrightarrow> (parseLooseValue t = JStr [] \<longrightarrow> json_parse (js_trim t) = Some (JStr []))"
  by (auto simp: parseLooseValue_def Let_def split: option.split)

lemma error_value:
  "js_trim t \<noteq> [] \<Longrightarrow> error_value_ok (parseLooseValue t) \<longleftrightarrow>
     (case json_parse (js_trim t) of Some (JObj fs) \<Rightarrow> js_trim (string_or (map_of fs ''message'') []) \<noteq> [] | _ \<Rightarrow> True)"
  by (auto simp: parseLooseValue_def Let_def error_value_ok_def split: option.split json.split)

lemma operation_error_iff:
  "operation_error op = None \<longleftrightarrow>
     (mm_path (meta_of (mode_of op)) \<longrightarrow> js_trim (po_path op) \<noteq> [])
     \<and> (mode_of op \<in> set FROM_REQUIRED_MODES \<longrightarrow> js_trim (po_from op) \<noteq> [] \<or> mm_pathAlias (meta_of (mode_of op)) \<and> js_trim (po_path op) \<noteq> [])
     \<and> (mode_of op \<in> set TO_REQUIRED_MODES \<longrightarrow> js_trim (po_to op) \<noteq> [] \<or> mm_pathAlias (meta_of (mode_of op)) \<and> js_trim (po_path op) \<noteq> [])
     \<and> (mode_of op \<in> set VALUE_REQUIRED_MODES \<longrightarrow> js_trim (po_value_text op) \<noteq> [])
     \<and> (mode_of op = ''pass_headers'' \<longrightarrow> parsePassHeaderNames (parseLooseValue (po_value_text op)) \<noteq> [])
     \<and> (mode_of op = ''return_error'' \<longrightarrow> error_value_ok (parseLooseValue (po_value_text op)))"
proof -
  have required: "''return_error'' \<in> set VALUE_REQUIRED_MODES" "''prune_objects'' \<in> set VALUE_REQUIRED_MODES"
    "''pass_headers'' \<in> set VALUE_REQUIRED_MODES" by (simp_all add: VALUE_REQUIRED_MODES_def)
  show ?thesis
  proof (cases "mode_of op = ''return_error''")
    case True
    then show ?thesis using required error_value [of "po_value_text op"]
      unfolding operation_error_def Let_def by (auto split: option.splits json.splits)
  next
    case False
    then show ?thesis using required unfolding operation_error_def Let_def by auto
  qed
qed

lemma payload_needs:
  "mm_path (meta_of (mode_of op)) \<Longrightarrow> nonblank_prop (operation_payload op) ''path'' \<longleftrightarrow> js_trim (po_path op) \<noteq> []"
  "mm_from (meta_of (mode_of op)) \<Longrightarrow> nonblank_prop (operation_payload op) ''from''
     \<longleftrightarrow> js_trim (po_from op) \<noteq> [] \<or> mm_pathAlias (meta_of (mode_of op)) \<and> js_trim (po_path op) \<noteq> []"
  "mm_to (meta_of (mode_of op)) \<Longrightarrow> nonblank_prop (operation_payload op) ''to''
     \<longleftrightarrow> js_trim (po_to op) \<noteq> [] \<or> mm_pathAlias (meta_of (mode_of op)) \<and> js_trim (po_path op) \<noteq> []"
  "mm_value (meta_of (mode_of op)) \<Longrightarrow> jget (operation_payload op) ''value'' = Some (parseLooseValue (po_value_text op))"
  unfolding nonblank_prop_def payload_props by auto

lemma complete_iff: "operation_error op = None \<longleftrightarrow> operation_complete op"
proof -
  have required: "mode_of op = ''pass_headers'' \<or> mode_of op = ''return_error'' \<Longrightarrow> mode_of op \<in> set VALUE_REQUIRED_MODES"
    by (auto simp: VALUE_REQUIRED_MODES_def)
  note val = payload_needs(4) [OF required_fields(3)]
  have shape: "payload_complete (operation_payload op) \<longleftrightarrow>
     (mm_path (meta_of (mode_of op)) \<longrightarrow> nonblank_prop (operation_payload op) ''path'')
     \<and> (mode_of op \<in> set FROM_REQUIRED_MODES \<longrightarrow> nonblank_prop (operation_payload op) ''from'')
     \<and> (mode_of op \<in> set TO_REQUIRED_MODES \<longrightarrow> nonblank_prop (operation_payload op) ''to'')
     \<and> (mode_of op = ''pass_headers'' \<longrightarrow> parsePassHeaderNames (parseLooseValue (po_value_text op)) \<noteq> [])
     \<and> (mode_of op = ''return_error'' \<longrightarrow> error_value_ok (parseLooseValue (po_value_text op)))"
    using required val unfolding payload_complete_def payload_props(1) by auto
  have given: "(mode_of op \<in> set VALUE_REQUIRED_MODES \<longrightarrow> js_trim (po_value_text op) \<noteq> []) \<longleftrightarrow>
     (mode_of op \<in> set VALUE_REQUIRED_MODES \<and> jget (operation_payload op) ''value'' = Some (JStr [])
        \<longrightarrow> json_parse (js_trim (po_value_text op)) = Some (JStr []))"
    using val value_given [of "po_value_text op"] by auto
  show ?thesis
    unfolding operation_error_iff operation_complete_def shape given
    using payload_needs(1-3) [of op] required_fields(1,2) [of "mode_of op"] by blast
qed

text \<open>The first operation with an error is the one reported.\<close>

lemma validate_spec:
  assumes "\<And>key n. t key n \<noteq> []"
  shows "if list_all operation_complete ops then validate_from t n ops = []
     else \<exists>i key. i < length ops \<and> validate_from t n ops = t key (n + i + 1) \<and> operation_error (ops ! i) = Some key
       \<and> list_all operation_complete (take i ops)"
proof (induction ops arbitrary: n)
  case (Cons op ops)
  show ?case
  proof (cases "operation_error op")
    case (Some key)
    then show ?thesis using complete_iff [of op] by (auto intro!: exI [of _ 0])
  next
    case None
    then have op: "operation_complete op" by (simp add: complete_iff)
    show ?thesis
    proof (cases "list_all operation_complete ops")
      case False
      then obtain i key where "i < length ops" "validate_from t (n + 1) ops = t key (n + 1 + i + 1)"
        "operation_error (ops ! i) = Some key" "list_all operation_complete (take i ops)" using Cons.IH [of "n + 1"] by auto
      then show ?thesis using None op False by (auto intro!: exI [of _ "Suc i"])
    qed (use None op Cons.IH [of "n + 1"] in simp)
  qed
qed simp

lemma validate_ok:
  "(\<And>key n. t key n \<noteq> []) \<Longrightarrow> validate_from t i ops = [] \<longleftrightarrow> list_all (\<lambda>op. operation_error op = None) ops"
  by (induction ops arbitrary: i) (auto split: option.splits)

text \<open>What a save does, accepted or refused.\<close>

lemma saved_spec:
  assumes "\<And>key n. t key n \<noteq> []"
  shows "case buildOperationsJson t True ops of
      Inr text \<Rightarrow>
        list_all operation_complete (filter (\<lambda>o1. \<not> isOperationBlank o1) ops)
        \<and> (if filter (\<lambda>o1. \<not> isOperationBlank o1) ops = [] then text = []
           else json_parse text = Some (JObj [(''operations'', JArr (map operation_payload (filter (\<lambda>o1. \<not> isOperationBlank o1) ops)))]))
    | Inl message \<Rightarrow>
        \<exists>i key. i < length (filter (\<lambda>o1. \<not> isOperationBlank o1) ops) \<and> message = t key (i + 1)
          \<and> operation_error (filter (\<lambda>o1. \<not> isOperationBlank o1) ops ! i) = Some key
          \<and> \<not> operation_complete (filter (\<lambda>o1. \<not> isOperationBlank o1) ops ! i)
          \<and> list_all operation_complete (take i (filter (\<lambda>o1. \<not> isOperationBlank o1) ops))"
proof -
  let ?ops = "filter (\<lambda>o1. \<not> isOperationBlank o1) ops"
  show ?thesis
  proof (cases "list_all operation_complete ?ops")
    case True
    then have "validate_from t 0 ?ops = []" using validate_spec [of t ?ops 0, OF assms] by simp
    then show ?thesis using True stored_text [of ?ops] by (simp add: buildOperationsJson_def validateOperations_def Let_def)
  next
    case False
    then obtain i key where i: "i < length ?ops" "validate_from t 0 ?ops = t key (i + 1)" "operation_error (?ops ! i) = Some key"
      "list_all operation_complete (take i ?ops)" using validate_spec [of t ?ops 0, OF assms] by auto
    moreover have "?ops \<noteq> []" using i(1) by auto
    ultimately have "buildOperationsJson t True ops = Inl (t key (i + 1))"
      using assms by (simp add: buildOperationsJson_def validateOperations_def Let_def)
    moreover have "\<not> operation_complete (?ops ! i)" using i(3) complete_iff [of "?ops ! i"] by simp
    ultimately show ?thesis using i by auto
  qed
qed

text \<open>
  C21. Saving is refused exactly for incomplete operations. With translations that are never empty, a save that is
  accepted stores an object with one payload per operation that is not blank, in order, and each of them is
  complete: it has the target path, the source and the target field its mode needs (taken from the path where the
  mode allows it), a value that was typed in, at least one header name for \<open>pass_headers\<close>, and a message in the
  object of a \<open>return_error\<close>. A save that is refused names the first operation that is not complete.
\<close>

theorem saved_payloads_complete:
  assumes "\<And>key n. t key n \<noteq> []"
  shows "case buildOperationsJson t True ops of
      Inr text \<Rightarrow>
        list_all operation_complete (filter (\<lambda>o1. \<not> isOperationBlank o1) ops)
        \<and> (if filter (\<lambda>o1. \<not> isOperationBlank o1) ops = [] then text = []
           else json_parse text = Some (JObj [(''operations'', JArr (map operation_payload (filter (\<lambda>o1. \<not> isOperationBlank o1) ops)))]))
    | Inl message \<Rightarrow>
        \<exists>i key. i < length (filter (\<lambda>o1. \<not> isOperationBlank o1) ops) \<and> message = t key (i + 1)
          \<and> operation_error (filter (\<lambda>o1. \<not> isOperationBlank o1) ops ! i) = Some key
          \<and> \<not> operation_complete (filter (\<lambda>o1. \<not> isOperationBlank o1) ops ! i)
          \<and> list_all operation_complete (take i (filter (\<lambda>o1. \<not> isOperationBlank o1) ops))"
  using saved_spec [of t ops, OF assms] .

section \<open>Saving and opening again\<close>

lemma error_view: "operation_error (operation_view o1) = operation_error o1"
  by (simp add: operation_error_def operation_view_def mode_of_def)

lemma blank_view: "isOperationBlank (operation_view o1) = isOperationBlank o1"
  by (simp add: isOperationBlank_def operation_view_def condition_view_def list_ex_iff)

lemma map_filter_map: "List.map_filter f (map g xs) = List.map_filter (f \<circ> g) xs"
  by (induction xs) (simp_all add: map_filter_simps split: option.split)

lemma payload_view: "operation_payload (operation_view op) = operation_payload op"
proof -
  have "buildConditionPayload \<circ> condition_view = buildConditionPayload"
    by (simp add: fun_eq_iff buildConditionPayload_def condition_view_def Let_def)
  then show ?thesis by (simp add: operation_payload_def operation_view_def mode_of_def map_filter_map)
qed

lemma canonical_conditions:
  "list_all condition_writable cs \<Longrightarrow>
     List.map_filter buildConditionPayload (map canonical_condition (filter (\<lambda>c. js_trim (co_path c) \<noteq> []) cs))
     = List.map_filter buildConditionPayload cs"
proof (induction cs)
  case (Cons c cs)
  have "buildConditionPayload (canonical_condition c) = buildConditionPayload c"
    using Cons.prems by (simp add: buildConditionPayload_def canonical_condition_def condition_writable_def loose_canonical Let_def)
  then show ?case using Cons by (auto simp: map_filter_simps condition_payload_None [THEN iffD2] split: option.split)
qed simp

text \<open>A header mode takes its missing ends from the path, before or after they are written.\<close>

lemma obj_put_again: "obj_put k b (obj_put k a fs) = obj_put k b fs"
  by (induction k a fs rule: obj_put.induct) auto

lemma obj_put_swap:
  "k \<noteq> k' \<Longrightarrow> \<not> is_index k \<Longrightarrow> \<not> is_index k' \<Longrightarrow> obj_put k b (obj_put k' c (obj_put k a fs)) = obj_put k' c (obj_put k b fs)"
  by (induction fs) (auto simp: obj_put_again)

lemma alias_ends:
  fixes src dst path :: string and fs :: "(string \<times> json) list"
  defines "ends a b p \<equiv> (let o1 = obj_put ''to'' (JStr b) (obj_put ''from'' (JStr a) fs);
      o2 = put_if (\<not> json_truthy (map_of o1 ''from'') \<and> p \<noteq> []) ''from'' (JStr p) o1
    in put_if (\<not> json_truthy (map_of o2 ''to'') \<and> p \<noteq> []) ''to'' (JStr p) o2)"
  shows "ends (if src = [] then path else src) (if dst = [] then path else dst) [] = ends src dst path"
proof -
  have names: "\<not> is_index ''from''" "\<not> is_index ''to''" by code_simp+
  show ?thesis
    unfolding ends_def Let_def put_if_def map_of_obj_put
    by (auto simp: obj_put_again map_of_obj_put obj_put_swap [OF _ names])
qed

text \<open>The operation that is read back is written as the original was.\<close>

lemma payload_canonical:
  assumes "operation_writable op"
  shows "operation_payload (canonical_operation op) = operation_payload op"
proof -
  let ?c = "canonical_operation op"
  have op: "plain_text (po_value_text op)" "list_all condition_writable (po_conditions op)"
    using assms by (simp_all add: operation_writable_def)
  have mode: "mode_of op = po_mode op" "mode_of ?c = po_mode op"
    using assms mode_nonempty by (simp_all add: operation_writable_def mode_of_def str_or_def canonical_operation_def Let_def)
  have conds: "List.map_filter buildConditionPayload (po_conditions ?c) = List.map_filter buildConditionPayload (po_conditions op)"
    using canonical_conditions [OF op(2)] by (simp add: canonical_operation_def Let_def)
  have logic: "(if po_logic ?c = ''AND'' then ''AND'' else ''OR'') = (if po_logic op = ''AND'' then ''AND'' else ''OR'')"
    if "List.map_filter buildConditionPayload (po_conditions op) \<noteq> []"
    using that by (simp add: canonical_operation_def Let_def kept_conditions)
  have fields: "js_trim (po_description ?c) = js_trim (po_description op)"
    "js_trim (po_path ?c) = (if mm_path (meta_of (po_mode op)) \<or> mm_pathOptional (meta_of (po_mode op)) then js_trim (po_path op) else [])"
    "js_trim (po_from ?c) = (if \<not> mm_from (meta_of (po_mode op)) then []
       else if mm_pathAlias (meta_of (po_mode op)) \<and> js_trim (po_from op) = [] then js_trim (po_path op) else js_trim (po_from op))"
    "js_trim (po_to ?c) = (if mm_pathAlias (meta_of (po_mode op)) \<and> js_trim (po_to op) = [] then js_trim (po_path op) else js_trim (po_to op))"
    "po_keep_origin ?c = (mm_keepOrigin (meta_of (po_mode op)) \<and> po_keep_origin op)"
    "mm_value (meta_of (po_mode op)) \<Longrightarrow> parseLooseValue (po_value_text ?c) = parseLooseValue (po_value_text op)"
    using op by (simp_all add: canonical_operation_def Let_def loose_canonical)
  show ?thesis
  proof (cases "mm_pathAlias (meta_of (po_mode op))")
    case True
    let ?mt = "meta_of (po_mode op)" and ?conds = "List.map_filter buildConditionPayload (po_conditions op)"
    have mt: "\<not> mm_path ?mt" "\<not> mm_pathOptional ?mt" "mm_from ?mt" "mm_to ?mt" using meta_alias [OF True] by simp_all
    have ends: "js_trim (po_path ?c) = []" "js_trim (po_from ?c) = (if js_trim (po_from op) = [] then js_trim (po_path op) else js_trim (po_from op))"
      "js_trim (po_to ?c) = (if js_trim (po_to op) = [] then js_trim (po_path op) else js_trim (po_to op))"
      using True mt by (simp_all add: fields)
    have puts: "put_if (mm_value ?mt) ''value'' (parseLooseValue (po_value_text ?c)) fs
       = put_if (mm_value ?mt) ''value'' (parseLooseValue (po_value_text op)) fs"
      "put_if (mm_keepOrigin ?mt \<and> po_keep_origin ?c) ''keep_origin'' (JBool True) fs
       = put_if (mm_keepOrigin ?mt \<and> po_keep_origin op) ''keep_origin'' (JBool True) fs"
      "put_if (?conds \<noteq> []) ''logic'' (JStr (if po_logic ?c = ''AND'' then ''AND'' else ''OR'')) fs
       = put_if (?conds \<noteq> []) ''logic'' (JStr (if po_logic op = ''AND'' then ''AND'' else ''OR'')) fs" for fs
      using logic by (simp_all add: put_if_def fields)
    have flags: "put_if (mm_path ?mt) k v fs = fs" "put_if (mm_pathOptional ?mt \<and> b) k v fs = fs" "put_if (mm_from ?mt) k v fs = obj_put k v fs"
      "put_if (\<not> mm_to ?mt \<and> b) k v fs = fs" "put_if (mm_to ?mt) k v fs = obj_put k v fs" "put_if (mm_pathAlias ?mt \<and> b) k v fs = put_if b k v fs"
      for b k v and fs :: "(string \<times> json) list"
      using True mt by (simp_all add: put_if_def)
    show ?thesis
      unfolding operation_payload_def Let_def mode conds fields(1) puts flags ends
      unfolding alias_ends [where src = "js_trim (po_from op)" and dst = "js_trim (po_to op)" and path = "js_trim (po_path op)", unfolded Let_def] ..
  next
    case False
    let ?mt = "meta_of (po_mode op)" and ?conds = "List.map_filter buildConditionPayload (po_conditions op)"
    have puts: "put_if (mm_path ?mt) ''path'' (JStr (js_trim (po_path ?c))) fs = put_if (mm_path ?mt) ''path'' (JStr (js_trim (po_path op))) fs"
      "put_if (mm_pathOptional ?mt \<and> js_trim (po_path ?c) \<noteq> []) ''path'' (JStr (js_trim (po_path ?c))) fs
       = put_if (mm_pathOptional ?mt \<and> js_trim (po_path op) \<noteq> []) ''path'' (JStr (js_trim (po_path op))) fs"
      "put_if (mm_value ?mt) ''value'' (parseLooseValue (po_value_text ?c)) fs
       = put_if (mm_value ?mt) ''value'' (parseLooseValue (po_value_text op)) fs"
      "put_if (mm_keepOrigin ?mt \<and> po_keep_origin ?c) ''keep_origin'' (JBool True) fs
       = put_if (mm_keepOrigin ?mt \<and> po_keep_origin op) ''keep_origin'' (JBool True) fs"
      "put_if (mm_from ?mt) ''from'' (JStr (js_trim (po_from ?c))) fs = put_if (mm_from ?mt) ''from'' (JStr (js_trim (po_from op))) fs"
      "put_if (?conds \<noteq> []) ''logic'' (JStr (if po_logic ?c = ''AND'' then ''AND'' else ''OR'')) fs
       = put_if (?conds \<noteq> []) ''logic'' (JStr (if po_logic op = ''AND'' then ''AND'' else ''OR'')) fs" for fs
      using False logic by (simp_all add: put_if_def fields)
    have to: "js_trim (po_to ?c) = js_trim (po_to op)" using False by (simp add: fields)
    have none: "put_if (mm_pathAlias ?mt \<and> b) k v fs = fs" for b k v and fs :: "(string \<times> json) list"
      using False by (simp add: put_if_def)
    show ?thesis unfolding operation_payload_def Let_def mode conds fields(1) puts to none ..
  qed
qed

lemma canonical_saved:
  assumes "operation_writable op" "operation_error op = None"
  shows "operation_error (canonical_operation op) = None" "\<not> isOperationBlank (canonical_operation op)"
proof -
  let ?c = "canonical_operation op"
  have mode: "mode_of op = po_mode op" "mode_of ?c = po_mode op" and plain: "plain_text (po_value_text op)"
    using assms(1) mode_nonempty by (simp_all add: operation_writable_def mode_of_def str_or_def canonical_operation_def Let_def)
  have "operation_complete op" using assms(2) by (simp add: complete_iff)
  moreover have "json_parse (js_trim (po_value_text op)) \<noteq> Some (JStr [])" using plain by (auto simp: plain_text_def)
  ultimately have "operation_complete ?c" unfolding operation_complete_def payload_canonical [OF assms(1)] mode by blast
  then show error: "operation_error ?c = None" by (simp add: complete_iff)
  have "mm_path (meta_of ''set'')" by code_simp
  moreover have "mm_path (meta_of (po_mode op)) \<longrightarrow> js_trim (po_path ?c) \<noteq> []" using error mode(2) by (simp add: operation_error_iff)
  moreover have "po_mode ?c = po_mode op" by (simp add: canonical_operation_def Let_def)
  ultimately show "\<not> isOperationBlank ?c" by (auto simp: isOperationBlank_def)
qed

text \<open>The operations read back from what was saved: the saved ones in their canonical form, which save to the same text.\<close>

lemma saved_back:
  assumes "\<And>key n. t key n \<noteq> []" "list_all operation_writable ops" "buildOperationsJson t True ops = Inr text" "text \<noteq> []"
    and "map operation_view ops' = map (operation_view \<circ> canonical_operation) (filter (\<lambda>o1. \<not> isOperationBlank o1) ops)"
  shows "buildOperationsJson t True ops' = Inr text"
proof -
  let ?ops = "filter (\<lambda>o1. \<not> isOperationBlank o1) ops"
  have ok: "list_all operation_complete ?ops" "?ops \<noteq> []"
    and stored: "text = json_stringify2 (JObj [(''operations'', JArr (map operation_payload ?ops))])"
    using saved_spec [of t ops, OF assms(1)] assms(3,4) by (auto simp: buildOperationsJson_def Let_def split: if_splits)
  have restored: "operation_error o1 = None \<and> \<not> isOperationBlank o1 \<and> operation_payload o1 = operation_payload o0"
    if "operation_view o1 = operation_view (canonical_operation o0)" "o0 \<in> set ?ops" for o1 o0
  proof -
    have o0: "operation_writable o0" "operation_error o0 = None"
      using that(2) assms(2) ok(1) by (auto simp: list_all_iff complete_iff)
    then show ?thesis
      using canonical_saved [OF o0] payload_canonical [OF o0(1)] arg_cong [OF that(1), of operation_error]
        arg_cong [OF that(1), of isOperationBlank] arg_cong [OF that(1), of operation_payload]
      by (simp add: error_view blank_view payload_view)
  qed
  have "list_all2 (\<lambda>o1 o0. operation_view o1 = operation_view (canonical_operation o0)) ops' ?ops"
    using assms(5) by (simp add: list_all2_conv_all_nth list_eq_iff_nth_eq)
  then have both: "list_all2 (\<lambda>o1 o0. operation_error o1 = None \<and> \<not> isOperationBlank o1 \<and> operation_payload o1 = operation_payload o0) ops' ?ops"
    by (rule list.rel_mono_strong) (auto dest: restored)
  then have "filter (\<lambda>o1. \<not> isOperationBlank o1) ops' = ops' \<and> list_all (\<lambda>o1. operation_error o1 = None) ops'
      \<and> map operation_payload ops' = map operation_payload ?ops"
    by (induction rule: list_all2_induct) auto
  moreover have "ops' \<noteq> []" using both ok(2) by auto
  ultimately show ?thesis
    using validate_ok [of t 0 ops', OF assms(1)] by (simp add: buildOperationsJson_def validateOperations_def stored)
qed

text \<open>
  C10. Saving and opening again. Whatever is in the fields, when a save is accepted the stored text opens in the
  visual editor on the saved operations in the same order: each has its mode, its trimmed texts, its value in the
  layout it was stored in, its flags, and its conditions with their connective, without what its mode has no use for.
  The text of the JSON view is the stored one, and saving again stores the same text. No value is a quoted string
  that would be read as another value.
\<close>

theorem override_roundtrip:
  assumes "\<And>key n. t key n \<noteq> []" "list_all operation_writable ops" "buildOperationsJson t True ops = Inr text" "text \<noteq> []"
  shows "\<exists>st. parseInitialState now seed text = Some st
     \<and> editMode st = Edit_Visual \<and> visualMode st = Visual_Operations \<and> jsonText st = text \<and> jsonError st = []
     \<and> map operation_view (operations st)
       = map (operation_view \<circ> canonical_operation) (filter (\<lambda>o1. \<not> isOperationBlank o1) ops)
     \<and> buildOperationsJson t True (operations st) = Inr text"
proof -
  let ?ops = "filter (\<lambda>o1. \<not> isOperationBlank o1) ops"
  have stored: "text = json_stringify2 (JObj [(''operations'', JArr (map operation_payload ?ops))])" "?ops \<noteq> []"
    using assms(3,4) by (auto simp: buildOperationsJson_def Let_def split: if_splits)
  have "list_all operation_writable ?ops" using assms(2) by (simp add: list_all_iff)
  then obtain ops' seed' where ops': "map_seed (normalizeOperation now) seed (map operation_payload ?ops) = Some (ops', seed')"
    "map operation_view ops' = map (operation_view \<circ> canonical_operation) ?ops"
    using operations_back by blast
  have "\<exists>st. parseInitialState now seed text = Some st \<and> editMode st = Edit_Visual \<and> visualMode st = Visual_Operations
      \<and> jsonText st = text \<and> jsonError st = [] \<and> operations st = ops'"
    using stored_text [of ?ops, folded stored(1)] ops'(1) stored by (simp add: parseInitialState_def Let_def verifyJSON_def)
  then show ?thesis using ops'(2) saved_back [OF assms ops'(2)] by auto
qed

section \<open>Reordering\<close>

lemma index_of_Some: "index_of P xs = Some i \<Longrightarrow> i < length xs \<and> P (xs ! i)"
  by (induction xs arbitrary: i) (auto split: if_splits)

lemma index_of_None: "index_of P xs = None \<longleftrightarrow> \<not> list_ex P xs"
  by (induction xs) auto

lemma insert_at_filter:
  "\<not> P x \<Longrightarrow> filter P (take j zs @ [x] @ drop j zs) = filter P zs"
  using filter_append [of P "take j zs" "drop j zs"] by simp

lemma insert_at_mset: "mset (take j zs @ [x] @ drop j zs) = add_mset x (mset zs)"
  using mset_append [of "take j zs" "drop j zs"] by simp

text \<open>The list after a move: the moved operation inserted into the others.\<close>

lemma reorder_cases:
  obtains "reorderOperations ops s t pos = ops"
  | xs m ys j where "ops = xs @ m # ys" "po_id m = s" "j < length (xs @ ys)" "po_id ((xs @ ys) ! j) = t"
    "reorderOperations ops s t pos =
       (let n = (if pos = After then j + 1 else j) in take n (xs @ ys) @ [m] @ drop n (xs @ ys))"
proof (cases "index_of (\<lambda>o1. po_id o1 = s) ops")
  case (Some i)
  then have i: "i < length ops" "po_id (ops ! i) = s" by (auto dest: index_of_Some)
  show thesis
  proof (cases "s = [] \<or> t = [] \<or> s = t \<or> index_of (\<lambda>o1. po_id o1 = t) (take i ops @ drop (Suc i) ops) = None")
    case False
    then obtain j where j: "index_of (\<lambda>o1. po_id o1 = t) (take i ops @ drop (Suc i) ops) = Some j" by auto
    show thesis
      using False Some j index_of_Some [OF j] i(2) id_take_nth_drop [OF i(1)]
      by (intro that(2) [of "take i ops" "ops ! i" "drop (Suc i) ops" j]) (auto simp: reorderOperations_def Let_def)
  qed (use Some that(1) in \<open>auto simp: reorderOperations_def Let_def\<close>)
qed (use that(1) in \<open>auto simp: reorderOperations_def\<close>)

lemma reorder_applies:
  assumes "s \<noteq> []" "t \<noteq> []" "s \<noteq> t" "list_ex (\<lambda>o1. po_id o1 = s) ops" "list_ex (\<lambda>o1. po_id o1 = t) ops"
  obtains i j where "index_of (\<lambda>o1. po_id o1 = s) ops = Some i"
    "index_of (\<lambda>o1. po_id o1 = t) (take i ops @ drop (Suc i) ops) = Some j"
proof -
  obtain i where i: "index_of (\<lambda>o1. po_id o1 = s) ops = Some i" using assms(4) index_of_None by blast
  then have "i < length ops" "po_id (ops ! i) = s" by (auto dest: index_of_Some)
  then have "list_ex (\<lambda>o1. po_id o1 = t) (take i ops @ ops ! i # drop (Suc i) ops)"
    using assms(5) by (simp add: id_take_nth_drop [symmetric])
  then have "list_ex (\<lambda>o1. po_id o1 = t) (take i ops @ drop (Suc i) ops)"
    using \<open>po_id (ops ! i) = s\<close> assms(3) by (auto simp: list_ex_iff)
  then show thesis using that i index_of_None by blast
qed

lemma reorder_mset: "mset (reorderOperations ops s t pos) = mset ops"
proof (cases rule: reorder_cases [of ops s t pos])
  case (2 xs m ys j)
  then show ?thesis by (simp only: Let_def insert_at_mset) simp
qed simp

lemma reorder_others: "filter (\<lambda>o1. po_id o1 \<noteq> s) (reorderOperations ops s t pos) = filter (\<lambda>o1. po_id o1 \<noteq> s) ops"
proof (cases rule: reorder_cases [of ops s t pos])
  case (2 xs m ys j)
  then show ?thesis by (simp only: Let_def insert_at_filter) simp
qed simp

text \<open>
  Dragging an operation moves it and changes nothing else: the operations are the same, the others keep
  their order, and when both identifiers exist the moved operation stands right before or after the target.
\<close>

lemma reorder_next_to:
  assumes "s \<noteq> []" "t \<noteq> []" "s \<noteq> t" "list_ex (\<lambda>o1. po_id o1 = s) ops" "list_ex (\<lambda>o1. po_id o1 = t) ops"
  shows "\<exists>xs m tg ys. po_id m = s \<and> po_id tg = t
     \<and> reorderOperations ops s t pos = xs @ (if pos = After then [tg, m] else [m, tg]) @ ys"
proof -
  from reorder_applies [OF assms] obtain i j where ij: "index_of (\<lambda>o1. po_id o1 = s) ops = Some i"
    "index_of (\<lambda>o1. po_id o1 = t) (take i ops @ drop (Suc i) ops) = Some j" by blast
  let ?n = "take i ops @ drop (Suc i) ops"
  have "drop j ?n = ?n ! j # drop (Suc j) ?n" "take (Suc j) ?n = take j ?n @ [?n ! j]"
    using index_of_Some [OF ij(2)] by (simp_all only: Cons_nth_drop_Suc take_Suc_conv_app_nth)
  then have "reorderOperations ops s t pos
      = take j ?n @ (if pos = After then [?n ! j, ops ! i] else [ops ! i, ?n ! j]) @ drop (Suc j) ?n"
    using assms ij by (simp add: reorderOperations_def Let_def del: take_append drop_append)
  then show ?thesis using index_of_Some [OF ij(1)] index_of_Some [OF ij(2)] by blast
qed

section \<open>Drafts\<close>

lemma dec_ok_of_int [simp]: "dec_ok (of_int_dec i)"
  by (simp add: of_int_dec_def dec_norm_ok)

lemma error_draft_back:
  assumes "\<not> rd_simpleMode d" "trimmed (rd_message d)" "trimmed (rd_code d)" "trimmed (rd_type d)"
    and "100 \<le> rd_statusCode d" "rd_statusCode d \<le> 599"
  shows "parseReturnErrorDraft (buildReturnErrorValueText d) = d"
proof -
  define p where "p = put_if (\<not> rd_skipRetry d) ''skip_retry'' (JBool False)
     (put_if (rd_type d \<noteq> []) ''type'' (JStr (rd_type d)) (put_if (rd_code d \<noteq> []) ''code'' (JStr (rd_code d))
       [(''message'', JStr (rd_message d)), (''status_code'', JNum (of_int_dec (rd_statusCode d)))]))"
  have "http_status (Some (of_int_dec (rd_statusCode d))) = rd_statusCode d"
    using assms by (simp add: http_status_def)
  then have built: "buildReturnErrorValueText d = json_stringify (JObj p)"
    using assms by (simp add: buildReturnErrorValueText_def Let_def trim_trimmed p_def)
  have "json_wf (JObj [(''message'', JStr (rd_message d)), (''status_code'', JNum (of_int_dec (rd_statusCode d)))])"
  proof -
    have "\<not> is_index ''status_code''" by code_simp
    then show ?thesis by (simp add: obj_ok_iff keys_ok_def key_before_def)
  qed
  then have "json_wf (JObj p)" unfolding p_def by (intro wf_put_if) simp_all
  moreover have "map_of p ''message'' = Some (JStr (rd_message d))" "map_of p ''msg'' = None"
    "map_of p ''status_code'' = Some (JNum (of_int_dec (rd_statusCode d)))"
    "map_of p ''code'' = (if rd_code d = [] then None else Some (JStr (rd_code d)))"
    "map_of p ''type'' = (if rd_type d = [] then None else Some (JStr (rd_type d)))"
    "map_of p ''skip_retry'' = (if rd_skipRetry d then None else Some (JBool False))"
    by (simp_all add: p_def put_if_get)
  ultimately show ?thesis
    using assms stringify_ends [of "JObj p"]
    by (simp add: built parseReturnErrorDraft_def Let_def json_parse_stringify string_or_def http_status_def trim_trimmed)
qed

definition draft_view :: "prune_draft \<Rightarrow> prune_draft" where
  "draft_view d = d\<lparr>pd_rules := map condition_view (pd_rules d)\<rparr>"

text \<open>A value text as it is shown after reading.\<close>

definition value_text_ok :: "string \<Rightarrow> bool" where
  "value_text_ok t \<longleftrightarrow> plain_text t \<and> canonical_text t = t"

lemma text_none: "toValueText None = []"
  by (simp add: toValueText_def)

lemma text_kept: "value_text_ok t \<Longrightarrow> toValueText (Some (parseLooseValue t)) = t"
  by (simp add: value_text_ok_def text_canonical)

definition rule_ok :: "po_condition \<Rightarrow> bool" where
  "rule_ok r \<longleftrightarrow> co_path r \<noteq> [] \<and> trimmed (co_path r) \<and> co_mode r \<in> set CONDITION_MODE_VALUES
     \<and> trimmed (co_value_text r) \<and> value_text_ok (co_value_text r)"

lemma rule_wf: "json_wf (prune_rule_payload r)"
proof -
  have "\<not> is_index ''path''" "\<not> is_index ''mode''" by code_simp+
  then have "json_wf (JObj [(''path'', JStr a), (''mode'', JStr b)])" for a b
    by (simp add: obj_ok_iff keys_ok_def key_before_def)
  then show ?thesis by (simp add: prune_rule_payload_def Let_def wf_put_if loose_wf del: json_wf.simps(3))
qed

lemma rule_back: "rule_ok r \<Longrightarrow> condition_view (normalizePruneRule now seed (prune_rule_payload r)) = condition_view r"
  by (auto simp: rule_ok_def prune_rule_payload_def normalizePruneRule_def Let_def put_if_get str_prop_def opt_str_def
      mode_prop_def true_prop_def trim_trimmed text_kept condition_view_def text_none)

lemma rules_back:
  "list_all rule_ok rs \<Longrightarrow>
     map condition_view (map (\<lambda>(i, j). normalizePruneRule now i j) (List.enumerate seed (map prune_rule_payload rs)))
     = map condition_view rs"
  by (induction rs arbitrary: seed) (simp_all add: rule_back)

lemma prune_draft_back:
  assumes "\<not> pd_simpleMode d" "trimmed (pd_typeText d)" "pd_logic d = ''AND'' \<or> pd_logic d = ''OR''"
    and "list_all rule_ok (pd_rules d)" "pd_rules d \<noteq> []"
  shows "draft_view (parsePruneObjectsDraft now seed (buildPruneObjectsValueText d)) = draft_view d"
proof -
  let ?cs = "map prune_rule_payload (pd_rules d)"
  define p where "p = put_if True ''conditions'' (JArr ?cs) (put_if (\<not> pd_recursive d) ''recursive'' (JBool False)
     (put_if (pd_logic d = ''OR'') ''logic'' (JStr ''OR'') (put_if (pd_typeText d \<noteq> []) ''type'' (JStr (pd_typeText d)) [])))"
  have "filter (\<lambda>r. js_trim (co_path r) \<noteq> []) (pd_rules d) = pd_rules d"
    using assms(4) by (auto simp: filter_id_conv list_all_iff rule_ok_def trim_trimmed)
  moreover have "ascii_upper (str_or (pd_logic d) ''AND'') = ''OR'' \<longleftrightarrow> pd_logic d = ''OR''"
    using assms(3) by (auto simp: str_or_def ascii_upper_def)
  ultimately have built: "buildPruneObjectsValueText d = json_stringify (JObj p)"
    using assms by (simp add: buildPruneObjectsValueText_def Let_def trim_trimmed p_def)
  have "json_wf (JArr ?cs)" by (simp add: list_all_iff rule_wf)
  then have "json_wf (JObj p)" unfolding p_def by (intro wf_put_if wf_empty) simp_all
  moreover have "map_of p ''type'' = (if pd_typeText d = [] then None else Some (JStr (pd_typeText d)))" "map_of p ''where'' = None"
    "map_of p ''logic'' = (if pd_logic d = ''OR'' then Some (JStr ''OR'') else None)" "map_of p ''conditions'' = Some (JArr ?cs)"
    "map_of p ''recursive'' = (if pd_recursive d then None else Some (JBool False))"
    by (simp_all add: p_def put_if_get)
  moreover have "filter is_record ?cs = ?cs" by (simp add: filter_id_conv prune_rule_payload_def Let_def)
  ultimately show ?thesis
    using assms stringify_ends [of "JObj p"] rules_back [OF assms(4), of now seed]
    by (auto simp: built parsePruneObjectsDraft_def Let_def json_parse_stringify string_or_def ascii_upper_def prune_sources_def
        entry_rules_def trim_trimmed draft_view_def)
qed

section \<open>Examples\<close>

definition example_condition :: po_condition where
  "example_condition = \<lparr>co_id = ''c'', co_path = ''model'', co_mode = ''prefix'', co_value_text = ''openai/'', co_invert = True,
     co_pass_missing_key = False\<rparr>"

definition example_operation :: po_operation where
  "example_operation = \<lparr>po_id = ''a'', po_description = ''Default'', po_path = ''temperature'', po_mode = ''set'', po_from = [],
     po_to = [], po_value_text = ''0.7'', po_keep_origin = True, po_logic = ''AND'', po_conditions = [example_condition]\<rparr>"

lemma example_ok: "operation_writable example_operation" "operation_error example_operation = None" "\<not> isOperationBlank example_operation"
  by code_simp+

definition example_draft :: prune_draft where
  "example_draft = \<lparr>pd_simpleMode = False, pd_typeText = ''redacted_thinking'', pd_logic = ''OR'', pd_recursive = False,
     pd_rules = [example_condition]\<rparr>"

text \<open>The example as it is shown again.\<close>

lemma example_canonical: "operation_view (canonical_operation example_operation) = operation_view example_operation"
  by code_simp

lemma example_saved: "\<exists>s. buildOperationsJson (\<lambda>k n. ''!'' @ k) True [example_operation] = Inr s \<and> s \<noteq> []"
  by (auto simp: buildOperationsJson_def validateOperations_def Let_def example_ok stringify2_object_ends)

theorem override_roundtrip_witness:
  "\<exists>s st. buildOperationsJson (\<lambda>k n. ''!'' @ k) True [example_operation] = Inr s \<and> parseInitialState 0 0 s = Some st
     \<and> map operation_view (operations st) = [operation_view example_operation]
     \<and> buildOperationsJson (\<lambda>k n. ''!'' @ k) True (operations st) = Inr s"
proof -
  obtain s where "buildOperationsJson (\<lambda>k n. ''!'' @ k) True [example_operation] = Inr s" "s \<noteq> []" using example_saved by blast
  then show ?thesis
    using override_roundtrip [of "\<lambda>k n. ''!'' @ k" "[example_operation]" s 0 0] example_ok by (auto simp: example_canonical)
qed

theorem saved_payloads_complete_witness:
  "\<exists>s. buildOperationsJson (\<lambda>k n. ''!'' @ k) True [example_operation] = Inr s
     \<and> json_parse s = Some (JObj [(''operations'', JArr [operation_payload example_operation])])
     \<and> operation_complete example_operation"
proof -
  obtain s where "buildOperationsJson (\<lambda>k n. ''!'' @ k) True [example_operation] = Inr s" "s \<noteq> []" using example_saved by blast
  then show ?thesis using saved_payloads_complete [of "\<lambda>k n. ''!'' @ k" "[example_operation]"] example_ok by simp
qed

end
