(* ===== verification/Override_Editor.thy ===== *)
theory Override_Editor
  imports Override_Roundtrip
begin

text \<open>
  The dialog of the parameter override editor: the component \<open>ParamOverrideEditorDialog\<close> of
  \<open>web/src/features/channels/components/dialogs/param-override-editor-dialog.tsx\<close>, its templates, its state and
  its handlers.

  The state is one record. A handler is a function on it; \<open>now\<close> is the time the identifiers it creates are
  stamped with. A handler that reads a property of \<open>null\<close> throws before it has set anything and returns \<open>None\<close>.
  A patch has one optional value per field; the callers never patch an identifier or the list of conditions.
  \<open>tr\<close> translates a message and \<open>t\<close> a message about a line.
\<close>

section \<open>Templates\<close>

definition LEGACY_TEMPLATE :: json where
  "LEGACY_TEMPLATE = JObj [(''temperature'', JNum (of_int_dec 0)), (''max_tokens'', JNum (of_int_dec 1000))]"

definition OPERATION_TEMPLATE :: json where
  "OPERATION_TEMPLATE = JObj [(''operations'', JArr [JObj
     [(''description'', JStr ''Set default temperature for openai/* models.''), (''path'', JStr ''temperature''),
      (''mode'', JStr ''set''), (''value'', JNum (Dec 7 (- 1))),
      (''conditions'', JArr [JObj [(''path'', JStr ''model''), (''mode'', JStr ''prefix''), (''value'', JStr ''openai/'')]]),
      (''logic'', JStr ''AND'')]])]"

definition HEADER_PASSTHROUGH_TEMPLATE :: json where
  "HEADER_PASSTHROUGH_TEMPLATE = JObj [(''operations'', JArr [JObj
     [(''description'', JStr ''Pass through X-Request-Id header to upstream.''), (''mode'', JStr ''pass_headers''),
      (''value'', JArr [JStr ''X-Request-Id'']), (''keep_origin'', JBool True)]])]"

definition GEMINI_IMAGE_4K_TEMPLATE :: json where
  "GEMINI_IMAGE_4K_TEMPLATE = JObj [(''operations'', JArr [JObj
     [(''description'', JStr ''Set imageSize to 4K when model contains gemini/image and ends with 4k.''),
      (''mode'', JStr ''set''), (''path'', JStr ''generationConfig.imageConfig.imageSize''), (''value'', JStr ''4K''),
      (''conditions'', JArr
         [JObj [(''path'', JStr ''original_model''), (''mode'', JStr ''contains''), (''value'', JStr ''gemini'')],
          JObj [(''path'', JStr ''original_model''), (''mode'', JStr ''contains''), (''value'', JStr ''image'')],
          JObj [(''path'', JStr ''original_model''), (''mode'', JStr ''suffix''), (''value'', JStr ''4k'')]]),
      (''logic'', JStr ''AND'')]])]"

definition CODEX_CLI_HEADER_PASSTHROUGH_HEADERS :: "string list" where
  "CODEX_CLI_HEADER_PASSTHROUGH_HEADERS =
     [''Originator'', ''Session_id'', ''Thread_id'', ''Session-Id'', ''Thread-Id'',
      ''X-Client-Request-Id'', ''User-Agent'', ''X-Codex-Beta-Features'', ''X-Codex-Turn-State'',
      ''X-Codex-Turn-Metadata'', ''X-Codex-Window-Id'', ''X-Codex-Parent-Thread-Id'',
      ''X-OpenAI-Subagent'', ''X-OpenAI-Memgen-Request'', ''X-ResponsesAPI-Include-Timing-Metrics'',
      ''X-OpenAI-Internal-Codex-Responses-Lite'']"

definition CLAUDE_CLI_HEADER_PASSTHROUGH_HEADERS :: "string list" where
  "CLAUDE_CLI_HEADER_PASSTHROUGH_HEADERS =
     [''X-Stainless-Arch'', ''X-Stainless-Lang'', ''X-Stainless-Os'', ''X-Stainless-Package-Version'',
      ''X-Stainless-Retry-Count'', ''X-Stainless-Runtime'', ''X-Stainless-Runtime-Version'',
      ''X-Stainless-Timeout'', ''User-Agent'', ''X-App'', ''Anthropic-Beta'',
      ''Anthropic-Dangerous-Direct-Browser-Access'', ''Anthropic-Version'']"

definition buildPassHeadersTemplate :: "string list \<Rightarrow> json" where
  "buildPassHeadersTemplate headers = JObj [(''operations'', JArr [JObj
     [(''mode'', JStr ''pass_headers''), (''value'', JArr (map JStr headers)), (''keep_origin'', JBool True)]])]"

definition CODEX_CLI_HEADER_PASSTHROUGH_TEMPLATE :: json where
  "CODEX_CLI_HEADER_PASSTHROUGH_TEMPLATE = JObj [(''operations'', JArr [JObj
     [(''mode'', JStr ''pass_headers''), (''value'', JArr (map JStr CODEX_CLI_HEADER_PASSTHROUGH_HEADERS)),
      (''keep_origin'', JBool True)]])]"

definition CLAUDE_CLI_HEADER_PASSTHROUGH_TEMPLATE :: json where
  "CLAUDE_CLI_HEADER_PASSTHROUGH_TEMPLATE = buildPassHeadersTemplate CLAUDE_CLI_HEADER_PASSTHROUGH_HEADERS"

definition AWS_BEDROCK_ANTHROPIC_COMPAT_TEMPLATE :: json where
  "AWS_BEDROCK_ANTHROPIC_COMPAT_TEMPLATE = JObj [(''operations'', JArr
     [JObj [(''description'', JStr ''Normalize anthropic-beta header tokens for Bedrock compatibility.''),
        (''mode'', JStr ''set_header''), (''path'', JStr ''anthropic-beta''), (''value'', JObj
     [(''advanced-tool-use-2025-11-20'', JStr ''tool-search-tool-2025-10-19''),
      (''bash_20241022'', JNull), (''bash_20250124'', JNull), (''code-execution-2025-08-25'', JNull),
      (''compact-2026-01-12'', JStr ''compact-2026-01-12''),
      (''computer-use-2025-01-24'', JStr ''computer-use-2025-01-24''),
      (''computer-use-2025-11-24'', JStr ''computer-use-2025-11-24''),
      (''context-1m-2025-08-07'', JStr ''context-1m-2025-08-07''),
      (''context-management-2025-06-27'', JStr ''context-management-2025-06-27''),
      (''effort-2025-11-24'', JNull), (''fast-mode-2026-02-01'', JNull),
      (''files-api-2025-04-14'', JNull), (''fine-grained-tool-streaming-2025-05-14'', JNull),
      (''interleaved-thinking-2025-05-14'', JStr ''interleaved-thinking-2025-05-14''),
      (''mcp-client-2025-11-20'', JNull), (''mcp-client-2025-04-04'', JNull),
      (''mcp-servers-2025-12-04'', JNull), (''output-128k-2025-02-19'', JNull),
      (''structured-output-2024-03-01'', JNull), (''prompt-caching-scope-2026-01-05'', JNull),
      (''skills-2025-10-02'', JNull), (''structured-outputs-2025-11-13'', JNull),
      (''text_editor_20241022'', JNull), (''text_editor_20250124'', JNull),
      (''token-efficient-tools-2025-02-19'', JNull),
      (''tool-search-tool-2025-10-19'', JStr ''tool-search-tool-2025-10-19''),
      (''web-fetch-2025-09-10'', JNull), (''web-search-2025-03-05'', JNull), (''oauth-2025-04-20'', JNull)])],
      JObj [(''description'', JStr ''Remove all tools[*].custom.input_examples before upstream relay.''),
        (''mode'', JStr ''delete''), (''path'', JStr ''tools.*.custom.input_examples'')]])]"

datatype preset_kind = Kind_Operations | Kind_Legacy

record template_preset =
  tp_label :: string
  tp_kind :: preset_kind
  tp_payload :: json

definition TEMPLATE_PRESET_CONFIG :: "(string \<times> template_preset) list" where
  "TEMPLATE_PRESET_CONFIG =
     [(''operations_default'', \<lparr>tp_label = ''New Format Template'', tp_kind = Kind_Operations, tp_payload = OPERATION_TEMPLATE\<rparr>),
      (''legacy_default'', \<lparr>tp_label = ''Legacy Format Template'', tp_kind = Kind_Legacy, tp_payload = LEGACY_TEMPLATE\<rparr>),
      (''pass_headers_auth'', \<lparr>tp_label = ''Header Passthrough (X-Request-Id)'', tp_kind = Kind_Operations,
         tp_payload = HEADER_PASSTHROUGH_TEMPLATE\<rparr>),
      (''gemini_image_4k'', \<lparr>tp_label = ''Gemini Image 4K'', tp_kind = Kind_Operations, tp_payload = GEMINI_IMAGE_4K_TEMPLATE\<rparr>),
      (''claude_cli_headers_passthrough'', \<lparr>tp_label = ''Claude CLI Header Passthrough'', tp_kind = Kind_Operations,
         tp_payload = CLAUDE_CLI_HEADER_PASSTHROUGH_TEMPLATE\<rparr>),
      (''codex_cli_headers_passthrough'', \<lparr>tp_label = ''Codex CLI Header Passthrough'', tp_kind = Kind_Operations,
         tp_payload = CODEX_CLI_HEADER_PASSTHROUGH_TEMPLATE\<rparr>),
      (''aws_bedrock_anthropic_beta_override'', \<lparr>tp_label = ''AWS Bedrock Claude Compat'', tp_kind = Kind_Operations,
         tp_payload = AWS_BEDROCK_ANTHROPIC_COMPAT_TEMPLATE\<rparr>)]"

section \<open>State\<close>

record dialog = editor_state +
  operationSearch :: string
  selectedOperationId :: string
  expandedConditions :: "string \<rightharpoonup> bool"
  draggedOperationId :: string
  dragOverOperationId :: string
  dragOverPosition :: drop_position
  templatePresetKey :: string
  localIdSeed :: nat
  po_toasts :: "string list"

record operation_patch =
  pp_description :: "string option"
  pp_path :: "string option"
  pp_mode :: "string option"
  pp_from :: "string option"
  pp_to :: "string option"
  pp_value_text :: "string option"
  pp_keep_origin :: "bool option"
  pp_logic :: "string option"

record condition_patch =
  cp_path :: "string option"
  cp_mode :: "string option"
  cp_value_text :: "string option"
  cp_invert :: "bool option"
  cp_pass_missing_key :: "bool option"

definition or_old :: "'a option \<Rightarrow> 'a \<Rightarrow> 'a" where
  "or_old p x = (case p of Some y \<Rightarrow> y | None \<Rightarrow> x)"

definition patch_operation :: "operation_patch \<Rightarrow> po_operation \<Rightarrow> po_operation" where
  "patch_operation p o1 = o1\<lparr>po_description := or_old (pp_description p) (po_description o1),
     po_path := or_old (pp_path p) (po_path o1), po_mode := or_old (pp_mode p) (po_mode o1),
     po_from := or_old (pp_from p) (po_from o1), po_to := or_old (pp_to p) (po_to o1),
     po_value_text := or_old (pp_value_text p) (po_value_text o1),
     po_keep_origin := or_old (pp_keep_origin p) (po_keep_origin o1), po_logic := or_old (pp_logic p) (po_logic o1)\<rparr>"

definition patch_condition :: "condition_patch \<Rightarrow> po_condition \<Rightarrow> po_condition" where
  "patch_condition p c = c\<lparr>co_path := or_old (cp_path p) (co_path c), co_mode := or_old (cp_mode p) (co_mode c),
     co_value_text := or_old (cp_value_text p) (co_value_text c), co_invert := or_old (cp_invert p) (co_invert c),
     co_pass_missing_key := or_old (cp_pass_missing_key p) (co_pass_missing_key c)\<rparr>"

text \<open>\<open>prev.map((o) => o.id === id ? f(o) : o)\<close>.\<close>

definition map_operation :: "string \<Rightarrow> (po_operation \<Rightarrow> po_operation) \<Rightarrow> po_operation list \<Rightarrow> po_operation list" where
  "map_operation operationId f = map (\<lambda>o1. if po_id o1 = operationId then f o1 else o1)"

definition first_id :: "po_operation list \<Rightarrow> string" where
  "first_id ops = (case ops of [] \<Rightarrow> [] | o1 # _ \<Rightarrow> po_id o1)"

section \<open>Opening, selection\<close>

text \<open>The number of identifiers \<open>parseInitialState\<close> takes from the counter.\<close>

definition ids_used :: "po_operation list \<Rightarrow> nat" where
  "ids_used ops = sum_list (map (\<lambda>o1. Suc (length (po_conditions o1))) ops)"

definition open_dialog :: "int \<Rightarrow> string \<Rightarrow> dialog \<Rightarrow> dialog option" where
  "open_dialog now value st =
     (case parseInitialState now (localIdSeed st) value of
        None \<Rightarrow> None
      | Some s \<Rightarrow> Some (st\<lparr>editMode := editMode s, visualMode := visualMode s, legacyValue := legacyValue s,
          operations := operations s, jsonText := jsonText s, jsonError := jsonError s, operationSearch := [],
          selectedOperationId := first_id (operations s), expandedConditions := Map.empty, draggedOperationId := [],
          dragOverOperationId := [], dragOverPosition := Before,
          templatePresetKey := (if visualMode s = Visual_Legacy then ''legacy_default'' else ''operations_default''),
          localIdSeed := localIdSeed st + ids_used (operations s)\<rparr>))"

text \<open>The effect that keeps the selection valid.\<close>

definition fix_selection :: "dialog \<Rightarrow> dialog" where
  "fix_selection st =
     (if operations st = [] then st\<lparr>selectedOperationId := []\<rparr>
      else if \<not> list_ex (\<lambda>o1. po_id o1 = selectedOperationId st) (operations st)
      then st\<lparr>selectedOperationId := first_id (operations st)\<rparr> else st)"

definition operationCount :: "dialog \<Rightarrow> nat" where
  "operationCount st = length (filter (\<lambda>o1. \<not> isOperationBlank o1) (operations st))"

definition selectedOperation :: "dialog \<Rightarrow> po_operation option" where
  "selectedOperation st = find (\<lambda>o1. po_id o1 = selectedOperationId st) (operations st)"

section \<open>Operations and conditions\<close>

definition updateOperation :: "string \<Rightarrow> operation_patch \<Rightarrow> dialog \<Rightarrow> dialog" where
  "updateOperation operationId patch st =
     st\<lparr>operations := map_operation operationId (patch_operation patch) (operations st)\<rparr>"

definition addOperation :: "int \<Rightarrow> dialog \<Rightarrow> dialog" where
  "addOperation now st =
     (let created = createDefaultOperation now (localIdSeed st)
      in st\<lparr>operations := operations st @ [created], selectedOperationId := po_id created, localIdSeed := Suc (localIdSeed st)\<rparr>)"

definition clone_source :: "po_operation \<Rightarrow> json" where
  "clone_source source = JObj
     [(''description'', JStr (po_description source)), (''path'', JStr (po_path source)), (''mode'', JStr (po_mode source)),
      (''value'', parseLooseValue (po_value_text source)), (''keep_origin'', JBool (po_keep_origin source)),
      (''from'', JStr (po_from source)), (''to'', JStr (po_to source)), (''logic'', JStr (po_logic source)),
      (''conditions'', JArr (map (\<lambda>c. JObj
         [(''path'', JStr (co_path c)), (''mode'', JStr (co_mode c)), (''value'', parseLooseValue (co_value_text c)),
          (''invert'', JBool (co_invert c)), (''pass_missing_key'', JBool (co_pass_missing_key c))]) (po_conditions source)))]"

text \<open>\<open>eager\<close>: whether the state updater has run when the handler looks at the new identifier.\<close>

definition duplicateOperation :: "bool \<Rightarrow> int \<Rightarrow> string \<Rightarrow> dialog \<Rightarrow> dialog" where
  "duplicateOperation eager now operationId st =
     (case index_of (\<lambda>o1. po_id o1 = operationId) (operations st) of
        None \<Rightarrow> st
      | Some idx \<Rightarrow>
          (case normalizeOperation now (localIdSeed st) (clone_source (operations st ! idx)) of
             None \<Rightarrow> st
           | Some (cloned, seed) \<Rightarrow>
               st\<lparr>operations := take (idx + 1) (operations st) @ [cloned] @ drop (idx + 1) (operations st),
                  selectedOperationId := (if eager then po_id cloned else selectedOperationId st), localIdSeed := seed\<rparr>))"

definition removeOperation :: "int \<Rightarrow> string \<Rightarrow> dialog \<Rightarrow> dialog" where
  "removeOperation now operationId st =
     (if length (operations st) \<le> 1
      then st\<lparr>operations := [createDefaultOperation now (localIdSeed st)], localIdSeed := Suc (localIdSeed st)\<rparr>
      else st\<lparr>operations := filter (\<lambda>o1. po_id o1 \<noteq> operationId) (operations st)\<rparr>)"

definition addCondition :: "int \<Rightarrow> string \<Rightarrow> dialog \<Rightarrow> dialog" where
  "addCondition now operationId st =
     (let created = createDefaultCondition now (localIdSeed st)
      in st\<lparr>operations := map_operation operationId (\<lambda>o1. o1\<lparr>po_conditions := po_conditions o1 @ [created]\<rparr>) (operations st),
            expandedConditions := (expandedConditions st)(co_id created \<mapsto> True), localIdSeed := Suc (localIdSeed st)\<rparr>)"

definition updateCondition :: "string \<Rightarrow> string \<Rightarrow> condition_patch \<Rightarrow> dialog \<Rightarrow> dialog" where
  "updateCondition operationId conditionId patch st =
     st\<lparr>operations := map_operation operationId
        (\<lambda>o1. o1\<lparr>po_conditions := map (\<lambda>c. if co_id c = conditionId then patch_condition patch c else c) (po_conditions o1)\<rparr>)
        (operations st)\<rparr>"

definition removeCondition :: "string \<Rightarrow> string \<Rightarrow> dialog \<Rightarrow> dialog" where
  "removeCondition operationId conditionId st =
     st\<lparr>operations := map_operation operationId
        (\<lambda>o1. o1\<lparr>po_conditions := filter (\<lambda>c. co_id c \<noteq> conditionId) (po_conditions o1)\<rparr>) (operations st)\<rparr>"

definition setAllConditions :: "bool \<Rightarrow> dialog \<Rightarrow> dialog" where
  "setAllConditions b st =
     (case selectedOperation st of
        None \<Rightarrow> st
      | Some o1 \<Rightarrow> st\<lparr>expandedConditions :=
          expandedConditions st ++ map_of (map (\<lambda>c. (co_id c, b)) (po_conditions o1))\<rparr>)"

section \<open>Drafts\<close>

definition updateReturnErrorDraft :: "string \<Rightarrow> (return_error_draft \<Rightarrow> return_error_draft) \<Rightarrow> dialog \<Rightarrow> dialog" where
  "updateReturnErrorDraft operationId patch st =
     st\<lparr>operations := map_operation operationId
        (\<lambda>o1. o1\<lparr>po_value_text := buildReturnErrorValueText (patch (parseReturnErrorDraft (po_value_text o1)))\<rparr>) (operations st)\<rparr>"

text \<open>
  The updater gets the draft and the counter after the draft was read, and returns the counter. Identifiers are
  unique, so at most one operation is read.
\<close>

fun update_prune ::
  "int \<Rightarrow> string \<Rightarrow> (nat \<Rightarrow> prune_draft \<Rightarrow> prune_draft \<times> nat) \<Rightarrow> nat \<Rightarrow> po_operation list \<Rightarrow> po_operation list \<times> nat" where
  "update_prune now operationId updater seed [] = ([], seed)"
| "update_prune now operationId updater seed (o1 # ops) =
     (if po_id o1 \<noteq> operationId
      then (let (ops', seed') = update_prune now operationId updater seed ops in (o1 # ops', seed'))
      else (let draft = parsePruneObjectsDraft now seed (po_value_text o1);
                (nextDraft, seed1) = updater (seed + length (pd_rules draft)) draft;
                (ops', seed2) = update_prune now operationId updater seed1 ops
            in (o1\<lparr>po_value_text := buildPruneObjectsValueText nextDraft\<rparr> # ops', seed2)))"

definition updatePruneObjectsDraft ::
  "int \<Rightarrow> string \<Rightarrow> (nat \<Rightarrow> prune_draft \<Rightarrow> prune_draft \<times> nat) \<Rightarrow> dialog \<Rightarrow> dialog" where
  "updatePruneObjectsDraft now operationId updater st =
     (let (ops, seed) = update_prune now operationId updater (localIdSeed st) (operations st)
      in st\<lparr>operations := ops, localIdSeed := seed\<rparr>)"

definition addPruneRule :: "int \<Rightarrow> string \<Rightarrow> dialog \<Rightarrow> dialog" where
  "addPruneRule now operationId = updatePruneObjectsDraft now operationId
     (\<lambda>seed draft. (draft\<lparr>pd_simpleMode := False, pd_rules := pd_rules draft @ [normalizePruneRule now seed (JObj [])]\<rparr>, Suc seed))"

definition updatePruneRule :: "int \<Rightarrow> string \<Rightarrow> string \<Rightarrow> condition_patch \<Rightarrow> dialog \<Rightarrow> dialog" where
  "updatePruneRule now operationId ruleId patch = updatePruneObjectsDraft now operationId
     (\<lambda>seed draft. (draft\<lparr>pd_rules := map (\<lambda>r. if co_id r = ruleId then patch_condition patch r else r) (pd_rules draft)\<rparr>, seed))"

definition removePruneRule :: "int \<Rightarrow> string \<Rightarrow> string \<Rightarrow> dialog \<Rightarrow> dialog" where
  "removePruneRule now operationId ruleId = updatePruneObjectsDraft now operationId
     (\<lambda>seed draft. (draft\<lparr>pd_rules := filter (\<lambda>r. co_id r \<noteq> ruleId) (pd_rules draft)\<rparr>, seed))"

section \<open>Drag and drop\<close>

definition resetDragState :: "dialog \<Rightarrow> dialog" where
  "resetDragState st = st\<lparr>draggedOperationId := [], dragOverOperationId := [], dragOverPosition := Before\<rparr>"

definition handleDragStart :: "string \<Rightarrow> dialog \<Rightarrow> dialog" where
  "handleDragStart operationId st = st\<lparr>draggedOperationId := operationId, selectedOperationId := operationId\<rparr>"

text \<open>\<open>lower\<close>: the pointer is in the lower half of the row.\<close>

definition handleDragOver :: "string \<Rightarrow> bool \<Rightarrow> dialog \<Rightarrow> dialog" where
  "handleDragOver operationId lower st =
     (if draggedOperationId st = [] \<or> draggedOperationId st = operationId then st
      else st\<lparr>dragOverOperationId := operationId, dragOverPosition := (if lower then After else Before)\<rparr>)"

text \<open>\<open>transferred\<close>: the text of the drag event.\<close>

definition handleDrop :: "string \<Rightarrow> string \<Rightarrow> dialog \<Rightarrow> dialog" where
  "handleDrop transferred operationId st =
     (let sourceId = str_or (draggedOperationId st) transferred;
          position = (if dragOverOperationId st = operationId then dragOverPosition st else Before)
      in resetDragState
           (if sourceId \<noteq> [] \<and> operationId \<noteq> [] \<and> sourceId \<noteq> operationId
            then st\<lparr>operations := reorderOperations (operations st) sourceId operationId position,
                    selectedOperationId := sourceId\<rparr>
            else st))"

section \<open>Modes, templates, saving\<close>

definition buildVisualJson :: "(string \<Rightarrow> string) \<Rightarrow> (string \<Rightarrow> nat \<Rightarrow> string) \<Rightarrow> dialog \<Rightarrow> string + string" where
  "buildVisualJson tr t st =
     (if visualMode st = Visual_Legacy
      then (let trimmed = js_trim (legacyValue st)
            in if trimmed = [] then Inr []
               else if \<not> verifyJSON trimmed then Inl (tr ''Parameter override must be valid JSON format'')
               else (case the (json_parse trimmed) of
                   JObj fs \<Rightarrow> Inr (json_stringify2 (JObj fs))
                 | _ \<Rightarrow> Inl (tr ''Legacy format must be a JSON object'')))
      else buildOperationsJson t True (operations st))"

definition switchToJsonMode :: "(string \<Rightarrow> string) \<Rightarrow> (string \<Rightarrow> nat \<Rightarrow> string) \<Rightarrow> dialog \<Rightarrow> dialog" where
  "switchToJsonMode tr t st =
     (if editMode st = Edit_Json then st
      else (case buildVisualJson tr t st of
          Inr text \<Rightarrow> st\<lparr>jsonText := text, jsonError := [], editMode := Edit_Json\<rparr>
        | Inl message \<Rightarrow>
            st\<lparr>po_toasts := po_toasts st @ [message],
               jsonText := (if visualMode st = Visual_Legacy then legacyValue st
                  else (case buildOperationsJson t False (operations st) of Inr text \<Rightarrow> text | Inl _ \<Rightarrow> jsonText st)),
               jsonError := str_or message (tr ''Parameter configuration error''), editMode := Edit_Json\<rparr>))"

definition show_operations :: "po_operation list \<Rightarrow> nat \<Rightarrow> dialog \<Rightarrow> dialog" where
  "show_operations ops seed st = st\<lparr>visualMode := Visual_Operations, operations := ops, selectedOperationId := first_id ops,
     legacyValue := [], jsonError := [], editMode := Edit_Visual, localIdSeed := seed\<rparr>"

definition switchToVisualMode :: "(string \<Rightarrow> string) \<Rightarrow> int \<Rightarrow> dialog \<Rightarrow> dialog option" where
  "switchToVisualMode tr now st =
     (let trimmed = js_trim (jsonText st); seed = localIdSeed st; fallback = createDefaultOperation now seed
      in if editMode st = Edit_Visual then Some st
         else if trimmed = [] then Some (show_operations [fallback] (Suc seed) st)
         else if \<not> verifyJSON trimmed
         then Some (st\<lparr>po_toasts := po_toasts st @ [tr ''Parameter override must be valid JSON format'']\<rparr>)
         else (case the (json_parse trimmed) of
             JObj fs \<Rightarrow>
               (case map_of fs ''operations'' of
                  Some (JArr xs) \<Rightarrow>
                    (if xs = [] then Some ((show_operations [fallback] (Suc seed) st)\<lparr>templatePresetKey := ''operations_default''\<rparr>)
                     else map_option (\<lambda>(ops, seed'). (show_operations ops seed' st)\<lparr>templatePresetKey := ''operations_default''\<rparr>)
                            (map_seed (normalizeOperation now) seed xs))
                | _ \<Rightarrow>
                    Some (st\<lparr>visualMode := Visual_Legacy, legacyValue := json_stringify2 (JObj fs), operations := [fallback],
                      selectedOperationId := po_id fallback, jsonError := [], editMode := Edit_Visual,
                      templatePresetKey := ''legacy_default'', localIdSeed := Suc seed\<rparr>))
           | _ \<Rightarrow> Some (st\<lparr>po_toasts := po_toasts st @ [tr ''Parameter override must be a valid JSON object'']\<rparr>)))"

definition preset_of :: "string \<Rightarrow> template_preset" where
  "preset_of key =
     (case map_of TEMPLATE_PRESET_CONFIG key of
        Some p \<Rightarrow> p
      | None \<Rightarrow> \<lparr>tp_label = ''New Format Template'', tp_kind = Kind_Operations, tp_payload = OPERATION_TEMPLATE\<rparr>)"

text \<open>The properties a value contributes to a spread \<open>{...v}\<close>; the items of a string are its characters.\<close>

definition spread_fields :: "json \<Rightarrow> (string \<times> json) list" where
  "spread_fields v =
     (case v of
        JObj fs \<Rightarrow> fs
      | JArr xs \<Rightarrow> map (\<lambda>(i, x). (nat_str i, x)) (List.enumerate 0 xs)
      | JStr s \<Rightarrow> map (\<lambda>(i, c). (nat_str i, JStr [c])) (List.enumerate 0 s)
      | _ \<Rightarrow> [])"

definition spread_over :: "json \<Rightarrow> json \<Rightarrow> json" where
  "spread_over a b = JObj (fold (\<lambda>kv. obj_put (fst kv) (snd kv)) (spread_fields a @ spread_fields b) [])"

definition show_legacy :: "int \<Rightarrow> string \<Rightarrow> dialog \<Rightarrow> dialog" where
  "show_legacy now text st = st\<lparr>visualMode := Visual_Legacy, legacyValue := text,
     operations := [createDefaultOperation now (localIdSeed st)], jsonText := text, jsonError := [], editMode := Edit_Visual,
     localIdSeed := Suc (localIdSeed st)\<rparr>"

definition payload_operations :: "json \<Rightarrow> json list" where
  "payload_operations payload = (case jget payload ''operations'' of Some (JArr xs) \<Rightarrow> xs | _ \<Rightarrow> [])"

text \<open>\<open>add\<close>: the mode \<open>'append'\<close>, otherwise \<open>'fill'\<close>.\<close>

definition fillTemplate :: "(string \<Rightarrow> string) \<Rightarrow> int \<Rightarrow> bool \<Rightarrow> dialog \<Rightarrow> dialog" where
  "fillTemplate tr now add st =
     (let preset = preset_of (templatePresetKey st); payload = tp_payload preset
      in if tp_kind preset = Kind_Legacy
         then (if add \<and> visualMode st = Visual_Legacy
               then (let trimmed = js_trim (legacyValue st)
                     in if trimmed = [] then show_legacy now (json_stringify2 (spread_over payload (JObj []))) st
                        else if \<not> verifyJSON trimmed
                        then st\<lparr>po_toasts := po_toasts st @ [tr ''Current legacy JSON is invalid, cannot append'']\<rparr>
                        else show_legacy now (json_stringify2 (spread_over payload (the (json_parse trimmed)))) st)
               else show_legacy now (json_stringify2 payload) st)
         else (case map_seed (normalizeOperation now) (localIdSeed st) (payload_operations payload) of
             None \<Rightarrow> st
           | Some (loaded, seed) \<Rightarrow>
               if add
               then (let existing = (if visualMode st = Visual_Operations
                           then filter (\<lambda>o1. \<not> isOperationBlank o1) (operations st) else []);
                         nextOps = existing @ loaded
                     in st\<lparr>visualMode := Visual_Operations, operations := (if nextOps \<noteq> [] then nextOps else loaded),
                           selectedOperationId := str_or (first_id nextOps) (first_id loaded), legacyValue := [],
                           jsonError := [], editMode := Edit_Visual, jsonText := [], localIdSeed := seed\<rparr>)
               else (let finalOps = (if loaded \<noteq> [] then loaded else [createDefaultOperation now seed])
                     in st\<lparr>visualMode := Visual_Operations, operations := finalOps, selectedOperationId := first_id finalOps,
                           jsonText := json_stringify2 (JObj [(''operations'', JArr (payload_operations payload))]),
                           jsonError := [], editMode := Edit_Visual,
                           localIdSeed := (if loaded \<noteq> [] then seed else Suc seed)\<rparr>)))"

definition resetEditorState :: "int \<Rightarrow> dialog \<Rightarrow> dialog" where
  "resetEditorState now st =
     (show_operations [createDefaultOperation now (localIdSeed st)] (Suc (localIdSeed st)) st)
       \<lparr>jsonText := [], templatePresetKey := ''operations_default''\<rparr>"

definition handleJsonChange :: "(string \<Rightarrow> string) \<Rightarrow> string \<Rightarrow> dialog \<Rightarrow> dialog" where
  "handleJsonChange tr nextValue st =
     (let trimmed = js_trim nextValue
      in st\<lparr>jsonText := nextValue,
            jsonError := (if trimmed = [] \<or> verifyJSON trimmed then [] else tr ''JSON format error'')\<rparr>)"

definition visualValidationError :: "(string \<Rightarrow> string) \<Rightarrow> (string \<Rightarrow> nat \<Rightarrow> string) \<Rightarrow> dialog \<Rightarrow> string" where
  "visualValidationError tr t st =
     (if editMode st \<noteq> Edit_Visual then []
      else (case buildVisualJson tr t st of
          Inr _ \<Rightarrow> []
        | Inl message \<Rightarrow> str_or message (tr ''Parameter configuration error'')))"

text \<open>\<open>Inr\<close>: the text handed to \<open>onSave\<close>, and the dialog closes; \<open>Inl\<close>: the message of the toast.\<close>

definition handleSave :: "(string \<Rightarrow> string) \<Rightarrow> (string \<Rightarrow> nat \<Rightarrow> string) \<Rightarrow> dialog \<Rightarrow> string + string" where
  "handleSave tr t st =
     (if editMode st = Edit_Json
      then (let trimmed = js_trim (jsonText st)
            in if trimmed = [] then Inr []
               else if \<not> verifyJSON trimmed then Inl (tr ''Parameter override must be valid JSON format'')
               else Inr (json_stringify2 (the (json_parse trimmed))))
      else buildVisualJson tr t st)"

end
