(* ===== verification/Override_Dialog.thy ===== *)
theory Override_Dialog
  imports Override_Editor
begin

text \<open>
  What the handlers of the parameter override dialog keep: identifiers that are pairwise different in every
  reachable state, the round trip through the JSON view, what is saved, the templates, and the rules of a
  \<open>prune_objects\<close> value that no handler can change.
\<close>

section \<open>Fresh identifiers\<close>

lemma distinct_submset: "mset xs \<subseteq># mset ys \<Longrightarrow> distinct ys \<Longrightarrow> distinct xs"
proof -
  assume "mset xs \<subseteq># mset ys" "distinct ys"
  moreover obtain zs where "mset zs = mset ys - mset xs" using ex_mset by blast
  ultimately have "mset (xs @ zs) = mset ys" by (simp add: subset_mset.add_diff_inverse)
  from mset_eq_imp_distinct_iff [OF this] \<open>distinct ys\<close> show "distinct xs" by simp
qed

text \<open>A supply of identifiers: what was issued before the counter reached a value is different from what comes after.\<close>

locale id_supply =
  fixes mk :: "'t \<Rightarrow> nat \<Rightarrow> 'i"
  assumes mk_inject: "mk a m = mk b n \<Longrightarrow> m = n"
begin

definition issued :: "nat \<Rightarrow> 'i \<Rightarrow> bool" where
  "issued n i \<longleftrightarrow> (\<exists>a m. m < n \<and> i = mk a m)"

lemma issuedI: "m < n \<Longrightarrow> issued n (mk a m)"
  unfolding issued_def by blast

lemma issued_mono: "issued m i \<Longrightarrow> m \<le> n \<Longrightarrow> issued n i"
proof -
  assume "issued m i" "m \<le> n"
  then obtain a k where "i = mk a k" "k < m" unfolding issued_def by blast
  then show "issued n i" using \<open>m \<le> n\<close> by (simp add: issuedI)
qed

lemma fresh: "n \<le> m \<Longrightarrow> \<not> issued n (mk a m)"
  by (auto simp: issued_def dest: mk_inject)

lemma block_issued: "list_all (issued n) (map (mk a) [m..<n])"
  by (auto simp: list_all_iff issuedI)

lemma block_distinct: "distinct (map (mk a) [m..<n])"
  by (auto simp: distinct_map inj_on_def dest: mk_inject)

lemma fresh_step:
  assumes "distinct ids" "list_all (issued m) ids" "m \<le> n" "mset ids' \<subseteq># mset ids + mset (map (mk a) [m..<n])"
  shows "distinct ids' \<and> list_all (issued n) ids'"
proof -
  have "set ids \<inter> set (map (mk a) [m..<n]) = {}" using assms(2) fresh [of m _ a] by (force simp: list_all_iff)
  then have "distinct (ids @ map (mk a) [m..<n])" using assms(1) block_distinct by (simp add: Int_commute)
  moreover have sub: "mset ids' \<subseteq># mset (ids @ map (mk a) [m..<n])" using assms(4) by simp
  ultimately have "distinct ids'" using distinct_submset by blast
  moreover have "set ids' \<subseteq> set ids \<union> set (map (mk a) [m..<n])" using set_mset_mono [OF sub] by simp
  moreover have "issued n x" if "x \<in> set ids" for x using that assms(2,3) issued_mono by (auto simp: list_all_iff)
  ultimately show ?thesis using block_issued [of n a m] by (auto simp: list_all_iff)
qed

end

lemma digits_no_underscore: "CHR ''_'' \<notin> set (nat_str n)" "CHR ''_'' \<notin> set (int_str i)"
proof -
  have "\<not> is_digit (CHR ''_'')" by code_simp
  then show none: "CHR ''_'' \<notin> set (nat_str n)" for n using nat_str_digits by blast
  then show "CHR ''_'' \<notin> set (int_str i)" by (simp add: int_str_def)
qed

interpretation local_ids: id_supply nextLocalId
proof
  fix a b m n assume "nextLocalId a m = nextLocalId b n"
  then have "nat_str m = nat_str n"
    using append_Cons_eq_iff [of "CHR ''_''" "int_str a" "nat_str m" "int_str b" "nat_str n"] digits_no_underscore
    by (simp add: nextLocalId_def)
  then show "m = n" by simp
qed


definition all_ids :: "po_operation list \<Rightarrow> string list" where
  "all_ids ops = concat (map (\<lambda>o1. po_id o1 # map co_id (po_conditions o1)) ops)"

definition ids_ok :: "nat \<Rightarrow> po_operation list \<Rightarrow> bool" where
  "ids_ok seed ops \<longleftrightarrow> distinct (all_ids ops) \<and> list_all (local_ids.issued seed) (all_ids ops)"

lemma all_ids_simps [simp]:
  "all_ids [] = []" "all_ids (o1 # ops) = po_id o1 # map co_id (po_conditions o1) @ all_ids ops"
  "all_ids (ops @ ops') = all_ids ops @ all_ids ops'"
  by (simp_all add: all_ids_def)

lemma ids_okI:
  "ids_ok seed ops \<Longrightarrow> seed \<le> seed' \<Longrightarrow> mset (all_ids ops') \<subseteq># mset (all_ids ops) + mset (map (nextLocalId now) [seed..<seed'])
     \<Longrightarrow> ids_ok seed' ops'"
  unfolding ids_ok_def using local_ids.fresh_step [of "all_ids ops" seed seed' "all_ids ops'" now] by blast

lemma ids_ok_same: "ids_ok seed ops \<Longrightarrow> seed \<le> seed' \<Longrightarrow> mset (all_ids ops') \<subseteq># mset (all_ids ops) \<Longrightarrow> ids_ok seed' ops'"
  by (rule ids_okI [of seed ops seed' ops' 0]) (auto intro: subset_mset.order_trans)

lemma ids_ok_new: "seed \<le> seed' \<Longrightarrow> all_ids ops = map (nextLocalId now) [seed..<seed'] \<Longrightarrow> ids_ok seed' ops"
  using ids_okI [of seed "[]" seed' ops now] by (simp add: ids_ok_def)

lemma ids_distinct: "ids_ok seed ops \<Longrightarrow> distinct (map po_id ops)"
proof -
  have "distinct (all_ids ops) \<Longrightarrow> distinct (map po_id ops) \<and> set (map po_id ops) \<subseteq> set (all_ids ops)" for ops
    by (induction ops) auto
  then show "ids_ok seed ops \<Longrightarrow> ?thesis" by (simp add: ids_ok_def)
qed

lemma conditions_ids:
  "map_seed (po_normalizeCondition now) seed xs = Some (cs, seed') \<Longrightarrow>
     seed \<le> seed' \<and> map co_id cs = map (nextLocalId now) [seed..<seed']"
  by (induction xs arbitrary: seed cs)
    (fastforce simp: po_normalizeCondition_def upt_conv_Cons split: option.splits if_splits prod.splits)+

lemma operation_ids:
  "normalizeOperation now seed x = Some (o1, seed') \<Longrightarrow>
     seed < seed' \<and> po_id o1 # map co_id (po_conditions o1) = map (nextLocalId now) [seed..<seed']"
  by (auto simp: normalizeOperation_def upt_conv_Cons dest: conditions_ids split: option.splits if_splits)

lemma operations_ids:
  "map_seed (normalizeOperation now) seed xs = Some (ops, seed') \<Longrightarrow>
     seed \<le> seed' \<and> all_ids ops = map (nextLocalId now) [seed..<seed'] \<and> length ops = length xs"
proof (induction xs arbitrary: seed ops)
  case (Cons x xs)
  then obtain o1 s1 ops1 where o1: "normalizeOperation now seed x = Some (o1, s1)" "ops = o1 # ops1"
    "map_seed (normalizeOperation now) s1 xs = Some (ops1, seed')"
    by (auto split: option.splits)
  then have "all_ids ops = map (nextLocalId now) [seed..<s1] @ map (nextLocalId now) [s1..<seed']"
    using operation_ids [OF o1(1)] Cons.IH [OF o1(3)] by (simp flip: append_Cons)
  moreover have le: "seed \<le> s1" "s1 \<le> seed'" "length ops1 = length xs" using operation_ids [OF o1(1)] Cons.IH [OF o1(3)] by auto
  moreover have "[seed..<s1] @ [s1..<seed'] = [seed..<seed']"
    using upt_add_eq_append [OF le(1), of "seed' - s1"] le(2) by simp
  ultimately show ?case using o1(2) by (metis length_Cons map_append le_trans)
qed simp

lemma default_ids [simp]: "all_ids [createDefaultOperation now seed] = [nextLocalId now seed]"
  by (simp add: createDefaultOperation_def normalizeOperation_def)

lemma default_id [simp]: "po_id (createDefaultOperation now seed) = nextLocalId now seed" "po_conditions (createDefaultOperation now seed) = []"
  by (simp_all add: createDefaultOperation_def normalizeOperation_def)

lemma default_condition_id [simp]: "co_id (createDefaultCondition now seed) = nextLocalId now seed"
  by (simp add: createDefaultCondition_def po_normalizeCondition_def)

section \<open>Handlers and identifiers\<close>

lemma map_operation_split:
  assumes "distinct (map po_id ops)"
  obtains "map_operation i f ops = ops"
  | xs o1 ys where "ops = xs @ o1 # ys" "po_id o1 = i" "map_operation i f ops = xs @ f o1 # ys"
proof (cases "\<exists>o1 \<in> set ops. po_id o1 = i")
  case True
  then obtain xs o1 ys where s: "ops = xs @ o1 # ys" "po_id o1 = i" by (metis split_list)
  then have "i \<notin> po_id ` set xs" "i \<notin> po_id ` set ys" using assms by auto
  then have "map_operation i f xs = xs" "map_operation i f ys = ys" unfolding map_operation_def by (auto intro!: map_idI)
  then show thesis using s that(2) by (simp add: map_operation_def)
next
  case False
  then show thesis using that(1) by (simp add: map_operation_def map_idI)
qed

lemma map_operation_ids:
  assumes "ids_ok seed ops" "seed \<le> seed'"
    and "\<And>o1. o1 \<in> set ops \<Longrightarrow> po_id (f o1) = po_id o1 \<and> mset (map co_id (po_conditions (f o1)))
           \<subseteq># mset (map co_id (po_conditions o1)) + mset (map (nextLocalId now) [seed..<seed'])"
  shows "ids_ok seed' (map_operation i f ops)"
proof (cases rule: map_operation_split [OF ids_distinct [OF assms(1)], of i f])
  case 1
  then show ?thesis using ids_ok_same [OF assms(1,2), of ops] by simp
next
  case (2 xs o1 ys)
  then show ?thesis using assms(3) [of o1]
    by (intro ids_okI [OF assms(1,2), of _ now]) (simp add: ac_simps subset_mset.add_left_mono)
qed

lemma map_operation_ids_same:
  "ids_ok seed ops \<Longrightarrow> (\<And>o1. po_id (f o1) = po_id o1 \<and> mset (map co_id (po_conditions (f o1))) \<subseteq># mset (map co_id (po_conditions o1)))
     \<Longrightarrow> ids_ok seed (map_operation i f ops)"
  by (rule map_operation_ids [of seed ops seed f 0]) (auto intro: subset_mset.order_trans)

lemma update_prune_ids:
  "update_prune now i u seed ops = (ops', seed') \<Longrightarrow> (\<And>n d. n \<le> snd (u n d)) \<Longrightarrow> all_ids ops' = all_ids ops \<and> seed \<le> seed' \<and> length ops' = length ops"
proof (induction ops arbitrary: ops' seed)
  case (Cons o1 ops)
  show ?case
  proof (cases "po_id o1 = i")
    case False
    then show ?thesis using Cons.prems(1) Cons.IH [OF _ Cons.prems(2)] by (auto split: prod.splits)
  next
    case True
    let ?d = "parsePruneObjectsDraft now seed (po_value_text o1)"
    obtain d1 s1 where u: "u (seed + length (pd_rules ?d)) ?d = (d1, s1)" by fastforce
    then have "seed \<le> s1" using Cons.prems(2) [of "seed + length (pd_rules ?d)" ?d] by simp
    then show ?thesis using True u Cons.prems(1) Cons.IH [OF _ Cons.prems(2), of s1] by (fastforce simp: Let_def split: prod.splits)
  qed
qed simp

section \<open>The events of the dialog\<close>

datatype editor_act =
  Act_Update string operation_patch
| Act_Add
| Act_Duplicate bool string
| Act_Remove string
| Act_Add_Condition string
| Act_Update_Condition string string condition_patch
| Act_Remove_Condition string string
| Act_Expand_All bool
| Act_Expand string bool
| Act_Error_Draft string "return_error_draft \<Rightarrow> return_error_draft"
| Act_Prune_Draft string "prune_draft \<Rightarrow> prune_draft"
| Act_Add_Rule string
| Act_Update_Rule string string condition_patch
| Act_Remove_Rule string string
| Act_Drag_Start string
| Act_Drag_Over string bool
| Act_Drop string string
| Act_Drag_End
| Act_To_Json
| Act_To_Visual
| Act_Fill bool
| Act_Reset
| Act_Json_Change string
| Act_Legacy_Change string
| Act_Search string
| Act_Select string
| Act_Preset string
| Act_Fix_Selection
| Act_Open string
| Act_Render nat

text \<open>
  \<open>Act_Render n\<close>: a rendering of the component takes \<open>n\<close> identifiers from the counter, for the discarded initial
  state and for the draft it shows.
\<close>

fun editor_step :: "(string \<Rightarrow> string) \<Rightarrow> (string \<Rightarrow> nat \<Rightarrow> string) \<Rightarrow> int \<Rightarrow> editor_act \<Rightarrow> dialog \<Rightarrow> dialog option" where
  "editor_step tr t now (Act_Update i p) st = Some (updateOperation i p st)"
| "editor_step tr t now Act_Add st = Some (addOperation now st)"
| "editor_step tr t now (Act_Duplicate eager i) st = Some (duplicateOperation eager now i st)"
| "editor_step tr t now (Act_Remove i) st = Some (removeOperation now i st)"
| "editor_step tr t now (Act_Add_Condition i) st = Some (addCondition now i st)"
| "editor_step tr t now (Act_Update_Condition i c p) st = Some (updateCondition i c p st)"
| "editor_step tr t now (Act_Remove_Condition i c) st = Some (removeCondition i c st)"
| "editor_step tr t now (Act_Expand_All b) st = Some (setAllConditions b st)"
| "editor_step tr t now (Act_Expand c b) st = Some (st\<lparr>expandedConditions := (expandedConditions st)(c \<mapsto> b)\<rparr>)"
| "editor_step tr t now (Act_Error_Draft i f) st = Some (updateReturnErrorDraft i f st)"
| "editor_step tr t now (Act_Prune_Draft i f) st = Some (updatePruneObjectsDraft now i (\<lambda>n d. (f d, n)) st)"
| "editor_step tr t now (Act_Add_Rule i) st = Some (addPruneRule now i st)"
| "editor_step tr t now (Act_Update_Rule i r p) st = Some (updatePruneRule now i r p st)"
| "editor_step tr t now (Act_Remove_Rule i r) st = Some (removePruneRule now i r st)"
| "editor_step tr t now (Act_Drag_Start i) st = Some (handleDragStart i st)"
| "editor_step tr t now (Act_Drag_Over i b) st = Some (handleDragOver i b st)"
| "editor_step tr t now (Act_Drop s i) st = Some (handleDrop s i st)"
| "editor_step tr t now Act_Drag_End st = Some (resetDragState st)"
| "editor_step tr t now Act_To_Json st = Some (switchToJsonMode tr t st)"
| "editor_step tr t now Act_To_Visual st = switchToVisualMode tr now st"
| "editor_step tr t now (Act_Fill add) st = Some (fillTemplate tr now add st)"
| "editor_step tr t now Act_Reset st = Some (resetEditorState now st)"
| "editor_step tr t now (Act_Json_Change s) st = Some (handleJsonChange tr s st)"
| "editor_step tr t now (Act_Legacy_Change s) st = Some (st\<lparr>legacyValue := s\<rparr>)"
| "editor_step tr t now (Act_Search s) st = Some (st\<lparr>operationSearch := s\<rparr>)"
| "editor_step tr t now (Act_Select i) st = Some (st\<lparr>selectedOperationId := i\<rparr>)"
| "editor_step tr t now (Act_Preset k) st = Some (st\<lparr>templatePresetKey := str_or k ''operations_default''\<rparr>)"
| "editor_step tr t now Act_Fix_Selection st = Some (fix_selection st)"
| "editor_step tr t now (Act_Open s) st = open_dialog now s st"
| "editor_step tr t now (Act_Render n) st = Some (st\<lparr>localIdSeed := localIdSeed st + n\<rparr>)"

text \<open>The states of an open dialog, from any value it was opened on.\<close>

inductive editor_reachable :: "(string \<Rightarrow> string) \<Rightarrow> (string \<Rightarrow> nat \<Rightarrow> string) \<Rightarrow> dialog \<Rightarrow> bool"
  for tr t where
  opened: "open_dialog now s st0 = Some st \<Longrightarrow> editor_reachable tr t st"
| acted: "editor_reachable tr t st \<Longrightarrow> editor_step tr t now a st = Some st' \<Longrightarrow> editor_reachable tr t st'"

definition editor_ok :: "dialog \<Rightarrow> bool" where
  "editor_ok st \<longleftrightarrow> operations st \<noteq> [] \<and> ids_ok (localIdSeed st) (operations st)"

lemma map_operation_Nil [simp]: "map_operation i f ops = [] \<longleftrightarrow> ops = []"
  by (simp add: map_operation_def)

lemma default_ok: "ids_ok (Suc seed) [createDefaultOperation now seed]"
  by (rule ids_ok_new [of seed "Suc seed" _ now]) simp_all

lemma ids_used_length: "ids_used ops = length (all_ids ops)"
  by (induction ops) (simp_all add: ids_used_def)

lemma opened_ok: "open_dialog now s st0 = Some st \<Longrightarrow> editor_ok st"
proof -
  assume "open_dialog now s st0 = Some st"
  then obtain e where e: "parseInitialState now (localIdSeed st0) s = Some e"
    "operations st = operations e" "localIdSeed st = localIdSeed st0 + ids_used (operations e)"
    by (auto simp: open_dialog_def split: option.splits)
  have "operations e \<noteq> [] \<and> (\<exists>seed' \<ge> localIdSeed st0. all_ids (operations e) = map (nextLocalId now) [localIdSeed st0..<seed'])"
  proof (cases "operations e = [createDefaultOperation now (localIdSeed st0)]")
    case True
    then show ?thesis by (auto intro!: exI [of _ "Suc (localIdSeed st0)"])
  next
    case False
    with e(1) obtain xs seed' where "map_seed (normalizeOperation now) (localIdSeed st0) xs = Some (operations e, seed')" "xs \<noteq> []"
      unfolding parseInitialState_def Let_def by (auto split: if_splits json.splits option.splits)
    then show ?thesis by (auto dest!: operations_ids)
  qed
  then obtain seed' where "seed' \<ge> localIdSeed st0" "all_ids (operations e) = map (nextLocalId now) [localIdSeed st0..<seed']"
    "operations e \<noteq> []" by blast
  then show "editor_ok st" using ids_ok_new [of "localIdSeed st0" seed' "operations e" now] e
    by (simp add: editor_ok_def ids_used_length)
qed

lemma prune_ok:
  assumes "editor_ok st" "\<And>n d. n \<le> snd (u n d)"
  shows "editor_ok (updatePruneObjectsDraft now i u st)"
proof -
  obtain ops' seed' where "update_prune now i u (localIdSeed st) (operations st) = (ops', seed')" by fastforce
  moreover from update_prune_ids [OF this assms(2)] have "ids_ok seed' ops'" "ops' \<noteq> []"
    using assms(1) ids_ok_same [of "localIdSeed st" "operations st" seed' ops'] by (auto simp: editor_ok_def)
  ultimately show ?thesis by (simp add: updatePruneObjectsDraft_def editor_ok_def)
qed

lemma all_ids_mset: "mset (all_ids ops) = \<Sum>\<^sub># (image_mset (\<lambda>o1. add_mset (po_id o1) (mset (map co_id (po_conditions o1)))) (mset ops))"
  by (induction ops) simp_all

lemma all_ids_perm: "mset ops = mset ops' \<Longrightarrow> mset (all_ids ops) = mset (all_ids ops')"
  by (simp only: all_ids_mset)

lemma all_ids_filter: "mset (all_ids (filter P ops)) \<subseteq># mset (all_ids ops)"
  by (induction ops) (auto intro: subset_mset.order_trans simp: subset_mset.add_left_mono)

lemma duplicate_ok: "editor_ok st \<Longrightarrow> editor_ok (duplicateOperation eager now i st)"
proof (cases "index_of (\<lambda>o1. po_id o1 = i) (operations st)")
  case (Some idx)
  assume ok: "editor_ok st"
  show ?thesis
  proof (cases "normalizeOperation now (localIdSeed st) (clone_source (operations st ! idx))")
    case (Some r)
    then obtain cloned seed where r: "r = (cloned, seed)" by fastforce
    have ids: "localIdSeed st < seed" "po_id cloned # map co_id (po_conditions cloned) = map (nextLocalId now) [localIdSeed st..<seed]"
      using operation_ids Some r by blast+
    let ?ops = "take (idx + 1) (operations st) @ [cloned] @ drop (idx + 1) (operations st)"
    have "mset ?ops = mset (operations st @ [cloned])" using insert_at_mset by simp
    from all_ids_perm [OF this]
    have "mset (all_ids ?ops) = mset (all_ids (operations st)) + mset (map (nextLocalId now) [localIdSeed st..<seed])"
      using ids(2) by (simp del: mset_map)
    then have "ids_ok seed ?ops"
      using ids_okI [of "localIdSeed st" "operations st" seed ?ops now] ok ids(1) by (simp add: editor_ok_def del: mset_map)
    then show ?thesis using Some r \<open>index_of _ _ = Some idx\<close> by (simp add: duplicateOperation_def editor_ok_def)
  qed (use ok Some in \<open>simp add: duplicateOperation_def\<close>)
qed (simp add: duplicateOperation_def)

lemma remove_ok: "editor_ok st \<Longrightarrow> editor_ok (removeOperation now i st)"
proof (cases "length (operations st) \<le> 1")
  case True
  then show ?thesis by (simp add: removeOperation_def editor_ok_def default_ok)
next
  case False
  assume ok: "editor_ok st"
  have "filter (\<lambda>o1. po_id o1 \<noteq> i) (operations st) \<noteq> []"
  proof
    assume none: "filter (\<lambda>o1. po_id o1 \<noteq> i) (operations st) = []"
    have "distinct (map po_id (operations st))" using ok ids_distinct by (auto simp: editor_ok_def)
    moreover have "set (map po_id (operations st)) \<subseteq> {i}" using none by (auto simp: filter_empty_conv)
    ultimately have "length (operations st) \<le> card {i}" by (metis card_mono distinct_card finite.emptyI finite_insert length_map)
    then show False using False by simp
  qed
  then show ?thesis using False ok all_ids_filter ids_ok_same
    by (auto simp: removeOperation_def editor_ok_def)
qed

lemma add_ok: "editor_ok st \<Longrightarrow> editor_ok (addOperation now st)"
  by (auto simp: addOperation_def Let_def editor_ok_def intro!: ids_okI [of "localIdSeed st" "operations st" _ _ now])

lemma add_condition_ok: "editor_ok st \<Longrightarrow> editor_ok (addCondition now i st)"
  by (auto simp: addCondition_def Let_def editor_ok_def intro!: map_operation_ids [of "localIdSeed st" "operations st" _ _ now])

lemma drop_ok: "editor_ok st \<Longrightarrow> editor_ok (handleDrop s i st)"
proof -
  have "mset (all_ids (reorderOperations ops a b p)) = mset (all_ids ops)" "reorderOperations ops a b p = [] \<longleftrightarrow> ops = []" for ops a b p
    using all_ids_perm reorder_mset by (metis, metis mset_zero_iff)
  then show "editor_ok st \<Longrightarrow> ?thesis" using ids_ok_same
    by (fastforce simp: handleDrop_def Let_def resetDragState_def editor_ok_def)
qed

lemma loaded_ok:
  "map_seed (normalizeOperation now) seed xs = Some (ops, seed') \<Longrightarrow> xs \<noteq> [] \<Longrightarrow> ops \<noteq> [] \<and> seed \<le> seed' \<and> ids_ok seed' ops"
  by (auto dest!: operations_ids intro: ids_ok_new)

lemma visual_ok: "editor_ok st \<Longrightarrow> switchToVisualMode tr now st = Some st' \<Longrightarrow> editor_ok st'"
proof -
  have show_ok: "ops \<noteq> [] \<Longrightarrow> ids_ok seed ops \<Longrightarrow> editor_ok (show_operations ops seed st)" for ops seed st
    by (simp add: show_operations_def editor_ok_def)
  have preset: "editor_ok (s\<lparr>templatePresetKey := k\<rparr>) = editor_ok s" "editor_ok (s\<lparr>po_toasts := ts\<rparr>) = editor_ok s" for s k ts
    by (simp_all add: editor_ok_def)
  show "editor_ok st \<Longrightarrow> switchToVisualMode tr now st = Some st' \<Longrightarrow> ?thesis"
    unfolding switchToVisualMode_def Let_def
    by (auto simp: preset show_ok default_ok dest: loaded_ok split: if_splits json.splits option.splits)
      (auto simp: editor_ok_def default_ok dest: loaded_ok)
qed

lemma preset_operations: "tp_kind (preset_of k) = Kind_Operations \<Longrightarrow> payload_operations (tp_payload (preset_of k)) \<noteq> []"
proof -
  have "list_all (\<lambda>e. tp_kind (snd e) = Kind_Operations \<longrightarrow> payload_operations (tp_payload (snd e)) \<noteq> []) TEMPLATE_PRESET_CONFIG"
    "payload_operations OPERATION_TEMPLATE \<noteq> []" by code_simp+
  then show "tp_kind (preset_of k) = Kind_Operations \<Longrightarrow> ?thesis"
    by (fastforce simp: preset_of_def list_all_iff dest: map_of_SomeD split: option.splits)
qed

lemma legacy_ok: "editor_ok (show_legacy now s st)"
  by (simp add: show_legacy_def editor_ok_def default_ok)

lemma fill_ok: "editor_ok st \<Longrightarrow> editor_ok (fillTemplate tr now add st)"
proof -
  assume ok: "editor_ok st"
  let ?p = "preset_of (templatePresetKey st)"
  show ?thesis
  proof (cases "tp_kind ?p")
    case Kind_Legacy
    then show ?thesis using ok by (simp add: fillTemplate_def Let_def legacy_ok) (simp add: editor_ok_def)
  next
    case Kind_Operations
    show ?thesis
    proof (cases "map_seed (normalizeOperation now) (localIdSeed st) (payload_operations (tp_payload ?p))")
      case None
      then show ?thesis using ok Kind_Operations by (simp add: fillTemplate_def Let_def)
    next
      case (Some r)
      then obtain loaded seed where r: "map_seed (normalizeOperation now) (localIdSeed st) (payload_operations (tp_payload ?p)) = Some (loaded, seed)"
        by (cases r) auto
      from loaded_ok [OF r preset_operations [OF Kind_Operations]] operations_ids [OF r]
      have loaded: "loaded \<noteq> []" "localIdSeed st \<le> seed" "ids_ok seed loaded"
        "all_ids loaded = map (nextLocalId now) [localIdSeed st..<seed]" by auto
      have "mset (all_ids (filter P (operations st) @ loaded)) \<subseteq># mset (all_ids (operations st)) + mset (map (nextLocalId now) [localIdSeed st..<seed])" for P
        using all_ids_filter [of P "operations st"] loaded(4) by (simp add: subset_mset.add_right_mono del: mset_map)
      then have "ids_ok seed (filter P (operations st) @ loaded)" for P
        using ids_okI [of "localIdSeed st" "operations st" seed _ now] ok loaded(2) by (auto simp: editor_ok_def)
      then show ?thesis using r loaded Kind_Operations
        by (simp add: fillTemplate_def Let_def editor_ok_def)
    qed
  qed
qed

lemma frame_ok_intros:
  assumes "editor_ok st"
  shows "editor_ok (updateOperation i p st)" "editor_ok (updateCondition i c q st)" "editor_ok (removeCondition i c st)"
    "editor_ok (updateReturnErrorDraft i f st)" "editor_ok (setAllConditions b st)" "editor_ok (handleDragStart i st)"
    "editor_ok (handleDragOver i b st)" "editor_ok (resetDragState st)" "editor_ok (switchToJsonMode tr t st)"
    "editor_ok (handleJsonChange tr s st)" "editor_ok (fix_selection st)" "editor_ok (resetEditorState now st)"
proof -
  note ids = map_operation_ids_same [of "localIdSeed st" "operations st"]
  have ok: "operations st \<noteq> []" "ids_ok (localIdSeed st) (operations st)" using assms by (simp_all add: editor_ok_def)
  have patched: "map co_id (map (\<lambda>x. if co_id x = c then patch_condition q x else x) cs) = map co_id cs" for cs
    by (simp add: patch_condition_def)
  have removed: "mset (map co_id (filter P cs)) \<subseteq># mset (map co_id cs)" for P cs
    by (simp add: image_mset_subseteq_mono)
  show "editor_ok (updateOperation i p st)"
    unfolding updateOperation_def editor_ok_def using ok by (auto intro!: ids simp: patch_operation_def)
  show "editor_ok (updateCondition i c q st)"
    unfolding updateCondition_def editor_ok_def using ok patched by (auto intro!: ids simp del: map_map mset_map)
  show "editor_ok (removeCondition i c st)"
    unfolding removeCondition_def editor_ok_def using ok removed by (auto intro!: ids simp del: mset_map mset_filter)
  show "editor_ok (updateReturnErrorDraft i f st)"
    unfolding updateReturnErrorDraft_def editor_ok_def using ok by (auto intro!: ids)
  show "editor_ok (setAllConditions b st)" "editor_ok (handleDragStart i st)" "editor_ok (handleDragOver i b st)"
    "editor_ok (resetDragState st)" "editor_ok (handleJsonChange tr s st)" "editor_ok (fix_selection st)"
    using assms by (auto simp: editor_ok_def setAllConditions_def handleDragStart_def handleDragOver_def resetDragState_def
        handleJsonChange_def fix_selection_def Let_def split: option.split)
  show "editor_ok (switchToJsonMode tr t st)"
    using assms by (auto simp: editor_ok_def switchToJsonMode_def split: sum.split)
  show "editor_ok (resetEditorState now st)"
    by (simp add: editor_ok_def resetEditorState_def show_operations_def default_ok)
qed

lemma field_ok [simp]:
  "editor_ok (st\<lparr>expandedConditions := e\<rparr>) = editor_ok st" "editor_ok (st\<lparr>legacyValue := s\<rparr>) = editor_ok st"
  "editor_ok (st\<lparr>operationSearch := s\<rparr>) = editor_ok st" "editor_ok (st\<lparr>selectedOperationId := s\<rparr>) = editor_ok st"
  "editor_ok (st\<lparr>templatePresetKey := s\<rparr>) = editor_ok st"
  by (simp_all add: editor_ok_def)

lemma render_ok: "editor_ok st \<Longrightarrow> editor_ok (st\<lparr>localIdSeed := localIdSeed st + n\<rparr>)"
  by (auto simp: editor_ok_def intro: ids_ok_same)

lemma prune_rule_ok:
  assumes "editor_ok st"
  shows "editor_ok (updatePruneObjectsDraft now i (\<lambda>n d. (f d, n)) st)" "editor_ok (addPruneRule now i st)"
    "editor_ok (updatePruneRule now i r p st)" "editor_ok (removePruneRule now i r st)"
  unfolding addPruneRule_def updatePruneRule_def removePruneRule_def using assms by (auto intro: prune_ok)

lemma step_ok: "editor_ok st \<Longrightarrow> editor_step tr t now a st = Some st' \<Longrightarrow> editor_ok st'"
  by (cases a) (auto intro: frame_ok_intros add_ok duplicate_ok remove_ok add_condition_ok drop_ok fill_ok visual_ok
      opened_ok render_ok prune_rule_ok)

lemma reachable_ok: "editor_reachable tr t st \<Longrightarrow> editor_ok st"
  by (induction rule: editor_reachable.induct) (auto dest: opened_ok step_ok)

text \<open>
  C11. In every state an open dialog can get to, whatever was stored and whatever the user does, there is an
  operation to show, the identifiers of operations and conditions are pairwise different, all come from the
  counter, and the effect after a change leaves one of the operations selected.
\<close>

theorem editor_identifiers:
  assumes "editor_reachable tr t st"
  shows "operations st \<noteq> [] \<and> distinct (all_ids (operations st))
     \<and> list_all (local_ids.issued (localIdSeed st)) (all_ids (operations st))
     \<and> (\<exists>o1. selectedOperation (fix_selection st) = Some o1 \<and> o1 \<in> set (operations st))"
proof -
  have ok: "operations st \<noteq> []" "ids_ok (localIdSeed st) (operations st)"
    using reachable_ok [OF assms] by (simp_all add: editor_ok_def)
  then have "list_ex (\<lambda>o1. po_id o1 = selectedOperationId (fix_selection st)) (operations st)"
    by (auto simp: fix_selection_def first_id_def list_ex_iff neq_Nil_conv)
  then have "find (\<lambda>o1. po_id o1 = selectedOperationId (fix_selection st)) (operations st) \<noteq> None"
    by (auto simp: list_ex_iff find_None_iff)
  then obtain o1 where "find (\<lambda>o1. po_id o1 = selectedOperationId (fix_selection st)) (operations st) = Some o1" by blast
  moreover have "operations (fix_selection st) = operations st" by (simp add: fix_selection_def)
  ultimately show ?thesis using ok by (auto simp: ids_ok_def selectedOperation_def find_Some_iff)
qed

section \<open>Rules of a prune value\<close>

lemma draft_view_fields [simp]:
  "pd_simpleMode (draft_view d) = pd_simpleMode d" "pd_typeText (draft_view d) = pd_typeText d" "pd_logic (draft_view d) = pd_logic d"
  "pd_recursive (draft_view d) = pd_recursive d" "pd_rules (draft_view d) = map condition_view (pd_rules d)"
  by (simp_all add: draft_view_def)

lemma build_view: "draft_view d = draft_view d' \<Longrightarrow> buildPruneObjectsValueText d = buildPruneObjectsValueText d'"
proof -
  assume v: "draft_view d = draft_view d'"
  have "prune_rule_payload (condition_view c) = prune_rule_payload c" for c
    by (simp add: prune_rule_payload_def condition_view_def)
  moreover have "co_path (condition_view c) = co_path c" for c by (simp add: condition_view_def)
  ultimately have views: "map prune_rule_payload (filter (\<lambda>r. js_trim (co_path r) \<noteq> []) rs)
      = map prune_rule_payload (filter (\<lambda>r. js_trim (co_path r) \<noteq> []) (map condition_view rs))" for rs
    by (simp add: filter_map o_def)
  have fields: "pd_simpleMode d = pd_simpleMode d'" "pd_typeText d = pd_typeText d'" "pd_logic d = pd_logic d'"
    "pd_recursive d = pd_recursive d'" "map condition_view (pd_rules d) = map condition_view (pd_rules d')"
    using arg_cong [OF v, of pd_simpleMode] arg_cong [OF v, of pd_typeText] arg_cong [OF v, of pd_logic]
      arg_cong [OF v, of pd_recursive] arg_cong [OF v, of pd_rules] by simp_all
  have "map prune_rule_payload (filter (\<lambda>r. js_trim (co_path r) \<noteq> []) (pd_rules d))
      = map prune_rule_payload (filter (\<lambda>r. js_trim (co_path r) \<noteq> []) (pd_rules d'))"
    by (subst (1 2) views) (simp only: fields(5))
  then show ?thesis using fields(1-4) by (simp add: buildPruneObjectsValueText_def Let_def)
qed

definition prune_value_ok :: "prune_draft \<Rightarrow> bool" where
  "prune_value_ok d \<longleftrightarrow> \<not> pd_simpleMode d \<and> trimmed (pd_typeText d) \<and> (pd_logic d = ''AND'' \<or> pd_logic d = ''OR'')
     \<and> list_all rule_ok (pd_rules d) \<and> pd_rules d \<noteq> []"

lemma rebuild:
  "prune_value_ok d \<Longrightarrow> buildPruneObjectsValueText (parsePruneObjectsDraft now seed (buildPruneObjectsValueText d)) = buildPruneObjectsValueText d"
  by (rule build_view, rule prune_draft_back) (simp_all add: prune_value_ok_def)

lemma rule_ids:
  "r \<in> set (pd_rules (parsePruneObjectsDraft now seed s)) \<Longrightarrow>
     \<exists>k. seed \<le> k \<and> k < seed + length (pd_rules (parsePruneObjectsDraft now seed s)) \<and> co_id r = nextLocalId now k"
proof -
  have listed: "r \<in> set (map (\<lambda>(i, j). normalizePruneRule now i j) (List.enumerate seed xs)) \<Longrightarrow>
     \<exists>k. seed \<le> k \<and> k < seed + length xs \<and> co_id r = nextLocalId now k" for xs
    by (auto simp: normalizePruneRule_def in_set_enumerate_eq)
  have "\<exists>xs. pd_rules (parsePruneObjectsDraft now seed s) = map (\<lambda>(i, j). normalizePruneRule now i j) (List.enumerate seed xs)"
  proof (cases "js_trim s = [] \<or> \<not> (\<exists>fs. json_parse (js_trim s) = Some (JObj fs))")
    case True
    then have "pd_rules (parsePruneObjectsDraft now seed s) = []"
      by (auto simp: parsePruneObjectsDraft_def Let_def split: option.split json.split)
    then show ?thesis by (intro exI [of _ "[]"]) simp
  qed (auto simp: parsePruneObjectsDraft_def)
  then obtain xs where xs: "pd_rules (parsePruneObjectsDraft now seed s) = map (\<lambda>(i, j). normalizePruneRule now i j) (List.enumerate seed xs)" ..
  assume "r \<in> set (pd_rules (parsePruneObjectsDraft now seed s))"
  then show ?thesis unfolding xs length_map length_enumerate by (rule listed)
qed

lemma shown_rule_absent:
  assumes "local_ids.issued seed i" "r \<in> set (pd_rules (parsePruneObjectsDraft now seed s))"
  shows "co_id r \<noteq> i"
proof -
  obtain k where "seed \<le> k" "co_id r = nextLocalId now k" using rule_ids [OF assms(2)] by auto
  then show ?thesis using local_ids.fresh [of seed k now] assms(1) by auto
qed

lemma update_prune_same:
  assumes "\<And>o1 n. o1 \<in> set ops \<Longrightarrow> po_id o1 = i \<Longrightarrow> seed \<le> n \<Longrightarrow>
      (let d = parsePruneObjectsDraft now n (po_value_text o1); r = u (n + length (pd_rules d)) d
       in n \<le> snd r \<and> buildPruneObjectsValueText (fst r) = po_value_text o1)"
  shows "fst (update_prune now i u seed ops) = ops"
  using assms
proof (induction ops arbitrary: seed)
  case (Cons o1 ops)
  have IH: "seed \<le> n \<Longrightarrow> fst (update_prune now i u n ops) = ops" for n
    using Cons.prems by (intro Cons.IH) (auto dest: le_trans)
  show ?case
  proof (cases "po_id o1 = i")
    case True
    then show ?thesis using Cons.prems [of o1 seed] IH by (simp add: Let_def case_prod_beta)
  next
    case False
    then show ?thesis using IH [of seed] by (simp add: case_prod_beta)
  qed
qed simp

text \<open>
  C40. The rules of a \<open>prune_objects\<close> value cannot be edited. Every handler reads the draft again from the value,
  which gives its rules new identifiers, so the identifier of a rule on the screen names no rule of the draft the
  handler changes; and the rule that is added has an empty path, with which it is not written. Adding, changing
  and deleting a rule leave the operations as they are.
\<close>

theorem prune_rules_frozen:
  assumes shown: "r \<in> set (pd_rules (parsePruneObjectsDraft now0 seed0 (buildPruneObjectsValueText d)))"
    and later: "seed0 + length (pd_rules (parsePruneObjectsDraft now0 seed0 (buildPruneObjectsValueText d))) \<le> localIdSeed st"
    and stored: "prune_value_ok d" "list_all (\<lambda>o1. po_id o1 = i \<longrightarrow> po_value_text o1 = buildPruneObjectsValueText d) (operations st)"
  shows "operations (updatePruneRule now i (co_id r) p st) = operations st
     \<and> operations (removePruneRule now i (co_id r) st) = operations st
     \<and> operations (addPruneRule now i st) = operations st"
proof -
  obtain k where "co_id r = nextLocalId now0 k" "k < localIdSeed st" using rule_ids [OF shown] later by auto
  then have issued: "local_ids.issued n (co_id r)" if "localIdSeed st \<le> n" for n
    using that local_ids.issuedI [of k n now0] by simp
  have text_of: "po_value_text o1 = buildPruneObjectsValueText d" if "o1 \<in> set (operations st)" "po_id o1 = i" for o1
    using that stored(2) by (auto simp: list_all_iff)
  let ?parse = "\<lambda>n. parsePruneObjectsDraft now n (buildPruneObjectsValueText d)"
  have same: "map (\<lambda>x. if co_id x = co_id r then f x else x) (pd_rules (?parse n)) = pd_rules (?parse n)"
    "filter (\<lambda>x. co_id x \<noteq> co_id r) (pd_rules (?parse n)) = pd_rules (?parse n)" if "localIdSeed st \<le> n" for n f
    using shown_rule_absent [OF issued [OF that], of _ now] by (auto intro: map_idI simp: filter_id_conv)
  have added: "buildPruneObjectsValueText ((?parse n)\<lparr>pd_simpleMode := False, pd_rules := pd_rules (?parse n) @ [normalizePruneRule now m (JObj [])]\<rparr>)
      = buildPruneObjectsValueText d" for n m
  proof -
    have "draft_view (?parse n) = draft_view d" using prune_draft_back stored(1) by (simp add: prune_value_ok_def)
    then have "pd_simpleMode (?parse n) = False"
      using stored(1) by (metis draft_view_fields(1) prune_value_ok_def)
    moreover have "js_trim (co_path (normalizePruneRule now m (JObj []))) = []"
      by (simp add: normalizePruneRule_def str_prop_def opt_str_def)
    ultimately show ?thesis using rebuild [OF stored(1), of now n] by (simp add: buildPruneObjectsValueText_def)
  qed
  note unfolds = updatePruneRule_def removePruneRule_def addPruneRule_def updatePruneObjectsDraft_def case_prod_beta
  show ?thesis
    unfolding unfolds Let_def
    by (auto intro!: update_prune_same simp: Let_def text_of same rebuild [OF stored(1)] added)
qed

lemma validate_accepts: "list_all (\<lambda>o1. operation_error o1 = None) ops \<Longrightarrow> validate_from t i ops = []"
  by (induction ops arbitrary: i) auto

section \<open>Switching between the modes, saving\<close>

lemma visual_save: "editMode st = Edit_Visual \<Longrightarrow> visualMode st = Visual_Operations \<Longrightarrow>
    handleSave tr t st = buildOperationsJson t True (operations st)"
  by (simp add: handleSave_def buildVisualJson_def)

text \<open>
  C39. Going to the JSON view and back. When saving in the visual editor is accepted, the text of the JSON view is
  what it would store and has no error, saving in the JSON view stores the same text, and switching back shows the
  saved operations again, in their canonical form and in the same order, which still save to that text. No value is a
  quoted string that would be read as another value.
\<close>

theorem mode_switch_roundtrip:
  assumes "\<And>key n. t key n \<noteq> []" "editMode st = Edit_Visual" "visualMode st = Visual_Operations"
    and "list_all operation_writable (operations st)" "handleSave tr t st = Inr s" "s \<noteq> []"
  shows "\<exists>st2. switchToVisualMode tr now (switchToJsonMode tr t st) = Some st2
     \<and> jsonText (switchToJsonMode tr t st) = s \<and> jsonError (switchToJsonMode tr t st) = []
     \<and> editMode (switchToJsonMode tr t st) = Edit_Json
     \<and> handleSave tr t (switchToJsonMode tr t st) = Inr s
     \<and> editMode st2 = Edit_Visual \<and> visualMode st2 = Visual_Operations
     \<and> map operation_view (operations st2)
       = map (operation_view \<circ> canonical_operation) (filter (\<lambda>o1. \<not> isOperationBlank o1) (operations st))
     \<and> handleSave tr t st2 = Inr s"
proof -
  let ?ops = "filter (\<lambda>o1. \<not> isOperationBlank o1) (operations st)"
  have built: "buildOperationsJson t True (operations st) = Inr s" using assms(5) by (simp add: visual_save assms(2,3))
  then have stored: "s = json_stringify2 (JObj [(''operations'', JArr (map operation_payload ?ops))])" "?ops \<noteq> []"
    using assms(6) by (auto simp: buildOperationsJson_def Let_def split: if_splits)
  have json: "switchToJsonMode tr t st = st\<lparr>jsonText := s, jsonError := [], editMode := Edit_Json\<rparr>"
    using assms(2,3) built by (simp add: switchToJsonMode_def buildVisualJson_def)
  note parsed = stored_text [of ?ops, folded stored(1)]
  have "list_all operation_writable ?ops" using assms(4) by (simp add: list_all_iff)
  then obtain ops seed where again: "map_seed (normalizeOperation now) (localIdSeed st) (map operation_payload ?ops) = Some (ops, seed)"
    "map operation_view ops = map (operation_view \<circ> canonical_operation) ?ops"
    using operations_back by blast
  let ?st2 = "(show_operations ops seed (switchToJsonMode tr t st))\<lparr>templatePresetKey := ''operations_default''\<rparr>"
  have "switchToVisualMode tr now (switchToJsonMode tr t st) = Some ?st2"
    using stored(2) again(1) by (simp add: switchToVisualMode_def json verifyJSON_def parsed)
  moreover have "handleSave tr t (switchToJsonMode tr t st) = Inr s"
    by (simp add: handleSave_def json verifyJSON_def parsed stored(1) [symmetric])
  moreover have "handleSave tr t ?st2 = Inr s"
    using saved_back [OF assms(1,4) built assms(6) again(2)] by (simp add: visual_save show_operations_def)
  ultimately show ?thesis using again(2) by (simp add: json show_operations_def)
qed

text \<open>
  A save that is not refused hands over the empty text or the text of a JSON value, and in the visual editor
  the text of a JSON object.
\<close>

theorem saved_text_parses:
  assumes "handleSave tr t st = Inr s" "s \<noteq> []"
  shows "\<exists>v. json_parse s = Some v \<and> (editMode st = Edit_Visual \<longrightarrow> (\<exists>fs. v = JObj fs))"
proof -
  have printed: "json_parse x = Some v \<Longrightarrow> json_parse (json_stringify2 v) = Some v" for x v
    using json_parse_wf json_parse_stringify2 by blast
  have built: "buildVisualJson tr t st = Inr s \<Longrightarrow> \<exists>fs. json_parse s = Some (JObj fs)"
  proof (cases "visualMode st")
    case Visual_Legacy
    then show "buildVisualJson tr t st = Inr s \<Longrightarrow> ?thesis" using assms(2)
      by (auto simp: buildVisualJson_def Let_def verifyJSON_def printed split: if_splits json.splits)
  next
    case Visual_Operations
    then show "buildVisualJson tr t st = Inr s \<Longrightarrow> ?thesis" using assms(2)
      by (auto simp: buildVisualJson_def buildOperationsJson_def Let_def json_parse_stringify2 [OF operations_wf] split: if_splits)
  qed
  show ?thesis
  proof (cases "editMode st")
    case Edit_Visual
    then show ?thesis using assms(1) built by (auto simp: handleSave_def)
  next
    case Edit_Json
    then show ?thesis using assms printed by (auto simp: handleSave_def Let_def verifyJSON_def split: if_splits)
  qed
qed

section \<open>Templates\<close>

lemma map_seed_view:
  assumes "\<And>m n x. map_option (v \<circ> fst) (f m x) = map_option (v \<circ> fst) (g n x)"
  shows "map_option (map v \<circ> fst) (map_seed f m xs) = map_option (map v \<circ> fst) (map_seed g n xs)"
proof (induction xs arbitrary: m n)
  case (Cons x xs)
  show ?case
  proof (cases "f m x")
    case None
    then have "g n x = None" using assms [of m x n] by simp
    then show ?thesis using None by simp
  next
    case (Some y)
    then obtain z where z: "g n x = Some z" "v (fst z) = v (fst y)" using assms [of m x n] by (cases "g n x") auto
    have "map_option (map v \<circ> fst) (map_seed f (snd y) xs) = map_option (map v \<circ> fst) (map_seed g (snd z) xs)" by (rule Cons.IH)
    then show ?thesis using Some z
      by (cases "map_seed f (snd y) xs"; cases "map_seed g (snd z) xs") (auto simp: case_prod_beta)
  qed
qed simp

lemma normalize_view:
  "map_option (operation_view \<circ> fst) (normalizeOperation now m x) = map_option (operation_view \<circ> fst) (normalizeOperation now' n x)"
proof -
  let ?cs = "case jget x ''conditions'' of Some (JArr cs) \<Rightarrow> cs | _ \<Rightarrow> []"
  have "map_option (map condition_view \<circ> fst) (map_seed (po_normalizeCondition now) (Suc m) ?cs)
      = map_option (map condition_view \<circ> fst) (map_seed (po_normalizeCondition now') (Suc n) ?cs)"
    by (rule map_seed_view) (simp add: po_normalizeCondition_def condition_view_def)
  then show ?thesis
    by (cases "map_seed (po_normalizeCondition now) (Suc m) ?cs"; cases "map_seed (po_normalizeCondition now') (Suc n) ?cs")
      (auto simp: normalizeOperation_def operation_view_def)
qed

definition savable :: "po_operation \<Rightarrow> bool" where
  "savable o1 \<longleftrightarrow> operation_error o1 = None \<and> \<not> isOperationBlank o1"

lemma savable_view: "map operation_view ops = map operation_view ops' \<Longrightarrow> list_all savable ops = list_all savable ops'"
proof -
  have "list_all savable ops = list_all savable (map operation_view ops)" for ops
    by (simp add: list_all_iff savable_def error_view blank_view)
  then show "map operation_view ops = map operation_view ops' \<Longrightarrow> ?thesis" by metis
qed

lemma preset_savable:
  assumes "tp_kind (preset_of k) = Kind_Operations"
  shows "\<exists>ops seed'. map_seed (normalizeOperation now) seed (payload_operations (tp_payload (preset_of k))) = Some (ops, seed')
     \<and> ops \<noteq> [] \<and> list_all savable ops"
proof -
  define good where "good p = (case map_seed (normalizeOperation 0) 0 (payload_operations (tp_payload p)) of
      Some (ops, _) \<Rightarrow> ops \<noteq> [] \<and> list_all savable ops | None \<Rightarrow> False)" for p :: template_preset
  have "list_all (\<lambda>e. tp_kind (snd e) = Kind_Operations \<longrightarrow> good (snd e)) TEMPLATE_PRESET_CONFIG"
    unfolding good_def by code_simp
  moreover have "map_of TEMPLATE_PRESET_CONFIG ''operations_default'' =
      Some \<lparr>tp_label = ''New Format Template'', tp_kind = Kind_Operations, tp_payload = OPERATION_TEMPLATE\<rparr>"
    by (simp add: TEMPLATE_PRESET_CONFIG_def)
  ultimately have "good (preset_of k)"
    using assms by (fastforce simp: preset_of_def list_all_iff dest: map_of_SomeD split: option.splits)
  then obtain ops s where "map_seed (normalizeOperation 0) 0 (payload_operations (tp_payload (preset_of k))) = Some (ops, s)"
    "ops \<noteq> []" "list_all savable ops" unfolding good_def by (auto split: option.splits)
  moreover from map_seed_view [of operation_view "normalizeOperation now" "normalizeOperation 0", OF normalize_view] this(1)
  obtain ops' s' where "map_seed (normalizeOperation now) seed (payload_operations (tp_payload (preset_of k))) = Some (ops', s')"
    "map operation_view ops' = map operation_view ops"
    by (cases "map_seed (normalizeOperation now) seed (payload_operations (tp_payload (preset_of k)))")
      (metis comp_apply fst_conv option.map_disc_iff option.sel option.simps(9) option.distinct(1) surj_pair)+
  ultimately show ?thesis using savable_view by (metis map_is_Nil_conv)
qed

text \<open>
  Every template can be stored as it is: whatever the dialog held, filling in the chosen template and saving
  is not refused and stores a JSON object; for a template of operations, one with all of them.
\<close>

theorem templates_savable:
  "\<exists>s fs. handleSave tr t (fillTemplate tr now False st) = Inr s \<and> json_parse s = Some (JObj fs)
     \<and> (case tp_kind (preset_of (templatePresetKey st)) of
          Kind_Legacy \<Rightarrow> JObj fs = LEGACY_TEMPLATE
        | Kind_Operations \<Rightarrow> \<exists>ps. map_of fs ''operations'' = Some (JArr ps)
            \<and> length ps = length (payload_operations (tp_payload (preset_of (templatePresetKey st)))))"
proof -
  let ?p = "preset_of (templatePresetKey st)"
  show ?thesis
  proof (cases "tp_kind ?p")
    case Kind_Legacy
    have "list_all (\<lambda>e. tp_kind (snd e) = Kind_Legacy \<longrightarrow> tp_payload (snd e) = LEGACY_TEMPLATE) TEMPLATE_PRESET_CONFIG" by code_simp
    then have payload: "tp_payload ?p = LEGACY_TEMPLATE"
      using Kind_Legacy by (fastforce simp: preset_of_def list_all_iff dest: map_of_SomeD split: option.splits)
    have "json_wf LEGACY_TEMPLATE" by code_simp
    then have parsed: "json_parse (json_stringify2 LEGACY_TEMPLATE) = Some LEGACY_TEMPLATE" by (rule json_parse_stringify2)
    moreover obtain fs where fs: "LEGACY_TEMPLATE = JObj fs" "fs \<noteq> []" by (simp add: LEGACY_TEMPLATE_def)
    moreover have "js_trim (json_stringify2 LEGACY_TEMPLATE) = json_stringify2 LEGACY_TEMPLATE" "json_stringify2 LEGACY_TEMPLATE \<noteq> []"
      using stringify2_object_ends [OF fs(2)] by (simp_all add: fs(1))
    ultimately have "handleSave tr t (fillTemplate tr now False st) = Inr (json_stringify2 LEGACY_TEMPLATE)"
      by (simp add: fillTemplate_def Let_def Kind_Legacy payload show_legacy_def handleSave_def buildVisualJson_def verifyJSON_def)
        (simp add: LEGACY_TEMPLATE_def)
    then show ?thesis using parsed fs(1) Kind_Legacy
      by (intro exI [of _ "json_stringify2 LEGACY_TEMPLATE"] exI [of _ fs]) simp
  next
    case Kind_Operations
    from preset_savable [OF this, of now "localIdSeed st"] obtain ops seed where
      ops: "map_seed (normalizeOperation now) (localIdSeed st) (payload_operations (tp_payload ?p)) = Some (ops, seed)"
        "ops \<noteq> []" "list_all savable ops" by blast
    have "filter (\<lambda>o1. \<not> isOperationBlank o1) ops = ops" "list_all (\<lambda>o1. operation_error o1 = None) ops"
      using ops(3) by (auto simp: savable_def list_all_iff filter_id_conv)
    then have "handleSave tr t (fillTemplate tr now False st) = Inr (json_stringify2 (JObj [(''operations'', JArr (map operation_payload ops))]))"
      using ops by (simp add: fillTemplate_def Let_def Kind_Operations handleSave_def buildVisualJson_def buildOperationsJson_def
          validateOperations_def validate_accepts)
    then show ?thesis
      using json_parse_stringify2 [OF operations_wf [of ops]] operations_ids [OF ops(1)] Kind_Operations by simp
  qed
qed

section \<open>Examples\<close>

definition example_dialog :: dialog where
  "example_dialog = \<lparr>editMode = Edit_Visual, visualMode = Visual_Operations, legacyValue = [], operations = [example_operation],
     jsonText = [], jsonError = [], operationSearch = [], selectedOperationId = [], expandedConditions = Map.empty,
     draggedOperationId = [], dragOverOperationId = [], dragOverPosition = Before, templatePresetKey = ''operations_default'',
     localIdSeed = 7, po_toasts = []\<rparr>"

theorem mode_switch_roundtrip_witness:
  "\<exists>st2. switchToVisualMode id 0 (switchToJsonMode id (\<lambda>k n. ''!'' @ k) example_dialog) = Some st2
     \<and> map operation_view (operations st2) = [operation_view example_operation]
     \<and> handleSave id (\<lambda>k n. ''!'' @ k) st2 = handleSave id (\<lambda>k n. ''!'' @ k) example_dialog"
proof -
  have st: "editMode example_dialog = Edit_Visual" "visualMode example_dialog = Visual_Operations"
    "operations example_dialog = [example_operation]" by (simp_all add: example_dialog_def)
  obtain s where s: "handleSave id (\<lambda>k n. ''!'' @ k) example_dialog = Inr s" "s \<noteq> []"
    using example_saved by (auto simp: visual_save st)
  show ?thesis
    using mode_switch_roundtrip [of "\<lambda>k n. ''!'' @ k" example_dialog id s 0, OF _ st(1,2) _ s] example_ok s(1)
    by (auto simp: st example_canonical)
qed

theorem saved_text_parses_witness:
  "\<exists>s v. handleSave id (\<lambda>k n. k) example_dialog = Inr s \<and> json_parse s = Some v"
proof -
  have "\<exists>s. handleSave id (\<lambda>k n. k) example_dialog = Inr s \<and> s \<noteq> []"
    by (auto simp: handleSave_def buildVisualJson_def buildOperationsJson_def validateOperations_def Let_def
        example_dialog_def example_ok stringify2_object_ends)
  then show ?thesis using saved_text_parses [of id "\<lambda>k n. k" example_dialog] by blast
qed

theorem editor_identifiers_witness:
  "\<exists>st. editor_reachable id (\<lambda>k n. k) st \<and> operations st \<noteq> [] \<and> distinct (all_ids (operations st))"
proof -
  have "open_dialog 0 [] example_dialog \<noteq> None" by (simp add: open_dialog_def parseInitialState_def)
  then obtain st where "editor_reachable id (\<lambda>k n. k) st" using editor_reachable.opened by blast
  then show ?thesis using editor_identifiers by blast
qed

theorem prune_rules_frozen_witness:
  "\<exists>r st. r \<in> set (pd_rules (parsePruneObjectsDraft 0 3 (buildPruneObjectsValueText example_draft)))
     \<and> po_value_text (hd (operations st)) = buildPruneObjectsValueText example_draft
     \<and> operations (removePruneRule 0 ''a'' (co_id r) st) = operations st"
proof -
  let ?st = "example_dialog\<lparr>operations := [example_operation\<lparr>po_mode := ''prune_objects'', po_value_text := buildPruneObjectsValueText example_draft\<rparr>]\<rparr>"
  let ?d = "parsePruneObjectsDraft 0 3 (buildPruneObjectsValueText example_draft)"
  have ok: "prune_value_ok example_draft" by code_simp
  have len: "length (pd_rules ?d) = 1" by code_simp
  then obtain r where "r \<in> set (pd_rules ?d)" by (cases "pd_rules ?d") auto
  then show ?thesis
    using prune_rules_frozen [of r 0 3 example_draft ?st "''a''" 0] ok len
    by (intro exI [of _ r] exI [of _ ?st]) (simp add: example_dialog_def)
qed

end
