(* ===== verification/Regex.thy ===== *)
theory Regex
  imports Js_Prelude
begin

text \<open>
  Regular expressions of the language, with the backtracking order of its specification: a match is
  searched with a continuation, alternatives are tried from left to right and repetitions are greedy. The
  state is the text before the position, reversed, and the text from it. Patterns have no capturing group
  inside a repetition with a star, so captures are never reset.
\<close>

section \<open>Patterns\<close>

datatype regex =
  Lit string
| Cls "char \<Rightarrow> bool"
| Seq regex regex
| Alt regex regex
| Star regex
| Grp nat regex
| Eol
| Wordb

type_synonym caps = "(nat \<times> string) list"
type_synonym rx_result = "(string \<times> string \<times> caps) option"

abbreviation Emp :: regex where
  "Emp \<equiv> Lit []"

abbreviation Opt :: "regex \<Rightarrow> regex" where
  "Opt r \<equiv> Alt r Emp"

definition Plus :: "regex \<Rightarrow> regex" where
  "Plus r = Seq r (Star r)"

fun Seqs :: "regex list \<Rightarrow> regex" where
  "Seqs [] = Emp"
| "Seqs [r] = r"
| "Seqs (r # rs) = Seq r (Seqs rs)"

fun Alts :: "regex list \<Rightarrow> regex" where
  "Alts [] = Cls (\<lambda>_. False)"
| "Alts [r] = r"
| "Alts (r # rs) = Alt r (Alts rs)"

text \<open>White space \<open>\s\<close> and word characters \<open>\w\<close>.\<close>

definition Ws :: regex where
  "Ws = Alts (map Lit ws_seqs)"

definition is_word :: "char \<Rightarrow> bool" where
  "is_word c \<longleftrightarrow> is_digit c \<or> c \<in> set ''ABCDEFGHIJKLMNOPQRSTUVWXYZabcdefghijklmnopqrstuvwxyz_''"

definition word_edge :: "string \<Rightarrow> string \<Rightarrow> bool" where
  "word_edge b s \<longleftrightarrow> (b \<noteq> [] \<and> is_word (hd b)) \<noteq> (s \<noteq> [] \<and> is_word (hd s))"

fun strip_lit :: "string \<Rightarrow> string \<Rightarrow> string option" where
  "strip_lit [] s = Some s"
| "strip_lit (c # w) (d # s) = (if c = d then strip_lit w s else None)"
| "strip_lit (c # w) [] = None"

section \<open>Matching\<close>

function (sequential) rx ::
  "regex \<Rightarrow> string \<Rightarrow> string \<Rightarrow> caps \<Rightarrow> (string \<Rightarrow> string \<Rightarrow> caps \<Rightarrow> rx_result) \<Rightarrow> rx_result" where
  "rx (Lit w) b s cs k = (case strip_lit w s of None \<Rightarrow> None | Some s' \<Rightarrow> k (rev w @ b) s' cs)"
| "rx (Cls C) b s cs k = (case s of [] \<Rightarrow> None | c # s' \<Rightarrow> if C c then k (c # b) s' cs else None)"
| "rx (Seq r1 r2) b s cs k = rx r1 b s cs (\<lambda>b' s' cs'. if length s' \<le> length s then rx r2 b' s' cs' k else None)"
| "rx (Alt r1 r2) b s cs k = (case rx r1 b s cs k of Some x \<Rightarrow> Some x | None \<Rightarrow> rx r2 b s cs k)"
| "rx (Star r) b s cs k =
     (case rx r b s cs (\<lambda>b' s' cs'. if length s' < length s then rx (Star r) b' s' cs' k else None) of
        Some x \<Rightarrow> Some x
      | None \<Rightarrow> k b s cs)"
| "rx (Grp i r) b s cs k = rx r b s cs (\<lambda>b' s' cs'. k b' s' ((i, take (length s - length s') s) # cs'))"
| "rx Eol b s cs k = (if s = [] then k b s cs else None)"
| "rx Wordb b s cs k = (if word_edge b s then k b s cs else None)"
  by pat_completeness auto
termination
  by (relation "measures [\<lambda>(r, b, s, cs, k). length s, \<lambda>(r, b, s, cs, k). size r]") auto

text \<open>A match from a position: the capture 0 is the whole match.\<close>

definition match_at :: "regex \<Rightarrow> string \<Rightarrow> string \<Rightarrow> rx_result" where
  "match_at r b s = rx (Grp 0 r) b s [] (\<lambda>b' s' cs. Some (b', s', cs))"

text \<open>\<open>re.exec\<close> of a global expression: the leftmost match from the position.\<close>

fun exec_from :: "regex \<Rightarrow> string \<Rightarrow> string \<Rightarrow> rx_result" where
  "exec_from r b [] = match_at r b []"
| "exec_from r b (c # s) = (case match_at r b (c # s) of Some x \<Rightarrow> Some x | None \<Rightarrow> exec_from r (c # b) s)"

text \<open>
  The loop \<open>while ((m = re.exec(s)) !== null)\<close>. A match that consumes nothing would repeat forever; the
  patterns it is used with consume at least one character, and the loop of the model stops there.
\<close>

function exec_all :: "regex \<Rightarrow> string \<Rightarrow> string \<Rightarrow> caps list" where
  "exec_all r b s =
     (case exec_from r b s of
        None \<Rightarrow> []
      | Some (b', s', cs) \<Rightarrow> if length s' < length s then cs # exec_all r b' s' else [cs])"
  by pat_completeness auto
termination
  by (relation "measure (\<lambda>(r, b, s). length s)") auto

declare exec_all.simps [simp del]

section \<open>Laws\<close>

lemma strip_lit_append [simp]: "strip_lit w (w @ s) = Some s"
  by (induction w) auto

lemma strip_lit_Some: "strip_lit w s = Some s' \<longleftrightarrow> s = w @ s'"
  by (induction w s rule: strip_lit.induct) auto

lemma rx_cong:
  "(\<And>b' s' cs'. length s' \<le> length s \<Longrightarrow> k b' s' cs' = k' b' s' cs') \<Longrightarrow> rx r b s cs k = rx r b s cs k'"
proof (induction r b s cs k arbitrary: k' rule: rx.induct)
  case (1 w b s cs k)
  then show ?case by (auto simp: strip_lit_Some split: option.split)
next
  case (2 C b s cs k)
  then show ?case by (auto split: list.split)
next
  case (3 r1 r2 b s cs k)
  show ?case unfolding rx.simps
  proof (rule 3(2))
    fix b' s' :: string and cs' :: caps assume "length s' \<le> length s"
    then show "(if length s' \<le> length s then rx r2 b' s' cs' k else None) = (if length s' \<le> length s then rx r2 b' s' cs' k' else None)"
      using 3(1) [OF \<open>length s' \<le> length s\<close>] 3(3) by simp
  qed
next
  case (4 r1 r2 b s cs k)
  then show ?case by (auto split: option.split)
next
  case (5 r b s cs k)
  have "rx r b s cs (\<lambda>b' s' cs'. if length s' < length s then rx (Star r) b' s' cs' k else None)
      = rx r b s cs (\<lambda>b' s' cs'. if length s' < length s then rx (Star r) b' s' cs' k' else None)"
  proof (rule 5(2))
    fix b' s' :: string and cs' :: caps assume "length s' \<le> length s"
    show "(if length s' < length s then rx (Star r) b' s' cs' k else None) = (if length s' < length s then rx (Star r) b' s' cs' k' else None)"
      using 5(1) 5(3) by simp
  qed
  then show ?case using 5(3) by (simp del: rx.simps add: rx.simps(5) split: option.split)
next
  case (6 i r b s cs k)
  then show ?case by simp
qed simp_all


lemma rx_Seq: "rx (Seq r1 r2) b s cs k = rx r1 b s cs (\<lambda>b' s' cs'. rx r2 b' s' cs' k)"
  unfolding rx.simps by (rule rx_cong) simp

declare rx.simps(3) [simp del] rx.simps(5) [simp del]
declare rx_Seq [simp]

lemma rx_Seqs [simp]: "rx (Seqs (r # r' # rs)) b s cs k = rx r b s cs (\<lambda>b' s' cs'. rx (Seqs (r' # rs)) b' s' cs' k)"
  by simp

lemma rx_Plus: "rx (Plus r) b s cs k = rx r b s cs (\<lambda>b' s' cs'. rx (Star r) b' s' cs' k)"
  by (simp add: Plus_def)

lemma rx_Opt: "rx (Opt r) b s cs k = (case rx r b s cs k of Some x \<Rightarrow> Some x | None \<Rightarrow> k b s cs)"
  by (simp split: option.split)

text \<open>A repetition of a class, one character at a time.\<close>

lemma star_cls_Nil [simp]: "rx (Star (Cls C)) b [] cs k = k b [] cs"
  by (simp add: rx.simps(5))

lemma star_cls_Cons: "rx (Star (Cls C)) b (c # s) cs k =
   (if C c then (case rx (Star (Cls C)) (c # b) s cs k of Some x \<Rightarrow> Some x | None \<Rightarrow> k b (c # s) cs) else k b (c # s) cs)"
  by (subst rx.simps(5)) simp

text \<open>The longest repetition is tried first.\<close>

definition stops :: "(char \<Rightarrow> bool) \<Rightarrow> string \<Rightarrow> bool" where
  "stops C s \<longleftrightarrow> (case s of [] \<Rightarrow> True | c # _ \<Rightarrow> \<not> C c)"

lemma stops_simps [simp]: "stops C []" "stops C (c # s) \<longleftrightarrow> \<not> C c"
  by (simp_all add: stops_def)

lemma star_cls_longest:
  "list_all C w \<Longrightarrow> stops C s \<Longrightarrow> k (rev w @ b) s cs = Some x \<Longrightarrow> rx (Star (Cls C)) b (w @ s) cs k = Some x"
proof (induction w arbitrary: b)
  case Nil
  then show ?case by (cases s) (simp_all add: star_cls_Cons)
qed (simp add: star_cls_Cons)

lemma plus_cls_longest:
  "list_all C w \<Longrightarrow> w \<noteq> [] \<Longrightarrow> stops C s \<Longrightarrow> k (rev w @ b) s cs = Some x \<Longrightarrow> rx (Plus (Cls C)) b (w @ s) cs k = Some x"
  by (cases w) (simp_all add: rx_Plus star_cls_longest)

lemma group_star_longest:
  "list_all C w \<Longrightarrow> stops C s \<Longrightarrow> k (rev w @ b) s ((i, w) # cs) = Some x \<Longrightarrow> rx (Grp i (Star (Cls C))) b (w @ s) cs k = Some x"
  by (simp add: star_cls_longest)

lemma group_plus_longest:
  "list_all C w \<Longrightarrow> w \<noteq> [] \<Longrightarrow> stops C s \<Longrightarrow> k (rev w @ b) s ((i, w) # cs) = Some x
     \<Longrightarrow> rx (Grp i (Plus (Cls C))) b (w @ s) cs k = Some x"
  by (simp add: plus_cls_longest)

lemma star_stop: "stops C s \<Longrightarrow> rx (Star (Cls C)) b s cs k = k b s cs"
  by (cases s) (simp_all add: star_cls_Cons)

text \<open>White space.\<close>

definition no_ws :: "string \<Rightarrow> bool" where
  "no_ws s \<longleftrightarrow> list_all (\<lambda>w. strip_lit w s = None) ws_seqs"

lemma rx_Alts_Lit: "list_all (\<lambda>w. strip_lit w s = None) ws \<Longrightarrow> rx (Alts (map Lit ws)) b s cs k = None"
proof (induction ws)
  case (Cons w ws)
  then show ?case by (cases ws) simp_all
qed (simp split: list.split)

lemma ws_none: "no_ws s \<Longrightarrow> rx Ws b s cs k = None"
  by (simp add: Ws_def no_ws_def rx_Alts_Lit)

lemma star_ws_none [simp]: "no_ws s \<Longrightarrow> rx (Star Ws) b s cs k = k b s cs"
  by (simp add: rx.simps(5) ws_none)


lemma no_ws_visible [simp]: "visible c \<Longrightarrow> no_ws (c # s)"
  unfolding no_ws_def list_all_iff
proof
  fix w assume "visible c" "w \<in> set ws_seqs"
  then show "strip_lit w (c # s) = None" using ws_seqs_ends [of w] by (cases w) auto
qed

lemma no_ws_Nil [simp]: "no_ws []"
  unfolding no_ws_def list_all_iff using ws_seqs_ends by (metis not_None_eq strip_lit_Some append_is_Nil_conv)

lemma star_ws_space:
  "rx (Star Ws) b (CHR '' '' # s) cs k =
     (case rx (Star Ws) (CHR '' '' # b) s cs k of Some x \<Rightarrow> Some x | None \<Rightarrow> k b (CHR '' '' # s) cs)"
proof -
  have "rx Ws b (CHR '' '' # s) cs k' = k' (CHR '' '' # b) s cs" for k'
  proof -
    obtain ws where ws: "ws_seqs = [CHR '' ''] # ws" "ws \<noteq> []" by (simp add: ws_seqs_def)
    have "list_all (\<lambda>w. strip_lit w (CHR '' '' # s) = None) ws" using ws(1) by (auto simp: ws_seqs_def)
    then have rest: "rx (Alts (map Lit ws)) b (CHR '' '' # s) cs k' = None" by (rule rx_Alts_Lit)
    have blank_first: "Ws = Alt (Lit '' '') (Alts (map Lit ws))" unfolding Ws_def ws(1) using ws(2) by (cases ws) simp_all
    show ?thesis unfolding blank_first using rest by (simp split: option.split)
  qed
  then show ?thesis by (subst rx.simps(5)) simp
qed

text \<open>One blank, the way the generators write it.\<close>

lemma star_ws_blank: "no_ws s \<Longrightarrow> k (CHR '' '' # b) s cs = Some x \<Longrightarrow> rx (Star Ws) b (CHR '' '' # s) cs k = Some x"
  by (simp add: star_ws_space)

lemma star_ws_blank_none:
  "no_ws s \<Longrightarrow> k (CHR '' '' # b) s cs = None \<Longrightarrow> k b (CHR '' '' # s) cs = None \<Longrightarrow> rx (Star Ws) b (CHR '' '' # s) cs k = None"
  by (simp add: star_ws_space)

text \<open>Global search.\<close>

lemma exec_from_hit: "match_at r b s = Some x \<Longrightarrow> exec_from r b s = Some x"
  by (cases s) simp_all

lemma exec_all_step:
  "exec_from r b s = Some (b', s', cs) \<Longrightarrow> length s' < length s \<Longrightarrow> exec_all r b s = cs # exec_all r b' s'"
  by (subst exec_all.simps) simp

lemma exec_all_none: "exec_from r b s = None \<Longrightarrow> exec_all r b s = []"
  by (subst exec_all.simps) simp

section \<open>Soundness\<close>

text \<open>What a pattern matches and what its groups capture, for every input: a match consumes a word of the language of the
  pattern, a capture is a word of the language of its group, and a group that lies on every path is captured.\<close>

inductive rlang :: "regex \<Rightarrow> string \<Rightarrow> bool" where
  Lit: "rlang (Lit w) w"
| Cls: "C c \<Longrightarrow> rlang (Cls C) [c]"
| Seq: "rlang r1 u \<Longrightarrow> rlang r2 v \<Longrightarrow> rlang (Seq r1 r2) (u @ v)"
| Alt1: "rlang r1 u \<Longrightarrow> rlang (Alt r1 r2) u"
| Alt2: "rlang r2 u \<Longrightarrow> rlang (Alt r1 r2) u"
| Star0: "rlang (Star r) []"
| Star: "rlang r u \<Longrightarrow> rlang (Star r) v \<Longrightarrow> rlang (Star r) (u @ v)"
| Grp: "rlang r u \<Longrightarrow> rlang (Grp i r) u"
| Eol: "rlang Eol []"
| Wordb: "rlang Wordb []"

inductive_simps rlang_simps: "rlang (Lit w) u" "rlang (Cls C) u" "rlang (Alt r1 r2) u" "rlang (Grp i r) u"

fun groups :: "regex \<Rightarrow> (nat \<times> regex) set" where
  "groups (Seq r1 r2) = groups r1 \<union> groups r2"
| "groups (Alt r1 r2) = groups r1 \<union> groups r2"
| "groups (Star r) = groups r"
| "groups (Grp i r) = insert (i, r) (groups r)"
| "groups _ = {}"

text \<open>The groups a match passes through on every path.\<close>

fun must :: "regex \<Rightarrow> nat set" where
  "must (Seq r1 r2) = must r1 \<union> must r2"
| "must (Alt r1 r2) = must r1 \<inter> must r2"
| "must (Grp i r) = insert i (must r)"
| "must _ = {}"

definition group_words :: "regex \<Rightarrow> (nat \<times> string) set" where
  "group_words r = {(i, w). \<exists>r'. (i, r') \<in> groups r \<and> rlang r' w}"

definition caps_of :: "regex \<Rightarrow> caps \<Rightarrow> caps \<Rightarrow> bool" where
  "caps_of r cs cs' \<longleftrightarrow> set cs' \<subseteq> set cs \<union> group_words r \<and> fst ` set cs \<subseteq> fst ` set cs' \<and> must r \<subseteq> fst ` set cs'"

lemma group_words_mono: "groups r \<subseteq> groups q \<Longrightarrow> group_words r \<subseteq> group_words q"
  by (auto simp: group_words_def)

lemma caps_of_mono: "caps_of r cs cs' \<Longrightarrow> groups r \<subseteq> groups q \<Longrightarrow> must q \<subseteq> must r \<Longrightarrow> caps_of q cs cs'"
  using group_words_mono [of r q] unfolding caps_of_def by (meson Un_mono order_refl order_trans)

lemma caps_of_trans:
  assumes "caps_of r cs cs'" "caps_of r' cs' cs''" "groups r \<union> groups r' \<subseteq> groups q" "must q \<subseteq> must r \<union> must r'"
  shows "caps_of q cs cs''"
proof -
  have "group_words r \<subseteq> group_words q" "group_words r' \<subseteq> group_words q" using assms(3) group_words_mono by simp_all
  moreover have "C \<subseteq> B \<union> H \<Longrightarrow> B \<subseteq> A \<union> G \<Longrightarrow> G \<subseteq> Q \<Longrightarrow> H \<subseteq> Q \<Longrightarrow> C \<subseteq> A \<union> Q" for A B C G H Q :: "(nat \<times> string) set" by blast
  moreover have "X \<subseteq> Y \<Longrightarrow> Y \<subseteq> Z \<Longrightarrow> X \<subseteq> Z" "X \<subseteq> R \<union> S \<Longrightarrow> R \<subseteq> Y \<Longrightarrow> Y \<subseteq> Z \<Longrightarrow> S \<subseteq> Z \<Longrightarrow> X \<subseteq> Z" for X Y Z R S :: "nat set" by blast+
  ultimately show ?thesis using assms(1,2,4) unfolding caps_of_def by meson
qed

definition rx_run :: "regex \<Rightarrow> string \<Rightarrow> string \<Rightarrow> caps \<Rightarrow> (string \<Rightarrow> string \<Rightarrow> caps \<Rightarrow> rx_result) \<Rightarrow> (string \<times> string \<times> caps) \<Rightarrow> bool" where
  "rx_run r b s cs k x \<longleftrightarrow> (\<exists>w s' cs'. s = w @ s' \<and> rlang r w \<and> k (rev w @ b) s' cs' = Some x \<and> caps_of r cs cs')"

lemma rx_sound: "rx r b s cs k = Some x \<Longrightarrow> rx_run r b s cs k x"
proof (induction r b s cs k arbitrary: x rule: rx.induct)
  case (1 w b s cs k)
  then show ?case by (auto simp: rx_run_def strip_lit_Some caps_of_def intro: rlang.Lit split: option.splits)
next
  case (2 C b s cs k)
  then obtain c s' where c: "s = c # s'" "C c" "k (c # b) s' cs = Some x" by (auto split: list.splits if_splits)
  then show ?case unfolding rx_run_def
    by (intro exI [of _ "[c]"] exI [of _ s'] exI [of _ cs]) (auto simp: caps_of_def intro: rlang.Cls)
next
  case (3 r1 r2 b s cs k)
  obtain w s' cs' where w: "s = w @ s'" "rlang r1 w" "rx r2 (rev w @ b) s' cs' k = Some x" "caps_of r1 cs cs'"
    using 3(2) [OF 3(3) [unfolded rx.simps(3)]] by (auto simp: rx_run_def)
  obtain v s'' cs'' where v: "s' = v @ s''" "rlang r2 v" "k (rev v @ rev w @ b) s'' cs'' = Some x" "caps_of r2 cs' cs''"
    using 3(1) [of s' "rev w @ b" cs' x] w(1,3) by (auto simp: rx_run_def)
  show ?case unfolding rx_run_def
    by (rule exI [of _ "w @ v"], rule exI [of _ s''], rule exI [of _ cs''])
      (use w v caps_of_trans [OF w(4) v(4), of "Seq r1 r2"] in \<open>auto intro: rlang.Seq\<close>)
next
  case (4 r1 r2 b s cs k)
  then consider "rx_run r1 b s cs k x" | "rx_run r2 b s cs k x" by (auto split: option.splits)
  then show ?case
    by cases (unfold rx_run_def, (fastforce intro: rlang.Alt1 rlang.Alt2 caps_of_mono)+)
next
  case (5 r b s cs k)
  show ?case
  proof (cases "rx r b s cs (\<lambda>b' s' cs'. if length s' < length s then rx (Star r) b' s' cs' k else None)")
    case None
    then have "k b s cs = Some x" using 5(3) by (simp add: rx.simps(5))
    then show ?thesis unfolding rx_run_def
      by (intro exI [of _ "[]"] exI [of _ s] exI [of _ cs]) (auto simp: caps_of_def intro: rlang.Star0)
  next
    case (Some y)
    then have y: "y = x" using 5(3) by (simp add: rx.simps(5))
    obtain w s' cs' where w: "s = w @ s'" "rlang r w" "length s' < length s" "rx (Star r) (rev w @ b) s' cs' k = Some x" "caps_of r cs cs'"
      using 5(2) [OF Some] y by (auto simp: rx_run_def split: if_splits)
    obtain v s'' cs'' where v: "s' = v @ s''" "rlang (Star r) v" "k (rev v @ rev w @ b) s'' cs'' = Some x" "caps_of (Star r) cs' cs''"
      using 5(1) [OF w(3,4)] by (auto simp: rx_run_def)
    show ?thesis unfolding rx_run_def
      by (rule exI [of _ "w @ v"], rule exI [of _ s''], rule exI [of _ cs''])
        (use w v caps_of_trans [OF w(5) v(4), of "Star r"] in \<open>auto intro: rlang.Star\<close>)
  qed
next
  case (6 i r b s cs k)
  obtain w s' cs' where w: "s = w @ s'" "rlang r w" "k (rev w @ b) s' ((i, w) # cs') = Some x" "caps_of r cs cs'"
    using 6(1) [OF 6(2) [unfolded rx.simps(6)]] by (auto simp: rx_run_def)
  have "(i, w) \<in> group_words (Grp i r)" "group_words r \<subseteq> group_words (Grp i r)"
    using w(2) group_words_mono [of r "Grp i r"] by (auto simp: group_words_def)
  then have "caps_of (Grp i r) cs ((i, w) # cs')" using w(4) unfolding caps_of_def by auto
  then show ?case unfolding rx_run_def using w(1-3) rlang.Grp by blast
next
  case (7 b s cs k)
  then show ?case by (auto simp: rx_run_def caps_of_def intro: rlang.Eol split: if_splits)
next
  case (8 b s cs k)
  then have "k b s cs = Some x" by (simp split: if_splits)
  then show ?case unfolding rx_run_def
    by (intro exI [of _ "[]"] exI [of _ s] exI [of _ cs]) (auto simp: caps_of_def intro: rlang.Wordb)
qed

lemma match_caps_lang:
  assumes "match_at r b s = Some (b', s', cs)" "0 < i"
  shows "map_of cs i = Some w \<Longrightarrow> \<exists>r'. (i, r') \<in> groups r \<and> rlang r' w" "i \<in> must r \<Longrightarrow> map_of cs i \<noteq> None"
proof -
  have "rx_run (Grp 0 r) b s [] (\<lambda>b' s' cs. Some (b', s', cs)) (b', s', cs)"
    using assms(1) unfolding match_at_def by (rule rx_sound)
  then have "caps_of (Grp 0 r) [] cs" by (auto simp: rx_run_def)
  then show "map_of cs i = Some w \<Longrightarrow> \<exists>r'. (i, r') \<in> groups r \<and> rlang r' w" "i \<in> must r \<Longrightarrow> map_of cs i \<noteq> None"
    using assms(2) by (auto simp: caps_of_def group_words_def map_of_eq_None_iff dest!: map_of_SomeD)
qed

lemma exec_from_match: "exec_from r b s = Some x \<Longrightarrow> \<exists>b0 s0. match_at r b0 s0 = Some x"
  by (induction r b s rule: exec_from.induct) (auto split: option.splits)

lemma exec_all_match: "cs \<in> set (exec_all r b s) \<Longrightarrow> \<exists>b0 s0 b1 s1. match_at r b0 s0 = Some (b1, s1, cs)"
proof (induction r b s rule: exec_all.induct)
  case (1 r b s)
  show ?case
  proof (cases "exec_from r b s")
    case None
    then show ?thesis using 1(2) by (simp add: exec_all_none)
  next
    case (Some y)
    obtain b' s' cs' where y: "y = (b', s', cs')" by (cases y)
    have "cs = cs' \<or> length s' < length s \<and> cs \<in> set (exec_all r b' s')"
      using 1(2) Some y by (auto simp: exec_all.simps [of r b s] split: if_splits)
    then show ?thesis using exec_from_match [OF Some] 1(1) [OF Some y [symmetric] refl] y by blast
  qed
qed

lemma rlang_star_cls: "rlang (Star (Cls C)) w \<Longrightarrow> list_all C w"
  by (induction "Star (Cls C)" w rule: rlang.induct) (auto simp: rlang_simps)

end
