(* ===== verification/Tier_Expr.thy ===== *)
theory Tier_Expr
  imports Regex Billing_Expr Json_Print
begin

text \<open>
  Tiered prices: \<open>web/src/features/pricing/lib/tier-expr.ts\<close> and the tier parser of \<open>billing-expr.ts\<close>. The visual
  editor writes a list of tiers as a chain \<open>condition ? tier("label", prices) : ... : tier("label", prices)\<close> and
  reads it back with regular expressions, which are values of the type of \<open>Regex\<close> here.

  A number is an exact decimal; \<open>None\<close> is \<open>NaN\<close>. The labels of tiers are compared by \<open>normalizeTierLabel\<close> elsewhere, which
  is not modelled: it folds the case of any script. A partial tier has an optional value per property. The local cost
  estimate, which evaluates the expression as a program, is not modelled.
\<close>

section \<open>Tiers\<close>

datatype cache_mode = CACHE_MODE_TIMED | CACHE_MODE_GENERIC

datatype tier_value = Num_Value "dec option" | Text_Value string

record tier_condition =
  tier_var :: string
  tier_op :: string
  tier_value :: tier_value

text \<open>The seven optional prices are kept by the name of their field, in the order of the registry.\<close>

record visual_tier =
  vt_label :: string
  vt_conditions :: "tier_condition list"
  vt_input :: "dec option"
  vt_output :: "dec option"
  vt_cache_mode :: cache_mode
  vt_costs :: "(string \<times> dec) list"

record partial_tier =
  pt_label :: "string option"
  pt_conditions :: "tier_condition list option"
  pt_input :: "dec option option"
  pt_output :: "dec option option"
  pt_cache_mode :: "cache_mode option"
  pt_costs :: "(string \<times> dec option) list"

type_synonym visual_config = "visual_tier list"

text \<open>\<open>Number(x) || 0\<close>.\<close>

definition num_or_0 :: "dec option \<Rightarrow> dec" where
  "num_or_0 x = (case x of Some d \<Rightarrow> d | None \<Rightarrow> Dec 0 0)"

definition cost_fields :: "string list" where
  "cost_fields = [''cache_read_unit_cost'', ''cache_create_unit_cost'', ''cache_create_1h_unit_cost'', ''image_unit_cost'',
     ''image_output_unit_cost'', ''audio_input_unit_cost'', ''audio_output_unit_cost'']"

definition partial_cost :: "partial_tier \<Rightarrow> string \<Rightarrow> dec" where
  "partial_cost tier f = (case map_of (pt_costs tier) f of Some x \<Rightarrow> num_or_0 x | None \<Rightarrow> Dec 0 0)"

definition getTierCacheMode :: "partial_tier \<Rightarrow> cache_mode" where
  "getTierCacheMode tier =
     (case pt_cache_mode tier of
        Some m \<Rightarrow> m
      | None \<Rightarrow> if 0 < mant (partial_cost tier ''cache_create_1h_unit_cost'') then CACHE_MODE_TIMED else CACHE_MODE_GENERIC)"

definition normalizeVisualTier :: "partial_tier \<Rightarrow> visual_tier" where
  "normalizeVisualTier tier =
     \<lparr>vt_label = opt_str (pt_label tier), vt_conditions = (case pt_conditions tier of Some cs \<Rightarrow> cs | None \<Rightarrow> []),
      vt_input = (case pt_input tier of Some x \<Rightarrow> x | None \<Rightarrow> Some (Dec 0 0)),
      vt_output = (case pt_output tier of Some x \<Rightarrow> x | None \<Rightarrow> Some (Dec 0 0)),
      vt_cache_mode = getTierCacheMode tier, vt_costs = map (\<lambda>f. (f, partial_cost tier f)) cost_fields\<rparr>"

text \<open>A tier as the argument of a function that takes a partial one.\<close>

definition as_partial :: "visual_tier \<Rightarrow> partial_tier" where
  "as_partial t = \<lparr>pt_label = Some (vt_label t), pt_conditions = Some (vt_conditions t), pt_input = Some (vt_input t),
     pt_output = Some (vt_output t), pt_cache_mode = Some (vt_cache_mode t),
     pt_costs = map (\<lambda>(f, d). (f, Some d)) (vt_costs t)\<rparr>"

definition createDefaultVisualConfig :: visual_config where
  "createDefaultVisualConfig =
     [normalizeVisualTier \<lparr>pt_label = Some ''base'', pt_conditions = Some [], pt_input = Some (Some (Dec 0 0)),
        pt_output = Some (Some (Dec 0 0)), pt_cache_mode = Some CACHE_MODE_GENERIC, pt_costs = []\<rparr>]"

definition normalizeVisualConfig :: "visual_config option \<Rightarrow> visual_config" where
  "normalizeVisualConfig config =
     (case config of
        None \<Rightarrow> createDefaultVisualConfig
      | Some tiers \<Rightarrow> if tiers = [] then createDefaultVisualConfig else map (\<lambda>t. normalizeVisualTier (as_partial t)) tiers)"

section \<open>Generating\<close>

fun value_text :: "tier_value \<Rightarrow> string" where
  "value_text (Num_Value None) = ''NaN''"
| "value_text (Num_Value (Some d)) = dec_str d"
| "value_text (Text_Value s) = s"

definition condition_text :: "tier_condition \<Rightarrow> string" where
  "condition_text c = tier_var c @ '' '' @ tier_op c @ '' '' @ value_text (tier_value c)"

definition condition_given :: "tier_condition \<Rightarrow> bool" where
  "condition_given c \<longleftrightarrow> tier_var c \<noteq> [] \<and> tier_op c \<noteq> [] \<and> tier_value c \<noteq> Text_Value []"

definition buildConditionStr :: "tier_condition list \<Rightarrow> string" where
  "buildConditionStr conds = js_join '' && '' (map condition_text (filter condition_given conds))"

definition buildTierBodyExpr :: "visual_tier \<Rightarrow> string" where
  "buildTierBodyExpr tier =
     js_join '' + ''
       ([''p * '' @ dec_str (num_or_0 (vt_input tier)), ''c * '' @ dec_str (num_or_0 (vt_output tier))]
        @ List.map_filter
            (\<lambda>(f, v). let d = num_or_0 (map_of (vt_costs tier) f) in if mant d \<noteq> 0 then Some (v @ '' * '' @ dec_str d) else None)
            BILLING_CACHE_VAR_MAP)"

definition tier_text :: "string \<Rightarrow> visual_tier \<Rightarrow> string" where
  "tier_text label tier = ''tier('' @ [quote] @ label @ [quote] @ '', '' @ buildTierBodyExpr tier @ '')''"

fun tier_parts :: "nat \<Rightarrow> visual_tier list \<Rightarrow> string list" where
  "tier_parts i [] = []"
| "tier_parts i (tier # tiers) =
     (let body = tier_text (str_or (vt_label tier) (''tier_'' @ nat_str (i + 1))) tier; cond = buildConditionStr (vt_conditions tier)
      in (if tiers \<noteq> [] \<and> cond \<noteq> [] then cond @ '' ? '' @ body else body) # tier_parts (i + 1) tiers)"

definition generateExprFromVisualConfig :: "visual_config option \<Rightarrow> string" where
  "generateExprFromVisualConfig config =
     (case config of
        None \<Rightarrow> ''p * 0 + c * 0''
      | Some [] \<Rightarrow> ''p * 0 + c * 0''
      | Some [tier] \<Rightarrow>
          (let body = tier_text (str_or (vt_label tier) ''default'') tier; cond = buildConditionStr (vt_conditions tier)
           in if cond \<noteq> [] then cond @ '' ? '' @ body @ '' : p * 0 + c * 0'' else body)
      | Some tiers \<Rightarrow> js_join '' : '' (tier_parts 0 tiers))"

section \<open>Patterns\<close>

abbreviation WS :: regex where
  "WS \<equiv> Star Ws"

definition cond_class :: "char \<Rightarrow> bool" where
  "cond_class c \<longleftrightarrow> is_digit c \<or> c \<in> set ''.eE+''"

definition num_re :: regex where
  "num_re = Plus (Cls num_class)"

definition cache_var_re :: "nat \<Rightarrow> string \<Rightarrow> regex" where
  "cache_var_re i v = Opt (Seqs [WS, Lit ''+'', WS, Lit v, WS, Lit ''*'', WS, Grp i num_re])"

fun cache_vars_re :: "nat \<Rightarrow> string list \<Rightarrow> regex" where
  "cache_vars_re i [] = Emp"
| "cache_vars_re i (v # vs) = Seq (cache_var_re i v) (cache_vars_re (Suc i) vs)"

definition body_pat :: "nat \<Rightarrow> regex" where
  "body_pat i = Seqs [Lit ''p'', WS, Lit ''*'', WS, Grp i num_re, WS, Lit ''+'', WS, Lit ''c'', WS, Lit ''*'', WS,
     Grp (Suc i) num_re, cache_vars_re (i + 2) (map snd BILLING_CACHE_VAR_MAP)]"

definition label_re :: "nat \<Rightarrow> regex" where
  "label_re i = Seqs [Lit (''tier('' @ [quote]), Grp i (Star (Cls (\<lambda>c. c \<noteq> quote))), Lit ([quote] @ '',''), WS]"

definition single_re :: regex where
  "single_re = Seqs [label_re 1, body_pat 2, Lit '')'', Eol]"

definition var_re :: regex where
  "var_re = Alts [Lit ''p'', Lit ''c'', Lit ''len'']"

definition op_re :: regex where
  "op_re = Alts [Lit ''<'', Lit ''<='', Lit ''>'', Lit ''>='']"

definition cond_atom :: regex where
  "cond_atom = Seqs [var_re, WS, op_re, WS, Plus (Cls cond_class)]"

definition cond_group :: regex where
  "cond_group = Grp 1 (Seq cond_atom (Star (Seqs [WS, Lit ''&&'', WS, cond_atom])))"

definition cond_prefix :: regex where
  "cond_prefix = Opt (Seqs [cond_group, WS, Lit ''?'', WS])"

definition tier_re :: regex where
  "tier_re = Seqs [cond_prefix, label_re 2, body_pat 3, Lit '')'']"

definition and_re :: regex where
  "and_re = Seqs [WS, Lit ''&&'', WS]"

definition cond_re :: regex where
  "cond_re = Seqs [Grp 1 var_re, WS, Grp 2 op_re, WS, Grp 3 (Plus (Cls cond_class)), Eol]"

definition version_re :: regex where
  "version_re = Seqs [Lit ''v'', Grp 1 (Plus (Cls is_digit)), Lit '':'', Grp 2 (Star (Cls (\<lambda>_. True))), Eol]"

section \<open>Parsing\<close>

text \<open>\<open>s.split(re)\<close>.\<close>

function split_re :: "regex \<Rightarrow> string \<Rightarrow> string \<Rightarrow> string \<Rightarrow> string list" where
  "split_re r acc b [] = [rev acc]"
| "split_re r acc b (c # s) =
     (case match_at r b (c # s) of
        Some (b', s', cs) \<Rightarrow> if length s' < length (c # s) then rev acc # split_re r [] b' s' else split_re r (c # acc) (c # b) s
      | None \<Rightarrow> split_re r (c # acc) (c # b) s)"
  by pat_completeness auto
termination
  by (relation "measure (\<lambda>(r, acc, b, s). length s)") auto

definition cap :: "caps \<Rightarrow> nat \<Rightarrow> string" where
  "cap cs i = opt_str (map_of cs i)"

definition parse_condition :: "string \<Rightarrow> tier_condition option" where
  "parse_condition cp =
     (case match_at cond_re [] (js_trim cp) of
        None \<Rightarrow> None
      | Some (_, _, cs) \<Rightarrow> Some \<lparr>tier_var = cap cs 1, tier_op = cap cs 2, tier_value = Num_Value (str_number (cap cs 3))\<rparr>)"

definition parse_tier_conditions :: "string \<Rightarrow> tier_condition list" where
  "parse_tier_conditions condStr = (if condStr = [] then [] else List.map_filter parse_condition (split_re and_re [] [] condStr))"

text \<open>The captured prices of the optional variables, from group \<open>i\<close> on.\<close>

fun captured_costs :: "caps \<Rightarrow> nat \<Rightarrow> (string \<times> string) list \<Rightarrow> (string \<times> dec option) list" where
  "captured_costs cs i [] = []"
| "captured_costs cs i ((f, v) # vs) =
     (case map_of cs i of
        Some s \<Rightarrow> (f, str_number s) # captured_costs cs (Suc i) vs
      | None \<Rightarrow> captured_costs cs (Suc i) vs)"

definition tier_of_match :: "tier_condition list \<Rightarrow> nat \<Rightarrow> caps \<Rightarrow> visual_tier" where
  "tier_of_match conds i cs = normalizeVisualTier
     \<lparr>pt_label = Some (cap cs i), pt_conditions = Some conds, pt_input = Some (str_number (cap cs (i + 1))),
      pt_output = Some (str_number (cap cs (i + 2))), pt_cache_mode = None,
      pt_costs = captured_costs cs (i + 3) BILLING_CACHE_VAR_MAP\<rparr>"

definition expr_body :: "string \<Rightarrow> string" where
  "expr_body s = (case match_at version_re [] s of Some (_, _, cs) \<Rightarrow> cap cs 2 | None \<Rightarrow> s)"

definition tryParseVisualConfig :: "string \<Rightarrow> visual_config option" where
  "tryParseVisualConfig exprStr =
     (if exprStr = [] then None
      else (let body = expr_body exprStr
            in case match_at single_re [] body of
                 Some (_, _, cs) \<Rightarrow> Some (normalizeVisualConfig (Some [tier_of_match [] 1 cs]))
               | None \<Rightarrow>
                   (let tiers = map (\<lambda>cs. tier_of_match (parse_tier_conditions (cap cs 1)) 2 cs) (exec_all tier_re [] body);
                        cfg = normalizeVisualConfig (Some tiers)
                    in if tiers = [] then None
                       else if strip_ws (generateExprFromVisualConfig (Some cfg)) \<noteq> strip_ws body then None
                       else Some cfg)))"

section \<open>The parser of the price display\<close>

record parsed_tier =
  pd_label :: string
  pd_conditions :: "tier_condition list"
  pd_prices :: "(string \<times> dec) list"

definition billing_var_re :: regex where
  "billing_var_re = Seqs [Wordb, Grp 1 (Alts (map (\<lambda>v. Lit (bv_key v)) BILLING_PRICING_VARS)), WS, Lit ''*'', WS, Grp 2 num_re]"

text \<open>The first coefficient of every variable.\<close>

definition body_coeffs :: "string \<Rightarrow> (string \<times> dec option) list" where
  "body_coeffs bodyStr = map (\<lambda>cs. (cap cs 1, str_number (cap cs 2))) (exec_all billing_var_re [] bodyStr)"

definition parseTierBody :: "string \<Rightarrow> (string \<times> dec) list" where
  "parseTierBody bodyStr =
     map (\<lambda>v. (opt_str (bv_field v), num_or_0 (Option.bind (map_of (body_coeffs bodyStr) (bv_key v)) id))) BILLING_PRICING_VARS"

definition display_re :: regex where
  "display_re = Seqs [cond_prefix, label_re 2, Grp 3 (Plus (Cls (\<lambda>c. c \<noteq> CHR '')''))), Lit '')'']"

definition stripExprVersion :: "string \<Rightarrow> dec option \<times> string" where
  "stripExprVersion exprStr =
     (if exprStr = [] then (Some (Dec 1 0), [])
      else (case match_at version_re [] exprStr of
              Some (_, _, cs) \<Rightarrow> (str_number (cap cs 1), cap cs 2)
            | None \<Rightarrow> (Some (Dec 1 0), exprStr)))"

definition parseTiersFromExpr :: "string \<Rightarrow> parsed_tier list" where
  "parseTiersFromExpr exprStr =
     (if exprStr = [] then []
      else map (\<lambda>cs. \<lparr>pd_label = cap cs 2, pd_conditions = parse_tier_conditions (cap cs 1), pd_prices = parseTierBody (cap cs 3)\<rparr>)
             (exec_all display_re [] (snd (stripExprVersion exprStr))))"

definition exprUsesExtraVars :: "string \<Rightarrow> bool" where
  "exprUsesExtraVars exprStr \<longleftrightarrow>
     exec_from (Seqs [Wordb, Grp 1 (Alts (map Lit [''cr'', ''cc'', ''cc1h'', ''img'', ''img_o'', ''ai'', ''ao''])), Wordb]) [] exprStr \<noteq> None"

end
