(* ===== verification/Tier_Match.thy ===== *)
theory Tier_Match
  imports Tier_Expr Billing_Rules
begin

text \<open>
  The patterns of the tier parser on the text the generator writes: a price list, a label, a chain of conditions
  and a whole tier are matched with the captures that hold what was written. Every lemma runs one piece of a pattern
  over one piece of text and leaves the rest to a continuation.
\<close>

section \<open>Numbers and blanks\<close>

lemma dec_str_num_class: "list_all num_class (dec_str d)" "dec_str d \<noteq> []"
proof -
  have "num_char = num_class" by (auto simp: fun_eq_iff num_char_def num_class_def)
  moreover obtain c cs where "dec_str d = c # cs" "c = CHR ''-'' \<or> is_digit c" "list_all num_char cs"
  proof (cases "mant d = 0")
    case True
    then show thesis using that by (simp add: dec_str_def is_digit_def)
  next
    case False
    then obtain ip fp ex where "dec_body (nat_str (nat \<bar>mant d\<bar>)) (expo d) = num_shape False ip fp ex"
      "list_all is_digit ip" "ip \<noteq> []" "list_all is_digit fp"
      using dec_body_shape [of "nat_str (nat \<bar>mant d\<bar>)" "expo d"] nat_str_hd [of "nat \<bar>mant d\<bar>"] by auto
    then show thesis using that num_shape_chars by (simp only: dec_str_body [OF False] num_shape_neg) blast
  qed
  ultimately show "list_all num_class (dec_str d)" "dec_str d \<noteq> []" by (auto simp: num_class_def)
qed

lemma num_visible: "num_class c \<Longrightarrow> visible c"
  using num_class_chars by blast

lemma no_ws_append: "w \<noteq> [] \<Longrightarrow> visible (hd w) \<Longrightarrow> no_ws (w @ s)"
  by (cases w) auto

lemma no_ws_num: "list_all num_class w \<Longrightarrow> w \<noteq> [] \<Longrightarrow> no_ws (w @ s)"
  by (cases w) (auto simp: num_visible)

lemma ws_visible: "visible c \<Longrightarrow> rx WS b (c # s) cs k = k b (c # s) cs"
  by simp

text \<open>The visible characters of the patterns.\<close>

lemma visible_simps [simp]:
  "visible (CHR ''+'')" "visible (CHR ''*'')" "visible (CHR ''p'')" "visible (CHR ''c'')" "visible (CHR ''t'')" "visible (CHR ''l'')"
  "visible (CHR ''<'')" "visible (CHR ''>'')" "visible (CHR ''?'')" "visible (CHR '':'')" "visible (CHR ''&'')" "visible (CHR '')'')"
  "visible (CHR ''='')" "visible (CHR ''i'')" "visible (CHR ''a'')" "visible (CHR ''r'')" "visible (CHR ''o'')" "visible (CHR ''m'')" "visible (CHR ''_'')"
  "visible (CHR ''1'')" "visible (CHR ''('')" "visible (CHR '','')"
  by (simp_all add: visible_def)

lemma rx_num:
  "list_all num_class w \<Longrightarrow> w \<noteq> [] \<Longrightarrow> stops num_class s \<Longrightarrow> k (rev w @ b) s ((i, w) # cs) = Some x
     \<Longrightarrow> rx (Grp i num_re) b (w @ s) cs k = Some x"
  by (simp add: num_re_def plus_cls_longest)

section \<open>Prices\<close>

definition price_re :: "nat \<Rightarrow> string \<Rightarrow> regex" where
  "price_re i v = Seqs [WS, Lit ''+'', WS, Lit v, WS, Lit ''*'', WS, Grp i num_re]"

lemma cache_var_price: "cache_var_re i v = Opt (price_re i v)"
  by (simp add: cache_var_re_def price_re_def)

lemma rx_price:
  assumes "list_all num_class w" "w \<noteq> []" "stops num_class s" "v \<noteq> []" "visible (hd v)"
    and "k (rev ('' + '' @ v @ '' * '' @ w) @ b) s ((i, w) # cs) = Some x"
  shows "rx (price_re i v) b ('' + '' @ v @ '' * '' @ w @ s) cs k = Some x"
proof -
  have "rx (Grp i num_re) (rev ('' + '' @ v @ '' * '') @ b) (w @ s) cs k = Some x"
    using assms by (intro rx_num) simp_all
  then have "rx (Seqs [WS, Lit ''*'', WS, Grp i num_re]) (rev ('' + '' @ v) @ b) ('' * '' @ w @ s) cs k = Some x"
    using no_ws_num [OF assms(1,2)] by (simp add: star_ws_blank)
  then show ?thesis using no_ws_append [OF assms(4,5)] by (simp add: price_re_def star_ws_blank)
qed

lemma price_paren: "rx (price_re i v) b (CHR '')'' # r) cs k = None"
  by (simp add: price_re_def)

definition apart :: "string \<Rightarrow> string \<Rightarrow> bool" where
  "apart v u \<longleftrightarrow> (\<forall>i b r cs k. rx (price_re i v) b ('' + '' @ u @ '' * '' @ r) cs k = None)"

lemma vars_apart: "sorted_wrt apart (map snd BILLING_CACHE_VAR_MAP)"
  by (simp add: BILLING_CACHE_VAR_MAP_def BILLING_EXTRA_VARS_def BILLING_VARS_def apart_def price_re_def star_ws_space)

section \<open>The prices of a tier\<close>

fun extras_text :: "(string \<Rightarrow> dec) \<Rightarrow> (string \<times> string) list \<Rightarrow> string" where
  "extras_text c [] = []"
| "extras_text c ((f, v) # vs) = (if mant (c f) \<noteq> 0 then '' + '' @ v @ '' * '' @ dec_str (c f) else []) @ extras_text c vs"

fun extras_caps :: "(string \<Rightarrow> dec) \<Rightarrow> nat \<Rightarrow> (string \<times> string) list \<Rightarrow> caps \<Rightarrow> caps" where
  "extras_caps c i [] cs = cs"
| "extras_caps c i ((f, v) # vs) cs = extras_caps c (Suc i) vs (if mant (c f) \<noteq> 0 then (i, dec_str (c f)) # cs else cs)"

lemma extras_head:
  "extras_text c vs @ CHR '')'' # r = CHR '')'' # r \<or>
     (\<exists>u \<in> set (map snd vs). \<exists>w. extras_text c vs @ CHR '')'' # r = '' + '' @ u @ '' * '' @ w)"
proof (induction vs)
  case (Cons fv vs)
  obtain f v where fv: "fv = (f, v)" by (cases fv)
  show ?case
  proof (cases "mant (c f) = 0")
    case True
    then show ?thesis using Cons by (auto simp: fv)
  next
    case False
    then have "extras_text c (fv # vs) @ CHR '')'' # r = '' + '' @ v @ '' * '' @ (dec_str (c f) @ extras_text c vs @ CHR '')'' # r)"
      by (simp add: fv)
    then show ?thesis unfolding fv by (intro disjI2 bexI [of _ v] exI) (simp_all add: fv)
  qed
qed simp

lemma paren_blank_not_num [simp]: "\<not> num_class (CHR '')'')" "\<not> num_class (CHR '' '')"
  by (simp_all add: num_class_def is_digit_def)

lemma extras_stops: "stops num_class (extras_text c vs @ CHR '')'' # r)"
  using extras_head [of c vs r] by auto

lemma rx_extras:
  assumes "sorted_wrt apart (map snd vs)" "\<forall>v \<in> set (map snd vs). v \<noteq> [] \<and> visible (hd v)"
    and "k (rev (extras_text c vs) @ b) (CHR '')'' # r) (extras_caps c i vs cs) = Some x"
  shows "rx (cache_vars_re i (map snd vs)) b (extras_text c vs @ CHR '')'' # r) cs k = Some x"
  using assms
proof (induction vs arbitrary: i b cs)
  case (Cons fv vs)
  obtain f v where fv: "fv = (f, v)" by (cases fv)
  let ?rest = "extras_text c vs @ CHR '')'' # r"
  show ?case
  proof (cases "mant (c f) = 0")
    case True
    have "rx (price_re i v) b ?rest cs k' = None" for k'
      using extras_head [of c vs r] Cons.prems(1) by (auto simp: fv price_paren apart_def)
    moreover have "rx (cache_vars_re (Suc i) (map snd vs)) b ?rest cs k = Some x"
      using Cons.prems True by (intro Cons.IH) (simp_all add: fv)
    ultimately show ?thesis using True by (simp add: fv cache_var_price)
  next
    case False
    let ?w = "dec_str (c f)"
    have "rx (cache_vars_re (Suc i) (map snd vs)) (rev ('' + '' @ v @ '' * '' @ ?w) @ b) ?rest ((i, ?w) # cs) k = Some x"
      using Cons.prems False by (intro Cons.IH) (simp_all add: fv)
    then have "rx (price_re i v) b ('' + '' @ v @ '' * '' @ ?w @ ?rest) cs
        (\<lambda>b' s' cs'. rx (cache_vars_re (Suc i) (map snd vs)) b' s' cs' k) = Some x"
      using Cons.prems(2) by (intro rx_price dec_str_num_class extras_stops) (auto simp: fv)
    then show ?thesis using False by (simp add: fv cache_var_price)
  qed
qed simp

definition body_text :: "dec \<Rightarrow> dec \<Rightarrow> (string \<Rightarrow> dec) \<Rightarrow> string" where
  "body_text ip op c = ''p * '' @ dec_str ip @ '' + c * '' @ dec_str op @ extras_text c BILLING_CACHE_VAR_MAP"

definition body_caps :: "nat \<Rightarrow> dec \<Rightarrow> dec \<Rightarrow> (string \<Rightarrow> dec) \<Rightarrow> caps \<Rightarrow> caps" where
  "body_caps i ip op c cs = extras_caps c (i + 2) BILLING_CACHE_VAR_MAP ((Suc i, dec_str op) # (i, dec_str ip) # cs)"

lemma vars_visible: "\<forall>v \<in> set (map snd BILLING_CACHE_VAR_MAP). v \<noteq> [] \<and> visible (hd v)"
  by (simp add: BILLING_CACHE_VAR_MAP_def BILLING_EXTRA_VARS_def BILLING_VARS_def)

lemma rx_body:
  assumes "k (rev (body_text ip op c) @ b) (CHR '')'' # r) (body_caps i ip op c cs) = Some x"
  shows "rx (body_pat i) b (body_text ip op c @ CHR '')'' # r) cs k = Some x"
proof -
  let ?rest = "extras_text c BILLING_CACHE_VAR_MAP @ CHR '')'' # r"
  let ?b1 = "rev (''p * '' @ dec_str ip @ '' + c * '') @ b" and ?b2 = "rev (''p * '' @ dec_str ip @ '' + c * '' @ dec_str op) @ b"
  have "rx (cache_vars_re (i + 2) (map snd BILLING_CACHE_VAR_MAP)) ?b2 ?rest ((Suc i, dec_str op) # (i, dec_str ip) # cs) k = Some x"
    using assms by (intro rx_extras vars_apart vars_visible) (simp add: body_text_def body_caps_def)
  then have "rx (Grp (Suc i) num_re) ?b1 (dec_str op @ ?rest) ((i, dec_str ip) # cs)
      (\<lambda>b' s' cs'. rx (cache_vars_re (i + 2) (map snd BILLING_CACHE_VAR_MAP)) b' s' cs' k) = Some x"
    by (intro rx_num dec_str_num_class extras_stops) simp
  then have "rx (Seqs [WS, Lit ''+'', WS, Lit ''c'', WS, Lit ''*'', WS, Grp (Suc i) num_re, cache_vars_re (i + 2) (map snd BILLING_CACHE_VAR_MAP)])
      (rev (''p * '' @ dec_str ip) @ b) ('' + c * '' @ dec_str op @ ?rest) ((i, dec_str ip) # cs) k = Some x"
    using no_ws_num [OF dec_str_num_class, of op ?rest] by (simp add: star_ws_blank)
  then have "rx (Grp i num_re) (rev ''p * '' @ b) (dec_str ip @ '' + c * '' @ dec_str op @ ?rest) cs
      (\<lambda>b' s' cs'. rx (Seqs [WS, Lit ''+'', WS, Lit ''c'', WS, Lit ''*'', WS, Grp (Suc i) num_re, cache_vars_re (i + 2) (map snd BILLING_CACHE_VAR_MAP)]) b' s' cs' k) = Some x"
    by (intro rx_num dec_str_num_class) simp_all
  then show ?thesis
    using no_ws_num [OF dec_str_num_class, of ip "'' + c * '' @ dec_str op @ ?rest"]
    by (simp add: body_pat_def body_text_def star_ws_blank)
qed

definition label_text :: "string \<Rightarrow> string" where
  "label_text l = ''tier('' @ [quote] @ l @ [quote] @ '', ''"

lemma rx_label:
  assumes "quote \<notin> set l" "no_ws s" "k (rev (label_text l) @ b) s ((i, l) # cs) = Some x"
  shows "rx (label_re i) b (label_text l @ s) cs k = Some x"
proof -
  have "rx (Seqs [Lit ([quote] @ '',''), WS]) (rev (''tier('' @ [quote] @ l) @ b) ([quote] @ '', '' @ s) ((i, l) # cs) k = Some x"
    using assms by (simp add: label_text_def star_ws_blank)
  then have "rx (Grp i (Star (Cls (\<lambda>c. c \<noteq> quote)))) (rev (''tier('' @ [quote]) @ b) (l @ [quote] @ '', '' @ s) cs
      (\<lambda>b' s' cs'. rx (Seqs [Lit ([quote] @ '',''), WS]) b' s' cs' k) = Some x"
    using assms(1) by (intro group_star_longest) (auto simp: list_all_iff simp del: Seqs.simps rx.simps)
  then show ?thesis by (simp only: label_re_def label_text_def Seqs.simps rx_Seq) (simp del: rx.simps(6))
qed

lemma rx_tier:
  assumes "quote \<notin> set l"
    and "k (rev (label_text l @ body_text ip op c @ '')'') @ b) r (body_caps (Suc i) ip op c ((i, l) # cs)) = Some x"
  shows "rx (label_re i) b (label_text l @ body_text ip op c @ '')'' @ r) cs
      (\<lambda>b' s' cs'. rx (body_pat (Suc i)) b' s' cs' (\<lambda>b' s' cs'. rx (Lit '')'') b' s' cs' k)) = Some x"
proof (rule rx_label [OF assms(1)])
  show "no_ws (body_text ip op c @ '')'' @ r)" by (simp add: body_text_def)
  have "rx (body_pat (Suc i)) (rev (label_text l) @ b) (body_text ip op c @ CHR '')'' # r) ((i, l) # cs) (\<lambda>b' s' cs'. rx (Lit '')'') b' s' cs' k) = Some x"
    using assms(2) by (intro rx_body) simp
  then show "rx (body_pat (Suc i)) (rev (label_text l) @ b) (body_text ip op c @ '')'' @ r) ((i, l) # cs) (\<lambda>b' s' cs'. rx (Lit '')'') b' s' cs' k) = Some x"
    by simp
qed

section \<open>Conditions\<close>

definition tier_cond_ok :: "tier_condition \<Rightarrow> bool" where
  "tier_cond_ok c \<longleftrightarrow> tier_var c \<in> {''p'', ''c'', ''len''} \<and> tier_op c \<in> {''<'', ''<='', ''>'', ''>=''}
     \<and> (case tier_value c of Num_Value (Some d) \<Rightarrow> dec_ok d \<and> list_all cond_class (dec_str d) | _ \<Rightarrow> False)"

lemma cond_class_simps [simp]: "\<not> cond_class (CHR '' '')" "\<not> cond_class (CHR ''='')" "cond_class c \<Longrightarrow> num_class c"
  by (auto simp: cond_class_def num_class_def is_digit_def)

lemma rx_op:
  assumes "op \<in> {''<'', ''<='', ''>'', ''>=''}" "w \<noteq> []" "list_all cond_class w" "k (CHR '' '' # rev op @ b) (w @ s) cs = Some x"
    and "\<And>b' r cs'. k b' (CHR ''='' # r) cs' = None"
  shows "rx op_re b (op @ '' '' @ w @ s) cs (\<lambda>b' s' cs'. rx WS b' s' cs' k) = Some x"
proof -
  have "no_ws (w @ s)" using assms(2,3) by (cases w) (auto simp: num_visible)
  then show ?thesis using assms by (auto simp: op_re_def star_ws_blank)
qed

lemma rx_atom:
  assumes ok: "tier_cond_ok c" and s: "stops cond_class s" and k: "k (rev (condition_text c) @ b) s cs = Some x"
  shows "rx cond_atom b (condition_text c @ s) cs k = Some x"
proof -
  obtain d where d: "tier_value c = Num_Value (Some d)" "list_all cond_class (dec_str d)" "tier_op c \<in> {''<'', ''<='', ''>'', ''>=''}"
    "tier_var c \<in> {''p'', ''c'', ''len''}"
    using ok by (auto simp: tier_cond_ok_def split: tier_value.splits option.splits)
  let ?t = "tier_op c @ '' '' @ dec_str d @ s"
  have num: "rx (Plus (Cls cond_class)) (rev (tier_var c @ '' '' @ tier_op c @ '' '') @ b) (dec_str d @ s) cs k = Some x"
    using d(2) dec_str_num_class(2) s k by (intro plus_cls_longest) (simp_all add: condition_text_def d(1))
  have "rx op_re (rev (tier_var c @ '' '') @ b) ?t cs (\<lambda>b' s' cs'. rx WS b' s' cs' (\<lambda>b' s' cs'. rx (Plus (Cls cond_class)) b' s' cs' k)) = Some x"
    using d(2,3) dec_str_num_class(2) num by (intro rx_op) (simp_all add: rx_Plus)
  moreover have "no_ws ?t" using d(3) by auto
  ultimately have "rx WS (rev (tier_var c) @ b) ('' '' @ ?t) cs (\<lambda>b' s' cs'. rx op_re b' s' cs' (\<lambda>b' s' cs'. rx WS b' s' cs' (\<lambda>b' s' cs'. rx (Plus (Cls cond_class)) b' s' cs' k))) = Some x"
    by (simp add: star_ws_blank)
  then show ?thesis using d(4) by (auto simp: cond_atom_def condition_text_def d(1) var_re_def)
qed

abbreviation and_cond :: regex where
  "and_cond \<equiv> Seqs [WS, Lit ''&&'', WS, cond_atom]"

lemma cond_visible: "tier_cond_ok c \<Longrightarrow> no_ws (condition_text c @ s)"
  by (auto simp: tier_cond_ok_def condition_text_def)

lemma rx_and:
  assumes "tier_cond_ok c" "stops cond_class s" "k (rev ('' && '' @ condition_text c) @ b) s cs = Some x"
  shows "rx and_cond b ('' && '' @ condition_text c @ s) cs k = Some x"
proof -
  have "rx cond_atom (rev '' && '' @ b) (condition_text c @ s) cs k = Some x" using assms by (intro rx_atom) simp_all
  then show ?thesis using cond_visible [OF assms(1)] by (simp add: star_ws_blank)
qed

lemma rx_ands:
  "list_all tier_cond_ok cs \<Longrightarrow> s = '' ? '' @ r \<Longrightarrow> k (rev (concat (map (\<lambda>c. '' && '' @ condition_text c) cs)) @ b) s caps = Some x \<Longrightarrow>
     rx (Star and_cond) b (concat (map (\<lambda>c. '' && '' @ condition_text c) cs) @ s) caps k = Some x"
proof (induction cs arbitrary: b)
  case Nil
  have "rx and_cond b s caps k' = None" for k' using Nil.prems(2) by (simp add: star_ws_space)
  then show ?case using Nil.prems(3) by (subst rx.simps(5)) simp
next
  case (Cons c cs)
  let ?rest = "concat (map (\<lambda>c. '' && '' @ condition_text c) cs) @ s"
  let ?b = "rev ('' && '' @ condition_text c) @ b"
  have "rx (Star and_cond) ?b ?rest caps k = Some x" using Cons.prems by (intro Cons.IH) simp_all
  moreover have "stops cond_class ?rest" using Cons.prems(2) by (cases cs) simp_all
  ultimately have "rx and_cond b ('' && '' @ condition_text c @ ?rest) caps
      (\<lambda>b' s' cs'. if length s' < length ('' && '' @ condition_text c @ ?rest) then rx (Star and_cond) b' s' cs' k else None) = Some x"
    using Cons.prems(1) by (intro rx_and) (simp_all del: Seqs.simps rx_Seqs)
  then show ?case by (subst rx.simps(5)) (simp del: Seqs.simps rx_Seqs)
qed

lemma join_conds: "cs \<noteq> [] \<Longrightarrow> js_join '' && '' (map condition_text cs)
    = condition_text (hd cs) @ concat (map (\<lambda>c. '' && '' @ condition_text c) (tl cs))"
proof (induction cs)
  case (Cons c cs)
  then show ?case by (cases cs) simp_all
qed simp

lemma given_ok: "list_all tier_cond_ok cs \<Longrightarrow> filter condition_given cs = cs"
  by (auto simp: filter_id_conv list_all_iff tier_cond_ok_def condition_given_def)

definition conds_text :: "tier_condition list \<Rightarrow> string" where
  "conds_text cs = condition_text (hd cs) @ concat (map (\<lambda>c. '' && '' @ condition_text c) (tl cs))"

lemma build_conds: "list_all tier_cond_ok cs \<Longrightarrow> buildConditionStr cs = (if cs = [] then [] else conds_text cs)"
  by (simp add: buildConditionStr_def given_ok join_conds conds_text_def)

lemma rx_cond_prefix:
  assumes "list_all tier_cond_ok cs" "cs \<noteq> []" "no_ws s"
    and "k (rev (conds_text cs @ '' ? '') @ b) s ((1, conds_text cs) # caps) = Some x"
  shows "rx cond_prefix b (conds_text cs @ '' ? '' @ s) caps k = Some x"
proof -
  let ?s = "'' ? '' @ s" and ?tail = "concat (map (\<lambda>c. '' && '' @ condition_text c) (tl cs))"
  let ?k = "\<lambda>b' s' cs'. rx (Seqs [WS, Lit ''?'', WS]) b' s' ((1, take (length (conds_text cs @ ?s) - length s') (conds_text cs @ ?s)) # cs') k"
  have "?k (rev (conds_text cs) @ b) ?s caps = Some x" using assms(3,4) by (simp add: star_ws_blank)
  then have "rx (Star and_cond) (rev (condition_text (hd cs)) @ b) (?tail @ ?s) caps ?k = Some x"
    using assms(1,2) by (intro rx_ands) (cases cs; simp add: conds_text_def)+
  moreover have "stops cond_class (?tail @ ?s)" by (cases "tl cs") simp_all
  ultimately have "rx cond_atom b (condition_text (hd cs) @ ?tail @ ?s) caps (\<lambda>b' s' cs'. rx (Star and_cond) b' s' cs' ?k) = Some x"
    using assms(1,2) by (intro rx_atom) (cases cs; simp)+
  then have "rx (Seqs [cond_group, WS, Lit ''?'', WS]) b (conds_text cs @ ?s) caps k = Some x"
    by (simp add: cond_group_def conds_text_def del: rx_Seqs Seqs.simps(3)) (simp add: rx_Seqs)
  then show ?thesis by (simp only: cond_prefix_def rx.simps) simp
qed

end
