(* ===== verification/Tier_Roundtrip.thy ===== *)
theory Tier_Roundtrip
  imports Tier_Match
begin

text \<open>
  What the tier parsers read from the text of a tier configuration. Both parsers walk the chain of tiers with a global
  expression; the locale \<open>tier_scanner\<close> holds what the walk needs of it, and is interpreted for the expression of the
  visual editor and for the one of the price display.
\<close>

section \<open>One tier\<close>

definition cost_of :: "visual_tier \<Rightarrow> string \<Rightarrow> dec" where
  "cost_of t f = num_or_0 (map_of (vt_costs t) f)"

text \<open>A tier as the visual editor keeps it.\<close>

definition tier_ok :: "visual_tier \<Rightarrow> bool" where
  "tier_ok t \<longleftrightarrow> vt_label t \<noteq> [] \<and> quote \<notin> set (vt_label t) \<and> list_all tier_cond_ok (vt_conditions t)
     \<and> (case vt_input t of Some d \<Rightarrow> dec_ok d | None \<Rightarrow> False) \<and> (case vt_output t of Some d \<Rightarrow> dec_ok d | None \<Rightarrow> False)
     \<and> map fst (vt_costs t) = cost_fields \<and> list_all (\<lambda>(f, d). dec_ok d) (vt_costs t)
     \<and> vt_cache_mode t = (if 0 < mant (cost_of t ''cache_create_1h_unit_cost'') then CACHE_MODE_TIMED else CACHE_MODE_GENERIC)"

definition tier_body :: "visual_tier \<Rightarrow> string" where
  "tier_body t = body_text (num_or_0 (vt_input t)) (num_or_0 (vt_output t)) (cost_of t)"

lemma join_extras:
  "js_join '' + '' (a # b # List.map_filter (\<lambda>(f, v). let d = c f in if mant d \<noteq> 0 then Some (v @ '' * '' @ dec_str d) else None) vs)
     = a @ '' + '' @ b @ extras_text c vs"
proof -
  have "js_join '' + '' (b # List.map_filter (\<lambda>(f, v). let d = c f in if mant d \<noteq> 0 then Some (v @ '' * '' @ dec_str d) else None) vs)
      = b @ extras_text c vs" for b
  proof (induction vs arbitrary: b)
    case (Cons fv vs)
    then show ?case by (cases fv) (simp add: map_filter_simps Let_def)
  qed (simp add: map_filter_simps)
  then show ?thesis by simp
qed

lemma build_body: "buildTierBodyExpr t = tier_body t"
  using join_extras [of "''p * '' @ dec_str (num_or_0 (vt_input t))" "''c * '' @ dec_str (num_or_0 (vt_output t))" "cost_of t"]
  by (simp add: buildTierBodyExpr_def tier_body_def body_text_def cost_of_def [abs_def])

lemma build_tier: "tier_text l t = label_text l @ tier_body t @ '')''"
  by (simp add: tier_text_def label_text_def build_body)

text \<open>Captures.\<close>

lemma extras_caps_before: "j < i \<Longrightarrow> map_of (extras_caps c i vs cs) j = map_of cs j"
  by (induction vs arbitrary: i cs) auto

lemma extras_captured:
  "(\<And>j. i \<le> j \<Longrightarrow> map_of cs j = None) \<Longrightarrow> (\<And>f. f \<in> set (map fst vs) \<Longrightarrow> dec_ok (c f)) \<Longrightarrow>
     captured_costs ((0, w) # extras_caps c i vs cs) i vs = map (\<lambda>(f, v). (f, Some (c f))) (filter (\<lambda>(f, v). mant (c f) \<noteq> 0) vs)"
  if "0 < i" for i cs
  using that
proof (induction vs arbitrary: i cs)
  case (Cons fv vs)
  obtain f v where fv: "fv = (f, v)" by (cases fv)
  let ?cs = "if mant (c f) \<noteq> 0 then (i, dec_str (c f)) # cs else cs"
  have "captured_costs ((0, w) # extras_caps c (Suc i) vs ?cs) (Suc i) vs
      = map (\<lambda>(f, v). (f, Some (c f))) (filter (\<lambda>(f, v). mant (c f) \<noteq> 0) vs)"
    using Cons.prems by (intro Cons.IH) (auto simp: fv)
  moreover have "map_of (extras_caps c (Suc i) vs ?cs) i = (if mant (c f) \<noteq> 0 then Some (dec_str (c f)) else None)"
    using Cons.prems by (simp add: extras_caps_before)
  moreover have "str_number (dec_str (c f)) = Some (c f)" using Cons.prems(2) by (simp add: fv str_number_dec_str)
  ultimately show ?case using Cons.prems(3) by (auto simp: fv)
qed simp

lemma cost_var_fields: "map fst BILLING_CACHE_VAR_MAP = cost_fields" "distinct cost_fields"
  by (simp_all add: BILLING_CACHE_VAR_MAP_def BILLING_EXTRA_VARS_def BILLING_VARS_def cost_fields_def)

lemma dec_ok_zero: "dec_ok d \<Longrightarrow> mant d = 0 \<Longrightarrow> d = Dec 0 0"
  by (simp add: dec_ok_def)

lemma tier_costs_ok: "tier_ok t \<Longrightarrow> f \<in> set cost_fields \<Longrightarrow> dec_ok (cost_of t f)"
proof -
  assume t: "tier_ok t" "f \<in> set cost_fields"
  then obtain d where "map_of (vt_costs t) f = Some d" by (metis tier_ok_def map_of_eq_None_iff not_Some_eq set_map)
  then show ?thesis using t(1) by (auto simp: tier_ok_def cost_of_def num_or_0_def list_all_iff dest: map_of_SomeD)
qed

lemma costs_of_tier: "tier_ok t \<Longrightarrow> vt_costs t = map (\<lambda>f. (f, cost_of t f)) cost_fields"
proof -
  assume t: "tier_ok t"
  have "distinct (map fst fs) \<Longrightarrow> map (\<lambda>f. (f, num_or_0 (map_of fs f))) (map fst fs) = fs" for fs :: "(string \<times> dec) list"
    by (auto simp: num_or_0_def intro!: map_idI)
  then show ?thesis using t cost_var_fields(2) by (metis (mono_tags, lifting) cost_of_def map_eq_conv tier_ok_def)
qed

definition match_caps :: "nat \<Rightarrow> visual_tier \<Rightarrow> caps \<Rightarrow> caps" where
  "match_caps i t cs = body_caps (Suc i) (num_or_0 (vt_input t)) (num_or_0 (vt_output t)) (cost_of t) ((i, vt_label t) # cs)"

lemma tier_of_caps:
  assumes "tier_ok t" "0 < i" "\<And>j. i + 3 \<le> j \<Longrightarrow> map_of cs j = None"
  shows "tier_of_match (vt_conditions t) i ((0, w) # match_caps i t cs) = t"
proof -
  obtain a b where ab: "vt_input t = Some a" "dec_ok a" "vt_output t = Some b" "dec_ok b"
    using assms(1) by (auto simp: tier_ok_def split: option.splits)
  let ?m = "(0, w) # match_caps i t cs"
  have caps: "cap ?m i = vt_label t" "cap ?m (i + 1) = dec_str a" "cap ?m (i + 2) = dec_str b"
    using assms(2) by (simp_all add: cap_def match_caps_def body_caps_def extras_caps_before opt_str_def ab num_or_0_def)
  have costs: "captured_costs ?m (i + 3) BILLING_CACHE_VAR_MAP
      = map (\<lambda>(f, v). (f, Some (cost_of t f))) (filter (\<lambda>(f, v). mant (cost_of t f) \<noteq> 0) BILLING_CACHE_VAR_MAP)"
    unfolding match_caps_def body_caps_def
    using extras_captured [of "i + 3" "(Suc (Suc i), dec_str b) # (Suc i, dec_str a) # (i, vt_label t) # cs" BILLING_CACHE_VAR_MAP "cost_of t" w]
      assms tier_costs_ok [OF assms(1)] by (auto simp: ab num_or_0_def cost_var_fields numeral_3_eq_3)
  have partial: "partial_cost \<lparr>pt_label = l, pt_conditions = cds, pt_input = x, pt_output = y, pt_cache_mode = None,
      pt_costs = captured_costs ?m (i + 3) BILLING_CACHE_VAR_MAP\<rparr> f = cost_of t f" if f: "f \<in> set cost_fields" for f l cds x y
  proof -
    have "map_of (map (\<lambda>(f, v). (f, Some (cost_of t f))) (filter (\<lambda>(f, v). mant (cost_of t f) \<noteq> 0) vs)) f
        = (if f \<in> set (map fst vs) \<and> mant (cost_of t f) \<noteq> 0 then Some (Some (cost_of t f)) else None)" for vs :: "(string \<times> string) list"
      by (induction vs) auto
    moreover have "f \<in> set (map fst BILLING_CACHE_VAR_MAP)" using f by (simp only: cost_var_fields(1))
    ultimately show ?thesis
      using dec_ok_zero [OF tier_costs_ok [OF assms(1) f]] by (auto simp: partial_cost_def costs num_or_0_def)
  qed
  have one_hour: "''cache_create_1h_unit_cost'' \<in> set cost_fields" by (simp add: cost_fields_def)
  have "vt_cache_mode t = (if 0 < mant (cost_of t ''cache_create_1h_unit_cost'') then CACHE_MODE_TIMED else CACHE_MODE_GENERIC)"
    using assms(1) by (simp add: tier_ok_def)
  moreover have "map (\<lambda>f. (f, partial_cost \<lparr>pt_label = l, pt_conditions = cds, pt_input = x, pt_output = y, pt_cache_mode = None,
      pt_costs = captured_costs ?m (i + 3) BILLING_CACHE_VAR_MAP\<rparr> f)) cost_fields = vt_costs t" for l cds x y
    using costs_of_tier [OF assms(1)] partial by simp
  ultimately show ?thesis
    unfolding tier_of_match_def normalizeVisualTier_def getTierCacheMode_def
    using caps ab partial [OF one_hour] by (simp add: opt_str_def str_number_dec_str)
qed


section \<open>The chain of tiers\<close>

definition prefix_text :: "visual_tier \<Rightarrow> string" where
  "prefix_text t = (if vt_conditions t = [] then [] else conds_text (vt_conditions t) @ '' ? '')"

definition prefix_caps :: "visual_tier \<Rightarrow> caps" where
  "prefix_caps t = (if vt_conditions t = [] then [] else [(1, conds_text (vt_conditions t))])"

definition tier_source :: "visual_tier \<Rightarrow> string" where
  "tier_source t = prefix_text t @ tier_text (vt_label t) t"

definition tier_match :: "visual_tier \<Rightarrow> caps" where
  "tier_match t = (0, tier_source t) # match_caps 2 t (prefix_caps t)"

lemma rx_prefix:
  assumes "tier_ok t" "s = label_text l @ r" "k (rev (prefix_text t) @ b) s (prefix_caps t) = Some x"
  shows "rx cond_prefix b (prefix_text t @ s) [] k = Some x"
proof (cases "vt_conditions t = []")
  case True
  have "rx cond_prefix b s [] k = k b s []"
    using assms(2) by (simp add: cond_prefix_def cond_group_def cond_atom_def var_re_def label_text_def)
  then show ?thesis using True assms(3) by (simp add: prefix_text_def prefix_caps_def)
next
  case False
  then show ?thesis using assms rx_cond_prefix [of "vt_conditions t" s k b "[]" x]
    by (simp add: prefix_text_def prefix_caps_def tier_ok_def label_text_def)
qed

lemma match_tier:
  assumes "tier_ok t"
  shows "match_at tier_re b (tier_source t @ r) = Some (rev (tier_source t) @ b, r, tier_match t)"
proof -
  let ?k = "\<lambda>b' s' cs. Some (b', s', (0, take (length (tier_source t @ r) - length s') (tier_source t @ r)) # cs)"
  let ?core = "label_text (vt_label t) @ tier_body t @ '')'' @ r"
  have "rx (label_re 2) (rev (prefix_text t) @ b) ?core (prefix_caps t)
      (\<lambda>b' s' cs'. rx (body_pat 3) b' s' cs' (\<lambda>b' s' cs'. rx (Lit '')'') b' s' cs' ?k)) = Some (rev (tier_source t) @ b, r, tier_match t)"
    using rx_tier [of "vt_label t" ?k "num_or_0 (vt_input t)" "num_or_0 (vt_output t)" "cost_of t" "rev (prefix_text t) @ b" r 2 "prefix_caps t"] assms
    by (simp add: tier_ok_def tier_body_def tier_match_def match_caps_def tier_source_def build_tier numeral_3_eq_3)
  then have "rx cond_prefix b (prefix_text t @ ?core) []
      (\<lambda>b' s' cs'. rx (label_re 2) b' s' cs' (\<lambda>b' s' cs'. rx (body_pat 3) b' s' cs' (\<lambda>b' s' cs'. rx (Lit '')'') b' s' cs' ?k)))
      = Some (rev (tier_source t) @ b, r, tier_match t)"
    using assms by (intro rx_prefix) simp_all
  then show ?thesis by (simp add: match_at_def tier_re_def tier_source_def build_tier)
qed

lemma var_none: "c \<notin> set ''pcl'' \<Longrightarrow> rx var_re b (c # s) cs k = None"
  by (auto simp: var_re_def)

lemma label_none: "c \<noteq> CHR ''t'' \<Longrightarrow> rx (label_re i) b (c # s) cs k = None"
  by (auto simp: label_re_def)

lemma cond_prefix_none: "c \<notin> set ''pcl'' \<Longrightarrow> rx cond_prefix b (c # s) cs k = k b (c # s) cs"
  using var_none [of c] by (simp add: cond_prefix_def cond_group_def cond_atom_def)

lemma no_tier_start: "c \<notin> set ''pclt'' \<Longrightarrow> match_at tier_re b (c # s) = None"
  using cond_prefix_none [of c] label_none [of c] by (simp add: match_at_def tier_re_def)

lemma tier_source_nonempty: "tier_source t \<noteq> []"
  by (simp add: tier_source_def build_tier label_text_def)

section \<open>Conditions read back\<close>

lemma rx_op_group:
  assumes "op \<in> {''<'', ''<='', ''>'', ''>=''}" "w \<noteq> []" "list_all cond_class w" "k (CHR '' '' # rev op @ b) (w @ s) ((i, op) # cs) = Some x"
    and "\<And>b' r cs'. k b' (CHR ''='' # r) cs' = None"
  shows "rx (Grp i op_re) b (op @ '' '' @ w @ s) cs (\<lambda>b' s' cs'. rx WS b' s' cs' k) = Some x"
proof -
  have "no_ws (w @ s)" using assms(2,3) by (cases w) (auto simp: num_visible)
  then show ?thesis using assms by (auto simp: op_re_def star_ws_blank)
qed

lemma match_cond:
  assumes "tier_cond_ok c"
  shows "parse_condition (condition_text c) = Some c"
proof -
  obtain d where d: "tier_value c = Num_Value (Some d)" "list_all cond_class (dec_str d)" "tier_op c \<in> {''<'', ''<='', ''>'', ''>=''}"
    "tier_var c \<in> {''p'', ''c'', ''len''}" "dec_ok d"
    using assms by (auto simp: tier_cond_ok_def split: tier_value.splits option.splits)
  have "trimmed (condition_text c)"
    using d(1,4) dec_str_visible [of d] by (intro trimmed_visible_ends) (auto simp: condition_text_def)
  then have trim: "js_trim (condition_text c) = condition_text c" by (rule trim_trimmed)
  let ?k = "\<lambda>b' s' cs. Some (b', s', (0, take (length (condition_text c) - length s') (condition_text c)) # cs)"
  let ?cs = "[(3, dec_str d), (2, tier_op c), (1, tier_var c)]"
  let ?fin = "\<lambda>b' s' cs'. rx (Grp 3 (Plus (Cls cond_class))) b' s' cs' (\<lambda>b' s' cs'. rx Eol b' s' cs' ?k)"
  have num: "?fin (rev (tier_var c @ '' '' @ tier_op c @ '' '')) (dec_str d @ []) [(2, tier_op c), (1, tier_var c)]
      = Some (rev (condition_text c), [], (0, condition_text c) # ?cs)"
    using d(2) dec_str_num_class(2) by (intro group_plus_longest) (simp_all add: condition_text_def d(1))
  have "rx (Grp 2 op_re) (rev (tier_var c @ '' '')) (tier_op c @ '' '' @ dec_str d @ []) [(1, tier_var c)] (\<lambda>b' s' cs'. rx WS b' s' cs' ?fin)
      = Some (rev (condition_text c), [], (0, condition_text c) # ?cs)"
    using d(2,3) dec_str_num_class(2) num by (intro rx_op_group) (simp_all add: rx_Plus)
  moreover have "no_ws (tier_op c @ '' '' @ dec_str d @ [])" using d(3) by auto
  ultimately have "rx WS (rev (tier_var c)) ('' '' @ tier_op c @ '' '' @ dec_str d @ []) [(1, tier_var c)]
      (\<lambda>b' s' cs'. rx (Grp 2 op_re) b' s' cs' (\<lambda>b' s' cs'. rx WS b' s' cs' ?fin)) = Some (rev (condition_text c), [], (0, condition_text c) # ?cs)"
    by (simp add: star_ws_blank del: rx.simps(6))
  then have "rx (Grp 1 var_re) [] (condition_text c) [] (\<lambda>b' s' cs'. rx WS b' s' cs' (\<lambda>b' s' cs'. rx (Grp 2 op_re) b' s' cs' (\<lambda>b' s' cs'. rx WS b' s' cs' ?fin)))
      = Some (rev (condition_text c), [], (0, condition_text c) # ?cs)"
    using d(4) by (auto simp: condition_text_def d(1) var_re_def)
  then have "match_at cond_re [] (condition_text c) = Some (rev (condition_text c), [], (0, condition_text c) # ?cs)"
    by (simp add: match_at_def cond_re_def del: rx.simps(6)) (simp del: rx.simps(6) add: rx.simps(6) [of 0])
  then show ?thesis by (simp add: parse_condition_def trim cap_def opt_str_def str_number_dec_str [OF d(5)] d(1) [symmetric])
qed

lemma and_none: "visible c \<Longrightarrow> c \<noteq> CHR ''&'' \<Longrightarrow> match_at and_re b (c # s) = None"
  by (simp add: match_at_def and_re_def)

lemma and_none_blank: "visible c \<Longrightarrow> c \<noteq> CHR ''&'' \<Longrightarrow> match_at and_re b (CHR '' '' # c # s) = None"
  by (simp add: match_at_def and_re_def star_ws_space)

lemma split_word:
  "list_all (\<lambda>c. visible c \<and> c \<noteq> CHR ''&'') w \<Longrightarrow> split_re and_re acc b (w @ s) = split_re and_re (rev w @ acc) (rev w @ b) s"
  by (induction w arbitrary: acc b) (simp_all add: and_none)

lemma split_blank:
  "w \<noteq> [] \<Longrightarrow> list_all (\<lambda>c. visible c \<and> c \<noteq> CHR ''&'') w \<Longrightarrow>
     split_re and_re acc b (CHR '' '' # w @ s) = split_re and_re (rev w @ CHR '' '' # acc) (rev w @ CHR '' '' # b) s"
  by (cases w) (simp_all add: and_none_blank and_none split_word)

lemma split_cond:
  assumes "tier_cond_ok c"
  shows "split_re and_re acc b (condition_text c @ s) = split_re and_re (rev (condition_text c) @ acc) (rev (condition_text c) @ b) s"
proof -
  obtain d where d: "tier_value c = Num_Value (Some d)" "list_all cond_class (dec_str d)" "tier_op c \<in> {''<'', ''<='', ''>'', ''>=''}"
    "tier_var c \<in> {''p'', ''c'', ''len''}"
    using assms by (auto simp: tier_cond_ok_def split: tier_value.splits option.splits)
  let ?w = "\<lambda>c. visible c \<and> c \<noteq> CHR ''&''"
  have "\<not> cond_class (CHR ''&'')" by (simp add: cond_class_def is_digit_def)
  then have "list_all ?w (dec_str d)" using d(2) num_visible by (auto simp: list_all_iff)
  moreover have "list_all ?w (tier_var c)" "list_all ?w (tier_op c)" "tier_op c \<noteq> []" using d(3,4) by (auto simp: visible_def)
  ultimately show ?thesis
    by (simp add: condition_text_def d(1) split_word split_blank dec_str_num_class del: split_re.simps)
qed

lemma split_and:
  assumes "no_ws s"
  shows "split_re and_re acc b ('' && '' @ s) = rev acc # split_re and_re [] (rev '' && '' @ b) s"
proof -
  have "match_at and_re b ('' && '' @ s) = Some (rev '' && '' @ b, s, [(0, '' && '')])"
    using assms by (simp add: match_at_def and_re_def star_ws_blank)
  then show ?thesis by simp
qed

lemma split_conds:
  "list_all tier_cond_ok (c # cs) \<Longrightarrow>
     split_re and_re [] b (condition_text c @ concat (map (\<lambda>c. '' && '' @ condition_text c) cs)) = map condition_text (c # cs)"
proof (induction cs arbitrary: c b)
  case Nil
  then show ?case using split_cond [of c "[]" b "[]"] by simp
next
  case (Cons c' cs)
  let ?rest = "condition_text c' @ concat (map (\<lambda>c. '' && '' @ condition_text c) cs)"
  have "split_re and_re [] b (condition_text c @ '' && '' @ ?rest) = condition_text c # split_re and_re [] (rev '' && '' @ rev (condition_text c) @ b) ?rest"
    using Cons.prems split_and [OF cond_visible] split_cond [of c "[]" b "'' && '' @ ?rest"] by simp
  then show ?case using Cons.IH [of c'] Cons.prems by simp
qed

lemma conds_back: "list_all tier_cond_ok cs \<Longrightarrow> cs \<noteq> [] \<Longrightarrow> parse_tier_conditions (conds_text cs) = cs"
proof -
  assume cs: "list_all tier_cond_ok cs" "cs \<noteq> []"
  have "List.map_filter parse_condition (map condition_text cs) = cs"
    using cs(1) by (induction cs) (simp_all add: map_filter_simps match_cond)
  moreover have "split_re and_re [] [] (conds_text cs) = map condition_text cs"
    using cs split_conds [of "hd cs" "tl cs"] by (simp add: conds_text_def list_all_iff)
  moreover have "conds_text cs \<noteq> []" by (simp add: conds_text_def condition_text_def)
  ultimately show ?thesis by (simp add: parse_tier_conditions_def)
qed

section \<open>The whole configuration\<close>

text \<open>Several tiers have conditions, all but the last one.\<close>

definition config_ok :: "visual_config \<Rightarrow> bool" where
  "config_ok ts \<longleftrightarrow> ts \<noteq> [] \<and> list_all tier_ok ts
     \<and> (length ts > 1 \<longrightarrow> list_all (\<lambda>t. vt_conditions t \<noteq> []) (butlast ts) \<and> vt_conditions (last ts) = [])"

lemma normalize_ok: "tier_ok t \<Longrightarrow> normalizeVisualTier (as_partial t) = t"
proof -
  assume t: "tier_ok t"
  have "partial_cost (as_partial t) f = cost_of t f" for f
    by (simp add: partial_cost_def as_partial_def cost_of_def num_or_0_def map_of_map split: option.split)
  then show ?thesis using costs_of_tier [OF t] by (simp add: normalizeVisualTier_def getTierCacheMode_def as_partial_def opt_str_def)
qed

lemma normalize_config_ok: "list_all tier_ok ts \<Longrightarrow> ts \<noteq> [] \<Longrightarrow> normalizeVisualConfig (Some ts) = ts"
  by (auto simp: normalizeVisualConfig_def list_all_iff normalize_ok intro!: map_idI)

lemma tier_match_back:
  assumes "tier_ok t"
  shows "tier_of_match (parse_tier_conditions (cap (tier_match t) 1)) 2 (tier_match t) = t"
proof -
  have "map_of (prefix_caps t) j = None" if "5 \<le> j" for j using that by (simp add: prefix_caps_def)
  then have "tier_of_match (vt_conditions t) 2 (tier_match t) = t"
    unfolding tier_match_def using assms by (intro tier_of_caps) simp_all
  moreover have "cap (tier_match t) 1 = (if vt_conditions t = [] then [] else conds_text (vt_conditions t))"
    by (simp add: cap_def tier_match_def match_caps_def body_caps_def extras_caps_before prefix_caps_def opt_str_def)
  ultimately show ?thesis
    using assms conds_back [of "vt_conditions t"] by (auto simp: tier_ok_def parse_tier_conditions_def)
qed

lemma conds_text_nonempty: "conds_text cs \<noteq> []"
  by (simp add: conds_text_def condition_text_def)

lemma tier_parts_ok:
  "list_all tier_ok ts \<Longrightarrow> ts \<noteq> [] \<Longrightarrow> list_all (\<lambda>t. vt_conditions t \<noteq> []) (butlast ts) \<Longrightarrow> vt_conditions (last ts) = []
     \<Longrightarrow> tier_parts i ts = map tier_source ts"
proof (induction ts arbitrary: i)
  case (Cons t ts)
  have t: "str_or (vt_label t) l = vt_label t" "buildConditionStr (vt_conditions t) = (if vt_conditions t = [] then [] else conds_text (vt_conditions t))" for l
    using Cons.prems(1) build_conds by (auto simp: tier_ok_def str_or_def)
  show ?case
  proof (cases "ts = []")
    case True
    then show ?thesis using Cons.prems(4) by (simp add: t tier_source_def prefix_text_def)
  next
    case False
    then show ?thesis using Cons.prems Cons.IH [of "Suc i"] by (simp add: t tier_source_def prefix_text_def conds_text_nonempty)
  qed
qed simp

definition config_source :: "visual_config \<Rightarrow> string" where
  "config_source ts = js_join '' : '' (map tier_source ts) @ (if length ts = 1 \<and> vt_conditions (hd ts) \<noteq> [] then '' : p * 0 + c * 0'' else [])"

lemma generate_ok: "config_ok ts \<Longrightarrow> generateExprFromVisualConfig (Some ts) = config_source ts"
proof -
  assume ok: "config_ok ts"
  show ?thesis
  proof (cases "\<exists>t. ts = [t]")
    case True
    then obtain t where t: "ts = [t]" by blast
    then have "str_or (vt_label t) l = vt_label t" "buildConditionStr (vt_conditions t) = (if vt_conditions t = [] then [] else conds_text (vt_conditions t))" for l
      using ok build_conds by (auto simp: config_ok_def tier_ok_def str_or_def)
    then show ?thesis
      by (simp add: t generateExprFromVisualConfig_def config_source_def tier_source_def prefix_text_def conds_text_nonempty)
  next
    case False
    then obtain t u us where ts: "ts = t # u # us" using ok by (metis config_ok_def list.exhaust)
    have "tier_parts 0 ts = map tier_source ts" using ok ts by (intro tier_parts_ok) (auto simp: config_ok_def)
    moreover have "generateExprFromVisualConfig (Some ts) = js_join '' : '' (tier_parts 0 ts)"
      unfolding ts generateExprFromVisualConfig_def by (simp del: tier_parts.simps js_join.simps)
    ultimately show ?thesis unfolding config_source_def using ts by (simp del: tier_parts.simps js_join.simps)
  qed
qed

section \<open>Walking over the tiers\<close>

locale tier_scanner =
  fixes re :: regex and found :: "visual_tier \<Rightarrow> caps"
  assumes at_tier: "tier_ok t \<Longrightarrow> match_at re b (tier_source t @ r) = Some (rev (tier_source t) @ b, r, found t)"
    and no_start: "c \<notin> set ''pclt'' \<Longrightarrow> match_at re b (c # s) = None"
    and no_price: "c = CHR ''p'' \<or> c = CHR ''c'' \<Longrightarrow> match_at re b (c # '' * 0'' @ s) = None"
    and no_end: "match_at re b [] = None"
begin

lemma scan_tier:
  assumes "tier_ok t" "pre = [] \<or> pre = '' : ''"
  shows "exec_all re b (pre @ tier_source t @ r) = found t # exec_all re (rev (pre @ tier_source t) @ b) r"
proof (rule exec_all_step)
  show "exec_from re b (pre @ tier_source t @ r) = Some (rev (pre @ tier_source t) @ b, r, found t)"
    using assms exec_from_hit [OF at_tier [OF assms(1)]] by (auto simp: no_start)
  show "length r < length (pre @ tier_source t @ r)" using tier_source_nonempty [of t] by simp
qed

lemma scan_tiers:
  assumes "\<And>b. exec_from re b r = None"
  shows "list_all tier_ok ts \<Longrightarrow> ts \<noteq> [] \<Longrightarrow> pre = [] \<or> pre = '' : '' \<Longrightarrow>
     exec_all re b (pre @ js_join '' : '' (map tier_source ts) @ r) = map found ts"
proof (induction ts arbitrary: pre b)
  case (Cons t ts)
  show ?case
  proof (cases "ts = []")
    case True
    then show ?thesis using scan_tier [of t pre b r] Cons.prems exec_all_none [OF assms] by simp
  next
    case False
    then have "js_join '' : '' (map tier_source (t # ts)) = tier_source t @ '' : '' @ js_join '' : '' (map tier_source ts)"
      by (cases ts) simp_all
    moreover have "exec_all re b' ('' : '' @ js_join '' : '' (map tier_source ts) @ r) = map found ts" for b'
      using Cons.prems False by (intro Cons.IH) simp_all
    ultimately show ?thesis using scan_tier [of t pre b "'' : '' @ js_join '' : '' (map tier_source ts) @ r"] Cons.prems by simp
  qed
qed simp

lemma scan_tail: "exec_from re b [] = None" "exec_from re b '' : p * 0 + c * 0'' = None"
  using no_price [of "CHR ''p''" _ "'' + c * 0''"] no_price [of "CHR ''c''" _ "[]"] by (simp_all add: no_end no_start)

lemma scan_config: "config_ok ts \<Longrightarrow> exec_all re [] (config_source ts) = map found ts"
  using scan_tiers [of "[]" ts "[]" "[]"] scan_tiers [of "'' : p * 0 + c * 0''" ts "[]" "[]"] scan_tail
  by (auto simp: config_ok_def config_source_def)

end

lemmas scan_patterns = cond_prefix_def cond_group_def cond_atom_def var_re_def op_re_def label_re_def

interpretation visual: tier_scanner tier_re tier_match
proof
  show "match_at tier_re b (c # '' * 0'' @ s) = None" if "c = CHR ''p'' \<or> c = CHR ''c''" for b c s
    using that by (auto simp: match_at_def tier_re_def scan_patterns star_ws_space)
  show "match_at tier_re b [] = None" for b by (simp add: match_at_def tier_re_def scan_patterns)
qed (simp_all add: match_tier no_tier_start)

lemma cond_start: "tier_cond_ok c \<Longrightarrow> \<exists>a s. condition_text c = a # s \<and> a \<in> set ''pcl''"
  by (auto simp: tier_cond_ok_def condition_text_def)

lemma config_start: "config_ok ts \<Longrightarrow> \<exists>a s. config_source ts = a # s \<and> a \<in> set ''pclt'' \<and> (a = CHR ''t'' \<longrightarrow> length ts = 1 \<and> vt_conditions (hd ts) = [])"
proof -
  assume ok: "config_ok ts"
  then obtain t us where ts: "ts = t # us" "tier_ok t" by (cases ts) (auto simp: config_ok_def)
  have "\<exists>s. config_source ts = tier_source t @ s" by (cases us) (simp_all add: ts config_source_def)
  then obtain s where s: "config_source ts = tier_source t @ s" ..
  show ?thesis
  proof (cases "vt_conditions t = []")
    case True
    then have "us = []" using ok ts by (cases us) (auto simp: config_ok_def)
    then show ?thesis using True ts s by (auto simp: tier_source_def prefix_text_def build_tier label_text_def)
  next
    case False
    then obtain a r where "conds_text (vt_conditions t) = a # r" "a \<in> set ''pcl''"
      using ts(2) cond_start [of "hd (vt_conditions t)"] by (cases "vt_conditions t") (auto simp: tier_ok_def conds_text_def)
    then show ?thesis using False s by (auto simp: tier_source_def prefix_text_def)
  qed
qed

lemma no_version: "c \<noteq> CHR ''v'' \<Longrightarrow> expr_body (c # s) = c # s"
  by (auto simp: expr_body_def match_at_def version_re_def)

lemma strip_version: "snd (stripExprVersion s) = expr_body s"
  by (auto simp: stripExprVersion_def expr_body_def match_at_def version_re_def split: option.splits)

lemma match_single:
  assumes "tier_ok t" "vt_conditions t = []"
  shows "match_at single_re [] (tier_source t) = Some (rev (tier_source t), [], (0, tier_source t) # match_caps 1 t [])"
proof -
  let ?k = "\<lambda>b' s' cs. Some (b', s', (0, take (length (tier_source t) - length s') (tier_source t)) # cs)"
  have src: "tier_source t = label_text (vt_label t) @ tier_body t @ '')'' @ []"
    using assms(2) by (simp add: tier_source_def prefix_text_def build_tier)
  have "rx (label_re 1) [] (label_text (vt_label t) @ tier_body t @ '')'' @ []) []
      (\<lambda>b' s' cs'. rx (body_pat 2) b' s' cs' (\<lambda>b' s' cs'. rx (Lit '')'') b' s' cs' (\<lambda>b' s' cs'. rx Eol b' s' cs' ?k)))
      = Some (rev (tier_source t), [], (0, tier_source t) # match_caps 1 t [])"
    using rx_tier [of "vt_label t" "\<lambda>b' s' cs'. rx Eol b' s' cs' ?k" "num_or_0 (vt_input t)" "num_or_0 (vt_output t)" "cost_of t" "[]" "[]" 1 "[]"] assms(1)
    by (simp add: tier_ok_def tier_body_def match_caps_def src numeral_2_eq_2)
  then show ?thesis by (simp add: match_at_def single_re_def src [symmetric]) (simp add: src)
qed

lemma visual_config_back:
  assumes "config_ok ts"
  shows "tryParseVisualConfig (generateExprFromVisualConfig (Some ts)) = Some ts"
proof -
  have ts: "list_all tier_ok ts" "ts \<noteq> []" using assms by (simp_all add: config_ok_def)
  obtain a s where a: "config_source ts = a # s" "a \<in> set ''pclt''" "a = CHR ''t'' \<longrightarrow> length ts = 1 \<and> vt_conditions (hd ts) = []"
    using config_start [OF assms] by blast
  have body: "expr_body (config_source ts) = config_source ts" using a by (auto simp: no_version)
  show ?thesis
  proof (cases "a = CHR ''t''")
    case True
    then obtain t where t: "ts = [t]" "vt_conditions t = []" using a(3) by (cases ts) auto
    have "tier_of_match [] 1 ((0, tier_source t) # match_caps 1 t []) = t"
      using tier_of_caps [of t 1 "[]" "tier_source t"] ts t by simp
    then show ?thesis
      unfolding generate_ok [OF assms] tryParseVisualConfig_def
      using match_single [of t] ts body a(1) normalize_config_ok [OF ts] by (simp add: t config_source_def)
  next
    case False
    then have "match_at single_re [] (config_source ts) = None"
      unfolding a(1) by (simp add: match_at_def single_re_def label_none)
    moreover have "map (\<lambda>cs. tier_of_match (parse_tier_conditions (cap cs 1)) 2 cs) (map tier_match ts) = ts"
      using ts(1) by (auto simp: list_all_iff tier_match_back simp del: One_nat_def intro!: map_idI)
    ultimately show ?thesis
      using visual.scan_config [OF assms] body a(1) normalize_config_ok [OF ts] ts(2)
      by (simp add: tryParseVisualConfig_def generate_ok [OF assms])
  qed
qed

text \<open>
  C12. A tier configuration survives its text: what the visual editor generates from tiers with labels without
  quotation marks, decimal prices and conditions on all tiers but the last is read back as the same tiers.
\<close>

theorem visual_config_roundtrip:
  assumes "config_ok ts"
  shows "tryParseVisualConfig (generateExprFromVisualConfig (Some ts)) = Some ts"
  by (rule visual_config_back [OF assms])

section \<open>The price display\<close>

definition price_keys :: "string list" where
  "price_keys = [''p'', ''c'', ''cr'', ''cc'', ''cc1h'', ''img'', ''img_o'', ''ai'', ''ao'']"

lemma price_var_keys: "map bv_key BILLING_PRICING_VARS = price_keys" "map (\<lambda>v. Lit (bv_key v)) BILLING_PRICING_VARS = map Lit price_keys"
  by (simp_all add: BILLING_PRICING_VARS_def BILLING_VARS_def price_keys_def)

lemma match_price:
  assumes "v \<in> set price_keys" "list_all num_class w" "w \<noteq> []" "stops num_class s" "b = [] \<or> \<not> is_word (hd b)"
  shows "match_at billing_var_re b (v @ '' * '' @ w @ s) = Some (rev (v @ '' * '' @ w) @ b, s, [(0, v @ '' * '' @ w), (2, w), (1, v)])"
proof -
  let ?t = "v @ '' * '' @ w @ s"
  let ?k = "\<lambda>b' s' cs. Some (b', s', (0, take (length ?t - length s') ?t) # cs)"
  have num: "rx (Grp 2 num_re) (rev (v @ '' * '') @ b) (w @ s) [(1, v)] ?k = Some (rev (v @ '' * '' @ w) @ b, s, [(0, v @ '' * '' @ w), (2, w), (1, v)])"
    using assms by (intro rx_num) (simp_all add: numeral_3_eq_3)
  have "list_all (\<lambda>v. v \<noteq> [] \<and> is_word (hd v)) price_keys" by code_simp
  then have "v \<noteq> []" "is_word (hd v)" using assms(1) by (auto simp: list_all_iff)
  then have "word_edge b ?t" using assms(5) by (auto simp: word_edge_def)
  moreover have "rx (Grp 1 (Alts (map Lit price_keys))) b ?t [] (\<lambda>b' s' cs'. rx WS b' s' cs' (\<lambda>b' s' cs'. rx (Lit ''*'') b' s' cs'
      (\<lambda>b' s' cs'. rx WS b' s' cs' (\<lambda>b' s' cs'. rx (Grp 2 num_re) b' s' cs' ?k))))
      = Some (rev (v @ '' * '' @ w) @ b, s, [(0, v @ '' * '' @ w), (2, w), (1, v)])"
    using assms(1) num no_ws_num [OF assms(2,3), of s]
    by (auto simp: price_keys_def star_ws_blank star_ws_space simp del: rx.simps(6) [of _ num_re])
  ultimately show ?thesis by (simp add: match_at_def billing_var_re_def price_var_keys del: rx.simps(6)) (simp add: rx.simps(6) [of 0] del: rx.simps(6))
qed


lemma price_gap: "match_at billing_var_re b (CHR '' '' # s) = None" "match_at billing_var_re b (CHR ''+'' # s) = None" "match_at billing_var_re b [] = None"
  by (simp_all add: match_at_def billing_var_re_def price_var_keys price_keys_def)

lemma exec_price:
  assumes "v \<in> set price_keys" "list_all num_class w" "w \<noteq> []" "stops num_class s"
    and pre: "pre = [] \<and> b = [] \<or> pre = '' + ''"
  shows "\<exists>b'. exec_all billing_var_re b (pre @ v @ '' * '' @ w @ s) = [(0, v @ '' * '' @ w), (2, w), (1, v)] # exec_all billing_var_re b' s"
proof -
  have "exec_from billing_var_re b (pre @ v @ '' * '' @ w @ s)
      = Some (rev (pre @ v @ '' * '' @ w) @ b, s, [(0, v @ '' * '' @ w), (2, w), (1, v)])"
    using pre
  proof
    assume "pre = [] \<and> b = []"
    then show ?thesis using match_price [OF assms(1-4), of b] by (simp add: exec_from_hit)
  next
    assume p: "pre = '' + ''"
    have "match_at billing_var_re (rev '' + '' @ b) (v @ '' * '' @ w @ s)
        = Some (rev (v @ '' * '' @ w) @ rev '' + '' @ b, s, [(0, v @ '' * '' @ w), (2, w), (1, v)])"
      using assms by (intro match_price) (simp_all add: is_word_def is_digit_def)
    from exec_from_hit [OF this] show ?thesis by (simp add: p price_gap)
  qed
  moreover have "length s < length (pre @ v @ '' * '' @ w @ s)" using assms(3) by simp
  ultimately show ?thesis using exec_all_step by blast
qed

lemma coeffs_step: "cap [(0, x), (2, w), (1, v)] 1 = v" "cap [(0, x), (2, w), (1, v)] 2 = w"
  by (simp_all add: cap_def opt_str_def)

lemma extras_stop: "stops num_class (extras_text c vs)"
  using extras_head [of c vs "[]"] by (cases "extras_text c vs") auto

lemma exec_extras:
  "set (map snd vs) \<subseteq> set price_keys \<Longrightarrow> (\<And>f. f \<in> set (map fst vs) \<Longrightarrow> dec_ok (c f)) \<Longrightarrow>
     map (\<lambda>cs. (cap cs 1, str_number (cap cs 2))) (exec_all billing_var_re b (extras_text c vs))
     = map (\<lambda>(f, v). (v, Some (c f))) (filter (\<lambda>(f, v). mant (c f) \<noteq> 0) vs)"
proof (induction vs arbitrary: b)
  case Nil
  then show ?case by (subst exec_all.simps) (simp add: price_gap)
next
  case (Cons fv vs)
  obtain f v where fv: "fv = (f, v)" by (cases fv)
  show ?case
  proof (cases "mant (c f) = 0")
    case True
    then show ?thesis using Cons by (simp add: fv)
  next
    case False
    obtain b' where "exec_all billing_var_re b ('' + '' @ v @ '' * '' @ dec_str (c f) @ extras_text c vs)
        = [(0, v @ '' * '' @ dec_str (c f)), (2, dec_str (c f)), (1, v)] # exec_all billing_var_re b' (extras_text c vs)"
      using exec_price [of v "dec_str (c f)" "extras_text c vs" "'' + ''" b] dec_str_num_class extras_stop Cons.prems(1) by (auto simp: fv)
    then show ?thesis using False Cons by (simp add: fv coeffs_step str_number_dec_str del: One_nat_def)
  qed
qed

lemma coeffs_body:
  assumes "dec_ok ip" "dec_ok op" "\<And>f. f \<in> set cost_fields \<Longrightarrow> dec_ok (c f)"
  shows "body_coeffs (body_text ip op c) = (''p'', Some ip) # (''c'', Some op)
     # map (\<lambda>(f, v). (v, Some (c f))) (filter (\<lambda>(f, v). mant (c f) \<noteq> 0) BILLING_CACHE_VAR_MAP)"
proof -
  let ?e = "extras_text c BILLING_CACHE_VAR_MAP"
  obtain b1 where 1: "exec_all billing_var_re [] (''p'' @ '' * '' @ dec_str ip @ '' + c * '' @ dec_str op @ ?e)
      = [(0, ''p'' @ '' * '' @ dec_str ip), (2, dec_str ip), (1, ''p'')] # exec_all billing_var_re b1 ('' + c * '' @ dec_str op @ ?e)"
    using exec_price [of "''p''" "dec_str ip" "'' + c * '' @ dec_str op @ ?e" "[]" "[]"] dec_str_num_class by (auto simp: price_keys_def)
  obtain b2 where 2: "exec_all billing_var_re b1 ('' + '' @ ''c'' @ '' * '' @ dec_str op @ ?e)
      = [(0, ''c'' @ '' * '' @ dec_str op), (2, dec_str op), (1, ''c'')] # exec_all billing_var_re b2 ?e"
    using exec_price [of "''c''" "dec_str op" ?e "'' + ''" b1] dec_str_num_class extras_stop by (auto simp: price_keys_def)
  have "set (map snd BILLING_CACHE_VAR_MAP) \<subseteq> set price_keys"
    by (simp add: BILLING_CACHE_VAR_MAP_def BILLING_EXTRA_VARS_def BILLING_VARS_def price_keys_def)
  then have 3: "map (\<lambda>cs. (cap cs 1, str_number (cap cs 2))) (exec_all billing_var_re b2 ?e)
      = map (\<lambda>(f, v). (v, Some (c f))) (filter (\<lambda>(f, v). mant (c f) \<noteq> 0) BILLING_CACHE_VAR_MAP)"
    using assms(3) by (intro exec_extras) (simp_all only: cost_var_fields)
  have "body_text ip op c = ''p'' @ '' * '' @ dec_str ip @ '' + c * '' @ dec_str op @ ?e" by (simp add: body_text_def)
  moreover have "'' + c * '' @ dec_str op @ ?e = '' + '' @ ''c'' @ '' * '' @ dec_str op @ ?e" by simp
  ultimately show ?thesis
    unfolding body_coeffs_def using 1 2 3 assms by (simp only: list.map coeffs_step str_number_dec_str)
qed

definition display_prices :: "visual_tier \<Rightarrow> (string \<times> dec) list" where
  "display_prices t = [(''inputPrice'', num_or_0 (vt_input t)), (''outputPrice'', num_or_0 (vt_output t)),
     (''cacheReadPrice'', cost_of t ''cache_read_unit_cost''), (''cacheCreatePrice'', cost_of t ''cache_create_unit_cost''),
     (''cacheCreate1hPrice'', cost_of t ''cache_create_1h_unit_cost''), (''imagePrice'', cost_of t ''image_unit_cost''),
     (''imageOutputPrice'', cost_of t ''image_output_unit_cost''), (''audioInputPrice'', cost_of t ''audio_input_unit_cost''),
     (''audioOutputPrice'', cost_of t ''audio_output_unit_cost'')]"

lemma body_prices: "tier_ok t \<Longrightarrow> parseTierBody (tier_body t) = display_prices t"
proof -
  assume t: "tier_ok t"
  obtain a b where ab: "vt_input t = Some a" "dec_ok a" "vt_output t = Some b" "dec_ok b"
    using t by (auto simp: tier_ok_def split: option.splits)
  have zero: "mant (cost_of t f) = 0 \<Longrightarrow> cost_of t f = Dec 0 0" if "f \<in> set cost_fields" for f
    using dec_ok_zero [OF tier_costs_ok [OF t that]] .
  have coeffs: "body_coeffs (tier_body t) = (''p'', Some a) # (''c'', Some b)
     # map (\<lambda>(f, v). (v, Some (cost_of t f))) (filter (\<lambda>(f, v). mant (cost_of t f) \<noteq> 0) BILLING_CACHE_VAR_MAP)"
    unfolding tier_body_def using coeffs_body [OF ab(2,4) tier_costs_ok [OF t]] by (simp add: ab num_or_0_def)
  have look: "map_of (map (\<lambda>(f, v). (v, Some (cost_of t f))) (filter (\<lambda>(f, v). mant (cost_of t f) \<noteq> 0) vs)) v
      = (if mant (cost_of t f) \<noteq> 0 then Some (Some (cost_of t f)) else None)" if "(f, v) \<in> set vs" "distinct (map snd vs)" for f v vs
    using that by (induction vs) (auto simp: map_of_eq_None_iff image_iff)
  have dist: "distinct (map snd BILLING_CACHE_VAR_MAP)" by code_simp
  have coeff: "num_or_0 (Option.bind (map_of (body_coeffs (tier_body t)) v) id) = cost_of t f"
    if v: "(f, v) \<in> set BILLING_CACHE_VAR_MAP" "v \<noteq> ''p''" "v \<noteq> ''c''" for f v
  proof -
    have "f \<in> set cost_fields" using v(1) unfolding cost_var_fields(1) [symmetric] by force
    then show ?thesis unfolding coeffs using v(2,3) look [OF v(1) dist] zero [of f] by (cases "mant (cost_of t f) = 0") (simp_all add: num_or_0_def)
  qed
  have base: "num_or_0 (Option.bind (map_of (body_coeffs (tier_body t)) ''p'') id) = a"
    "num_or_0 (Option.bind (map_of (body_coeffs (tier_body t)) ''c'') id) = b"
    using coeffs by (simp_all add: num_or_0_def)
  have vars: "BILLING_CACHE_VAR_MAP = [(''cache_read_unit_cost'', ''cr''), (''cache_create_unit_cost'', ''cc''), (''cache_create_1h_unit_cost'', ''cc1h''),
      (''image_unit_cost'', ''img''), (''image_output_unit_cost'', ''img_o''), (''audio_input_unit_cost'', ''ai''), (''audio_output_unit_cost'', ''ao'')]"
    by code_simp
  show ?thesis
    unfolding parseTierBody_def display_prices_def BILLING_PRICING_VARS_def BILLING_VARS_def
    using base coeff [unfolded vars] by (simp add: ab num_or_0_def opt_str_def)
qed

definition display_match :: "visual_tier \<Rightarrow> caps" where
  "display_match t = (0, tier_source t) # (3, tier_body t) # (2, vt_label t) # prefix_caps t"

lemma body_no_paren: "CHR ''('' \<notin> set (tier_body t)" "CHR '')'' \<notin> set (tier_body t)"
proof -
  have "c \<notin> set (tier_body t)" if c: "c = CHR ''('' \<or> c = CHR '')''" for c
  proof -
    have "\<not> num_class c" using c by (auto simp: num_class_def is_digit_def)
    then have num: "c \<notin> set (dec_str d)" for d using dec_str_num_class(1) [of d] unfolding list_all_iff by blast
    have "c \<notin> \<Union> (set ` snd ` set vs) \<Longrightarrow> c \<notin> set (extras_text f vs)" for f vs
      using num c by (induction vs) auto
    moreover have "CHR ''('' \<notin> \<Union> (set ` snd ` set BILLING_CACHE_VAR_MAP)" "CHR '')'' \<notin> \<Union> (set ` snd ` set BILLING_CACHE_VAR_MAP)"
      by code_simp+
    ultimately have "c \<notin> set (extras_text (cost_of t) BILLING_CACHE_VAR_MAP)" using c by blast
    then show ?thesis using c num by (auto simp: tier_body_def body_text_def)
  qed
  then show "CHR ''('' \<notin> set (tier_body t)" "CHR '')'' \<notin> set (tier_body t)" by blast+
qed

lemma body_nonempty: "tier_body t \<noteq> []"
  by (simp add: tier_body_def body_text_def)

lemma match_display:
  assumes "tier_ok t"
  shows "match_at display_re b (tier_source t @ r) = Some (rev (tier_source t) @ b, r, display_match t)"
proof -
  let ?k = "\<lambda>b' s' cs. Some (b', s', (0, take (length (tier_source t @ r) - length s') (tier_source t @ r)) # cs)"
  let ?body = "Grp 3 (Plus (Cls (\<lambda>c. c \<noteq> CHR '')'')))"
  let ?core = "label_text (vt_label t) @ tier_body t @ '')'' @ r"
  have "rx ?body (rev (label_text (vt_label t)) @ rev (prefix_text t) @ b) (tier_body t @ '')'' @ r) ((2, vt_label t) # prefix_caps t)
      (\<lambda>b' s' cs'. rx (Lit '')'') b' s' cs' ?k) = Some (rev (tier_source t) @ b, r, display_match t)"
    using body_no_paren [of t] body_nonempty [of t]
    by (intro group_plus_longest) (auto simp: list_all_iff display_match_def tier_source_def build_tier)
  then have "rx (label_re 2) (rev (prefix_text t) @ b) ?core (prefix_caps t)
      (\<lambda>b' s' cs'. rx ?body b' s' cs' (\<lambda>b' s' cs'. rx (Lit '')'') b' s' cs' ?k)) = Some (rev (tier_source t) @ b, r, display_match t)"
    using assms by (intro rx_label) (simp_all add: tier_ok_def tier_body_def body_text_def)
  then have "rx cond_prefix b (prefix_text t @ ?core) []
      (\<lambda>b' s' cs'. rx (label_re 2) b' s' cs' (\<lambda>b' s' cs'. rx ?body b' s' cs' (\<lambda>b' s' cs'. rx (Lit '')'') b' s' cs' ?k)))
      = Some (rev (tier_source t) @ b, r, display_match t)"
    using assms by (intro rx_prefix) simp_all
  then show ?thesis
    by (simp add: match_at_def display_re_def tier_source_def build_tier del: rx.simps(6)) (simp add: rx.simps(6) [of 0] del: rx.simps(6))
qed

interpretation display: tier_scanner display_re display_match
proof
  show "match_at display_re b (c # s) = None" if "c \<notin> set ''pclt''" for b c s
    using that cond_prefix_none [of c] label_none [of c] by (simp add: match_at_def display_re_def)
  show "match_at display_re b (c # '' * 0'' @ s) = None" if "c = CHR ''p'' \<or> c = CHR ''c''" for b c s
    using that by (auto simp: match_at_def display_re_def scan_patterns star_ws_space)
  show "match_at display_re b [] = None" for b by (simp add: match_at_def display_re_def scan_patterns)
qed (simp add: match_display)

text \<open>
  C32. The price display shows what the visual editor wrote: from the text of a tier configuration the display reads, for
  every tier, its label, its conditions and its nine prices, with zero for a price that was left out.
\<close>

theorem displayed_prices:
  assumes "config_ok ts"
  shows "parseTiersFromExpr (generateExprFromVisualConfig (Some ts))
    = map (\<lambda>t. \<lparr>pd_label = vt_label t, pd_conditions = vt_conditions t, pd_prices = display_prices t\<rparr>) ts"
proof -
  obtain a s where a: "config_source ts = a # s" "a \<in> set ''pclt''" using config_start [OF assms] by blast
  have "cap (display_match t) 1 = (if vt_conditions t = [] then [] else conds_text (vt_conditions t))" for t
    by (simp add: cap_def display_match_def prefix_caps_def opt_str_def)
  then have "parse_tier_conditions (cap (display_match t) 1) = vt_conditions t" if "tier_ok t" for t
    using that conds_back [of "vt_conditions t"] by (auto simp: tier_ok_def parse_tier_conditions_def)
  moreover have "cap (display_match t) 2 = vt_label t" "cap (display_match t) 3 = tier_body t" for t
    by (simp_all add: cap_def display_match_def opt_str_def)
  moreover have "expr_body (config_source ts) = config_source ts" using a by (auto simp: no_version)
  moreover have "list_all tier_ok ts" using assms by (simp add: config_ok_def)
  ultimately show ?thesis
    using display.scan_config [OF assms] a(1) body_prices
    by (simp add: generate_ok [OF assms] parseTiersFromExpr_def strip_version list_all_iff del: One_nat_def)
qed

section \<open>What the parser accepts\<close>

definition typed_condition :: "tier_condition \<Rightarrow> bool" where
  "typed_condition c \<longleftrightarrow> tier_var c \<in> {''p'', ''c'', ''len''} \<and> tier_op c \<in> {''<'', ''<='', ''>'', ''>=''}
     \<and> (case tier_value c of Num_Value _ \<Rightarrow> True | Text_Value _ \<Rightarrow> False)"

definition typed_tier :: "visual_tier \<Rightarrow> bool" where
  "typed_tier t \<longleftrightarrow> quote \<notin> set (vt_label t) \<and> list_all typed_condition (vt_conditions t) \<and> map fst (vt_costs t) = cost_fields
     \<and> (vt_cache_mode t = CACHE_MODE_TIMED \<longleftrightarrow> 0 < mant (cost_of t ''cache_create_1h_unit_cost''))"

lemma ws_groups [simp]: "groups Ws = {}"
proof -
  have "groups (Alts (map Lit ws)) = {}" for ws
  proof (induction ws)
    case (Cons w ws)
    then show ?case by (cases ws) auto
  qed simp
  then show ?thesis by (simp add: Ws_def)
qed

lemma cache_vars_groups: "(j, r) \<in> groups (cache_vars_re i vs) \<Longrightarrow> i \<le> j"
  by (induction i vs rule: cache_vars_re.induct) (auto simp: cache_var_re_def num_re_def Plus_def)

lemma body_groups: "(j, r) \<in> groups (body_pat i) \<Longrightarrow> i \<le> j"
  by (auto simp: body_pat_def num_re_def Plus_def dest: cache_vars_groups)

lemma label_group:
  assumes "match_at (Seqs [r0, label_re i, body_pat (Suc i), r1]) b s = Some (b', s', cs)" "0 < i"
    and "\<And>r. (i, r) \<notin> groups r0 \<union> groups r1"
  shows "quote \<notin> set (cap cs i)"
proof (cases "map_of cs i")
  case (Some w)
  have "rlang r' w \<Longrightarrow> (i, r') \<in> groups (label_re i) \<Longrightarrow> list_all (\<lambda>c. c \<noteq> quote) w" for r'
    by (auto simp: label_re_def dest: rlang_star_cls)
  then have "list_all (\<lambda>c. c \<noteq> quote) w"
    using match_caps_lang(1) [OF assms(1,2) Some] assms(3) body_groups [of i _ "Suc i"] by auto
  then show ?thesis by (auto simp: cap_def Some opt_str_def list_all_iff)
qed (simp add: cap_def opt_str_def)

lemma condition_typed: "parse_condition s = Some c \<Longrightarrow> typed_condition c"
proof -
  assume "parse_condition s = Some c"
  then obtain b' s' cs where m: "match_at cond_re [] (js_trim s) = Some (b', s', cs)"
    "c = \<lparr>tier_var = cap cs 1, tier_op = cap cs 2, tier_value = Num_Value (str_number (cap cs 3))\<rparr>"
    by (auto simp: parse_condition_def split: option.splits)
  obtain v w where vw: "map_of cs 1 = Some v" "map_of cs 2 = Some w"
    using match_caps_lang(2) [OF m(1), of 1] match_caps_lang(2) [OF m(1), of 2] by (auto simp: cond_re_def)
  have "rlang var_re v" "rlang op_re w"
    using match_caps_lang(1) [OF m(1) _ vw(1)] match_caps_lang(1) [OF m(1) _ vw(2)]
    by (auto simp: cond_re_def var_re_def op_re_def Plus_def)
  moreover have "cap cs 1 = v" "cap cs 2 = w" using vw by (simp_all add: cap_def opt_str_def)
  ultimately show ?thesis by (auto simp: m(2) typed_condition_def var_re_def op_re_def rlang_simps simp del: One_nat_def)
qed

lemma conditions_typed: "list_all typed_condition (parse_tier_conditions s)"
  by (auto simp: parse_tier_conditions_def List.map_filter_def list_all_iff intro: condition_typed)

lemma normal_costs: "cost_of (normalizeVisualTier p) f = partial_cost p f" if "f \<in> set cost_fields"
  using that by (simp add: cost_of_def normalizeVisualTier_def map_of_map_restrict num_or_0_def)

lemma normal_typed:
  assumes "quote \<notin> set (opt_str (pt_label p))" "list_all typed_condition (case pt_conditions p of Some cs \<Rightarrow> cs | None \<Rightarrow> [])" "pt_cache_mode p = None"
  shows "typed_tier (normalizeVisualTier p)"
  unfolding typed_tier_def using assms normal_costs [of "''cache_create_1h_unit_cost''" p]
  by (auto simp: normalizeVisualTier_def getTierCacheMode_def comp_def cost_fields_def)

lemma renormal_typed: "typed_tier t \<Longrightarrow> typed_tier (normalizeVisualTier (as_partial t))"
proof -
  assume t: "typed_tier t"
  have "partial_cost (as_partial t) f = cost_of t f" for f
    by (simp add: partial_cost_def as_partial_def cost_of_def num_or_0_def map_of_map split: option.split)
  then show ?thesis using t normal_costs [of "''cache_create_1h_unit_cost''" "as_partial t"]
    by (auto simp: typed_tier_def normalizeVisualTier_def getTierCacheMode_def comp_def cost_fields_def as_partial_def opt_str_def)
qed

text \<open>
  C20. Whatever text the visual editor is given, a configuration it accepts is well typed: there is at least one tier, no
  label holds a quotation mark, every condition compares one of the three lengths with a number by one of the four
  operators, all seven optional prices are present and the cache mode is the timed one exactly when the one hour price is
  positive.
\<close>

theorem parsed_config_typed:
  assumes "tryParseVisualConfig s = Some ts"
  shows "ts \<noteq> [] \<and> list_all typed_tier ts"
proof -
  have one: "typed_tier (tier_of_match [] 1 cs)" if "match_at single_re [] b = Some (x, y, cs)" for b x y cs
    unfolding tier_of_match_def
    by (rule normal_typed) (use label_group [of Emp 1 "Seqs [Lit '')'', Eol]"] that in \<open>simp_all add: opt_str_def single_re_def match_at_def numeral_2_eq_2\<close>)
  have many: "typed_tier (tier_of_match (parse_tier_conditions (cap cs 1)) 2 cs)" if cs: "cs \<in> set (exec_all tier_re [] b)" for b cs
  proof -
    obtain b0 s0 b1 s1 where m: "match_at tier_re b0 s0 = Some (b1, s1, cs)" using exec_all_match [OF cs] by blast
    have "quote \<notin> set (cap cs 2)"
      using label_group [of cond_prefix 2 "Lit '')''" b0 s0] m
      by (simp add: tier_re_def cond_prefix_def cond_group_def cond_atom_def var_re_def op_re_def Plus_def numeral_3_eq_3)
    then show ?thesis unfolding tier_of_match_def by (intro normal_typed) (simp_all add: opt_str_def conditions_typed)
  qed
  have norm: "normalizeVisualConfig (Some us) \<noteq> [] \<and> list_all typed_tier (normalizeVisualConfig (Some us))" if "us \<noteq> []" "list_all typed_tier us" for us
    using that by (auto simp: normalizeVisualConfig_def list_all_iff renormal_typed)
  show ?thesis
  proof (cases "match_at single_re [] (expr_body s)")
    case None
    let ?us = "map (\<lambda>cs. tier_of_match (parse_tier_conditions (cap cs 1)) 2 cs) (exec_all tier_re [] (expr_body s))"
    have "?us \<noteq> []" "ts = normalizeVisualConfig (Some ?us)"
      using assms None by (simp_all add: tryParseVisualConfig_def Let_def split: if_splits del: One_nat_def)
    moreover have "list_all typed_tier ?us" using many by (auto simp: list_all_iff)
    ultimately show ?thesis using norm [of ?us] by simp
  next
    case (Some m)
    obtain x y cs where m: "m = (x, y, cs)" by (cases m)
    then have "ts = normalizeVisualConfig (Some [tier_of_match [] 1 cs])"
      using assms Some by (simp add: tryParseVisualConfig_def split: if_splits)
    then show ?thesis using norm [of "[tier_of_match [] 1 cs]"] one [OF Some [unfolded m]] by simp
  qed
qed

section \<open>Instances\<close>

definition priced_tier :: "string \<Rightarrow> tier_condition list \<Rightarrow> dec \<Rightarrow> dec \<Rightarrow> (string \<times> dec) list \<Rightarrow> visual_tier" where
  "priced_tier l cs ip op ps = normalizeVisualTier
     \<lparr>pt_label = Some l, pt_conditions = Some cs, pt_input = Some (Some ip), pt_output = Some (Some op), pt_cache_mode = None,
      pt_costs = map (\<lambda>(f, d). (f, Some d)) ps\<rparr>"

definition sample_tiers :: visual_config where
  "sample_tiers =
    [priced_tier ''standard'' [\<lparr>tier_var = ''len'', tier_op = ''<='', tier_value = Num_Value (Some (Dec 2 5))\<rparr>,
        \<lparr>tier_var = ''c'', tier_op = ''<'', tier_value = Num_Value (Some (Dec 25 (-1)))\<rparr>] (Dec 3 0) (Dec 15 0)
       [(''cache_read_unit_cost'', Dec 3 (-1)), (''cache_create_1h_unit_cost'', Dec 6 0)],
     priced_tier ''long (1M)'' [] (Dec 6 0) (Dec 225 (-1)) [(''audio_output_unit_cost'', Dec 1 (-7))]]"

lemma sample_tiers_ok: "config_ok sample_tiers"
  by code_simp

text \<open>The text of the sample.\<close>

lemma sample_text:
  "generateExprFromVisualConfig (Some sample_tiers)
    = ''len <= 200000 && c < 2.5 ? tier('' @ [quote] @ ''standard'' @ [quote] @ '', p * 3 + c * 15 + cr * 0.3 + cc1h * 6) : tier('' @ [quote]
      @ ''long (1M)'' @ [quote] @ '', p * 6 + c * 22.5 + ao * 1e-7)''"
  by code_simp

theorem visual_config_roundtrip_witness:
  "config_ok sample_tiers \<and> tryParseVisualConfig (generateExprFromVisualConfig (Some sample_tiers)) = Some sample_tiers"
  using visual_config_roundtrip [OF sample_tiers_ok] sample_tiers_ok by blast

theorem displayed_prices_witness:
  "map pd_prices (parseTiersFromExpr (generateExprFromVisualConfig (Some sample_tiers))) = map display_prices sample_tiers \<and> length sample_tiers = 2"
  using displayed_prices [OF sample_tiers_ok] by (simp add: sample_tiers_def)

definition quoted_tier :: visual_config where
  "quoted_tier = [priced_tier ([quote] @ ''vip'' @ [quote]) [] (Dec 1 0) (Dec 1 0) []]"

text \<open>A label is written without escaping, so one with quotation marks cannot be read back.\<close>

lemma quoted_label_unreadable: "tryParseVisualConfig (generateExprFromVisualConfig (Some quoted_tier)) = None"
  by code_simp

lemma image_text_parsed:
  "tryParseVisualConfig (''tier('' @ [quote] @ ''base'' @ [quote] @ '', p*2 + c * 8.0 + img*2.5)'')
    = Some [priced_tier ''base'' [] (Dec 2 0) (Dec 8 0) [(''image_unit_cost'', Dec 25 (-1))]]"
  by code_simp

theorem parsed_config_typed_witness: "list_all typed_tier [priced_tier ''base'' [] (Dec 2 0) (Dec 8 0) [(''image_unit_cost'', Dec 25 (-1))]]"
  using parsed_config_typed [OF image_text_parsed] by blast

end
