(* ===== verification/Tiered_Editor.thy ===== *)
theory Tiered_Editor
  imports Tier_Roundtrip
begin

text \<open>
  The editor of tiered prices, \<open>web/src/features/system-settings/models/tiered-pricing-editor.tsx\<close>: the number inputs, the
  handlers of a tier card, of the list of tiers and of the rule cards, and the component itself with its two modes.

  The state of the component is a record. It also holds what React keeps for it: the reference \<open>initRef\<close>, the values its
  effects saw last and the two texts of the parent, which stores what the callbacks pass to it
  (\<open>model-pricing-sheet.tsx\<close>). A handler is a function on states; an exception leaves a handler with the updates made
  before it, and an exception while rendering or in an effect is \<open>Throw\<close>. The views, the translated labels and the cost
  estimate are not modelled.
\<close>

section \<open>Number inputs\<close>

definition unitCostToPrice :: "dec option \<Rightarrow> dec" where
  "unitCostToPrice uc = num_or_0 uc"

definition priceToUnitCost :: "dec option \<Rightarrow> dec" where
  "priceToUnitCost price = num_or_0 price"

fun formatNumberDraft :: "tier_value \<Rightarrow> string" where
  "formatNumberDraft (Num_Value (Some d)) = dec_str d"
| "formatNumberDraft (Num_Value None) = ''0''"
| "formatNumberDraft (Text_Value s) = s"

definition parseNumberDraft :: "string \<Rightarrow> dec" where
  "parseNumberDraft v = (if js_trim v = [] then Dec 0 0 else num_or_0 (str_number v))"

definition isZeroDraft :: "string \<Rightarrow> bool" where
  "isZeroDraft v \<longleftrightarrow> js_trim v \<noteq> [] \<and> mant (parseNumberDraft v) = 0"

record draft_input =
  di_draft :: string
  di_focused :: bool

definition draft_mount :: "tier_value \<Rightarrow> draft_input" where
  "draft_mount v = \<lparr>di_draft = formatNumberDraft v, di_focused = False\<rparr>"

definition draft_effect :: "tier_value \<Rightarrow> draft_input \<Rightarrow> draft_input" where
  "draft_effect v d = (if \<not> di_focused d then d\<lparr>di_draft := formatNumberDraft v\<rparr> else d)"

text \<open>A handler also returns the number it passes to \<open>onValueChange\<close>.\<close>

definition draft_handleChange :: "string \<Rightarrow> draft_input \<Rightarrow> draft_input \<times> dec" where
  "draft_handleChange s d = (d\<lparr>di_draft := s\<rparr>, parseNumberDraft s)"

definition draft_handleFocus :: "draft_input \<Rightarrow> draft_input" where
  "draft_handleFocus d = d\<lparr>di_focused := True\<rparr>"

definition draft_handleBlur :: "draft_input \<Rightarrow> draft_input \<times> dec" where
  "draft_handleBlur d = (let normalized = parseNumberDraft (di_draft d)
     in (d\<lparr>di_focused := False, di_draft := dec_str normalized\<rparr>, normalized))"

section \<open>Tier cards\<close>

definition CACHE_PRICE_VARS :: "billing_var list" where
  "CACHE_PRICE_VARS = filter (\<lambda>v. bv_group v = Some ''cache'') BILLING_EXTRA_VARS"

definition MEDIA_PRICE_VARS :: "billing_var list" where
  "MEDIA_PRICE_VARS = filter (\<lambda>v. bv_group v = Some ''media'') BILLING_EXTRA_VARS"

definition OPS :: "string list" where
  "OPS = [''<'', ''<='', ''>'', ''>='']"

definition remove_at :: "nat \<Rightarrow> 'a list \<Rightarrow> 'a list" where
  "remove_at i xs = take i xs @ drop (Suc i) xs"

definition card_handleConditionChange :: "visual_tier \<Rightarrow> nat \<Rightarrow> tier_condition \<Rightarrow> visual_tier" where
  "card_handleConditionChange tier i nx = tier\<lparr>vt_conditions := (vt_conditions tier)[i := nx]\<rparr>"

definition handleConditionRemove :: "visual_tier \<Rightarrow> nat \<Rightarrow> visual_tier" where
  "handleConditionRemove tier i = tier\<lparr>vt_conditions := remove_at i (vt_conditions tier)\<rparr>"

definition set_cost :: "string \<Rightarrow> dec \<Rightarrow> (string \<times> dec) list \<Rightarrow> (string \<times> dec) list" where
  "set_cost f d cs = map (\<lambda>(g, e). (g, if g = f then d else e)) cs"

definition handlePriceChange :: "visual_tier \<Rightarrow> string \<Rightarrow> dec \<Rightarrow> visual_tier" where
  "handlePriceChange tier f d =
     (if f = ''input_unit_cost'' then tier\<lparr>vt_input := Some d\<rparr>
      else if f = ''output_unit_cost'' then tier\<lparr>vt_output := Some d\<rparr>
      else tier\<lparr>vt_costs := set_cost f d (vt_costs tier)\<rparr>)"

definition handleCacheModeChange :: "visual_tier \<Rightarrow> cache_mode \<Rightarrow> visual_tier" where
  "handleCacheModeChange tier mode =
     tier\<lparr>vt_cache_mode := mode,
       vt_costs := (if mode = CACHE_MODE_TIMED then vt_costs tier else set_cost ''cache_create_1h_unit_cost'' (Dec 0 0) (vt_costs tier))\<rparr>"

definition hasMediaPricing :: "visual_tier \<Rightarrow> bool" where
  "hasMediaPricing tier \<longleftrightarrow>
     list_ex (\<lambda>v. 0 < mant (unitCostToPrice (Some (num_or_0 (map_of (vt_costs tier) (opt_str (bv_tierField v))))))) MEDIA_PRICE_VARS"

definition card_handleLabelChange :: "visual_tier \<Rightarrow> string \<Rightarrow> visual_tier" where
  "card_handleLabelChange tier l = tier\<lparr>vt_label := l\<rparr>"

text \<open>The price fields of a card: the field for one hour cache writes is shown in the timed mode only.\<close>

definition shown_cache_vars :: "visual_tier \<Rightarrow> string list" where
  "shown_cache_vars tier =
     map bv_key (filter (\<lambda>v. \<not> (bv_key v = ''cc1h'' \<and> getTierCacheMode (as_partial tier) \<noteq> CACHE_MODE_TIMED)) CACHE_PRICE_VARS)"

section \<open>The list of tiers\<close>

definition handleTierChange :: "visual_config option \<Rightarrow> nat \<Rightarrow> visual_tier \<Rightarrow> visual_config" where
  "handleTierChange visualConfig i nx = (normalizeVisualConfig visualConfig)[i := normalizeVisualTier (as_partial nx)]"

definition default_condition :: "string \<Rightarrow> tier_condition" where
  "default_condition v = \<lparr>tier_var = v, tier_op = ''<'', tier_value = Num_Value (Some (Dec 2 5))\<rparr>"

definition handleAddTier :: "visual_config option \<Rightarrow> visual_config" where
  "handleAddTier visualConfig =
     (let tiers = normalizeVisualConfig visualConfig;
          lastIndex = length tiers - 1;
          tiers' = (if tiers \<noteq> [] \<and> vt_conditions (tiers ! lastIndex) = []
                    then tiers[lastIndex := normalizeVisualTier (as_partial ((tiers ! lastIndex)\<lparr>vt_conditions := [default_condition ''len'']\<rparr>))]
                    else tiers)
      in tiers' @ [normalizeVisualTier
           \<lparr>pt_label = Some (''tier_'' @ nat_str (length tiers' + 1)), pt_conditions = Some [], pt_input = Some (Some (Dec 0 0)),
            pt_output = Some (Some (Dec 0 0)), pt_cache_mode = None, pt_costs = []\<rparr>])"

definition handleRemoveTier :: "visual_config option \<Rightarrow> nat \<Rightarrow> visual_config" where
  "handleRemoveTier visualConfig i =
     (let config = normalizeVisualConfig visualConfig; tiers = remove_at i config in if tiers \<noteq> [] then tiers else config)"

definition tiers_handleAddCondition :: "visual_config option \<Rightarrow> nat \<Rightarrow> visual_config option" where
  "tiers_handleAddCondition visualConfig i =
     (let config = normalizeVisualConfig visualConfig; tier = config ! i
      in if 2 \<le> length (vt_conditions tier) then visualConfig
         else (let nextVar = (if ''len'' \<in> set (map tier_var (vt_conditions tier)) then ''c'' else ''len'')
               in Some (config[i := tier\<lparr>vt_conditions := vt_conditions tier @ [default_condition nextVar]\<rparr>])))"

section \<open>Rule cards\<close>

definition handleSourceChange :: "request_condition \<Rightarrow> string \<Rightarrow> request_condition" where
  "handleSourceChange condition source =
     (if source = ''time'' then TimeCondition createEmptyTimeCondition
      else if source = ''header'' then ParamHeaderCondition (createEmptyCondition\<lparr>ph_src := Header\<rparr>)
      else if source = ''param'' then ParamHeaderCondition (createEmptyCondition\<lparr>ph_src := Param\<rparr>)
      else condition)"

fun row_handleModeChange :: "request_condition \<Rightarrow> string \<Rightarrow> request_condition" where
  "row_handleModeChange (TimeCondition c) mode = TimeCondition (c\<lparr>tc_mode := mode\<rparr>)"
| "row_handleModeChange (ParamHeaderCondition c) mode = ParamHeaderCondition (c\<lparr>ph_mode := mode\<rparr>)"

definition group_handleConditionChange :: "rule_group \<Rightarrow> nat \<Rightarrow> request_condition \<Rightarrow> rule_group" where
  "group_handleConditionChange g i nx = g\<lparr>conditions := (conditions g)[i := nx]\<rparr>"

definition group_handleAddCondition :: "rule_group \<Rightarrow> bool \<Rightarrow> rule_group" where
  "group_handleAddCondition g timeMode =
     g\<lparr>conditions := conditions g @
       [if timeMode then TimeCondition createEmptyTimeCondition else ParamHeaderCondition createEmptyCondition]\<rparr>"

definition group_removeCondition :: "rule_group \<Rightarrow> nat \<Rightarrow> rule_group" where
  "group_removeCondition g i = g\<lparr>conditions := remove_at i (conditions g)\<rparr>"

section \<open>The component\<close>

datatype editor_mode = Mode_Visual | Mode_Raw

record tiered_editor =
  te_mode :: editor_mode
  te_config :: "visual_config option"
  te_raw :: string
  te_groups :: "rule_group list"
  te_init :: bool
  te_billing :: string
  te_rules :: string
  te_model :: string
  te_seen :: "(string \<times> string) option"
  te_seen_model :: "string option"

definition some_groups :: "rule_group list option \<Rightarrow> rule_group list" where
  "some_groups gs = (case gs of Some l \<Rightarrow> l | None \<Rightarrow> [])"

text \<open>The first render.\<close>

definition editor_mount :: "string \<Rightarrow> string \<Rightarrow> string \<Rightarrow> tiered_editor js_result" where
  "editor_mount modelName billing rules =
     (case tryParseRequestRuleExpr rules of
        Throw \<Rightarrow> Throw
      | Ret gs \<Rightarrow>
          Ret \<lparr>te_mode = Mode_Visual, te_config = tryParseVisualConfig billing, te_raw = combineBillingExpr billing rules,
            te_groups = some_groups gs, te_init = False, te_billing = billing, te_rules = rules, te_model = modelName,
            te_seen = None, te_seen_model = None\<rparr>)"

definition canUseVisualRules :: "tiered_editor \<Rightarrow> bool js_result" where
  "canUseVisualRules st =
     (if te_rules st = [] then Ret True
      else (case tryParseRequestRuleExpr (te_rules st) of Throw \<Rightarrow> Throw | Ret gs \<Rightarrow> Ret (gs \<noteq> None)))"

definition effectiveExpr :: "tiered_editor \<Rightarrow> string js_result" where
  "effectiveExpr st =
     (if te_mode st = Mode_Visual then Ret (generateExprFromVisualConfig (te_config st))
      else (case splitBillingExprAndRequestRules (te_raw st) of Throw \<Rightarrow> Throw | Ret (billingExpr, _) \<Rightarrow> Ret billingExpr))"

text \<open>The effect that initialises the editor from the texts of the parent.\<close>

definition init_effect :: "tiered_editor \<Rightarrow> tiered_editor js_result" where
  "init_effect st =
     (if te_init st then Ret st
      else (let st1 = (case tryParseVisualConfig (te_billing st) of
                         Some parsedConfig \<Rightarrow> st\<lparr>te_config := Some parsedConfig, te_mode := Mode_Visual\<rparr>
                       | None \<Rightarrow>
                           if te_billing st \<noteq> [] then st\<lparr>te_config := None, te_mode := Mode_Raw\<rparr>
                           else st\<lparr>te_config := Some createDefaultVisualConfig\<rparr>)
            in case tryParseRequestRuleExpr (te_rules st) of
                 Throw \<Rightarrow> Throw
               | Ret gs \<Rightarrow> Ret (st1\<lparr>te_raw := combineBillingExpr (te_billing st) (te_rules st), te_groups := some_groups gs, te_init := True\<rparr>)))"

text \<open>
  One render and the effects after it, in their order: all of them see the values of the render. The first effect runs when
  the texts of the parent changed, the second when the model name did; the other two compare before they call the parent, so
  running them without a change does nothing.
\<close>

definition effect_pass :: "tiered_editor \<Rightarrow> tiered_editor js_result" where
  "effect_pass st =
     (case (canUseVisualRules st, effectiveExpr st) of
        (Ret _, Ret expr) \<Rightarrow>
          (case (if te_seen st \<noteq> Some (te_billing st, te_rules st) then init_effect st else Ret st) of
             Throw \<Rightarrow> Throw
           | Ret st1 \<Rightarrow>
               (let st2 = (if te_seen_model st \<noteq> Some (te_model st) then st1\<lparr>te_init := False\<rparr> else st1);
                    st3 = (if expr \<noteq> te_billing st then st2\<lparr>te_billing := expr\<rparr> else st2);
                    ruleExpr = buildRequestRuleExpr (te_groups st);
                    st4 = (if te_mode st = Mode_Visual \<and> ruleExpr \<noteq> te_rules st then st3\<lparr>te_rules := ruleExpr\<rparr> else st3)
                in Ret (st4\<lparr>te_seen := Some (te_billing st, te_rules st), te_seen_model := Some (te_model st)\<rparr>)))
      | _ \<Rightarrow> Throw)"

fun settle :: "nat \<Rightarrow> tiered_editor \<Rightarrow> tiered_editor js_result" where
  "settle 0 st = Ret st"
| "settle (Suc n) st = (case effect_pass st of Throw \<Rightarrow> Throw | Ret st' \<Rightarrow> settle n st')"

definition handleVisualChange :: "visual_config \<Rightarrow> tiered_editor \<Rightarrow> tiered_editor" where
  "handleVisualChange nx st = st\<lparr>te_config := Some nx\<rparr>"

definition handleRawChange :: "string \<Rightarrow> tiered_editor \<Rightarrow> tiered_editor" where
  "handleRawChange v st =
     (let st1 = st\<lparr>te_raw := v\<rparr>
      in case splitBillingExprAndRequestRules v of Throw \<Rightarrow> st1 | Ret (_, ruleStr) \<Rightarrow> st1\<lparr>te_rules := ruleStr\<rparr>)"

definition handleModeChange :: "editor_mode \<Rightarrow> tiered_editor \<Rightarrow> tiered_editor" where
  "handleModeChange nx st =
     (if nx = Mode_Visual
      then (case splitBillingExprAndRequestRules (te_raw st) of
              Throw \<Rightarrow> st
            | Ret (billingExpr, ruleStr) \<Rightarrow>
                (let st1 = st\<lparr>te_config := Some (case tryParseVisualConfig billingExpr of Some c \<Rightarrow> c | None \<Rightarrow> createDefaultVisualConfig)\<rparr>
                 in case tryParseRequestRuleExpr ruleStr of
                      Throw \<Rightarrow> st1
                    | Ret gs \<Rightarrow> st1\<lparr>te_groups := some_groups gs, te_rules := ruleStr, te_mode := nx\<rparr>))
      else (let expr = generateExprFromVisualConfig (te_config st); ruleExpr = buildRequestRuleExpr (te_groups st)
            in st\<lparr>te_raw := str_or (combineBillingExpr expr ruleExpr) expr, te_mode := nx\<rparr>))"

definition handleRuleGroupsChange :: "rule_group list \<Rightarrow> tiered_editor \<Rightarrow> tiered_editor" where
  "handleRuleGroupsChange nx st = st\<lparr>te_groups := nx\<rparr>"

section \<open>Presets\<close>

record preset =
  preset_key :: string
  preset_label :: string
  preset_expr :: string
  preset_rules :: "rule_group list"

text \<open>In the price texts of the presets a grave accent stands for a quotation mark.\<close>

definition make_preset :: "string \<Rightarrow> string \<Rightarrow> string \<Rightarrow> rule_group list \<Rightarrow> preset" where
  "make_preset key label expr rules =
     \<lparr>preset_key = key, preset_label = label, preset_expr = map (\<lambda>c. if c = CHR 0x60 then quote else c) expr, preset_rules = rules\<rparr>"

definition PRESET_GROUPS :: "(string \<times> preset list) list" where
  "PRESET_GROUPS =
    [(''Fixed price'',
      [make_preset ''flat'' ''Flat''
       ''tier(`base`, p * 2 + c * 4)''
       [],
       make_preset ''claude-opus'' ''Claude Opus 4.6''
       ''tier(`base`, p * 5 + c * 25 + cr * 0.5 + cc * 6.25 + cc1h * 10)''
       [],
       make_preset ''gpt-5.4'' ''GPT-5.4''
       ''len <= 272000 ? tier(`standard`, p * 2.5 + c * 15 + cr * 0.25) : tier(`long_context`, p * 5 + c * 22.5 + cr * 0.5)''
       []]),
     (''Tiered'',
      [make_preset ''claude-sonnet'' ''Claude Sonnet 4.5''
       ''len <= 200000 ? tier(`standard`, p * 3 + c * 15 + cr * 0.3 + cc * 3.75 + cc1h * 6) : tier(`long_context`, p * 6 + c * 22.5 + cr * 0.6 + cc * 7.5 + cc1h * 12)''
       [],
       make_preset ''qwen3-max'' ''Qwen3 Max''
       ''len <= 32000 ? tier(`short`, p * 1.2 + c * 6 + cr * 0.24 + cc * 1.5) : len <= 128000 ? tier(`mid`, p * 2.4 + c * 12 + cr * 0.48 + cc * 3) : tier(`long`, p * 3 + c * 15 + cr * 0.6 + cc * 3.75)''
       [],
       make_preset ''glm-4.5-air'' ''GLM-4.5 Air''
       ''len < 32000 && c < 200 ? tier(`short_output`, p * 0.8 + c * 2 + cr * 0.16) : len < 32000 && c >= 200 ? tier(`long_output`, p * 0.8 + c * 6 + cr * 0.16) : tier(`mid_context`, p * 1.2 + c * 8 + cr * 0.24)''
       [],
       make_preset ''doubao-seed-1.8'' ''Doubao Seed 1.8''
       ''len <= 32000 && c <= 200 ? tier(`discount`, p * 0.8 + c * 2 + cr * 0.16 + cc * 0.17) : len <= 32000 ? tier(`short`, p * 0.8 + c * 8 + cr * 0.16 + cc * 0.17) : len <= 128000 ? tier(`mid`, p * 1.2 + c * 16 + cr * 0.16 + cc * 0.17) : tier(`long`, p * 2.4 + c * 24 + cr * 0.16 + cc * 0.17)''
       []]),
     (''Multimodal'',
      [make_preset ''gpt-image-1-mini'' ''GPT Image 1 Mini''
       ''tier(`base`, p * 2 + c * 8 + img * 2.5)''
       [],
       make_preset ''gemini-2.5-flash'' ''Gemini 2.5 Flash''
       ''tier(`base`, p * 0.3 + c * 2.5 + cr * 0.03 + ai * 1.0)''
       [],
       make_preset ''gemini-3-pro-image'' ''Gemini 3 Pro Image''
       ''tier(`base`, p * 2 + c * 12 + img_o * 120)''
       [],
       make_preset ''qwen3-omni-flash'' ''Qwen3 Omni Flash''
       ''tier(`base`, p * 0.43 + c * 3.06 + img * 0.78 + ai * 3.81 + ao * 15.11)''
       []]),
     (''Request rule'',
      [make_preset ''claude-opus-fast'' ''Claude Opus 4.6 Fast''
       ''tier(`base`, p * 5 + c * 25 + cr * 0.5 + cc * 6.25 + cc1h * 10)''
       [\<lparr>conditions = [ph Header ''anthropic-beta'' ''contains'' ''fast-mode-2026-02-01''], multiplier = ''6'', conditionText = None, matched = None\<rparr>],
       make_preset ''gpt-5.4-tiers'' ''GPT-5.4 Priority/Flex''
       ''len <= 272000 ? tier(`standard`, p * 2.5 + c * 15 + cr * 0.25) : tier(`long_context`, p * 5 + c * 22.5 + cr * 0.5)''
       [\<lparr>conditions = [ph Param ''service_tier'' ''eq'' ''priority''], multiplier = ''2'', conditionText = None, matched = None\<rparr>,
         \<lparr>conditions = [ph Param ''service_tier'' ''eq'' ''flex''], multiplier = ''0.5'', conditionText = None, matched = None\<rparr>]]),
     (''Time-based'',
      [make_preset ''night-discount'' ''Night discount (50%)''
       ''tier(`base`, p * 3 + c * 15)''
       [\<lparr>conditions = [TimeCondition \<lparr>timeFunc = ''hour'', timezone = ''Asia/Shanghai'', tc_mode = ''range'', tc_value = [], rangeStart = ''21'', rangeEnd = ''6''\<rparr>],
           multiplier = ''0.5'', conditionText = None, matched = None\<rparr>],
       make_preset ''weekend-discount'' ''Weekend discount (80%)''
       ''tier(`base`, p * 3 + c * 15)''
       [\<lparr>conditions = [TimeCondition \<lparr>timeFunc = ''weekday'', timezone = ''Asia/Shanghai'', tc_mode = ''eq'', tc_value = ''0'', rangeStart = [], rangeEnd = []\<rparr>],
           multiplier = ''0.8'', conditionText = None, matched = None\<rparr>,
         \<lparr>conditions = [TimeCondition \<lparr>timeFunc = ''weekday'', timezone = ''Asia/Shanghai'', tc_mode = ''eq'', tc_value = ''6'', rangeStart = [], rangeEnd = []\<rparr>],
           multiplier = ''0.8'', conditionText = None, matched = None\<rparr>]])]"

definition applyPreset :: "preset \<Rightarrow> tiered_editor \<Rightarrow> tiered_editor" where
  "applyPreset preset st =
     (let ruleExpr = buildRequestRuleExpr (preset_rules preset);
          st1 = st\<lparr>te_raw := str_or (combineBillingExpr (preset_expr preset) ruleExpr) (preset_expr preset)\<rparr>;
          st2 = (case tryParseVisualConfig (preset_expr preset) of
                   Some parsed \<Rightarrow> st1\<lparr>te_config := Some parsed, te_mode := Mode_Visual\<rparr>
                 | None \<Rightarrow> st1\<lparr>te_mode := Mode_Raw, te_config := None\<rparr>)
      in st2\<lparr>te_groups := preset_rules preset, te_rules := ruleExpr\<rparr>)"

section \<open>Number inputs\<close>

lemma draft_roundtrip: "dec_ok d \<Longrightarrow> parseNumberDraft (formatNumberDraft (Num_Value (Some d))) = d"
  using str_number_dec_str [of d] trim_trimmed [OF trimmed_visible_ends, of "dec_str d"] dec_str_visible [of d]
  by (simp add: parseNumberDraft_def num_or_0_def)

text \<open>Leaving an input shows the number it reported.\<close>

lemma blur_stable: "draft_effect (Num_Value (Some (snd (draft_handleBlur d)))) (fst (draft_handleBlur d)) = fst (draft_handleBlur d)"
  by (simp add: draft_effect_def draft_handleBlur_def Let_def)

section \<open>The effects settle\<close>

lemma settle_add: "settle (m + n) st = (case settle m st of Throw \<Rightarrow> Throw | Ret s \<Rightarrow> settle n s)"
  by (induction m arbitrary: st) (auto split: js_result.split)

lemma settled_stays: "effect_pass s = Ret s \<Longrightarrow> settle n s = Ret s"
  by (induction n) auto

text \<open>What a pass leaves of a state in which the first effect gave \<open>s1\<close>.\<close>

definition passed :: "tiered_editor \<Rightarrow> tiered_editor \<Rightarrow> string \<Rightarrow> tiered_editor" where
  "passed st s1 expr = s1\<lparr>te_init := te_init s1 \<and> te_seen_model st = Some (te_model st), te_billing := expr,
     te_rules := (if te_mode st = Mode_Visual then buildRequestRuleExpr (te_groups st) else te_rules st),
     te_seen := Some (te_billing st, te_rules st), te_seen_model := Some (te_model st)\<rparr>"

lemma init_keeps: "init_effect st = Ret s1 \<Longrightarrow> te_billing s1 = te_billing st \<and> te_rules s1 = te_rules st \<and> te_model s1 = te_model st \<and> te_init s1"
  by (auto simp: init_effect_def Let_def split: if_splits option.splits js_result.splits)

lemma pass_cases:
  "effect_pass st = Ret st' \<longleftrightarrow>
     (\<exists>u expr s1. canUseVisualRules st = Ret u \<and> effectiveExpr st = Ret expr
       \<and> (if te_seen st \<noteq> Some (te_billing st, te_rules st) then init_effect st else Ret st) = Ret s1 \<and> st' = passed st s1 expr)"
proof -
  have "passed st s1 expr = (let st2 = (if te_seen_model st \<noteq> Some (te_model st) then s1\<lparr>te_init := False\<rparr> else s1);
                    st3 = (if expr \<noteq> te_billing st then st2\<lparr>te_billing := expr\<rparr> else st2);
                    ruleExpr = buildRequestRuleExpr (te_groups st);
                    st4 = (if te_mode st = Mode_Visual \<and> ruleExpr \<noteq> te_rules st then st3\<lparr>te_rules := ruleExpr\<rparr> else st3)
                in st4\<lparr>te_seen := Some (te_billing st, te_rules st), te_seen_model := Some (te_model st)\<rparr>)"
    if "te_billing s1 = te_billing st" "te_rules s1 = te_rules st" for s1 expr
    using that by (cases s1) (auto simp: passed_def Let_def)
  then show ?thesis
    using init_keeps [of st] unfolding effect_pass_def
    by (cases "canUseVisualRules st"; cases "effectiveExpr st") (auto simp: Let_def split: js_result.splits if_splits)
qed

definition idle :: "tiered_editor \<Rightarrow> bool" where
  "idle st \<longleftrightarrow> te_init st \<and> te_seen_model st = Some (te_model st)"

lemma idle_pass: "idle st \<Longrightarrow> effect_pass st = Ret st' \<longleftrightarrow>
    (\<exists>u expr. canUseVisualRules st = Ret u \<and> effectiveExpr st = Ret expr \<and> st' = passed st st expr)"
  unfolding pass_cases by (auto simp: idle_def init_effect_def)

lemma view_passed: "effectiveExpr (passed st st e) = effectiveExpr st"
  by (simp add: passed_def effectiveExpr_def)

lemma view_seen: "effectiveExpr (s\<lparr>te_seen := x\<rparr>) = effectiveExpr s" "canUseVisualRules (s\<lparr>te_seen := x\<rparr>) = canUseVisualRules s"
  by (simp_all add: effectiveExpr_def canUseVisualRules_def)

lemma idle_settles:
  assumes "idle st" "effect_pass st = Ret s1" "effect_pass s1 = Ret s2"
  shows "effect_pass s2 = Ret s2"
proof -
  obtain u e where 1: "canUseVisualRules st = Ret u" "effectiveExpr st = Ret e" "s1 = passed st st e"
    using assms(1,2) idle_pass by blast
  have i1: "idle s1" using assms(1) by (simp add: 1 idle_def passed_def)
  obtain u' where 2: "canUseVisualRules s1 = Ret u'" "s2 = passed s1 s1 e"
    using assms(3) idle_pass [OF i1] view_passed [of st e] 1 by auto
  have s2: "s2 = s1\<lparr>te_seen := Some (te_billing s1, te_rules s1)\<rparr>"
    using i1 by (simp add: 2(2) passed_def idle_def) (simp add: 1(3) passed_def)
  have "idle s2" "canUseVisualRules s2 = Ret u'" "effectiveExpr s2 = Ret e"
    unfolding s2 view_seen using i1 2(1) 1(2,3) view_passed [of st e] by (simp_all add: idle_def)
  moreover have "passed s2 s2 e = s2" using i1 by (simp add: s2 passed_def idle_def) (simp add: 1(3) passed_def)
  ultimately show ?thesis using idle_pass by metis
qed

lemma idle_settle: "idle st \<Longrightarrow> settle (n + 2) st = Ret s \<Longrightarrow> effect_pass s = Ret s"
proof -
  assume st: "idle st" "settle (n + 2) st = Ret s"
  obtain s1 s2 where "effect_pass st = Ret s1" "effect_pass s1 = Ret s2" "settle n s2 = Ret s"
    using st(2) by (auto simp: numeral_2_eq_2 split: js_result.splits)
  then show ?thesis using idle_settles [OF st(1)] settled_stays [of s2 n] by auto
qed

lemma known_model_settles:
  assumes st: "te_seen_model st = Some (te_model st)" and s: "settle (n + 4) st = Ret s"
  shows "effect_pass s = Ret s"
proof -
  have four: "n + 4 = Suc (Suc n + 2)" "Suc n + 2 = Suc (n + 2)" by simp_all
  obtain s1 where s1: "effect_pass st = Ret s1" "settle (Suc n + 2) s1 = Ret s"
    using s unfolding four(1) by (auto split: js_result.splits)
  obtain u e t where p: "canUseVisualRules st = Ret u" "effectiveExpr st = Ret e"
    "(if te_seen st \<noteq> Some (te_billing st, te_rules st) then init_effect st else Ret st) = Ret t" "s1 = passed st t e"
    using s1(1) pass_cases by blast
  show ?thesis
  proof (cases "te_seen st \<noteq> Some (te_billing st, te_rules st) \<or> te_init st")
    case True
    then have "idle s1" using p(3) init_keeps [of st t] st by (auto simp: p(4) passed_def idle_def split: if_splits)
    then show ?thesis using idle_settle s1(2) by blast
  next
    case False
    then have s1': "s1 = passed st st e" using p by simp
    obtain s2 where s2: "effect_pass s1 = Ret s2" "settle (n + 2) s2 = Ret s"
      using s1(2) unfolding four(2) by (auto split: js_result.splits)
    show ?thesis
    proof (cases "te_seen s1 = Some (te_billing s1, te_rules s1)")
      case True
      have "s1 = st" using True False st by (simp add: s1' passed_def)
      then show ?thesis using s1 settled_stays by (metis js_result.inject)
    next
      case False
      then obtain t' where "init_effect s1 = Ret t'" "s2 = passed s1 t' e"
        using s2(1) view_passed [of st e] p(2) unfolding pass_cases s1' by auto
      then have "idle s2" using init_keeps [of s1 t'] by (simp add: s1' passed_def idle_def)
      then show ?thesis using idle_settle s2(2) by blast
    qed
  qed
qed

text \<open>
  C14. The effects of the editor come to rest: from every state, five renders after a change nothing changes any more, the
  parent holds the price expression of the editor and, in the visual mode, the text of its rules. No loop of updates
  between the editor and its parent is possible.
\<close>

theorem effects_settle:
  assumes "settle 5 st = Ret s"
  shows "effect_pass s = Ret s \<and> effectiveExpr s = Ret (te_billing s)
    \<and> (te_mode s = Mode_Visual \<longrightarrow> te_rules s = buildRequestRuleExpr (te_groups s))"
proof -
  obtain s1 where s1: "effect_pass st = Ret s1" "settle (0 + 4) s1 = Ret s"
    using assms by (auto simp: eval_nat_numeral split: js_result.splits)
  have "te_seen_model s1 = Some (te_model s1)"
    using s1(1) init_keeps [of st] by (auto simp: pass_cases passed_def split: if_splits)
  then have "effect_pass s = Ret s" using s1(2) known_model_settles by blast
  moreover from this have "effectiveExpr s = Ret (te_billing s) \<and> (te_mode s = Mode_Visual \<longrightarrow> te_rules s = buildRequestRuleExpr (te_groups s))"
    by (auto simp: pass_cases passed_def dest: arg_cong [of _ _ te_billing] arg_cong [of _ _ te_rules])
  ultimately show ?thesis by blast
qed

end
