(* ===== verification/Tiered_Editing.thy ===== *)
theory Tiered_Editing
  imports Tiered_Editor
begin

text \<open>
  What the price editor does with tiers and rules: the text of the tiers passes the splitter of the request rules, so the two
  modes of the editor agree, opening a model changes nothing, adding a tier keeps the form that survives the text and every
  preset can be edited visually. Two theorems show where the editor loses what the user entered.
\<close>

section \<open>The generated text beside the rules\<close>

lemma num_class_plain: "num_class c \<Longrightarrow> c \<notin> set ''()*''"
  by (auto simp: num_class_def is_digit_def)

definition plain_op :: "string \<Rightarrow> bool" where
  "plain_op w \<longleftrightarrow> list_all (\<lambda>c. c \<notin> set ''()*'') w"

lemma plain_op_simps [simp]: "plain_op []" "plain_op (a @ b) \<longleftrightarrow> plain_op a \<and> plain_op b" "plain_op (c # w) \<longleftrightarrow> c \<notin> set ''()*'' \<and> plain_op w"
  by (simp_all add: plain_op_def)

lemma plain_dec: "plain_op (dec_str d)"
  using dec_str_num_class(1) [of d] num_class_plain by (auto simp: plain_op_def list_all_iff)

lemma plain_cond: "tier_cond_ok c \<Longrightarrow> plain_op (condition_text c)"
  by (auto simp: tier_cond_ok_def condition_text_def plain_dec split: tier_value.splits option.splits)

lemma plain_prefix: "tier_ok t \<Longrightarrow> plain_op (prefix_text t)"
proof -
  assume "tier_ok t"
  then have "list_all tier_cond_ok (vt_conditions t)" by (simp add: tier_ok_def)
  moreover have "plain_op (concat (map (\<lambda>c. '' && '' @ condition_text c) cs))" if "list_all tier_cond_ok cs" for cs
    using that by (induction cs) (auto simp: plain_cond)
  ultimately show ?thesis by (cases "vt_conditions t") (simp_all add: prefix_text_def conds_text_def plain_cond)
qed

definition args_text :: "visual_tier \<Rightarrow> string" where
  "args_text t = [quote] @ vt_label t @ [quote] @ '', '' @ tier_body t"

lemma tier_source_call: "tier_source t = prefix_text t @ ''tier('' @ args_text t @ '')''"
  by (simp add: tier_source_def build_tier label_text_def args_text_def)

lemma args_balanced: "balanced (vt_label t) \<Longrightarrow> balanced (args_text t)"
proof -
  assume "balanced (vt_label t)"
  moreover have "balanced [quote]" "balanced ([quote] @ '', '' @ tier_body t)" 
    using body_no_paren [of t] by (simp_all add: balanced_def balance_free quote_def)
  ultimately show ?thesis unfolding args_text_def by (metis balanced_append append_assoc)
qed

text \<open>The splitter passes over a text without operators and over a call.\<close>

lemma split_plain:
  "plain_op w \<Longrightarrow> (case s of [] \<Rightarrow> True | c # _ \<Rightarrow> c \<noteq> CHR ''*'') \<Longrightarrow> split_top '' * '' 0 cur (w @ s) = split_top '' * '' 0 (cur @ w) s"
proof (induction w arbitrary: cur)
  case (Cons c w)
  have "\<not> prefix '' * '' (c # w @ s)"
  proof (cases w)
    case Nil
    then show ?thesis using Cons.prems by (cases s) auto
  next
    case (Cons d v)
    then show ?thesis using \<open>plain_op (c # w)\<close> by auto
  qed
  moreover have "depth_step c 0 = 0" using Cons.prems(1) by (auto simp: depth_step_def)
  ultimately have "split_top '' * '' 0 cur ((c # w) @ s) = split_top '' * '' 0 (cur @ [c]) (w @ s)"
    using split_top_skip [of c 0 "'' * ''" "w @ s" cur] by simp
  then show ?case using Cons by simp
qed simp

lemma split_call:
  assumes "plain_op w" "balanced a"
  shows "split_top '' * '' 0 cur (w @ ''('' @ a @ '')'' @ s) = split_top '' * '' 0 (cur @ w @ ''('' @ a @ '')'') s"
  using split_plain [OF assms(1), of "''('' @ a @ '')'' @ s" cur] split_factor [OF assms(2), of "cur @ w" s] by simp

definition labels_balanced :: "visual_config \<Rightarrow> bool" where
  "labels_balanced ts \<longleftrightarrow> list_all (\<lambda>t. balanced (vt_label t)) ts"

lemma split_source:
  assumes "tier_ok t" "balanced (vt_label t)" "plain_op w"
  shows "split_top '' * '' 0 cur (w @ tier_source t @ s) = split_top '' * '' 0 (cur @ w @ tier_source t) s"
  using split_call [of "w @ prefix_text t @ ''tier''" "args_text t" cur s] args_balanced [OF assms(2)] plain_prefix [OF assms(1)] assms(3)
  by (simp add: tier_source_call)

lemma split_chain:
  "list_all tier_ok ts \<Longrightarrow> labels_balanced ts \<Longrightarrow> ts \<noteq> [] \<Longrightarrow> plain_op w \<Longrightarrow>
     split_top '' * '' 0 cur (w @ js_join '' : '' (map tier_source ts) @ s) = split_top '' * '' 0 (cur @ w @ js_join '' : '' (map tier_source ts)) s"
proof (induction ts arbitrary: cur w)
  case (Cons t ts)
  show ?case
  proof (cases "ts = []")
    case True
    then show ?thesis using Cons.prems split_source [of t w cur s] by (simp add: labels_balanced_def)
  next
    case False
    then have j: "js_join '' : '' (map tier_source (t # ts)) = tier_source t @ '' : '' @ js_join '' : '' (map tier_source ts)"
      by (cases ts) simp_all
    show ?thesis
      using Cons.prems False Cons.IH [of "'' : ''" "cur @ w @ tier_source t"]
        split_source [of t w cur "'' : '' @ js_join '' : '' (map tier_source ts) @ s"]
      unfolding j by (simp add: labels_balanced_def)
  qed
qed simp

lemma balanced_plain_op: "plain_op w \<Longrightarrow> balanced w"
  by (auto simp: balanced_def plain_op_def list_all_iff intro!: balance_free)

lemma source_balanced: "tier_ok t \<Longrightarrow> balanced (vt_label t) \<Longrightarrow> balanced (tier_source t)"
proof -
  assume t: "tier_ok t" "balanced (vt_label t)"
  have "balanced (prefix_text t @ ''tier'')" using plain_prefix [OF t(1)] by (intro balanced_plain_op) simp
  then have "balanced ((prefix_text t @ ''tier'') @ (''('' @ args_text t @ '')''))"
    using balanced_parens [OF args_balanced [OF t(2)]] by (rule balanced_append)
  then show ?thesis by (simp add: tier_source_call)
qed

lemma config_balanced: "config_ok ts \<Longrightarrow> labels_balanced ts \<Longrightarrow> balanced (config_source ts)"
proof -
  assume ts: "config_ok ts" "labels_balanced ts"
  have "list_all tier_ok us \<Longrightarrow> labels_balanced us \<Longrightarrow> balanced (js_join '' : '' (map tier_source us))" for us
  proof (induction us)
    case (Cons t us)
    have t: "balanced (tier_source t)" using Cons.prems source_balanced by (simp add: labels_balanced_def)
    show ?case
    proof (cases us)
      case Nil
      then show ?thesis using t by simp
    next
      case (Cons u vs)
      have "balanced '' : ''" by (simp add: balanced_def)
      then show ?thesis using t Cons Cons.IH Cons.prems balanced_append by (simp add: labels_balanced_def) (metis append_Cons append_Nil)
    qed
  qed (simp add: balanced_def)
  moreover have "balanced '' : p * 0 + c * 0''" by (simp add: balanced_def)
  ultimately show ?thesis using ts balanced_append by (auto simp: config_ok_def config_source_def)
qed

lemma no_factor: "s = [] \<or> hd s \<noteq> CHR ''('' \<Longrightarrow> match_factor s = None"
  by (cases s) (auto simp: match_factor_def)

lemma not_rule:
  assumes "trimmed s" "s \<noteq> []" "split_top '' * '' 0 [] s = [s]" "match_factor s = None"
  shows "tryParseRequestRuleExpr s = Ret None"
  using assms by (simp add: tryParseRequestRuleExpr_def trim_trimmed splitTopLevelMultiply_def tryParseRuleGroupFactor_def)

lemma source_last: "last (tier_source t) = CHR '')''"
  by (simp add: tier_source_call)

lemma chain_last: "ts \<noteq> [] \<Longrightarrow> js_join '' : '' (map tier_source ts) \<noteq> [] \<and> last (js_join '' : '' (map tier_source ts)) = CHR '')''"
proof (induction ts)
  case (Cons t ts)
  then show ?case using source_last [of t] tier_source_nonempty [of t] by (cases ts) simp_all
qed simp

lemma config_head: "config_ok ts \<Longrightarrow> hd (js_join '' : '' (map tier_source ts)) \<in> set ''pclt''"
proof -
  assume ts: "config_ok ts"
  have "js_join '' : '' (map tier_source ts) \<noteq> []" using ts chain_last by (simp add: config_ok_def)
  then show ?thesis using config_start [OF ts] by (cases "js_join '' : '' (map tier_source ts)") (auto simp: config_source_def)
qed

lemma head_visible: "c \<in> set ''pclt'' \<Longrightarrow> visible c"
  by auto

lemma config_trimmed: "config_ok ts \<Longrightarrow> trimmed (config_source ts) \<and> config_source ts \<noteq> [] \<and> hd (config_source ts) \<in> set ''pclt''"
proof -
  assume ts: "config_ok ts"
  have j: "js_join '' : '' (map tier_source ts) \<noteq> []" "last (js_join '' : '' (map tier_source ts)) = CHR '')''"
    using ts chain_last [of ts] by (simp_all add: config_ok_def)
  have "visible (CHR ''0'')" by (simp add: visible_def)
  then have "trimmed (config_source ts)"
    using j config_head [OF ts] head_visible by (intro trimmed_visible_ends) (auto simp: config_source_def)
  then show ?thesis using j config_head [OF ts] by (simp add: config_source_def)
qed

lemma config_split:
  assumes "config_ok ts" "labels_balanced ts"
  shows "splitBillingExprAndRequestRules (config_source ts) = Ret (config_source ts, [])"
proof -
  let ?j = "js_join '' : '' (map tier_source ts)"
  have ts: "list_all tier_ok ts" "ts \<noteq> []" using assms(1) by (simp_all add: config_ok_def)
  note t = config_trimmed [OF assms(1)]
  have chain: "split_top '' * '' 0 [] (?j @ s) = split_top '' * '' 0 ?j s" for s
    using split_chain [OF ts(1) assms(2) ts(2), of "[]" "[]" s] by simp
  show ?thesis
  proof (cases "length ts = 1 \<and> vt_conditions (hd ts) \<noteq> []")
    case False
    then have "config_source ts = ?j" by (simp add: config_source_def)
    then show ?thesis
      using t chain [of "[]"] by (simp add: splitBillingExprAndRequestRules_def trim_trimmed splitTopLevelMultiply_def)
  next
    case True
    then have src: "config_source ts = ?j @ '' : p * 0 + c * 0''" by (simp add: config_source_def)
    let ?p = "?j @ '' : p''"
    have ptrim: "trimmed ?p" using config_head [OF assms(1)] head_visible chain_last [OF ts(2)] by (intro trimmed_visible_ends) auto
    have psplit: "split_top '' * '' 0 [] ?p = [?p]"
      using chain [of "'' : p''"] ptrim by (simp add: depth_step_def trim_trimmed)
    have cs: "split_top '' * '' 0 ?j '' : p * 0 + c * 0'' = [js_trim ?p, js_trim ''0 + c'', js_trim ''0'']"
      by (simp add: depth_step_def)
    have vis: "visible (CHR ''0'')" by (simp add: visible_def)
    have small: "trimmed ''0 + c''" "trimmed ''0''" by (rule trimmed_visible_ends, simp add: vis)+
    have "splitTopLevelMultiply (config_source ts) = [?p, ''0 + c'', ''0'']"
      unfolding src splitTopLevelMultiply_def chain cs using ptrim small by (simp add: trim_trimmed)
    moreover have "tryParseRequestRuleExpr ?p = Ret None"
      using ptrim psplit config_head [OF assms(1)] chain_last [OF ts(2)] by (intro not_rule no_factor) auto
    moreover have "tryParseRequestRuleExpr ''0 + c'' = Ret None" "tryParseRequestRuleExpr ''0'' = Ret None"
      using small by (auto intro!: not_rule no_factor simp: depth_step_def trim_trimmed)
    ultimately show ?thesis using t by (simp add: splitBillingExprAndRequestRules_def trim_trimmed)
  qed
qed

lemma config_not_rule:
  assumes "config_ok ts" "labels_balanced ts"
  shows "tryParseRequestRuleExpr (''('' @ config_source ts @ '')'') = Ret None"
proof (rule not_rule)
  show "trimmed (''('' @ config_source ts @ '')'')" by (rule trimmed_parens)
  show "split_top '' * '' 0 [] (''('' @ config_source ts @ '')'') = [''('' @ config_source ts @ '')'']"
    using split_factor [OF config_balanced [OF assms], of "[]" "[]"] trim_trimmed [OF trimmed_parens, of "config_source ts"] by simp
  have "ts \<noteq> []" using assms(1) by (simp add: config_ok_def)
  then have "config_source ts \<noteq> [] \<and> last (config_source ts) \<noteq> CHR ''1''"
    using chain_last [of ts] by (auto simp: config_source_def)
  then have no_one: "config_source ts \<noteq> z @ '' : 1''" for z by (metis append_Cons append_Nil append_assoc last_snoc)
  have "\<not> suffix '' : 1)'' (config_source ts @ '')'')"
  proof
    assume "suffix '' : 1)'' (config_source ts @ '')'')"
    then obtain z where "config_source ts @ '')'' = z @ '' : 1)''" unfolding suffix_def by blast
    then have "config_source ts @ '')'' = (z @ '' : 1'') @ '')''" by simp
    then have "config_source ts = z @ '' : 1''" by (simp only: append1_eq_conv)
    then show False using no_one by blast
  qed
  then show "match_factor (''('' @ config_source ts @ '')'') = None" by (simp add: match_factor_def)
qed simp

lemma config_unwrap: "config_ok ts \<Longrightarrow> unwrapOuterParens (config_source ts) = config_source ts"
proof -
  assume "config_ok ts"
  note t = config_trimmed [OF this]
  then have "\<not> hasFullOuterParens (config_source ts)" by (auto simp: hasFullOuterParens_def)
  then show ?thesis using t unfolding unwrapOuterParens_def by (simp add: trim_trimmed unwrap_loop.simps [of "config_source ts"])
qed

lemma rules_text: "list_all group_ok gs \<Longrightarrow> js_trim (buildRequestRuleExpr gs) = buildRequestRuleExpr gs \<and> (buildRequestRuleExpr gs = [] \<longleftrightarrow> gs = [])"
proof (cases "gs = []")
  case False
  assume gs: "list_all group_ok gs"
  note g = groups_ok [OF gs]
  have "map buildRuleGroupFactor gs \<noteq> []" using False by simp
  moreover have "js_join '' * '' (map buildRuleGroupFactor gs) \<noteq> []"
    using False g(1) by (cases gs; cases "tl gs") (auto simp: is_factor_def)
  ultimately show ?thesis using g False trimmed_factors by simp
qed (simp add: buildRequestRuleExpr_def)

text \<open>The text of the whole editor splits into the text of the tiers and the text of the rules.\<close>

lemma editor_split:
  assumes ts: "config_ok ts" "labels_balanced ts" and gs: "list_all group_ok gs"
  shows "combineBillingExpr (config_source ts) (buildRequestRuleExpr gs) \<noteq> []"
    "splitBillingExprAndRequestRules (combineBillingExpr (config_source ts) (buildRequestRuleExpr gs))
       = Ret (config_source ts, buildRequestRuleExpr gs)"
proof -
  note t = config_trimmed [OF ts(1)]
  show "combineBillingExpr (config_source ts) (buildRequestRuleExpr gs) \<noteq> []"
    using t by (simp add: combineBillingExpr_def trim_trimmed Let_def)
  show "splitBillingExprAndRequestRules (combineBillingExpr (config_source ts) (buildRequestRuleExpr gs))
       = Ret (config_source ts, buildRequestRuleExpr gs)"
  proof (cases "gs = []")
    case True
    then show ?thesis using t config_split [OF ts] by (simp add: combineBillingExpr_def buildRequestRuleExpr_def trim_trimmed)
  next
    case False
    then show ?thesis
      using split_combined_parts [OF gs False config_balanced [OF ts] _ _ config_not_rule [OF ts]] t config_unwrap [OF ts(1)] by simp
  qed
qed

text \<open>
  C13. Switching the editor to the expression and back loses nothing: in both modes the parent is given the same price
  expression, and back in the visual mode the editor holds the same tiers, the same rule groups and the same text of the
  rules. This is for tiers as the visual editor builds them and for rule groups the rule parser supports.
\<close>

theorem editor_modes_roundtrip:
  assumes "config_ok ts" "labels_balanced ts" "list_all group_ok gs" "te_config st = Some ts" "te_groups st = gs"
  shows "effectiveExpr (handleModeChange Mode_Raw st) = Ret (generateExprFromVisualConfig (Some ts))
    \<and> handleModeChange Mode_Visual (handleModeChange Mode_Raw st)
       = st\<lparr>te_mode := Mode_Visual, te_rules := buildRequestRuleExpr gs,
           te_raw := combineBillingExpr (generateExprFromVisualConfig (Some ts)) (buildRequestRuleExpr gs)\<rparr>"
proof
  have gen: "generateExprFromVisualConfig (Some ts) = config_source ts" using generate_ok [OF assms(1)] .
  have parsed: "tryParseVisualConfig (config_source ts) = Some ts" using visual_config_back [OF assms(1)] by (simp add: gen)
  note s = editor_split [OF assms(1-3)]
  show "effectiveExpr (handleModeChange Mode_Raw st) = Ret (generateExprFromVisualConfig (Some ts))"
    using s assms(4,5) by (simp add: effectiveExpr_def handleModeChange_def gen str_or_def)
  show "handleModeChange Mode_Visual (handleModeChange Mode_Raw st)
       = st\<lparr>te_mode := Mode_Visual, te_rules := buildRequestRuleExpr gs,
           te_raw := combineBillingExpr (generateExprFromVisualConfig (Some ts)) (buildRequestRuleExpr gs)\<rparr>"
    using s assms(4,5) request_rules_back [OF assms(3)] parsed
    by (cases st) (simp add: handleModeChange_def gen str_or_def some_groups_def)
qed

section \<open>Opening and editing\<close>

definition opened :: "string \<Rightarrow> visual_config \<Rightarrow> rule_group list \<Rightarrow> tiered_editor" where
  "opened m ts gs = (let b = generateExprFromVisualConfig (Some ts); r = buildRequestRuleExpr gs in
     \<lparr>te_mode = Mode_Visual, te_config = Some ts, te_raw = combineBillingExpr b r, te_groups = gs, te_init = False,
      te_billing = b, te_rules = r, te_model = m, te_seen = Some (b, r), te_seen_model = Some m\<rparr>)"

lemma rules_render: "list_all group_ok gs \<Longrightarrow> te_rules st = buildRequestRuleExpr gs \<Longrightarrow> canUseVisualRules st = Ret True"
  using request_rules_back [of gs] by (simp add: canUseVisualRules_def)

lemma opened_settled:
  assumes "list_all group_ok gs" "buildRequestRuleExpr hs = buildRequestRuleExpr gs"
  shows "effect_pass ((opened m ts gs)\<lparr>te_groups := hs\<rparr>) = Ret ((opened m ts gs)\<lparr>te_groups := hs\<rparr>)"
  using rules_render [OF assms(1), of "(opened m ts gs)\<lparr>te_groups := hs\<rparr>"] assms(2)
  by (auto simp: pass_cases passed_def opened_def Let_def effectiveExpr_def)

lemma mount_opened:
  assumes "config_ok ts" "list_all group_ok gs"
  shows "\<exists>s. editor_mount m (generateExprFromVisualConfig (Some ts)) (buildRequestRuleExpr gs) = Ret s \<and> settle (Suc n) s = Ret (opened m ts gs)"
proof -
  let ?s = "(opened m ts gs)\<lparr>te_seen := None, te_seen_model := None\<rparr>"
  have "editor_mount m (generateExprFromVisualConfig (Some ts)) (buildRequestRuleExpr gs) = Ret ?s"
    using visual_config_back [OF assms(1)] request_rules_back [OF assms(2)]
    by (simp add: editor_mount_def opened_def some_groups_def Let_def)
  moreover have "effect_pass ?s = Ret (opened m ts gs)"
    using rules_render [OF assms(2), of ?s] visual_config_back [OF assms(1)] request_rules_back [OF assms(2)]
    by (auto simp: pass_cases passed_def opened_def Let_def effectiveExpr_def init_effect_def some_groups_def)
  moreover have "effect_pass (opened m ts gs) = Ret (opened m ts gs)"
    using opened_settled [OF assms(2), of gs m ts] by (simp add: opened_def Let_def)
  ultimately show ?thesis using settled_stays [of "opened m ts gs" n] by simp
qed

text \<open>
  C33. Opening a model changes nothing: with the saved texts of a tier configuration and of its rule groups the editor comes
  to rest in the visual mode, shows exactly these tiers and groups, and its parent still holds the saved texts.
\<close>

theorem opening_keeps_prices:
  assumes "config_ok ts" "list_all group_ok gs"
  shows "\<exists>s s'. editor_mount m (generateExprFromVisualConfig (Some ts)) (buildRequestRuleExpr gs) = Ret s \<and> settle 5 s = Ret s'
    \<and> te_mode s' = Mode_Visual \<and> te_config s' = Some ts \<and> te_groups s' = gs
    \<and> te_billing s' = generateExprFromVisualConfig (Some ts) \<and> te_rules s' = buildRequestRuleExpr gs"
proof -
  have "5 = Suc 4" by simp
  then obtain s where "editor_mount m (generateExprFromVisualConfig (Some ts)) (buildRequestRuleExpr gs) = Ret s"
    "settle 5 s = Ret (opened m ts gs)"
    using mount_opened [OF assms, of m 4] by metis
  then show ?thesis by (intro exI [of _ s] exI [of _ "opened m ts gs"]) (simp add: opened_def Let_def)
qed

lemma empty_group_text: "buildRequestRuleExpr (gs @ [createEmptyRuleGroup]) = buildRequestRuleExpr gs"
proof -
  have "buildRuleGroupFactor createEmptyRuleGroup = []" by code_simp
  then show ?thesis by (simp add: buildRequestRuleExpr_def)
qed

text \<open>After the first change of a price the editor reads its state back from the texts.\<close>

lemma first_edit:
  assumes ts: "config_ok us" "generateExprFromVisualConfig (Some us) \<noteq> generateExprFromVisualConfig (Some ts)"
    and gs: "list_all group_ok gs" "buildRequestRuleExpr hs = buildRequestRuleExpr gs"
  shows "\<exists>s. settle 5 (handleVisualChange us ((opened m ts gs)\<lparr>te_groups := hs\<rparr>)) = Ret s \<and> te_config s = Some us \<and> te_groups s = gs"
proof -
  let ?b = "generateExprFromVisualConfig (Some us)" and ?r = "buildRequestRuleExpr gs"
  let ?s0 = "handleVisualChange us ((opened m ts gs)\<lparr>te_groups := hs\<rparr>)"
  let ?s1 = "?s0\<lparr>te_billing := ?b\<rparr>"
  let ?s2 = "?s1\<lparr>te_groups := gs, te_init := True, te_raw := combineBillingExpr ?b ?r, te_seen := Some (?b, ?r)\<rparr>"
  have "effect_pass ?s0 = Ret ?s1"
    using rules_render [OF gs(1), of ?s0] gs(2)
    by (auto simp: pass_cases passed_def opened_def Let_def effectiveExpr_def handleVisualChange_def)
  moreover have "effect_pass ?s1 = Ret ?s2"
    using rules_render [OF gs(1), of ?s1] gs(2) ts(2) visual_config_back [OF ts(1)] request_rules_back [OF gs(1)]
    by (auto simp: pass_cases passed_def opened_def Let_def effectiveExpr_def handleVisualChange_def init_effect_def some_groups_def)
  moreover have stop: "effect_pass ?s2 = Ret ?s2"
    using rules_render [OF gs(1), of ?s2]
    by (auto simp: pass_cases passed_def opened_def Let_def effectiveExpr_def handleVisualChange_def)
  moreover have "(5::nat) = Suc (Suc 3)" by simp
  ultimately have "settle 5 ?s0 = Ret ?s2" using settled_stays [OF stop, of 3] by (simp only: settle.simps js_result.case)
  then show ?thesis by (intro exI [of _ ?s2]) (simp add: handleVisualChange_def)
qed

text \<open>
  C34. The first change of a price discards an unfinished rule: the second effect clears the flag of the first one when the
  editor is mounted, so the change of the parent's text that follows the first edit initialises the editor again from the
  texts. A rule group that was just added and has no text yet is gone after it.
\<close>

theorem first_edit_drops_draft:
  assumes "config_ok ts" "config_ok us" "generateExprFromVisualConfig (Some us) \<noteq> generateExprFromVisualConfig (Some ts)" "list_all group_ok gs"
  shows "\<exists>s0 s1 s2 s3. editor_mount m (generateExprFromVisualConfig (Some ts)) (buildRequestRuleExpr gs) = Ret s0 \<and> settle 5 s0 = Ret s1
    \<and> settle 5 (handleRuleGroupsChange (gs @ [createEmptyRuleGroup]) s1) = Ret s2 \<and> te_groups s2 = gs @ [createEmptyRuleGroup]
    \<and> settle 5 (handleVisualChange us s2) = Ret s3 \<and> te_config s3 = Some us \<and> te_groups s3 = gs"
proof -
  have "5 = Suc 4" by simp
  then obtain s0 where 0: "editor_mount m (generateExprFromVisualConfig (Some ts)) (buildRequestRuleExpr gs) = Ret s0"
    "settle 5 s0 = Ret (opened m ts gs)"
    using mount_opened [OF assms(1,4), of m 4] by metis
  let ?s2 = "(opened m ts gs)\<lparr>te_groups := gs @ [createEmptyRuleGroup]\<rparr>"
  have "settle 5 (handleRuleGroupsChange (gs @ [createEmptyRuleGroup]) (opened m ts gs)) = Ret ?s2"
    using settled_stays [OF opened_settled [OF assms(4) empty_group_text]] by (simp only: handleRuleGroupsChange_def)
  moreover obtain s3 where "settle 5 (handleVisualChange us ?s2) = Ret s3" "te_config s3 = Some us" "te_groups s3 = gs"
    using first_edit [OF assms(2,3,4) empty_group_text] by blast
  ultimately show ?thesis using 0 by (intro exI [of _ s0] exI [of _ "opened m ts gs"] exI [of _ ?s2] exI [of _ s3]) simp
qed

section \<open>Adding and removing tiers\<close>

lemma tier_label_ok: "quote \<notin> set (''tier_'' @ nat_str n)"
  using nat_str_digits [of quote n] by (auto simp: is_digit_def quote_def)

definition new_tier :: "nat \<Rightarrow> visual_tier" where
  "new_tier n = normalizeVisualTier
     \<lparr>pt_label = Some (''tier_'' @ nat_str n), pt_conditions = Some [], pt_input = Some (Some (Dec 0 0)),
      pt_output = Some (Some (Dec 0 0)), pt_cache_mode = None, pt_costs = []\<rparr>"

lemma new_tier_ok: "tier_ok (new_tier n)" "vt_conditions (new_tier n) = []"
proof -
  have d: "dec_ok (Dec 0 0)" by code_simp
  have "partial_cost \<lparr>pt_label = l, pt_conditions = cs, pt_input = i, pt_output = p, pt_cache_mode = m, pt_costs = []\<rparr> f = Dec 0 0" for l cs i p m f
    by (simp add: partial_cost_def)
  then show "tier_ok (new_tier n)" "vt_conditions (new_tier n) = []"
    using tier_label_ok [of n]
    by (auto simp: new_tier_def tier_ok_def normalizeVisualTier_def opt_str_def getTierCacheMode_def d cost_of_def cost_fields_def num_or_0_def)
qed

lemma bounded_tier_ok: "tier_ok t \<Longrightarrow> tier_ok (t\<lparr>vt_conditions := [default_condition ''len'']\<rparr>)"
proof -
  have "tier_cond_ok (default_condition ''len'')" by code_simp
  then show "tier_ok t \<Longrightarrow> tier_ok (t\<lparr>vt_conditions := [default_condition ''len'']\<rparr>)"
    by (simp add: tier_ok_def cost_of_def)
qed

lemma update_last: "xs \<noteq> [] \<Longrightarrow> xs[length xs - 1 := x] = butlast xs @ [x]"
  by (cases xs rule: rev_cases) simp_all

lemma add_tier_shape:
  assumes "config_ok ts"
  shows "handleAddTier (Some ts) = butlast ts
    @ [if vt_conditions (last ts) = [] then (last ts)\<lparr>vt_conditions := [default_condition ''len'']\<rparr> else last ts, new_tier (length ts + 1)]"
proof -
  have ts: "ts \<noteq> []" "list_all tier_ok ts" using assms by (simp_all add: config_ok_def)
  have "tier_ok (last ts)" using ts by (simp add: list_all_iff)
  then have "normalizeVisualTier (as_partial ((last ts)\<lparr>vt_conditions := [default_condition ''len'']\<rparr>)) = (last ts)\<lparr>vt_conditions := [default_condition ''len'']\<rparr>"
    by (rule normalize_ok [OF bounded_tier_ok])
  then show ?thesis
    using ts normalize_config_ok [OF ts(2,1)] append_butlast_last_id [OF ts(1)] update_last [OF ts(1)]
    by (simp add: handleAddTier_def Let_def new_tier_def last_conv_nth)
qed

text \<open>
  Adding a tier keeps a configuration in the form that survives its text: the former fallback gets an upper bound, the
  new tier is the fallback, and nothing else of the earlier tiers changes.
\<close>

theorem add_tier_ok:
  assumes "config_ok ts"
  shows "config_ok (handleAddTier (Some ts)) \<and> length (handleAddTier (Some ts)) = length ts + 1
    \<and> map (\<lambda>t. t\<lparr>vt_conditions := []\<rparr>) (butlast (handleAddTier (Some ts))) = map (\<lambda>t. t\<lparr>vt_conditions := []\<rparr>) ts
    \<and> vt_conditions (last (handleAddTier (Some ts))) = []"
proof -
  have ts: "ts \<noteq> []" "list_all tier_ok (butlast ts)" "tier_ok (last ts)"
    using assms by (auto simp: config_ok_def list_all_iff dest: in_set_butlastD)
  have l: "length ts = Suc (length (butlast ts))" using ts(1) by simp
  have m: "map f ts = map f (butlast ts) @ [f (last ts)]" for f :: "visual_tier \<Rightarrow> visual_tier"
    using append_butlast_last_id [OF ts(1)] by (metis list.simps(8,9) map_append)
  have c: "list_all (\<lambda>t. vt_conditions t \<noteq> []) (butlast ts)" using assms by (cases ts; cases "tl ts") (auto simp: config_ok_def)
  show ?thesis
    using ts c new_tier_ok [of "length ts + 1"] bounded_tier_ok [OF ts(3)]
    unfolding add_tier_shape [OF assms] m by (simp add: config_ok_def butlast_append)
qed

text \<open>The last of several tiers is written without its conditions.\<close>

lemma tier_parts_last: "tier_parts i (us @ [t]) = tier_parts i (us @ [t\<lparr>vt_conditions := cs\<rparr>])"
  by (induction us arbitrary: i) (simp_all add: tier_text_def buildTierBodyExpr_def)

lemma generate_last: "us \<noteq> [] \<Longrightarrow> generateExprFromVisualConfig (Some (us @ [t])) = js_join '' : '' (tier_parts 0 (us @ [t]))"
  by (cases us; cases "tl us") (simp_all add: generateExprFromVisualConfig_def del: tier_parts.simps js_join.simps)

text \<open>
  Removing the fallback leaves a condition without effect: with at least three tiers, after the last one is removed the
  editor still shows the conditions of the tier that is last now, and writes the same expression as without them.
\<close>

theorem remove_fallback_ignores_condition:
  assumes "config_ok ts" "2 < length ts"
  shows "handleRemoveTier (Some ts) (length ts - 1) = butlast ts \<and> vt_conditions (last (butlast ts)) \<noteq> []
    \<and> generateExprFromVisualConfig (Some (butlast ts))
        = generateExprFromVisualConfig (Some (butlast (butlast ts) @ [(last (butlast ts))\<lparr>vt_conditions := []\<rparr>]))"
proof -
  have ts: "ts \<noteq> []" "list_all tier_ok ts" "list_all (\<lambda>t. vt_conditions t \<noteq> []) (butlast ts)"
    using assms by (auto simp: config_ok_def)
  have b: "butlast ts \<noteq> []" "butlast (butlast ts) \<noteq> []" using assms(2) by (auto dest: arg_cong [of _ _ length])
  have "handleRemoveTier (Some ts) (length ts - 1) = butlast ts"
    using b(1) ts normalize_config_ok [OF ts(2,1)] by (simp add: handleRemoveTier_def remove_at_def butlast_conv_take)
  moreover have "generateExprFromVisualConfig (Some (butlast (butlast ts) @ [last (butlast ts)]))
      = generateExprFromVisualConfig (Some (butlast (butlast ts) @ [(last (butlast ts))\<lparr>vt_conditions := []\<rparr>]))"
    unfolding generate_last [OF b(2)] using tier_parts_last by metis
  ultimately show ?thesis using ts(3) b(1) by (simp add: list_all_iff)
qed

section \<open>Presets\<close>

definition tier_cond :: "string \<Rightarrow> string \<Rightarrow> dec \<Rightarrow> tier_condition" where
  "tier_cond v op d = \<lparr>tier_var = v, tier_op = op, tier_value = Num_Value (Some d)\<rparr>"

definition preset_tiers :: "visual_config list" where
  "preset_tiers =
    [[priced_tier ''base'' [] (Dec 2 0) (Dec 4 0) []],
     [priced_tier ''base'' [] (Dec 5 0) (Dec 25 0) [(''cache_read_unit_cost'', Dec 5 (-1)), (''cache_create_unit_cost'', Dec 625 (-2)), (''cache_create_1h_unit_cost'', Dec 1 1)]],
     [priced_tier ''standard'' [tier_cond ''len'' ''<='' (Dec 272 3)] (Dec 25 (-1)) (Dec 15 0) [(''cache_read_unit_cost'', Dec 25 (-2))],
      priced_tier ''long_context'' [] (Dec 5 0) (Dec 225 (-1)) [(''cache_read_unit_cost'', Dec 5 (-1))]],
     [priced_tier ''standard'' [tier_cond ''len'' ''<='' (Dec 2 5)] (Dec 3 0) (Dec 15 0) [(''cache_read_unit_cost'', Dec 3 (-1)), (''cache_create_unit_cost'', Dec 375 (-2)), (''cache_create_1h_unit_cost'', Dec 6 0)],
      priced_tier ''long_context'' [] (Dec 6 0) (Dec 225 (-1)) [(''cache_read_unit_cost'', Dec 6 (-1)), (''cache_create_unit_cost'', Dec 75 (-1)), (''cache_create_1h_unit_cost'', Dec 12 0)]],
     [priced_tier ''short'' [tier_cond ''len'' ''<='' (Dec 32 3)] (Dec 12 (-1)) (Dec 6 0) [(''cache_read_unit_cost'', Dec 24 (-2)), (''cache_create_unit_cost'', Dec 15 (-1))],
      priced_tier ''mid'' [tier_cond ''len'' ''<='' (Dec 128 3)] (Dec 24 (-1)) (Dec 12 0) [(''cache_read_unit_cost'', Dec 48 (-2)), (''cache_create_unit_cost'', Dec 3 0)],
      priced_tier ''long'' [] (Dec 3 0) (Dec 15 0) [(''cache_read_unit_cost'', Dec 6 (-1)), (''cache_create_unit_cost'', Dec 375 (-2))]],
     [priced_tier ''short_output'' [tier_cond ''len'' ''<'' (Dec 32 3), tier_cond ''c'' ''<'' (Dec 2 2)] (Dec 8 (-1)) (Dec 2 0) [(''cache_read_unit_cost'', Dec 16 (-2))],
      priced_tier ''long_output'' [tier_cond ''len'' ''<'' (Dec 32 3), tier_cond ''c'' ''>='' (Dec 2 2)] (Dec 8 (-1)) (Dec 6 0) [(''cache_read_unit_cost'', Dec 16 (-2))],
      priced_tier ''mid_context'' [] (Dec 12 (-1)) (Dec 8 0) [(''cache_read_unit_cost'', Dec 24 (-2))]],
     [priced_tier ''discount'' [tier_cond ''len'' ''<='' (Dec 32 3), tier_cond ''c'' ''<='' (Dec 2 2)] (Dec 8 (-1)) (Dec 2 0) [(''cache_read_unit_cost'', Dec 16 (-2)), (''cache_create_unit_cost'', Dec 17 (-2))],
      priced_tier ''short'' [tier_cond ''len'' ''<='' (Dec 32 3)] (Dec 8 (-1)) (Dec 8 0) [(''cache_read_unit_cost'', Dec 16 (-2)), (''cache_create_unit_cost'', Dec 17 (-2))],
      priced_tier ''mid'' [tier_cond ''len'' ''<='' (Dec 128 3)] (Dec 12 (-1)) (Dec 16 0) [(''cache_read_unit_cost'', Dec 16 (-2)), (''cache_create_unit_cost'', Dec 17 (-2))],
      priced_tier ''long'' [] (Dec 24 (-1)) (Dec 24 0) [(''cache_read_unit_cost'', Dec 16 (-2)), (''cache_create_unit_cost'', Dec 17 (-2))]],
     [priced_tier ''base'' [] (Dec 2 0) (Dec 8 0) [(''image_unit_cost'', Dec 25 (-1))]],
     [priced_tier ''base'' [] (Dec 3 (-1)) (Dec 25 (-1)) [(''cache_read_unit_cost'', Dec 3 (-2)), (''audio_input_unit_cost'', Dec 1 0)]],
     [priced_tier ''base'' [] (Dec 2 0) (Dec 12 0) [(''image_output_unit_cost'', Dec 12 1)]],
     [priced_tier ''base'' [] (Dec 43 (-2)) (Dec 306 (-2)) [(''image_unit_cost'', Dec 78 (-2)), (''audio_input_unit_cost'', Dec 381 (-2)), (''audio_output_unit_cost'', Dec 1511 (-2))]],
     [priced_tier ''base'' [] (Dec 5 0) (Dec 25 0) [(''cache_read_unit_cost'', Dec 5 (-1)), (''cache_create_unit_cost'', Dec 625 (-2)), (''cache_create_1h_unit_cost'', Dec 1 1)]],
     [priced_tier ''standard'' [tier_cond ''len'' ''<='' (Dec 272 3)] (Dec 25 (-1)) (Dec 15 0) [(''cache_read_unit_cost'', Dec 25 (-2))],
      priced_tier ''long_context'' [] (Dec 5 0) (Dec 225 (-1)) [(''cache_read_unit_cost'', Dec 5 (-1))]],
     [priced_tier ''base'' [] (Dec 3 0) (Dec 15 0) []],
     [priced_tier ''base'' [] (Dec 3 0) (Dec 15 0) []]]"

lemma preset_texts:
  "map preset_expr (concat (map snd PRESET_GROUPS))
    = (map (\<lambda>ts. generateExprFromVisualConfig (Some ts)) preset_tiers) [8 := preset_expr (snd (PRESET_GROUPS ! 2) ! 1)]"
  by code_simp

lemma preset_tiers_ok: "list_all (\<lambda>ts. config_ok ts \<and> labels_balanced ts) preset_tiers"
  by code_simp

lemma flash_parsed: "tryParseVisualConfig (preset_expr (snd (PRESET_GROUPS ! 2) ! 1)) = Some (preset_tiers ! 8)"
  by code_simp

definition all_presets :: "preset list" where
  "all_presets = concat (map snd PRESET_GROUPS)"

lemma preset_rules_ok: "list_all (\<lambda>p. list_all group_ok (preset_rules p)) all_presets"
proof -
  have p: "arg_ok ''anthropic-beta''" "arg_ok ''service_tier''" "arg_ok ''Asia/Shanghai''" "plain_text ''fast-mode-2026-02-01''"
    "plain_text ''priority''" "plain_text ''flex''" "trimmed ''fast-mode-2026-02-01''" "trimmed ''priority''" "trimmed ''flex''"
    by (simp_all add: arg_ok_def plain_text_def lit_char_def quote_def trimmed_visible visible_def)
  show ?thesis
    by (simp add: all_presets_def PRESET_GROUPS_def make_preset_def group_ok_def ph_def p TIME_FUNCS_def)
      (simp add: numeric_literal_def is_digit_def exponent_ok_def)
qed

lemma preset_parsed:
  "list_all (\<lambda>p. \<exists>ts. tryParseVisualConfig (preset_expr p) = Some ts \<and> config_ok ts \<and> labels_balanced ts) all_presets"
proof -
  have len: "length all_presets = 15" "length preset_tiers = 15" by code_simp+
  have "\<exists>ts. tryParseVisualConfig (preset_expr (all_presets ! i)) = Some ts \<and> config_ok ts \<and> labels_balanced ts" if i: "i < 15" for i
  proof -
    have ok: "config_ok (preset_tiers ! i)" "labels_balanced (preset_tiers ! i)" using preset_tiers_ok i len by (simp_all add: list_all_length)
    have "map preset_expr all_presets ! i = (map (\<lambda>ts. generateExprFromVisualConfig (Some ts)) preset_tiers) [8 := preset_expr (snd (PRESET_GROUPS ! 2) ! 1)] ! i"
      by (simp only: preset_texts all_presets_def)
    then have "tryParseVisualConfig (preset_expr (all_presets ! i)) = Some (preset_tiers ! i)"
      using i len flash_parsed visual_config_back [OF ok(1)] by (cases "i = 8") (simp_all add: nth_list_update)
    then show ?thesis using ok by blast
  qed
  then show ?thesis using len by (simp add: list_all_length)
qed

text \<open>
  Every preset can be edited visually: applying one switches to the visual mode, its price text is read as a tier
  configuration in the form that survives the text, and the rules it passes to the parent read back as its rule groups.
\<close>

theorem presets_visual:
  "list_all (\<lambda>p. te_mode (applyPreset p st) = Mode_Visual
     \<and> (\<exists>ts. te_config (applyPreset p st) = Some ts \<and> config_ok ts \<and> labels_balanced ts)
     \<and> tryParseRequestRuleExpr (te_rules (applyPreset p st)) = Ret (Some (te_groups (applyPreset p st)))) (concat (map snd PRESET_GROUPS))"
  unfolding all_presets_def [symmetric] list.pred_set
proof
  fix p assume p: "p \<in> set all_presets"
  obtain ts where "tryParseVisualConfig (preset_expr p) = Some ts" "config_ok ts" "labels_balanced ts"
    using preset_parsed p by (auto simp: list_all_iff)
  moreover have "list_all group_ok (preset_rules p)" using preset_rules_ok p by (simp add: list_all_iff)
  ultimately show "te_mode (applyPreset p st) = Mode_Visual \<and> (\<exists>ts. te_config (applyPreset p st) = Some ts \<and> config_ok ts \<and> labels_balanced ts)
     \<and> tryParseRequestRuleExpr (te_rules (applyPreset p st)) = Ret (Some (te_groups (applyPreset p st)))"
    using request_rules_back by (simp add: applyPreset_def Let_def)
qed

section \<open>Instances\<close>

definition sample_editor :: tiered_editor where
  "sample_editor = opened ''m'' sample_tiers sample_groups"

lemma sample_balanced: "labels_balanced sample_tiers"
  by code_simp

theorem effects_settle_witness:
  "effectiveExpr sample_editor = Ret (te_billing sample_editor)"
proof -
  have "settle 5 sample_editor = Ret sample_editor"
    using settled_stays [OF opened_settled [OF sample_groups_ok refl], where n = 5 and m1 = "''m''" and ts1 = sample_tiers]
    by (simp add: sample_editor_def opened_def Let_def)
  from effects_settle [OF this] show ?thesis by blast
qed

theorem editor_modes_roundtrip_witness:
  "te_config (handleModeChange Mode_Visual (handleModeChange Mode_Raw sample_editor)) = Some sample_tiers"
  using editor_modes_roundtrip [OF sample_tiers_ok sample_balanced sample_groups_ok, of sample_editor]
  by (simp add: sample_editor_def opened_def Let_def)

theorem opening_keeps_prices_witness:
  "\<exists>s s'. editor_mount ''m'' (generateExprFromVisualConfig (Some sample_tiers)) (buildRequestRuleExpr sample_groups) = Ret s
     \<and> settle 5 s = Ret s' \<and> te_config s' = Some sample_tiers"
  using opening_keeps_prices [OF sample_tiers_ok sample_groups_ok] by blast

definition cheaper_tiers :: visual_config where
  "cheaper_tiers = [priced_tier ''base'' [] (Dec 1 0) (Dec 2 0) []]"

lemma cheaper_tiers_ok: "config_ok cheaper_tiers"
  "generateExprFromVisualConfig (Some cheaper_tiers) \<noteq> generateExprFromVisualConfig (Some sample_tiers)"
  by code_simp+

theorem first_edit_drops_draft_witness:
  "\<exists>s2 s3. te_groups s2 = sample_groups @ [createEmptyRuleGroup] \<and> settle 5 (handleVisualChange cheaper_tiers s2) = Ret s3 \<and> te_groups s3 = sample_groups"
  using first_edit_drops_draft [OF sample_tiers_ok cheaper_tiers_ok sample_groups_ok] by blast

theorem add_tier_ok_witness: "config_ok sample_tiers \<and> config_ok (handleAddTier (Some sample_tiers))"
  using add_tier_ok [OF sample_tiers_ok] sample_tiers_ok by blast

lemma three_tiers: "config_ok (preset_tiers ! 4)" "2 < length (preset_tiers ! 4)"
  by code_simp+

theorem remove_fallback_ignores_condition_witness:
  "vt_conditions (last (butlast (preset_tiers ! 4))) \<noteq> []"
  using remove_fallback_ignores_condition [OF three_tiers] by blast

end
