(* ===== verification/Ratio_Sync.thy ===== *)
theory Ratio_Sync
  imports Json_Print
begin

text \<open>
  Synchronising prices with upstream channels: \<open>upstream-ratio-sync-helpers.ts\<close>, the bulk selection of
  \<open>upstream-ratio-sync-table.tsx\<close>, the endpoints of \<open>channel-selector-dialog.tsx\<close> and the state and handlers of
  \<open>upstream-ratio-sync.tsx\<close> (\<open>web/src/features/system-settings/models\<close>). The server reports, per model and field, the current value and the value of
  every upstream; the administrator picks values, which are kept as resolutions, and applies them to the settings.

  Objects are lists of properties in the order of the language (\<open>obj_put\<close>). A value is a number or a text; \<open>None\<close> is a
  missing or null one, which the code treats alike. The settings that are stored are parsed records here; the translation,
  the lower casing of the search and the requests are arguments or not modelled.
\<close>

section \<open>Data\<close>

datatype sync_value = SNum dec | SStr string

record diff_entry =
  de_current :: "sync_value option"
  de_upstreams :: "(string \<times> sync_value option) list"
  de_confidence :: "(string \<times> bool) list"

type_synonym model_diffs = "(string \<times> diff_entry) list"
type_synonym differences = "(string \<times> model_diffs) list"
type_synonym resolution = "(string \<times> sync_value) list"
type_synonym resolutions = "(string \<times> resolution) list"
type_synonym removal_plan = "(string \<times> string list) list"

record model_row =
  mr_model :: string
  mr_ratioTypes :: model_diffs
  mr_billingConflict :: bool

record selection =
  sel_model :: string
  sel_type :: string
  sel_value :: sync_value
  sel_source :: string

datatype category = Cat_Price | Cat_Ratio | Cat_Tiered

definition RATIO_SYNC_FIELDS :: "string list" where
  "RATIO_SYNC_FIELDS = [''model_ratio'', ''completion_ratio'', ''cache_ratio'', ''create_cache_ratio'', ''image_ratio'', ''audio_ratio'',
     ''audio_completion_ratio'']"

definition SYNC_FIELD_ORDER :: "string list" where
  "SYNC_FIELD_ORDER = RATIO_SYNC_FIELDS @ [''model_price'', ''billing_mode'', ''billing_expr'']"

definition NUMERIC_SYNC_FIELDS :: "string list" where
  "NUMERIC_SYNC_FIELDS = RATIO_SYNC_FIELDS @ [''model_price'']"

definition RATIO_TYPE_OPTIONS :: "(string \<times> string) list" where
  "RATIO_TYPE_OPTIONS = [(''model_ratio'', ''Model ratio''), (''completion_ratio'', ''Completion ratio''), (''cache_ratio'', ''Cache ratio''),
     (''create_cache_ratio'', ''Create cache ratio''), (''image_ratio'', ''Image ratio''), (''audio_ratio'', ''Audio ratio''),
     (''audio_completion_ratio'', ''Audio completion ratio''), (''model_price'', ''Fixed price''), (''billing_expr'', ''Expression billing'')]"

section \<open>Fields\<close>

definition getSyncFieldLabel :: "string \<Rightarrow> (string \<Rightarrow> string) \<Rightarrow> string" where
  "getSyncFieldLabel ratioType t = (case map_of RATIO_TYPE_OPTIONS ratioType of Some l \<Rightarrow> t l | None \<Rightarrow> ratioType)"

definition getOrderedRatioTypes :: "model_diffs \<Rightarrow> string \<Rightarrow> string list" where
  "getOrderedRatioTypes ratioTypes flt =
     (let keys = map fst ratioTypes;
          ordered = filter (\<lambda>f. f \<in> set keys) SYNC_FIELD_ORDER @ filter (\<lambda>f. f \<notin> set SYNC_FIELD_ORDER) keys
      in if flt = [] \<or> flt = ''__all__'' then ordered else filter (\<lambda>f. f = flt) ordered)"

definition upstream_of :: "model_diffs \<Rightarrow> string \<Rightarrow> string \<Rightarrow> sync_value option" where
  "upstream_of ratioTypes field source =
     Option.bind (map_of ratioTypes field) (\<lambda>e. Option.bind (map_of (de_upstreams e) source) id)"

definition isSelectableUpstreamValue :: "sync_value option \<Rightarrow> bool" where
  "isSelectableUpstreamValue v = (case v of None \<Rightarrow> False | Some x \<Rightarrow> x \<noteq> SStr ''same'')"

definition getPreferredSyncField :: "model_diffs \<Rightarrow> string \<Rightarrow> string \<Rightarrow> string" where
  "getPreferredSyncField ratioTypes ratioType sourceName =
     (if ratioType \<noteq> ''billing_expr'' \<and> isSelectableUpstreamValue (upstream_of ratioTypes ''billing_expr'' sourceName)
      then ''billing_expr'' else ratioType)"

definition getVisibleRatioTypesForSource :: "model_diffs \<Rightarrow> string \<Rightarrow> string \<Rightarrow> string list" where
  "getVisibleRatioTypesForSource ratioTypes sourceName flt =
     filter (\<lambda>r. getPreferredSyncField ratioTypes r sourceName = r) (getOrderedRatioTypes ratioTypes flt)"

definition getAlignedRatioTypes :: "model_diffs \<Rightarrow> string list \<Rightarrow> string \<Rightarrow> string list" where
  "getAlignedRatioTypes ratioTypes sourceNames flt =
     (let ordered = getOrderedRatioTypes ratioTypes flt
      in if sourceNames = [] then ordered
         else (let visible = concat (map (\<lambda>s. getVisibleRatioTypesForSource ratioTypes s flt) sourceNames)
               in filter (\<lambda>r. r \<in> set visible) ordered))"

definition getBillingCategory :: "string \<Rightarrow> category" where
  "getBillingCategory ratioType =
     (if ratioType = ''model_price'' then Cat_Price
      else if ratioType = ''billing_mode'' \<or> ratioType = ''billing_expr'' then Cat_Tiered
      else Cat_Ratio)"

text \<open>The names of the two presets the server adds, in UTF-8.\<close>

definition synthesizedPresets :: "(string \<times> int) list" where
  "synthesizedPresets =
     [([CHR 0xE5, CHR 0xAE, CHR 0x98, CHR 0xE6, CHR 0x96, CHR 0xB9, CHR 0xE5, CHR 0x80, CHR 0x8D, CHR 0xE7, CHR 0x8E, CHR 0x87,
        CHR 0xE9, CHR 0xA2, CHR 0x84, CHR 0xE8, CHR 0xAE, CHR 0xBE], - 100),
      (''models.dev '' @ [CHR 0xE4, CHR 0xBB, CHR 0xB7, CHR 0xE6, CHR 0xA0, CHR 0xBC, CHR 0xE9, CHR 0xA2, CHR 0x84, CHR 0xE8, CHR 0xAE, CHR 0xBE], - 101)]"

definition getUpstreamDisplayName :: "string \<Rightarrow> string" where
  "getUpstreamDisplayName sourceName =
     (case find (\<lambda>(n, i). sourceName = n @ ''('' @ int_str i @ '')'') synthesizedPresets of Some (n, _) \<Rightarrow> n | None \<Rightarrow> sourceName)"

fun value_number :: "sync_value \<Rightarrow> dec option" where
  "value_number (SNum d) = Some d"
| "value_number (SStr s) = str_number s"

definition isSelectedResolutionValue :: "resolutions \<Rightarrow> string \<Rightarrow> string \<Rightarrow> sync_value option \<Rightarrow> bool" where
  "isSelectedResolutionValue res model ratioType upstreamValue =
     (if \<not> isSelectableUpstreamValue upstreamValue then False
      else (case Option.bind (map_of res model) (\<lambda>r. map_of r ratioType) of
              None \<Rightarrow> False
            | Some selectedValue \<Rightarrow>
                if ratioType \<in> set NUMERIC_SYNC_FIELDS
                then (case (value_number selectedValue, Option.bind upstreamValue value_number) of (Some a, Some b) \<Rightarrow> a = b | _ \<Rightarrow> False)
                else Some selectedValue = upstreamValue))"

section \<open>Selecting\<close>

definition getDraftModelResolution :: "(string \<times> resolution) list \<Rightarrow> resolutions \<Rightarrow> string \<Rightarrow> resolution" where
  "getDraftModelResolution drafts res model =
     (case map_of drafts model of
        Some d \<Rightarrow> d
      | None \<Rightarrow> (case map_of res model of Some r \<Rightarrow> r | None \<Rightarrow> []))"

definition model_diffs_of :: "differences \<Rightarrow> string \<Rightarrow> model_diffs" where
  "model_diffs_of diffs model = (case map_of diffs model of Some d \<Rightarrow> d | None \<Rightarrow> [])"

definition resolveResolutionSelection :: "differences \<Rightarrow> selection \<Rightarrow> selection" where
  "resolveResolutionSelection diffs s =
     (let modelDiffs = model_diffs_of diffs (sel_model s);
          preferredType = getPreferredSyncField modelDiffs (sel_type s) (sel_source s);
          preferredValue = (if preferredType = sel_type s then sel_value s
             else (case upstream_of modelDiffs preferredType (sel_source s) of Some v \<Rightarrow> v | None \<Rightarrow> sel_value s))
      in s\<lparr>sel_type := preferredType, sel_value := preferredValue\<rparr>)"

definition drop_other_category :: "category \<Rightarrow> resolution \<Rightarrow> resolution" where
  "drop_other_category cat r =
     filter (\<lambda>(rt, v). \<not> (cat \<noteq> Cat_Tiered \<and> getBillingCategory rt \<noteq> Cat_Tiered \<and> getBillingCategory rt \<noteq> cat)) r"

definition put_selectable :: "string \<Rightarrow> sync_value option \<Rightarrow> resolution \<Rightarrow> resolution" where
  "put_selectable k v r = (if isSelectableUpstreamValue v then obj_put k (the v) r else r)"

text \<open>The mode and the expression of the source are taken over together.\<close>

definition put_tiered :: "differences \<Rightarrow> selection \<Rightarrow> resolution \<Rightarrow> resolution" where
  "put_tiered diffs s r =
     (case map_of diffs (sel_model s) of
        None \<Rightarrow> r
      | Some modelDiffs \<Rightarrow>
          if getBillingCategory (sel_type s) \<noteq> Cat_Tiered then r
          else (let modeVal = upstream_of modelDiffs ''billing_mode'' (sel_source s);
                    exprVal = upstream_of modelDiffs ''billing_expr'' (sel_source s);
                    r1 = (if isSelectableUpstreamValue modeVal then obj_put ''billing_mode'' (the modeVal) r
                          else if sel_type s = ''billing_expr'' then obj_put ''billing_mode'' (SStr ''tiered_expr'') r else r)
                in put_selectable ''billing_expr'' exprVal r1))"

definition applyResolutionSelectionToDraft ::
  "resolutions \<Rightarrow> differences \<Rightarrow> selection \<Rightarrow> (string \<times> resolution) list \<Rightarrow> (string \<times> resolution) list" where
  "applyResolutionSelectionToDraft res diffs selection drafts =
     (let s = resolveResolutionSelection diffs selection;
          newModelRes = drop_other_category (getBillingCategory (sel_type s)) (getDraftModelResolution drafts res (sel_model s))
      in AList.update (sel_model s) (put_tiered diffs s (obj_put (sel_type s) (sel_value s) newModelRes)) drafts)"

definition store_draft :: "string \<times> resolution \<Rightarrow> resolutions \<Rightarrow> resolutions" where
  "store_draft d nx = (if snd d = [] then obj_del (fst d) nx else obj_put (fst d) (snd d) nx)"

definition applyResolutionSelections :: "resolutions \<Rightarrow> differences \<Rightarrow> selection list \<Rightarrow> resolutions" where
  "applyResolutionSelections res diffs selections =
     (if selections = [] then res
      else fold store_draft (fold (applyResolutionSelectionToDraft res diffs) selections []) res)"

definition applyResolutionSelection :: "resolutions \<Rightarrow> differences \<Rightarrow> selection \<Rightarrow> resolutions" where
  "applyResolutionSelection res diffs s = applyResolutionSelections res diffs [s]"

text \<open>The map of effective selections has a text of model and field as its key.\<close>

definition effective_key :: "selection \<Rightarrow> string" where
  "effective_key s = sel_model s @ [CHR 0x00] @ sel_type s"

definition effective_step :: "differences \<Rightarrow> selection \<Rightarrow> (string \<times> selection) list \<Rightarrow> (string \<times> selection) list" where
  "effective_step diffs selection eff =
     (let s = resolveResolutionSelection diffs selection; cat = getBillingCategory (sel_type s);
          eff' = (if cat \<noteq> Cat_Tiered
                  then filter (\<lambda>(k, e). \<not> (sel_model e = sel_model s \<and> getBillingCategory (sel_type e) \<noteq> Cat_Tiered
                                          \<and> getBillingCategory (sel_type e) \<noteq> cat)) eff
                  else eff)
      in AList.update (effective_key s) s eff')"

definition getEffectiveResolutionSelections :: "differences \<Rightarrow> selection list \<Rightarrow> selection list" where
  "getEffectiveResolutionSelections diffs selections = map snd (fold (effective_step diffs) selections [])"

section \<open>Removing\<close>

definition remove_field :: "string \<Rightarrow> resolution \<Rightarrow> resolution" where
  "remove_field ratioType draft =
     (let d = obj_del ratioType draft;
          d1 = (if ratioType = ''billing_expr'' then obj_del ''billing_mode'' d else d)
      in if ratioType = ''billing_mode'' then obj_del ''billing_expr'' d1 else d1)"

definition removal_step :: "resolutions \<Rightarrow> string \<times> string list \<Rightarrow> resolutions \<Rightarrow> resolutions" where
  "removal_step res p nx =
     (case map_of res (fst p) of
        None \<Rightarrow> nx
      | Some current \<Rightarrow> store_draft (fst p, fold remove_field (snd p) current) nx)"

definition applyResolutionRemovalPlan :: "resolutions \<Rightarrow> removal_plan \<Rightarrow> resolutions" where
  "applyResolutionRemovalPlan res plan = (if plan = [] then res else fold (removal_step res) plan res)"

definition plan_add :: "string \<Rightarrow> string \<Rightarrow> removal_plan \<Rightarrow> removal_plan" where
  "plan_add model ratioType plan =
     (case map_of plan model of
        Some ts \<Rightarrow> AList.update model (if ratioType \<in> set ts then ts else ts @ [ratioType]) plan
      | None \<Rightarrow> AList.update model [ratioType] plan)"

definition applyResolutionRemovals :: "resolutions \<Rightarrow> (string \<times> string) list \<Rightarrow> resolutions" where
  "applyResolutionRemovals res removals =
     (if removals = [] then res else applyResolutionRemovalPlan res (fold (\<lambda>(m, r). plan_add m r) removals []))"

definition deleteResolutionField :: "resolutions \<Rightarrow> string \<Rightarrow> string \<Rightarrow> resolutions" where
  "deleteResolutionField res model ratioType = applyResolutionRemovals res [(model, ratioType)]"

section \<open>The table\<close>

definition dataSource :: "differences \<Rightarrow> model_row list" where
  "dataSource diffs = map (\<lambda>(model, ratioTypes).
     \<lparr>mr_model = model, mr_ratioTypes = ratioTypes,
      mr_billingConflict = ''model_price'' \<in> fst ` set ratioTypes \<and> list_ex (\<lambda>rt. rt \<in> fst ` set ratioTypes) RATIO_SYNC_FIELDS\<rparr>) diffs"

definition filteredData :: "(string \<Rightarrow> string) \<Rightarrow> string \<Rightarrow> string \<Rightarrow> model_row list \<Rightarrow> model_row list" where
  "filteredData lower search flt rows =
     (let d1 = (if js_trim search \<noteq> [] then filter (\<lambda>r. sublist (lower search) (lower (mr_model r))) rows else rows)
      in if flt \<noteq> [] \<and> flt \<noteq> ''__all__'' then filter (\<lambda>r. flt \<in> fst ` set (mr_ratioTypes r)) d1 else d1)"

definition upstreamNames :: "string \<Rightarrow> model_row list \<Rightarrow> string list" where
  "upstreamNames flt rows = js_uniq (concat (map (\<lambda>row.
     concat (map (\<lambda>rt. case map_of (mr_ratioTypes row) rt of Some e \<Rightarrow> map fst (de_upstreams e) | None \<Rightarrow> [])
       (getOrderedRatioTypes (mr_ratioTypes row) flt))) rows))"

definition row_selections :: "string \<Rightarrow> string \<Rightarrow> model_row \<Rightarrow> selection list" where
  "row_selections upstreamName flt row =
     List.map_filter (\<lambda>rt. let v = upstream_of (mr_ratioTypes row) rt upstreamName
       in if isSelectableUpstreamValue v
          then Some \<lparr>sel_model = mr_model row, sel_type = rt, sel_value = the v, sel_source = upstreamName\<rparr> else None)
       (getAlignedRatioTypes (mr_ratioTypes row) [upstreamName] flt)"

record bulk_state =
  bs_displayName :: string
  bs_selections :: "selection list"
  bs_removalPlan :: removal_plan
  bs_selectableCount :: nat
  bs_selectedCount :: nat

definition is_selected :: "resolutions \<Rightarrow> selection \<Rightarrow> bool" where
  "is_selected res s = isSelectedResolutionValue res (sel_model s) (sel_type s) (Some (sel_value s))"

definition bulkSelectState :: "differences \<Rightarrow> resolutions \<Rightarrow> string \<Rightarrow> model_row list \<Rightarrow> string \<Rightarrow> bulk_state" where
  "bulkSelectState diffs res flt rows upstreamName =
     (let selections = concat (map (row_selections upstreamName flt) rows);
          effective = getEffectiveResolutionSelections diffs selections
      in \<lparr>bs_displayName = getUpstreamDisplayName upstreamName, bs_selections = effective,
          bs_removalPlan = fold (\<lambda>s. plan_add (sel_model s) (sel_type s)) selections [],
          bs_selectableCount = length effective, bs_selectedCount = length (filter (is_selected res) effective)\<rparr>)"

text \<open>The checkbox of a column: checked, or partly checked.\<close>

definition column_checkbox :: "bulk_state \<Rightarrow> bool \<times> bool" where
  "column_checkbox b =
     (bs_selectableCount b > 0 \<and> bs_selectedCount b = bs_selectableCount b,
      bs_selectedCount b > 0 \<and> bs_selectedCount b < bs_selectableCount b)"

section \<open>Channels\<close>

text \<open>The channels a price list is fetched from, and the endpoint of each. A channel without an endpoint has the empty text.\<close>

record upstream_channel =
  uc_id :: int
  uc_name :: string
  uc_base_url :: string
  uc_status :: int
  uc_type :: "int option"

type_synonym endpoints = "(int \<times> string) list"

definition DEFAULT_ENDPOINT :: string where
  "DEFAULT_ENDPOINT = ''/api/pricing''"

definition ENDPOINT_OPTIONS :: "string list" where
  "ENDPOINT_OPTIONS = [''/api/pricing'', ''/api/ratio_config'', ''openrouter'', ''custom'']"

definition getDefaultEndpointForChannel :: "upstream_channel \<Rightarrow> string" where
  "getDefaultEndpointForChannel c =
     (if uc_id c = - 101 then ''https://models.dev/api.json''
      else if uc_id c = - 100 then ''/llm-metadata/api/newapi/ratio_config-v1-base.json''
      else if uc_type c = Some 20 then ''openrouter''
      else DEFAULT_ENDPOINT)"

definition endpoint_of :: "endpoints \<Rightarrow> int \<Rightarrow> string" where
  "endpoint_of es i = (case map_of es i of Some e \<Rightarrow> e | None \<Rightarrow> [])"

definition current_endpoint :: "endpoints \<Rightarrow> int \<Rightarrow> string" where
  "current_endpoint es i = (if endpoint_of es i = [] then DEFAULT_ENDPOINT else endpoint_of es i)"

definition fill_endpoints :: "upstream_channel list \<Rightarrow> endpoints \<Rightarrow> endpoints" where
  "fill_endpoints channels es =
     fold (\<lambda>c es. if endpoint_of es (uc_id c) = [] then AList.update (uc_id c) (getDefaultEndpointForChannel c) es else es) channels es"

definition updateEndpoint :: "int \<Rightarrow> string \<Rightarrow> endpoints \<Rightarrow> endpoints" where
  "updateEndpoint i e es = AList.update i e es"

definition getEndpointType :: "string \<Rightarrow> string" where
  "getEndpointType endpoint = (if endpoint \<in> set ENDPOINT_OPTIONS then endpoint else ''custom'')"

definition handleTypeChange :: "int \<Rightarrow> string \<Rightarrow> endpoints \<Rightarrow> endpoints" where
  "handleTypeChange i v es = (if v = ''custom'' then updateEndpoint i [] es else updateEndpoint i v es)"

definition isOfficialChannel :: "upstream_channel \<Rightarrow> bool" where
  "isOfficialChannel c \<longleftrightarrow> uc_id c = - 100 \<or> uc_id c = - 101"

definition filteredChannels :: "(string \<Rightarrow> string) \<Rightarrow> string \<Rightarrow> upstream_channel list \<Rightarrow> upstream_channel list" where
  "filteredChannels lower search channels =
     (if js_trim search = [] then channels
      else filter (\<lambda>c. sublist (lower search) (lower (uc_name c)) \<or> sublist (lower search) (lower (uc_base_url c))) channels)"

definition sortedChannels :: "upstream_channel list \<Rightarrow> upstream_channel list" where
  "sortedChannels channels = sort_key (\<lambda>c. if isOfficialChannel c then 0 else (1 :: nat)) channels"

definition restored_rows :: "int list \<Rightarrow> upstream_channel list \<Rightarrow> int list" where
  "restored_rows selectedIds channels = filter (\<lambda>i. i \<in> uc_id ` set channels) selectedIds"

record upstream_config =
  up_id :: int
  up_name :: string
  up_base_url :: string
  up_endpoint :: string

text \<open>Nothing is fetched, \<open>None\<close>, without a selected channel.\<close>

definition handleConfirmChannelSelection :: "upstream_channel list \<Rightarrow> endpoints \<Rightarrow> int list \<Rightarrow> upstream_config list option" where
  "handleConfirmChannelSelection channels es selectedIds =
     (let selected = filter (\<lambda>c. uc_id c \<in> set selectedIds) channels
      in if selected = [] then None
         else Some (map (\<lambda>c. \<lparr>up_id = uc_id c, up_name = uc_name c, up_base_url = uc_base_url c, up_endpoint = current_endpoint es (uc_id c)\<rparr>) selected))"

section \<open>The component\<close>

record sync_state =
  ss_differences :: differences
  ss_resolutions :: resolutions

definition init_sync :: sync_state where
  "init_sync = \<lparr>ss_differences = [], ss_resolutions = []\<rparr>"

definition drop_fixed_prices :: "differences \<Rightarrow> differences" where
  "drop_fixed_prices diffs = filter (\<lambda>(m, r). r \<noteq> []) (map (\<lambda>(m, r). (m, obj_del ''model_price'' r)) diffs)"

text \<open>A response that reports no success, \<open>None\<close>, changes nothing.\<close>

definition on_fetched :: "bool \<Rightarrow> differences option \<Rightarrow> sync_state \<Rightarrow> sync_state" where
  "on_fetched includeModelFixedPrice data st =
     (case data of
        None \<Rightarrow> st
      | Some diffs \<Rightarrow> st\<lparr>ss_differences := (if includeModelFixedPrice then diffs else drop_fixed_prices diffs), ss_resolutions := []\<rparr>)"

definition drop_resolved :: "string \<times> resolution \<Rightarrow> differences \<Rightarrow> differences" where
  "drop_resolved mr diffs =
     fold (\<lambda>rt d. case map_of d (fst mr) of
             None \<Rightarrow> d
           | Some r \<Rightarrow> if rt \<in> fst ` set r
                       then (if obj_del rt r = [] then obj_del (fst mr) d else AList.update (fst mr) (obj_del rt r) d) else d)
       (map fst (snd mr)) diffs"

definition on_synced :: "sync_state \<Rightarrow> sync_state" where
  "on_synced st = st\<lparr>ss_differences := fold drop_resolved (ss_resolutions st) (ss_differences st), ss_resolutions := []\<rparr>"

definition handleSelectValue :: "selection \<Rightarrow> sync_state \<Rightarrow> sync_state" where
  "handleSelectValue s st = st\<lparr>ss_resolutions := applyResolutionSelection (ss_resolutions st) (ss_differences st) s\<rparr>"

definition handleSelectValues :: "selection list \<Rightarrow> sync_state \<Rightarrow> sync_state" where
  "handleSelectValues ss st = (if ss = [] then st
     else st\<lparr>ss_resolutions := applyResolutionSelections (ss_resolutions st) (ss_differences st) ss\<rparr>)"

definition handleUnselectValue :: "string \<Rightarrow> string \<Rightarrow> sync_state \<Rightarrow> sync_state" where
  "handleUnselectValue model ratioType st = st\<lparr>ss_resolutions := deleteResolutionField (ss_resolutions st) model ratioType\<rparr>"

definition handleUnselectValues :: "removal_plan \<Rightarrow> sync_state \<Rightarrow> sync_state" where
  "handleUnselectValues plan st = (if plan = [] then st else st\<lparr>ss_resolutions := applyResolutionRemovalPlan (ss_resolutions st) plan\<rparr>)"

definition handleBulkSelect :: "string \<Rightarrow> model_row list \<Rightarrow> string \<Rightarrow> sync_state \<Rightarrow> sync_state" where
  "handleBulkSelect flt rows upstream st =
     handleSelectValues (if upstream \<in> set (upstreamNames flt rows)
       then bs_selections (bulkSelectState (ss_differences st) (ss_resolutions st) flt rows upstream) else []) st"

definition handleBulkUnselect :: "string \<Rightarrow> model_row list \<Rightarrow> string \<Rightarrow> sync_state \<Rightarrow> sync_state" where
  "handleBulkUnselect flt rows upstream st =
     handleUnselectValues (if upstream \<in> set (upstreamNames flt rows)
       then bs_removalPlan (bulkSelectState (ss_differences st) (ss_resolutions st) flt rows upstream) else []) st"

section \<open>Applying\<close>

text \<open>The settings: per option key the values of the models.\<close>

type_synonym settings = "(string \<times> (string \<times> json) list) list"

definition capitalize :: "string \<Rightarrow> string" where
  "capitalize w = (case w of [] \<Rightarrow> [] | c # r \<Rightarrow> (if 97 \<le> (of_char c :: nat) \<and> (of_char c :: nat) \<le> 122 then char_of (of_char c - 32 :: nat) else c) # r)"

definition optionKeyBySyncField :: "string \<Rightarrow> string" where
  "optionKeyBySyncField ratioType =
     (if ratioType = ''billing_mode'' then ''billing_setting.billing_mode''
      else if ratioType = ''billing_expr'' then ''billing_setting.billing_expr''
      else concat (map capitalize (js_split (CHR ''_'') ratioType)))"

definition RATIO_KEYS :: "string list" where
  "RATIO_KEYS = [''ModelRatio'', ''CompletionRatio'', ''CacheRatio'', ''CreateCacheRatio'', ''ImageRatio'', ''AudioRatio'', ''AudioCompletionRatio'']"

definition OPTION_KEYS :: "string list" where
  "OPTION_KEYS = RATIO_KEYS @ [''ModelPrice'', ''billing_setting.billing_mode'', ''billing_setting.billing_expr'']"

definition setting_of :: "settings \<Rightarrow> string \<Rightarrow> string \<Rightarrow> json option" where
  "setting_of cur k model = Option.bind (map_of cur k) (\<lambda>r. map_of r model)"

definition getLocalBillingCategory :: "bool \<Rightarrow> string \<Rightarrow> settings \<Rightarrow> category option" where
  "getLocalBillingCategory includeModelFixedPrice model cur =
     (if includeModelFixedPrice \<and> setting_of cur ''ModelPrice'' model \<noteq> None then Some Cat_Price
      else if list_ex (\<lambda>k. setting_of cur k model \<noteq> None) RATIO_KEYS then Some Cat_Ratio
      else None)"

definition update_setting :: "string \<Rightarrow> ((string \<times> json) list \<Rightarrow> (string \<times> json) list) \<Rightarrow> settings \<Rightarrow> settings" where
  "update_setting k f cur = map (\<lambda>(k', r). (k', if k' = k then f r else r)) cur"

definition stored_value :: "string \<Rightarrow> sync_value \<Rightarrow> json" where
  "stored_value ratioType v =
     (if ratioType \<in> set NUMERIC_SYNC_FIELDS then (case value_number v of Some d \<Rightarrow> JNum d | None \<Rightarrow> JNull)
      else (case v of SNum d \<Rightarrow> JNum d | SStr s \<Rightarrow> JStr s))"

text \<open>A field without a setting raises an error, \<open>None\<close>.\<close>

fun store_fields :: "bool \<Rightarrow> string \<Rightarrow> resolution \<Rightarrow> settings \<Rightarrow> settings option" where
  "store_fields incl model [] fin = Some fin"
| "store_fields incl model ((ratioType, v) # r) fin =
     (if \<not> incl \<and> ratioType = ''model_price'' then store_fields incl model r fin
      else (let k = optionKeyBySyncField ratioType
            in if k \<in> fst ` set fin then store_fields incl model r (update_setting k (obj_put model (stored_value ratioType v)) fin)
               else None))"

definition clear_conflicting :: "bool \<Rightarrow> string \<Rightarrow> resolution \<Rightarrow> settings \<Rightarrow> settings" where
  "clear_conflicting incl model r fin =
     (let selectedTypes = map fst r;
          hasPrice = (incl \<and> ''model_price'' \<in> set selectedTypes);
          hasRatio = list_ex (\<lambda>rt. rt \<in> set RATIO_SYNC_FIELDS) selectedTypes;
          f1 = (if hasPrice then fold (\<lambda>k. update_setting k (obj_del model)) RATIO_KEYS fin else fin)
      in if hasRatio \<and> incl then update_setting ''ModelPrice'' (obj_del model) f1 else f1)"

fun sync_models :: "bool \<Rightarrow> resolutions \<Rightarrow> settings \<Rightarrow> settings option" where
  "sync_models incl [] fin = Some fin"
| "sync_models incl ((model, r) # rs) fin =
     (case store_fields incl model r (clear_conflicting incl model r fin) of None \<Rightarrow> None | Some f \<Rightarrow> sync_models incl rs f)"

definition final_ratios :: "bool \<Rightarrow> resolutions \<Rightarrow> settings \<Rightarrow> settings option" where
  "final_ratios incl res cur = sync_models incl res (map (\<lambda>k. (k, if k = ''ModelPrice'' \<and> \<not> incl then [] else (case map_of cur k of Some r \<Rightarrow> r | None \<Rightarrow> []))) OPTION_KEYS)"

definition performSync :: "bool \<Rightarrow> resolutions \<Rightarrow> settings \<Rightarrow> (string \<times> string) list option" where
  "performSync incl res cur =
     (case final_ratios incl res cur of
        None \<Rightarrow> None
      | Some fin \<Rightarrow> Some (map (\<lambda>(k, r). (k, json_stringify2 (JObj r))) (filter (\<lambda>(k, r). incl \<or> k \<noteq> ''ModelPrice'') fin)))"

section \<open>Conflicts\<close>

record conflict_item =
  ci_channel :: string
  ci_model :: string
  ci_current :: string
  ci_newVal :: string

fun sync_string :: "sync_value \<Rightarrow> string" where
  "sync_string (SNum d) = dec_str d"
| "sync_string (SStr s) = s"

definition findSourceChannel :: "differences \<Rightarrow> string \<Rightarrow> string \<Rightarrow> sync_value \<Rightarrow> string" where
  "findSourceChannel diffs model ratioType v =
     (case map_of (model_diffs_of diffs model) ratioType of
        None \<Rightarrow> ''Unknown''
      | Some e \<Rightarrow> (case find (\<lambda>(n, x). x = Some v) (de_upstreams e) of Some (n, _) \<Rightarrow> n | None \<Rightarrow> ''Unknown''))"

definition new_category :: "bool \<Rightarrow> resolution \<Rightarrow> category" where
  "new_category incl r =
     (if incl \<and> ''model_price'' \<in> fst ` set r then Cat_Price
      else if list_ex (\<lambda>rt. rt \<in> fst ` set r) RATIO_SYNC_FIELDS then Cat_Ratio
      else Cat_Tiered)"

definition or_dash :: "json option \<Rightarrow> string" where
  "or_dash v = (case v of None \<Rightarrow> ''-'' | Some JNull \<Rightarrow> ''-'' | Some j \<Rightarrow> json_string j)"

definition current_desc :: "(string \<Rightarrow> string) \<Rightarrow> category \<Rightarrow> string \<Rightarrow> settings \<Rightarrow> string" where
  "current_desc t cat model cur =
     (if cat = Cat_Price
      then t ''Fixed price'' @ '': '' @ (case setting_of cur ''ModelPrice'' model of Some j \<Rightarrow> json_string j | None \<Rightarrow> ''undefined'')
      else t ''Model ratio'' @ '': '' @ or_dash (setting_of cur ''ModelRatio'' model) @ [CHR 0x0A]
        @ t ''Completion ratio'' @ '': '' @ or_dash (setting_of cur ''CompletionRatio'' model))"

definition value_or_dash :: "sync_value option \<Rightarrow> string" where
  "value_or_dash v = (case v of None \<Rightarrow> ''-'' | Some x \<Rightarrow> sync_string x)"

definition new_desc :: "(string \<Rightarrow> string) \<Rightarrow> category \<Rightarrow> resolution \<Rightarrow> string" where
  "new_desc t cat r =
     (if cat = Cat_Price
      then t ''Fixed price'' @ '': '' @ (case map_of r ''model_price'' of Some x \<Rightarrow> sync_string x | None \<Rightarrow> ''undefined'')
      else t ''Model ratio'' @ '': '' @ value_or_dash (map_of r ''model_ratio'') @ [CHR 0x0A]
        @ t ''Completion ratio'' @ '': '' @ value_or_dash (map_of r ''completion_ratio''))"

definition conflict_of :: "(string \<Rightarrow> string) \<Rightarrow> bool \<Rightarrow> differences \<Rightarrow> settings \<Rightarrow> string \<times> resolution \<Rightarrow> conflict_item option" where
  "conflict_of t incl diffs cur mr =
     (let model = fst mr; r = snd mr; newCat = new_category incl r
      in case getLocalBillingCategory incl model cur of
           None \<Rightarrow> None
         | Some localCat \<Rightarrow>
             if newCat \<noteq> Cat_Tiered \<and> localCat \<noteq> newCat
             then Some \<lparr>ci_channel = js_join '', '' (js_uniq (map (\<lambda>(rt, v). findSourceChannel diffs model rt v) r)),
                    ci_model = model, ci_current = current_desc t localCat model cur, ci_newVal = new_desc t newCat r\<rparr>
             else None)"

text \<open>Without conflicts the synchronisation starts, otherwise the conflicts are shown for confirmation.\<close>

definition handleApplySync ::
  "(string \<Rightarrow> string) \<Rightarrow> bool \<Rightarrow> settings \<Rightarrow> sync_state \<Rightarrow> conflict_item list + (string \<times> string) list option" where
  "handleApplySync t incl cur st =
     (let conflicts = List.map_filter (conflict_of t incl (ss_differences st) cur) (ss_resolutions st)
      in if conflicts \<noteq> [] then Inl conflicts else Inr (performSync incl (ss_resolutions st) cur))"

end
