(* ===== verification/Ratio_Choice.thy ===== *)
theory Ratio_Choice
  imports Ratio_Sync
begin

text \<open>
  The chosen prices: the invariant of the resolutions over every interaction with the page, the checkbox of a column, which
  selects and clears all of its values, and the endpoints that can be set for a channel.
\<close>

section \<open>Resolutions stay consistent\<close>

text \<open>A resolution has one value per field, known fields only, never a fixed price together with a ratio, and the mode with every
  expression.\<close>

definition unmixed :: "resolution \<Rightarrow> bool" where
  "unmixed r \<longleftrightarrow> \<not> (''model_price'' \<in> fst ` set r \<and> list_ex (\<lambda>rt. rt \<in> set RATIO_SYNC_FIELDS) (map fst r))"

definition paired :: "resolution \<Rightarrow> bool" where
  "paired r \<longleftrightarrow> (''billing_expr'' \<in> fst ` set r \<longrightarrow> ''billing_mode'' \<in> fst ` set r)"

definition resolution_ok :: "resolution \<Rightarrow> bool" where
  "resolution_ok r \<longleftrightarrow> keys_ok r \<and> fst ` set r \<subseteq> set SYNC_FIELD_ORDER \<and> unmixed r \<and> paired r"

definition resolutions_ok :: "resolutions \<Rightarrow> bool" where
  "resolutions_ok res \<longleftrightarrow> keys_ok res \<and> list_all (\<lambda>(m, r). r \<noteq> [] \<and> resolution_ok r) res"

text \<open>The categories of the known fields.\<close>

lemma field_categories:
  "rt \<in> set SYNC_FIELD_ORDER \<Longrightarrow> rt \<in> set RATIO_SYNC_FIELDS \<longleftrightarrow> getBillingCategory rt = Cat_Ratio"
  "rt \<in> set RATIO_SYNC_FIELDS \<Longrightarrow> getBillingCategory rt = Cat_Ratio"
  "getBillingCategory rt = Cat_Price \<longleftrightarrow> rt = ''model_price''"
  by (auto simp: SYNC_FIELD_ORDER_def RATIO_SYNC_FIELDS_def getBillingCategory_def)

lemma unmixed_categories:
  assumes "fst ` set r \<subseteq> set SYNC_FIELD_ORDER"
  shows "unmixed r \<longleftrightarrow> \<not> (''model_price'' \<in> fst ` set r \<and> (\<exists>b \<in> fst ` set r. getBillingCategory b = Cat_Ratio))"
proof -
  have "list_ex (\<lambda>rt. rt \<in> set RATIO_SYNC_FIELDS) (map fst r) \<longleftrightarrow> (\<exists>b \<in> fst ` set r. b \<in> set RATIO_SYNC_FIELDS)" by (simp add: list_ex_iff)
  moreover have "b \<in> set RATIO_SYNC_FIELDS \<longleftrightarrow> getBillingCategory b = Cat_Ratio" if "b \<in> fst ` set r" for b
    using that assms field_categories(1) by blast
  ultimately show ?thesis unfolding unmixed_def by blast
qed

lemma drop_other_keys:
  "fst ` set (drop_other_category cat r) = {rt \<in> fst ` set r. cat = Cat_Tiered \<or> getBillingCategory rt = Cat_Tiered \<or> getBillingCategory rt = cat}"
  by (force simp: drop_other_category_def)

lemma put_selectable_keys: "fst ` set (put_selectable k v r) = (if isSelectableUpstreamValue v then insert k (fst ` set r) else fst ` set r)"
  by (simp add: put_selectable_def keys_put_set)

definition tiered_keys :: "differences \<Rightarrow> selection \<Rightarrow> string set" where
  "tiered_keys diffs s =
     (case map_of diffs (sel_model s) of
        None \<Rightarrow> {}
      | Some d \<Rightarrow>
          if getBillingCategory (sel_type s) \<noteq> Cat_Tiered then {}
          else (if isSelectableUpstreamValue (upstream_of d ''billing_mode'' (sel_source s)) \<or> sel_type s = ''billing_expr'' then {''billing_mode''} else {})
             \<union> (if isSelectableUpstreamValue (upstream_of d ''billing_expr'' (sel_source s)) then {''billing_expr''} else {}))"

lemma put_tiered_keys: "fst ` set (put_tiered diffs s r) = fst ` set r \<union> tiered_keys diffs s"
  by (cases "map_of diffs (sel_model s)") (simp_all add: put_tiered_def tiered_keys_def Let_def keys_put_set put_selectable_keys)

lemma tiered_keys_sub: "tiered_keys diffs s \<subseteq> {''billing_mode'', ''billing_expr''}"
  "getBillingCategory (sel_type s) \<noteq> Cat_Tiered \<Longrightarrow> tiered_keys diffs s = {}"
  "sel_type s = ''billing_expr'' \<Longrightarrow> map_of diffs (sel_model s) \<noteq> None \<Longrightarrow> ''billing_mode'' \<in> tiered_keys diffs s"
  by (auto simp: tiered_keys_def getBillingCategory_def split: option.split)

lemma put_tiered_keys_ok: "keys_ok r \<Longrightarrow> keys_ok (put_tiered diffs s r)"
  by (simp add: put_tiered_def put_selectable_def Let_def keys_ok_put split: option.split)

lemma drop_other_keys_ok: "keys_ok r \<Longrightarrow> keys_ok (drop_other_category cat r)"
  by (simp add: drop_other_category_def keys_ok_filter)

lemma selected_ok:
  assumes r: "resolution_ok r" and s: "sel_type s \<in> set SYNC_FIELD_ORDER" "map_of diffs (sel_model s) \<noteq> None"
  shows "resolution_ok (put_tiered diffs s (obj_put (sel_type s) v (drop_other_category (getBillingCategory (sel_type s)) r)))"
proof -
  let ?c = "getBillingCategory (sel_type s)" and ?T = "tiered_keys diffs s"
  let ?new = "put_tiered diffs s (obj_put (sel_type s) v (drop_other_category ?c r))"
  have new: "fst ` set ?new = insert (sel_type s) {rt \<in> fst ` set r. ?c = Cat_Tiered \<or> getBillingCategory rt = Cat_Tiered \<or> getBillingCategory rt = ?c} \<union> ?T"
    by (simp add: put_tiered_keys keys_put_set drop_other_keys)
  have tiered: "getBillingCategory ''billing_mode'' = Cat_Tiered" "getBillingCategory ''billing_expr'' = Cat_Tiered"
    "getBillingCategory ''model_price'' = Cat_Price" "{''billing_mode'', ''billing_expr''} \<subseteq> set SYNC_FIELD_ORDER"
    by (simp_all add: getBillingCategory_def SYNC_FIELD_ORDER_def)
  have old: "fst ` set r \<subseteq> set SYNC_FIELD_ORDER" "\<not> (''model_price'' \<in> fst ` set r \<and> (\<exists>b \<in> fst ` set r. getBillingCategory b = Cat_Ratio))" "paired r"
    using r unmixed_categories [of r] by (simp_all add: resolution_ok_def)
  have keys: "fst ` set ?new \<subseteq> set SYNC_FIELD_ORDER" unfolding new using old(1) s(1) tiered_keys_sub(1) [of diffs s] tiered(4) by blast
  moreover have "unmixed ?new"
  proof -
    have T: "getBillingCategory b = Cat_Tiered" if "b \<in> ?T" for b using that tiered_keys_sub(1) [of diffs s] tiered(1,2) by blast
    show ?thesis unfolding unmixed_categories [OF keys] new
      using T old(2) tiered(3) by (cases ?c) (auto dest: T)
  qed
  moreover have "paired ?new"
    unfolding paired_def new
    using old(3) tiered_keys_sub(2) [of s diffs] tiered_keys_sub(3) [of s diffs] s(2) tiered
    by (cases ?c) (auto simp: paired_def getBillingCategory_def split: if_splits)
  moreover have "keys_ok ?new" using r by (simp add: resolution_ok_def put_tiered_keys_ok keys_ok_put drop_other_keys_ok)
  ultimately show ?thesis by (simp add: resolution_ok_def)
qed

definition selection_ok :: "differences \<Rightarrow> selection \<Rightarrow> bool" where
  "selection_ok diffs s \<longleftrightarrow> sel_type s \<in> set SYNC_FIELD_ORDER \<and> sel_model s \<in> fst ` set diffs"

lemma resolved_ok: "selection_ok diffs s \<Longrightarrow> selection_ok diffs (resolveResolutionSelection diffs s)"
  by (auto simp: selection_ok_def resolveResolutionSelection_def getPreferredSyncField_def SYNC_FIELD_ORDER_def Let_def)

definition drafts_ok :: "(string \<times> resolution) list \<Rightarrow> bool" where
  "drafts_ok ds \<longleftrightarrow> (\<forall>d \<in> snd ` set ds. d \<noteq> [] \<and> resolution_ok d)"

lemma resolutions_ok_get: "resolutions_ok res \<Longrightarrow> map_of res m = Some r \<Longrightarrow> r \<noteq> [] \<and> resolution_ok r"
  by (auto simp: resolutions_ok_def list_all_iff dest!: map_of_SomeD)

lemma resolution_ok_Nil: "resolution_ok []"
  by (simp add: resolution_ok_def keys_ok_def unmixed_def paired_def)

lemma draft_of_ok: "resolutions_ok res \<Longrightarrow> drafts_ok ds \<Longrightarrow> resolution_ok (getDraftModelResolution ds res m)"
  using resolutions_ok_get [of res m] resolution_ok_Nil
  by (auto simp: getDraftModelResolution_def drafts_ok_def split: option.splits dest!: map_of_SomeD)

lemma put_tiered_nonempty: "r \<noteq> [] \<Longrightarrow> put_tiered diffs s r \<noteq> []"
  by (simp add: put_tiered_def put_selectable_def Let_def obj_put_nonempty split: option.split)

lemma to_draft_ok:
  assumes "resolutions_ok res" "drafts_ok ds" "selection_ok diffs s"
  shows "drafts_ok (applyResolutionSelectionToDraft res diffs s ds)"
proof -
  let ?s = "resolveResolutionSelection diffs s"
  let ?d = "put_tiered diffs ?s (obj_put (sel_type ?s) (sel_value ?s)
      (drop_other_category (getBillingCategory (sel_type ?s)) (getDraftModelResolution ds res (sel_model ?s))))"
  have "selection_ok diffs ?s" using resolved_ok assms(3) .
  then have "resolution_ok ?d"
    using draft_of_ok [OF assms(1,2)] by (intro selected_ok) (auto simp: selection_ok_def map_of_eq_None_iff)
  moreover have "?d \<noteq> []" by (simp add: put_tiered_nonempty obj_put_nonempty)
  ultimately show ?thesis
    using assms(2) set_update_subset [of "sel_model ?s" ?d ds]
    unfolding applyResolutionSelectionToDraft_def Let_def drafts_ok_def by fastforce
qed

lemma store_draft_ok: "resolutions_ok res \<Longrightarrow> resolution_ok (snd d) \<Longrightarrow> resolutions_ok (store_draft d res)"
  using set_obj_put [of "fst d" "snd d" res]
  by (auto simp: resolutions_ok_def store_draft_def keys_ok_put keys_ok_filter list_all_iff obj_del_def)

lemma selections_ok:
  assumes res: "resolutions_ok res" and sels: "list_all (selection_ok diffs) ss"
  shows "resolutions_ok (applyResolutionSelections res diffs ss)"
proof -
  have "drafts_ok ds \<Longrightarrow> drafts_ok (fold (applyResolutionSelectionToDraft res diffs) ss ds)" for ds
    using sels res by (induction ss arbitrary: ds) (simp_all add: to_draft_ok)
  from this [of "[]"] have "drafts_ok (fold (applyResolutionSelectionToDraft res diffs) ss [])" by (simp add: drafts_ok_def)
  moreover have "drafts_ok ds \<Longrightarrow> resolutions_ok nx \<Longrightarrow> resolutions_ok (fold store_draft ds nx)" for ds nx
    by (induction ds arbitrary: nx) (auto simp: drafts_ok_def store_draft_ok)
  ultimately show ?thesis using res by (simp add: applyResolutionSelections_def)
qed

lemma remove_field_keys:
  "fst ` set (remove_field rt r) = fst ` set r - {rt} - (if rt = ''billing_expr'' \<or> rt = ''billing_mode'' then {''billing_mode'', ''billing_expr''} else {})"
  by (auto simp: remove_field_def Let_def)

lemma remove_field_ok: "resolution_ok r \<Longrightarrow> resolution_ok (remove_field rt r)"
proof -
  assume r: "resolution_ok r"
  have "keys_ok (remove_field rt r)" using r by (simp add: resolution_ok_def remove_field_def Let_def keys_ok_del)
  moreover have "unmixed (remove_field rt r)"
    using r remove_field_keys [of rt r] by (auto simp: resolution_ok_def unmixed_def list_ex_iff)
  ultimately show ?thesis using r unfolding resolution_ok_def paired_def remove_field_keys by auto
qed

lemma removal_ok:
  assumes "resolutions_ok res"
  shows "resolutions_ok (applyResolutionRemovalPlan res plan)"
proof -
  have fields: "resolution_ok r \<Longrightarrow> resolution_ok (fold remove_field ts r)" for ts r
    by (induction ts arbitrary: r) (simp_all add: remove_field_ok)
  have "resolutions_ok nx \<Longrightarrow> resolutions_ok (removal_step res p nx)" for p nx
    using resolutions_ok_get [OF assms, of "fst p"] fields
    by (auto simp: removal_step_def store_draft_ok split: option.split)
  then have "resolutions_ok nx \<Longrightarrow> resolutions_ok (fold (removal_step res) plan nx)" for nx
    by (induction plan arbitrary: nx) simp_all
  then show ?thesis using assms by (simp add: applyResolutionRemovalPlan_def)
qed

text \<open>What can happen on the page: a value is picked for a model and a field of the table.\<close>

inductive sync_reach :: "bool \<Rightarrow> sync_state \<Rightarrow> bool" for incl where
  start: "sync_reach incl init_sync"
| fetched: "sync_reach incl st \<Longrightarrow> sync_reach incl (on_fetched incl data st)"
| select: "sync_reach incl st \<Longrightarrow> selection_ok (ss_differences st) s \<Longrightarrow> sync_reach incl (handleSelectValue s st)"
| select_many: "sync_reach incl st \<Longrightarrow> list_all (selection_ok (ss_differences st)) ss \<Longrightarrow> sync_reach incl (handleSelectValues ss st)"
| unselect: "sync_reach incl st \<Longrightarrow> sync_reach incl (handleUnselectValue m rt st)"
| unselect_many: "sync_reach incl st \<Longrightarrow> sync_reach incl (handleUnselectValues plan st)"
| synced: "sync_reach incl st \<Longrightarrow> sync_reach incl (on_synced st)"

lemma reach_ok: "sync_reach incl st \<Longrightarrow> resolutions_ok (ss_resolutions st)"
proof (induction rule: sync_reach.induct)
  case (select st s)
  then show ?case using selections_ok [of "ss_resolutions st" "ss_differences st" "[s]"]
    by (simp add: handleSelectValue_def applyResolutionSelection_def)
qed (auto simp: init_sync_def on_fetched_def on_synced_def resolutions_ok_def [of "[]"] keys_ok_def [of "[]"] handleSelectValues_def selections_ok
    handleUnselectValue_def handleUnselectValues_def removal_ok deleteResolutionField_def applyResolutionRemovals_def
    split: option.split)

section \<open>Selecting a whole column\<close>

text \<open>A value of the table that its source offers: it can be selected and it is the preferred field of its source.\<close>

definition offered :: "differences \<Rightarrow> string \<Rightarrow> selection \<Rightarrow> bool" where
  "offered diffs u s \<longleftrightarrow> sel_source s = u \<and> sel_type s \<in> set SYNC_FIELD_ORDER \<and> sel_model s \<in> fst ` set diffs
     \<and> upstream_of (model_diffs_of diffs (sel_model s)) (sel_type s) u = Some (sel_value s) \<and> sel_value s \<noteq> SStr ''same''
     \<and> getPreferredSyncField (model_diffs_of diffs (sel_model s)) (sel_type s) u = sel_type s"

lemma offered_resolved: "offered diffs u s \<Longrightarrow> resolveResolutionSelection diffs s = s"
  by (simp add: offered_def resolveResolutionSelection_def)

lemma offered_tiered:
  assumes "offered diffs u s" "offered diffs u s'" "sel_model s = sel_model s'"
    "getBillingCategory (sel_type s) = Cat_Tiered" "getBillingCategory (sel_type s') = Cat_Tiered"
  shows "sel_type s = sel_type s'"
proof -
  have "t = ''billing_mode'' \<or> t = ''billing_expr''" if "getBillingCategory t = Cat_Tiered" for t
    using that by (simp add: getBillingCategory_def split: if_splits)
  from this [OF assms(4)] this [OF assms(5)] show ?thesis using assms(1-3)
    by (auto simp: offered_def getPreferredSyncField_def isSelectableUpstreamValue_def split: if_splits)
qed

text \<open>Selections that do not disturb each other.\<close>

definition undisturbed :: "selection \<Rightarrow> selection \<Rightarrow> bool" where
  "undisturbed s s' \<longleftrightarrow> sel_model s = sel_model s' \<longrightarrow> sel_type s \<noteq> sel_type s' \<and>
     (getBillingCategory (sel_type s) = Cat_Tiered \<or> getBillingCategory (sel_type s') = Cat_Tiered
       \<or> getBillingCategory (sel_type s) = getBillingCategory (sel_type s'))"

definition draft_has :: "(string \<times> resolution) list \<Rightarrow> selection \<Rightarrow> bool" where
  "draft_has ds s \<longleftrightarrow> Option.bind (map_of ds (sel_model s)) (\<lambda>r. map_of r (sel_type s)) = Some (sel_value s)"

lemma map_of_drop_other:
  "map_of (drop_other_category c r) rt =
     (if c \<noteq> Cat_Tiered \<and> getBillingCategory rt \<noteq> Cat_Tiered \<and> getBillingCategory rt \<noteq> c then None else map_of r rt)"
  by (induction r) (auto simp: drop_other_category_def)

lemma map_of_put_tiered:
  assumes "rt \<noteq> ''billing_mode'' \<and> rt \<noteq> ''billing_expr'' \<or> getBillingCategory (sel_type s) \<noteq> Cat_Tiered"
  shows "map_of (put_tiered diffs s r) rt = map_of r rt"
  using assms by (auto simp: put_tiered_def put_selectable_def Let_def map_of_obj_put split: option.split)

lemma tiered_stored:
  assumes "offered diffs u s"
  shows "map_of (put_tiered diffs s (obj_put (sel_type s) (sel_value s) r)) (sel_type s) = Some (sel_value s)"
proof (cases "getBillingCategory (sel_type s) = Cat_Tiered")
  case True
  then have "sel_type s = ''billing_mode'' \<or> sel_type s = ''billing_expr''" by (simp add: getBillingCategory_def split: if_splits)
  with assms show ?thesis
    by (auto simp: offered_def put_tiered_def put_selectable_def Let_def map_of_obj_put model_diffs_of_def isSelectableUpstreamValue_def
        getPreferredSyncField_def split: option.splits if_splits)
qed (simp add: map_of_put_tiered map_of_obj_put)

lemma draft_keeps:
  assumes "offered diffs u s" "offered diffs u s'" "undisturbed s s'" "draft_has ds s"
  shows "draft_has (applyResolutionSelectionToDraft res diffs s' ds) s"
proof (cases "sel_model s = sel_model s'")
  case True
  then obtain r where r: "map_of ds (sel_model s') = Some r" "map_of r (sel_type s) = Some (sel_value s)"
    using assms(4) by (auto simp: draft_has_def bind_eq_Some_conv)
  have "getBillingCategory (sel_type s) \<noteq> Cat_Tiered \<or> getBillingCategory (sel_type s') \<noteq> Cat_Tiered"
    using offered_tiered [OF assms(1,2) True] assms(3) True by (auto simp: undisturbed_def)
  then have "sel_type s \<noteq> ''billing_mode'' \<and> sel_type s \<noteq> ''billing_expr'' \<or> getBillingCategory (sel_type s') \<noteq> Cat_Tiered"
    by (auto simp: getBillingCategory_def)
  note tiered = map_of_put_tiered [OF this]
  have "map_of (drop_other_category (getBillingCategory (sel_type s')) r) (sel_type s) = Some (sel_value s)" "sel_type s \<noteq> sel_type s'"
    using assms(3) True r(2) by (auto simp: undisturbed_def map_of_drop_other)
  then show ?thesis using True r(1)
    by (simp add: draft_has_def applyResolutionSelectionToDraft_def offered_resolved [OF assms(2)] Let_def update_conv' getDraftModelResolution_def
        tiered map_of_obj_put)
next
  case False
  then show ?thesis using assms(4)
    by (simp add: draft_has_def applyResolutionSelectionToDraft_def offered_resolved [OF assms(2)] Let_def update_conv')
qed

lemma draft_gets: "offered diffs u s \<Longrightarrow> draft_has (applyResolutionSelectionToDraft res diffs s ds) s"
  by (simp add: draft_has_def applyResolutionSelectionToDraft_def offered_resolved Let_def update_conv' tiered_stored)

lemma drafts_have:
  "sorted_wrt undisturbed ss \<Longrightarrow> list_all (offered diffs u) ss \<Longrightarrow> s \<in> set ss \<Longrightarrow>
     draft_has (fold (applyResolutionSelectionToDraft res diffs) ss ds) s"
proof (induction ss arbitrary: ds)
  case (Cons a ss)
  have keep: "draft_has ds' s \<Longrightarrow> draft_has (fold (applyResolutionSelectionToDraft res diffs) ss' ds') s"
    if "list_all (offered diffs u) ss'" "list_all (undisturbed s) ss'" "offered diffs u s" for ss' ds'
    using that by (induction ss' arbitrary: ds') (auto simp: draft_keeps)
  show ?case
  proof (cases "s = a")
    case True
    then show ?thesis using Cons.prems draft_gets [of diffs u a] keep [of ss] by (auto simp: list_all_iff)
  next
    case False
    then show ?thesis using Cons by simp
  qed
qed simp

text \<open>The effective selections are undisturbed.\<close>

lemma field_no_nul: "t \<in> set SYNC_FIELD_ORDER \<Longrightarrow> CHR 0x00 \<notin> set t"
proof -
  have "list_all (\<lambda>t. CHR 0x00 \<notin> set t) SYNC_FIELD_ORDER" by code_simp
  then show "t \<in> set SYNC_FIELD_ORDER \<Longrightarrow> CHR 0x00 \<notin> set t" by (simp add: list_all_iff)
qed

lemma split_at_last: "a @ c # b = a' @ c # b' \<Longrightarrow> c \<notin> set b \<Longrightarrow> c \<notin> set b' \<Longrightarrow> a = a' \<and> b = b'"
proof (induction a arbitrary: a')
  case Nil
  then show ?case by (cases a') auto
next
  case (Cons x a)
  then show ?case by (cases a') auto
qed

lemma effective_key_inject:
  "sel_type s \<in> set SYNC_FIELD_ORDER \<Longrightarrow> sel_type s' \<in> set SYNC_FIELD_ORDER \<Longrightarrow>
     effective_key s = effective_key s' \<longleftrightarrow> sel_model s = sel_model s' \<and> sel_type s = sel_type s'"
  using split_at_last [of "sel_model s" "CHR 0x00" "sel_type s" "sel_model s'" "sel_type s'"] field_no_nul
  by (auto simp: effective_key_def)

definition same_kind :: "selection \<Rightarrow> selection \<Rightarrow> bool" where
  "same_kind s s' \<longleftrightarrow> (sel_model s = sel_model s' \<longrightarrow> getBillingCategory (sel_type s) = Cat_Tiered
     \<or> getBillingCategory (sel_type s') = Cat_Tiered \<or> getBillingCategory (sel_type s) = getBillingCategory (sel_type s'))"

lemma same_kind_sym: "same_kind s s' \<Longrightarrow> same_kind s' s" and same_kind_refl: "same_kind s s"
  by (auto simp: same_kind_def)

definition effective_ok :: "differences \<Rightarrow> string \<Rightarrow> (string \<times> selection) list \<Rightarrow> bool" where
  "effective_ok diffs u eff \<longleftrightarrow> distinct (map fst eff) \<and> list_all (\<lambda>(k, s). k = effective_key s \<and> offered diffs u s) eff
     \<and> (\<forall>s \<in> snd ` set eff. \<forall>s' \<in> snd ` set eff. same_kind s s')"

lemma effective_ok_filter: "effective_ok diffs u eff \<Longrightarrow> effective_ok diffs u (filter P eff)"
proof -
  assume eff: "effective_ok diffs u eff"
  have "snd ` set (filter P eff) \<subseteq> snd ` set eff" "set (filter P eff) \<subseteq> set eff" by auto
  then show ?thesis using eff unfolding effective_ok_def list_all_iff by (meson distinct_map_filter subsetD)
qed

lemma effective_ok_update:
  assumes "effective_ok diffs u eff" "offered diffs u s"
    "\<And>e. e \<in> snd ` set eff \<Longrightarrow> same_kind e s"
  shows "effective_ok diffs u (AList.update (effective_key s) s eff)"
proof -
  have sub: "set (AList.update (effective_key s) s eff) \<subseteq> insert (effective_key s, s) (set eff)"
    using set_update_subset [of "effective_key s" s eff] by auto
  have "distinct (map fst (AList.update (effective_key s) s eff))" using assms(1) distinct_update by (auto simp: effective_ok_def)
  moreover have "list_all (\<lambda>(k, s). k = effective_key s \<and> offered diffs u s) (AList.update (effective_key s) s eff)"
    using sub assms(1,2) by (fastforce simp: effective_ok_def list_all_iff)
  moreover have "a = s \<or> a \<in> snd ` set eff" if "a \<in> snd ` set (AList.update (effective_key s) s eff)" for a
    using sub that by force
  ultimately show ?thesis using assms(1,3) same_kind_sym same_kind_refl unfolding effective_ok_def by metis
qed

lemma effective_step_ok:
  assumes "effective_ok diffs u eff" "offered diffs u s"
  shows "effective_ok diffs u (effective_step diffs s eff)"
  unfolding effective_step_def Let_def offered_resolved [OF assms(2)]
  by (rule effective_ok_update) (use assms effective_ok_filter in \<open>auto simp: same_kind_def split: if_splits\<close>)

lemma effective_fold_ok: "list_all (offered diffs u) ss \<Longrightarrow> effective_ok diffs u eff \<Longrightarrow> effective_ok diffs u (fold (effective_step diffs) ss eff)"
  by (induction ss arbitrary: eff) (simp_all add: effective_step_ok)

lemma effective_compatible:
  assumes "effective_ok diffs u eff"
  shows "sorted_wrt undisturbed (map snd eff)" "list_all (offered diffs u) (map snd eff)"
proof -
  show "list_all (offered diffs u) (map snd eff)" using assms by (auto simp: effective_ok_def list_all_iff)
  have "undisturbed a b" if "(k, a) \<in> set eff" "(k', b) \<in> set eff" "k \<noteq> k'" for k a k' b
  proof -
    have "k = effective_key a" "k' = effective_key b" "offered diffs u a" "offered diffs u b"
      using assms that by (auto simp: effective_ok_def list_all_iff)
    then have "\<not> (sel_model a = sel_model b \<and> sel_type a = sel_type b)"
      using that(3) effective_key_inject [of a b] by (simp add: offered_def)
    moreover have "a \<in> snd ` set eff" "b \<in> snd ` set eff" using that(1,2) by force+
    then have "same_kind a b" using assms unfolding effective_ok_def by blast
    ultimately show ?thesis by (auto simp: undisturbed_def same_kind_def)
  qed
  moreover have "distinct (map fst eff)" using assms by (simp add: effective_ok_def)
  ultimately show "sorted_wrt undisturbed (map snd eff)"
  proof (induction eff)
    case (Cons p eff)
    have "undisturbed (snd p) b" if b: "b \<in> set (map snd eff)" for b
    proof -
      obtain k where k: "(k, b) \<in> set eff" using b by auto
      then have "k \<in> set (map fst eff)" by force
      then have "fst p \<noteq> k" using Cons.prems(2) by auto
      then show ?thesis using Cons.prems(1) [of "fst p" "snd p" k b] k by simp
    qed
    moreover have "sorted_wrt undisturbed (map snd eff)" using Cons.prems(2) by (intro Cons.IH Cons.prems(1)) auto
    ultimately show ?case by simp
  qed simp
qed

text \<open>The rows of the table offer what they list.\<close>

definition table_wf :: "differences \<Rightarrow> bool" where
  "table_wf diffs \<longleftrightarrow> distinct (map fst diffs) \<and> list_all (\<lambda>(m, r). list_all (\<lambda>(rt, e). rt \<in> set SYNC_FIELD_ORDER) r) diffs"

lemma aligned_single:
  "rt \<in> set (getAlignedRatioTypes r [u] flt) \<Longrightarrow> rt \<in> fst ` set r \<and> getPreferredSyncField r rt u = rt"
  by (auto simp: getAlignedRatioTypes_def getVisibleRatioTypesForSource_def getOrderedRatioTypes_def Let_def split: if_splits)

lemma row_offered:
  assumes "table_wf diffs" "row \<in> set (dataSource diffs)" "s \<in> set (row_selections u flt row)"
  shows "offered diffs u s"
proof -
  obtain m r where row: "(m, r) \<in> set diffs" "mr_model row = m" "mr_ratioTypes row = r"
    using assms(2) by (auto simp: dataSource_def)
  obtain rt where rt: "rt \<in> set (getAlignedRatioTypes r [u] flt)" "isSelectableUpstreamValue (upstream_of r rt u)"
    "s = \<lparr>sel_model = m, sel_type = rt, sel_value = the (upstream_of r rt u), sel_source = u\<rparr>"
    using assms(3) by (auto simp: row_selections_def row(2,3) List.map_filter_def Let_def split: if_splits)
  have "model_diffs_of diffs m = r" using row(1) assms(1) by (simp add: model_diffs_of_def table_wf_def)
  moreover have "rt \<in> set SYNC_FIELD_ORDER" using aligned_single [OF rt(1)] assms(1) row(1) by (fastforce simp: table_wf_def list_all_iff)
  ultimately show ?thesis using aligned_single [OF rt(1)] rt(2,3) row(1)
    by (force simp: offered_def isSelectableUpstreamValue_def split: option.splits)
qed

lemma map_of_store_drafts:
  "distinct (map fst ds) \<Longrightarrow> map_of (fold store_draft ds nx) m =
     (case map_of ds m of Some d \<Rightarrow> if d = [] then None else Some d | None \<Rightarrow> map_of nx m)"
proof (induction ds arbitrary: nx)
  case (Cons p ds)
  then have "m = fst p \<Longrightarrow> map_of ds m = None" by (auto simp: map_of_eq_None_iff)
  then show ?case using Cons by (auto simp: store_draft_def map_of_obj_put split: option.splits)
qed simp

lemma selections_stored:
  assumes "sorted_wrt undisturbed ss" "list_all (offered diffs u) ss" "s \<in> set ss"
  shows "Option.bind (map_of (applyResolutionSelections res diffs ss) (sel_model s)) (\<lambda>r. map_of r (sel_type s)) = Some (sel_value s)"
proof -
  let ?ds = "fold (applyResolutionSelectionToDraft res diffs) ss []"
  have "distinct (map fst ds) \<Longrightarrow> distinct (map fst (fold (applyResolutionSelectionToDraft res diffs) ss ds))" for ds
    by (induction ss arbitrary: ds) (simp_all add: applyResolutionSelectionToDraft_def Let_def distinct_update)
  from this [of "[]"] have d: "distinct (map fst ?ds)" by simp
  have "draft_has ?ds s" using drafts_have [OF assms] .
  then obtain r where r: "map_of ?ds (sel_model s) = Some r" "map_of r (sel_type s) = Some (sel_value s)"
    by (auto simp: draft_has_def bind_eq_Some_conv)
  then have "r \<noteq> []" by auto
  moreover have "ss \<noteq> []" using assms(3) by auto
  ultimately show ?thesis using r by (simp add: applyResolutionSelections_def map_of_store_drafts [OF d])
qed

definition numeric_wf :: "differences \<Rightarrow> bool" where
  "numeric_wf diffs \<longleftrightarrow> list_all (\<lambda>(m, r). list_all (\<lambda>(rt, e). rt \<in> set NUMERIC_SYNC_FIELDS \<longrightarrow>
     list_all (\<lambda>(u, v). case v of Some (SStr x) \<Rightarrow> x = ''same'' | _ \<Rightarrow> True) (de_upstreams e)) r) diffs"

lemma offered_number:
  assumes "numeric_wf diffs" "offered diffs u s" "sel_type s \<in> set NUMERIC_SYNC_FIELDS"
  obtains d where "sel_value s = SNum d"
proof -
  obtain e where e: "map_of (model_diffs_of diffs (sel_model s)) (sel_type s) = Some e" "map_of (de_upstreams e) u = Some (Some (sel_value s))"
    using assms(2) by (auto simp: offered_def upstream_of_def bind_eq_Some_conv)
  then have e2: "(sel_type s, e) \<in> set (model_diffs_of diffs (sel_model s))" "(u, Some (sel_value s)) \<in> set (de_upstreams e)"
    by (auto dest: map_of_SomeD)
  have "\<exists>r. (sel_model s, r) \<in> set diffs \<and> (sel_type s, e) \<in> set r"
    using e2(1) by (cases "map_of diffs (sel_model s)") (auto simp: model_diffs_of_def dest: map_of_SomeD)
  then have "case Some (sel_value s) of Some (SStr x) \<Rightarrow> x = ''same'' | _ \<Rightarrow> True"
    using assms(1,3) e2(2) unfolding numeric_wf_def list_all_iff by blast
  then show ?thesis using assms(2) that by (cases "sel_value s") (auto simp: offered_def)
qed

lemma offered_selected:
  assumes "numeric_wf diffs" "offered diffs u s"
    "Option.bind (map_of res (sel_model s)) (\<lambda>r. map_of r (sel_type s)) = Some (sel_value s)"
  shows "is_selected res s"
proof (cases "sel_type s \<in> set NUMERIC_SYNC_FIELDS")
  case True
  from offered_number [OF assms(1,2) this] obtain d where "sel_value s = SNum d" .
  then show ?thesis using assms True by (simp add: is_selected_def isSelectedResolutionValue_def isSelectableUpstreamValue_def)
next
  case False
  then show ?thesis using assms by (simp add: is_selected_def isSelectedResolutionValue_def isSelectableUpstreamValue_def offered_def)
qed

lemma bulk_effective:
  assumes "table_wf diffs" "set rows \<subseteq> set (dataSource diffs)"
  shows "sorted_wrt undisturbed (bs_selections (bulkSelectState diffs res flt rows u))"
    "list_all (offered diffs u) (bs_selections (bulkSelectState diffs res flt rows u))"
proof -
  have "list_all (offered diffs u) (concat (map (row_selections u flt) rows))"
    using row_offered [OF assms(1)] assms(2) by (fastforce simp: list_all_iff)
  from effective_fold_ok [OF this, of "[]"] have "effective_ok diffs u (fold (effective_step diffs) (concat (map (row_selections u flt) rows)) [])"
    by (simp add: effective_ok_def)
  then show "sorted_wrt undisturbed (bs_selections (bulkSelectState diffs res flt rows u))"
    "list_all (offered diffs u) (bs_selections (bulkSelectState diffs res flt rows u))"
    using effective_compatible by (simp_all add: bulkSelectState_def Let_def getEffectiveResolutionSelections_def)
qed

lemma bulk_selections_same: "bs_selections (bulkSelectState diffs res' flt rows u) = bs_selections (bulkSelectState diffs res flt rows u)"
  by (simp add: bulkSelectState_def Let_def)

lemma bulk_all_selected:
  assumes "table_wf (ss_differences st)" "numeric_wf (ss_differences st)" "set rows \<subseteq> set (dataSource (ss_differences st))"
    "st' = handleSelectValues (bs_selections (bulkSelectState (ss_differences st) (ss_resolutions st) flt rows u)) st"
  shows "bs_selectedCount (bulkSelectState (ss_differences st') (ss_resolutions st') flt rows u)
    = bs_selectableCount (bulkSelectState (ss_differences st') (ss_resolutions st') flt rows u)"
proof -
  let ?ss = "bs_selections (bulkSelectState (ss_differences st) (ss_resolutions st) flt rows u)"
  note ok = bulk_effective [OF assms(1,3), where res = "ss_resolutions st" and flt = flt and u = u]
  have "is_selected (ss_resolutions st') s" if "s \<in> set ?ss" for s
  proof -
    have "ss_resolutions st' = applyResolutionSelections (ss_resolutions st) (ss_differences st) ?ss"
      using that by (auto simp: assms(4) handleSelectValues_def)
    then show ?thesis
      using offered_selected [OF assms(2), of u s] selections_stored [OF ok that] ok(2) that by (simp add: list_all_iff)
  qed
  moreover have "ss_differences st' = ss_differences st" by (simp add: assms(4) handleSelectValues_def)
  ultimately show ?thesis
    unfolding bulkSelectState_def Let_def by (simp add: filter_True bulkSelectState_def Let_def)
qed

text \<open>Removing a column.\<close>

lemma remove_field_none: "map_of (remove_field a r) a = None" "map_of r t = None \<Longrightarrow> map_of (remove_field a r) t = None"
  by (auto simp: remove_field_def Let_def)

lemma remove_fields_none: "t \<in> set ts \<Longrightarrow> map_of (fold remove_field ts r) t = None"
proof (induction ts arbitrary: r)
  case (Cons a ts)
  have keep: "map_of r t = None \<Longrightarrow> map_of (fold remove_field ts r) t = None" for r ts t
    by (induction ts arbitrary: r) (simp_all add: remove_field_none)
  show ?case
  proof (cases "t = a")
    case True
    then show ?thesis using keep [OF remove_field_none(1) [of a r]] by simp
  next
    case False
    then show ?thesis using Cons by simp
  qed
qed simp

lemma map_of_removals:
  "distinct (map fst plan) \<Longrightarrow> map_of (fold (removal_step res) plan nx) m =
     (case (map_of plan m, map_of res m) of
        (Some ts, Some r) \<Rightarrow> (let d = fold remove_field ts r in if d = [] then None else Some d)
      | _ \<Rightarrow> map_of nx m)"
proof (induction plan arbitrary: nx)
  case (Cons p plan)
  then have "m = fst p \<Longrightarrow> map_of plan m = None" by (auto simp: map_of_eq_None_iff)
  then show ?case using Cons by (auto simp: removal_step_def store_draft_def map_of_obj_put Let_def split: option.splits)
qed simp

lemma plan_add_distinct: "distinct (map fst plan) \<Longrightarrow> distinct (map fst (plan_add m t plan))"
  by (simp add: plan_add_def distinct_update split: option.split)

definition planned :: "removal_plan \<Rightarrow> string \<Rightarrow> string \<Rightarrow> bool" where
  "planned plan m t \<longleftrightarrow> (case map_of plan m of Some ts \<Rightarrow> t \<in> set ts | None \<Rightarrow> False)"

lemma planned_add: "planned (plan_add m t plan) m' t' \<longleftrightarrow> m' = m \<and> t' = t \<or> planned plan m' t'"
  by (auto simp: planned_def plan_add_def update_conv' split: option.splits)

lemma plan_of_selections:
  "distinct (map fst plan) \<Longrightarrow> distinct (map fst (fold (\<lambda>s. plan_add (sel_model s) (sel_type s)) ss plan))"
  "planned (fold (\<lambda>s. plan_add (sel_model s) (sel_type s)) ss plan) m t \<longleftrightarrow>
     planned plan m t \<or> (\<exists>s \<in> set ss. sel_model s = m \<and> sel_type s = t)"
  by (induction ss arbitrary: plan) (auto simp: plan_add_distinct planned_add)

lemma effective_from:
  "list_all (offered diffs u) ss \<Longrightarrow> snd ` set (fold (effective_step diffs) ss eff) \<subseteq> set ss \<union> snd ` set eff"
proof (induction ss arbitrary: eff)
  case (Cons s ss)
  have "snd ` set (effective_step diffs s eff) \<subseteq> insert s (snd ` set eff)"
  proof -
    have sub: "set (AList.update k s e) \<subseteq> insert (k, s) (set e)" for k e
      using set_update_subset [of k s e] by auto
    have "resolveResolutionSelection diffs s = s" using Cons.prems by (auto simp: offered_resolved)
    then show ?thesis unfolding effective_step_def Let_def using sub by (auto split: if_splits) force+
  qed
  moreover have "snd ` set (fold (effective_step diffs) ss (effective_step diffs s eff)) \<subseteq> set ss \<union> snd ` set (effective_step diffs s eff)"
    using Cons.IH Cons.prems by simp
  ultimately show ?case by simp blast
qed simp

definition chosen :: "resolutions \<Rightarrow> string \<Rightarrow> string \<Rightarrow> sync_value option" where
  "chosen res model ratioType = Option.bind (map_of res model) (\<lambda>r. map_of r ratioType)"

lemma bulk_cleared:
  assumes "s \<in> set (concat (map (row_selections u flt) rows))"
    "st' = handleUnselectValues (bs_removalPlan (bulkSelectState (ss_differences st) (ss_resolutions st) flt rows u)) st"
  shows "chosen (ss_resolutions st') (sel_model s) (sel_type s) = None"
proof -
  let ?ss = "concat (map (row_selections u flt) rows)"
  let ?plan = "fold (\<lambda>s. plan_add (sel_model s) (sel_type s)) ?ss []"
  have "planned ?plan (sel_model s) (sel_type s)" using assms(1) by (auto simp: plan_of_selections)
  then obtain ts where ts: "map_of ?plan (sel_model s) = Some ts" "sel_type s \<in> set ts" by (auto simp: planned_def split: option.splits)
  then have "?plan \<noteq> []" by auto
  then have res: "ss_resolutions st' = fold (removal_step (ss_resolutions st)) ?plan (ss_resolutions st)"
    by (simp add: assms(2) handleUnselectValues_def applyResolutionRemovalPlan_def bulkSelectState_def Let_def)
  show ?thesis
    unfolding chosen_def res by (subst map_of_removals) (auto simp: plan_of_selections ts Let_def remove_fields_none split: option.split)
qed

lemma bulk_none_selected:
  assumes "table_wf (ss_differences st)" "set rows \<subseteq> set (dataSource (ss_differences st))"
    "st' = handleUnselectValues (bs_removalPlan (bulkSelectState (ss_differences st) (ss_resolutions st) flt rows u)) st"
  shows "bs_selectedCount (bulkSelectState (ss_differences st') (ss_resolutions st') flt rows u) = 0"
proof -
  let ?ss = "concat (map (row_selections u flt) rows)"
  have off: "list_all (offered (ss_differences st) u) ?ss"
    using row_offered [OF assms(1)] assms(2) by (fastforce simp: list_all_iff)
  have diffs: "ss_differences st' = ss_differences st" by (simp add: assms(3) handleUnselectValues_def)
  have none: "\<not> is_selected (ss_resolutions st') s" if s: "s \<in> set (getEffectiveResolutionSelections (ss_differences st) ?ss)" for s
  proof -
    have "s \<in> set ?ss" using s effective_from [OF off, of "[]"] by (force simp: getEffectiveResolutionSelections_def)
    from bulk_cleared [OF this assms(3)] show ?thesis by (simp add: is_selected_def isSelectedResolutionValue_def chosen_def)
  qed
  then show ?thesis unfolding bulkSelectState_def Let_def diffs by simp
qed

subsection \<open>What a column offers\<close>

text \<open>
  The value an upstream has for a field of a model that the column shows: it differs from the current one, passes the
  filter of the fields, and an expression hides the other fields. Where a price and ratios are shown, the price counts.
\<close>

definition shown_value :: "differences \<Rightarrow> string \<Rightarrow> string \<Rightarrow> string \<Rightarrow> string \<Rightarrow> sync_value option" where
  "shown_value diffs flt u model ratioType =
     (let value = (\<lambda>rt. upstream_of (model_diffs_of diffs model) rt u)
      in if value ratioType \<noteq> Some (SStr ''same'') \<and> (flt = [] \<or> flt = ''__all__'' \<or> ratioType = flt)
            \<and> (ratioType = ''billing_expr'' \<or> value ''billing_expr'' = None \<or> value ''billing_expr'' = Some (SStr ''same''))
         then value ratioType else None)"

definition column_value :: "differences \<Rightarrow> string \<Rightarrow> string \<Rightarrow> string \<Rightarrow> string \<Rightarrow> sync_value option" where
  "column_value diffs flt u model ratioType =
     (if ratioType \<in> set RATIO_SYNC_FIELDS \<and> shown_value diffs flt u model ''model_price'' \<noteq> None then None
      else shown_value diffs flt u model ratioType)"

lemma ordered_set: "set (getOrderedRatioTypes r flt) = {rt \<in> fst ` set r. flt = [] \<or> flt = ''__all__'' \<or> rt = flt}"
  by (auto simp: getOrderedRatioTypes_def Let_def)

lemma aligned_set:
  "set (getAlignedRatioTypes r [u] flt) = {rt \<in> fst ` set r. (flt = [] \<or> flt = ''__all__'' \<or> rt = flt) \<and> getPreferredSyncField r rt u = rt}"
  by (auto simp: getAlignedRatioTypes_def getVisibleRatioTypesForSource_def ordered_set Let_def)

lemma upstream_key: "upstream_of r rt u = Some v \<Longrightarrow> rt \<in> fst ` set r"
  by (auto simp: upstream_of_def bind_eq_Some_conv dest!: map_of_SomeD intro: rev_image_eqI)

lemma row_of:
  assumes "table_wf diffs" "row \<in> set (dataSource diffs)"
  shows "model_diffs_of diffs (mr_model row) = mr_ratioTypes row" "(mr_model row, mr_ratioTypes row) \<in> set diffs"
  using assms by (auto simp: dataSource_def model_diffs_of_def table_wf_def)

lemma row_selections_shown:
  assumes "table_wf diffs" "row \<in> set (dataSource diffs)"
  shows "s \<in> set (row_selections u flt row) \<longleftrightarrow> sel_model s = mr_model row \<and> sel_source s = u
    \<and> shown_value diffs flt u (mr_model row) (sel_type s) = Some (sel_value s)"
proof -
  let ?r = "mr_ratioTypes row"
  have "s \<in> set (row_selections u flt row) \<longleftrightarrow> (\<exists>rt \<in> set (getAlignedRatioTypes ?r [u] flt).
      isSelectableUpstreamValue (upstream_of ?r rt u)
      \<and> s = \<lparr>sel_model = mr_model row, sel_type = rt, sel_value = the (upstream_of ?r rt u), sel_source = u\<rparr>)"
    by (auto simp: row_selections_def List.map_filter_def Let_def)
  also have "\<dots> \<longleftrightarrow> sel_model s = mr_model row \<and> sel_source s = u \<and> sel_type s \<in> set (getAlignedRatioTypes ?r [u] flt)
      \<and> upstream_of ?r (sel_type s) u = Some (sel_value s) \<and> sel_value s \<noteq> SStr ''same''"
    by (cases s) (auto simp: isSelectableUpstreamValue_def split: option.splits)
  also have "\<dots> \<longleftrightarrow> sel_model s = mr_model row \<and> sel_source s = u \<and> shown_value diffs flt u (mr_model row) (sel_type s) = Some (sel_value s)"
    unfolding aligned_set shown_value_def Let_def row_of(1) [OF assms] getPreferredSyncField_def isSelectableUpstreamValue_def
    by (auto dest: upstream_key split: option.splits)
  finally show ?thesis .
qed

text \<open>In a row the ratios come before the price, and no field comes twice.\<close>

definition in_order :: "selection \<Rightarrow> selection \<Rightarrow> bool" where
  "in_order s s' \<longleftrightarrow> (sel_model s = sel_model s' \<longrightarrow> sel_type s \<noteq> sel_type s' \<and> \<not> (sel_type s = ''model_price'' \<and> sel_type s' \<in> set RATIO_SYNC_FIELDS))"

lemma row_in_order:
  assumes "table_wf diffs" "row \<in> set (dataSource diffs)"
  shows "sorted_wrt in_order (row_selections u flt row)"
proof -
  let ?R = "\<lambda>a b. a \<noteq> b \<and> \<not> (a = ''model_price'' \<and> b \<in> set RATIO_SYNC_FIELDS)" and ?r = "mr_ratioTypes row"
  have "fst ` set ?r \<subseteq> set SYNC_FIELD_ORDER" using row_of(2) [OF assms] assms(1) by (fastforce simp: table_wf_def list_all_iff)
  then have "filter (\<lambda>f. f \<notin> set SYNC_FIELD_ORDER) (map fst ?r) = []" by (auto simp: filter_empty_conv)
  then have "getOrderedRatioTypes ?r flt = (if flt = [] \<or> flt = ''__all__'' then filter (\<lambda>f. f \<in> set (map fst ?r)) SYNC_FIELD_ORDER
      else filter (\<lambda>f. f = flt) (filter (\<lambda>f. f \<in> set (map fst ?r)) SYNC_FIELD_ORDER))"
    by (simp only: getOrderedRatioTypes_def Let_def append_Nil2)
  moreover have "sorted_wrt ?R SYNC_FIELD_ORDER" by code_simp
  ultimately have "sorted_wrt ?R (getAlignedRatioTypes ?r [u] flt)"
    by (simp add: getAlignedRatioTypes_def Let_def sorted_wrt_filter)
  then have sorted: "sorted_wrt ?R (filter Q (getAlignedRatioTypes ?r [u] flt))" for Q by (rule sorted_wrt_filter)
  show ?thesis
    unfolding row_selections_def List.map_filter_def sorted_wrt_map
    by (rule sorted_wrt_mono_rel [OF _ sorted]) (auto simp: in_order_def Let_def split: if_splits)
qed

lemma rows_in_order:
  "table_wf diffs \<Longrightarrow> set rows \<subseteq> set (dataSource diffs) \<Longrightarrow> distinct (map mr_model rows) \<Longrightarrow>
     sorted_wrt in_order (concat (map (row_selections u flt) rows))"
proof (induction rows)
  case (Cons row rows)
  have "in_order a b" if a: "a \<in> set (row_selections u flt row)" and b: "b \<in> set (concat (map (row_selections u flt) rows))" for a b
  proof -
    have "sel_model a = mr_model row" using a row_selections_shown [OF Cons.prems(1)] Cons.prems(2) by auto
    moreover obtain row' where "row' \<in> set rows" "b \<in> set (row_selections u flt row')" using b by auto
    then have "sel_model b \<in> mr_model ` set rows" using row_selections_shown [OF Cons.prems(1)] Cons.prems(2) by auto
    ultimately have "sel_model a \<noteq> sel_model b" using Cons.prems(3) by auto
    then show ?thesis by (simp add: in_order_def)
  qed
  then show ?case using Cons row_in_order [OF Cons.prems(1)] by (auto simp: sorted_wrt_append)
qed simp

text \<open>The selections of a column are exactly the values it offers.\<close>

lemma update_entries:
  "(k, v) \<in> set (AList.update k v eff)" "(k', v') \<in> set eff \<Longrightarrow> k' \<noteq> k \<Longrightarrow> (k', v') \<in> set (AList.update k v eff)"
  by (induction eff) auto

lemma effective_step_keeps:
  assumes "(effective_key s, s) \<in> set eff" "offered diffs u s" "offered diffs u b" "in_order s b"
    "sel_model s = sel_model b \<Longrightarrow> sel_type s \<in> set RATIO_SYNC_FIELDS \<Longrightarrow> sel_type b \<noteq> ''model_price''"
  shows "(effective_key s, s) \<in> set (effective_step diffs b eff)"
proof -
  have known: "sel_type s \<in> set SYNC_FIELD_ORDER" "sel_type b \<in> set SYNC_FIELD_ORDER" using assms(2,3) by (simp_all add: offered_def)
  have key: "effective_key s \<noteq> effective_key b" using assms(4) effective_key_inject [OF known] by (auto simp: in_order_def)
  have "\<not> (sel_model s = sel_model b \<and> getBillingCategory (sel_type b) \<noteq> Cat_Tiered \<and> getBillingCategory (sel_type s) \<noteq> Cat_Tiered
      \<and> getBillingCategory (sel_type s) \<noteq> getBillingCategory (sel_type b))"
    using assms(4,5) field_categories(1) [OF known(1)] field_categories(1) [OF known(2)] field_categories(3) [of "sel_type s"]
      field_categories(3) [of "sel_type b"]
    by (cases "getBillingCategory (sel_type s)"; cases "getBillingCategory (sel_type b)") (auto simp: in_order_def)
  then show ?thesis
    unfolding effective_step_def Let_def offered_resolved [OF assms(3)] using assms(1) key
    by (intro update_entries(2)) auto
qed

lemma effective_keeps:
  assumes "list_all (offered diffs u) ss" "sorted_wrt in_order ss" "s \<in> set ss"
    "\<And>p. p \<in> set ss \<Longrightarrow> sel_model s = sel_model p \<Longrightarrow> sel_type s \<in> set RATIO_SYNC_FIELDS \<Longrightarrow> sel_type p \<noteq> ''model_price''"
  shows "(effective_key s, s) \<in> set (fold (effective_step diffs) ss eff)"
proof -
  obtain xs ys where ss: "ss = xs @ s # ys" using assms(3) by (metis split_list)
  have s: "offered diffs u s" using assms(1) ss by simp
  have later: "(effective_key s, s) \<in> set eff \<Longrightarrow> (effective_key s, s) \<in> set (fold (effective_step diffs) bs eff)"
    if "\<And>b. b \<in> set bs \<Longrightarrow> b \<in> set ss \<and> in_order s b" for bs eff
    using that
  proof (induction bs arbitrary: eff)
    case (Cons b bs)
    have "offered diffs u b" using Cons.prems(2) [of b] assms(1) by (simp add: list_all_iff)
    then have "(effective_key s, s) \<in> set (effective_step diffs b eff)"
      using effective_step_keeps [OF Cons.prems(1) s] Cons.prems(2) [of b] assms(4) by simp
    then show ?case using Cons by simp
  qed simp
  have "(effective_key s, s) \<in> set (effective_step diffs s e)" for e
    by (simp add: effective_step_def Let_def offered_resolved [OF s] update_entries(1))
  then show ?thesis using later [of ys] assms(2) by (simp add: ss sorted_wrt_append)
qed

lemma bulk_offers:
  assumes "table_wf diffs" "set rows \<subseteq> set (dataSource diffs)" "distinct (map mr_model rows)"
  shows "s \<in> set (bs_selections (bulkSelectState diffs res flt rows u)) \<longleftrightarrow>
    sel_model s \<in> mr_model ` set rows \<and> sel_source s = u \<and> column_value diffs flt u (sel_model s) (sel_type s) = Some (sel_value s)"
proof -
  let ?ss = "concat (map (row_selections u flt) rows)"
  let ?eff = "fold (effective_step diffs) ?ss []"
  have off: "list_all (offered diffs u) ?ss" using row_offered [OF assms(1)] assms(2) by (fastforce simp: list_all_iff)
  have shown: "s \<in> set ?ss \<longleftrightarrow> sel_model s \<in> mr_model ` set rows \<and> sel_source s = u
      \<and> shown_value diffs flt u (sel_model s) (sel_type s) = Some (sel_value s)" for s
  proof -
    have "s \<in> set ?ss \<longleftrightarrow> (\<exists>row \<in> set rows. s \<in> set (row_selections u flt row))" by simp
    also have "\<dots> \<longleftrightarrow> (\<exists>row \<in> set rows. sel_model s = mr_model row \<and> sel_source s = u
        \<and> shown_value diffs flt u (mr_model row) (sel_type s) = Some (sel_value s))"
      using row_selections_shown [OF assms(1)] assms(2) by (intro bex_cong refl) blast
    finally show ?thesis by auto
  qed
  have price: "\<exists>p \<in> set ?ss. sel_model p = sel_model s \<and> sel_type p = ''model_price''"
    if s: "s \<in> set ?ss" and v: "shown_value diffs flt u (sel_model s) ''model_price'' \<noteq> None" for s
  proof -
    obtain v where "shown_value diffs flt u (sel_model s) ''model_price'' = Some v" using v by blast
    then show ?thesis using shown [of s] s shown [of "\<lparr>sel_model = sel_model s, sel_type = ''model_price'', sel_value = v, sel_source = u\<rparr>"]
      by (intro bexI [of _ "\<lparr>sel_model = sel_model s, sel_type = ''model_price'', sel_value = v, sel_source = u\<rparr>"]) auto
  qed
  have keeps: "s \<in> snd ` set ?eff" if "s \<in> set ?ss"
      "\<And>p. p \<in> set ?ss \<Longrightarrow> sel_model s = sel_model p \<Longrightarrow> sel_type s \<in> set RATIO_SYNC_FIELDS \<Longrightarrow> sel_type p \<noteq> ''model_price''" for s
    using effective_keeps [OF off rows_in_order [OF assms] that, of "[]"] by (force intro: rev_image_eqI)
  have eff: "effective_ok diffs u ?eff" using effective_fold_ok [OF off, of "[]"] by (simp add: effective_ok_def)
  have "s \<in> snd ` set ?eff \<longleftrightarrow> s \<in> set ?ss \<and> column_value diffs flt u (sel_model s) (sel_type s) = Some (sel_value s)"
  proof
    assume s: "s \<in> snd ` set ?eff"
    then have ss: "s \<in> set ?ss" using effective_from [OF off, of "[]"] by auto
    have "\<not> (sel_type s \<in> set RATIO_SYNC_FIELDS \<and> shown_value diffs flt u (sel_model s) ''model_price'' \<noteq> None)"
    proof
      assume mixed: "sel_type s \<in> set RATIO_SYNC_FIELDS \<and> shown_value diffs flt u (sel_model s) ''model_price'' \<noteq> None"
      then obtain p where p: "p \<in> set ?ss" "sel_model p = sel_model s" "sel_type p = ''model_price''" using price [OF ss] by blast
      then have "p \<in> snd ` set ?eff" by (intro keeps) (auto simp: RATIO_SYNC_FIELDS_def)
      then have "same_kind p s" using eff s unfolding effective_ok_def by blast
      then show False using p mixed field_categories(2) [of "sel_type s"] by (simp add: same_kind_def getBillingCategory_def split: if_splits)
    qed
    then show "s \<in> set ?ss \<and> column_value diffs flt u (sel_model s) (sel_type s) = Some (sel_value s)"
      using ss shown [of s] by (auto simp: column_value_def)
  next
    assume s: "s \<in> set ?ss \<and> column_value diffs flt u (sel_model s) (sel_type s) = Some (sel_value s)"
    have "sel_type p \<noteq> ''model_price''" if "p \<in> set ?ss" "sel_model s = sel_model p" "sel_type s \<in> set RATIO_SYNC_FIELDS" for p
      using s that shown [of p] by (auto simp: column_value_def split: if_splits)
    then show "s \<in> snd ` set ?eff" using s keeps by blast
  qed
  then show ?thesis using shown [of s]
    by (auto simp: bulkSelectState_def Let_def getEffectiveResolutionSelections_def column_value_def split: if_splits)
qed

lemma bulk_distinct:
  assumes "table_wf diffs" "set rows \<subseteq> set (dataSource diffs)"
  shows "distinct (map (\<lambda>s. (sel_model s, sel_type s)) (bs_selections (bulkSelectState diffs res flt rows u)))"
proof -
  have "sorted_wrt undisturbed ss \<Longrightarrow> distinct (map (\<lambda>s. (sel_model s, sel_type s)) ss)" for ss
    by (induction ss) (auto simp: undisturbed_def)
  then show ?thesis using bulk_effective(1) [OF assms] .
qed

text \<open>Selecting or clearing values of some models leaves the others alone.\<close>

lemma selections_frame:
  assumes "list_all (offered diffs u) ss" "m \<notin> sel_model ` set ss"
  shows "map_of (applyResolutionSelections res diffs ss) m = map_of res m"
proof -
  let ?ds = "fold (applyResolutionSelectionToDraft res diffs) ss []"
  have keys: "distinct (map fst ds) \<Longrightarrow> map_of ds m = None \<Longrightarrow>
      distinct (map fst (fold (applyResolutionSelectionToDraft res diffs) ss ds)) \<and> map_of (fold (applyResolutionSelectionToDraft res diffs) ss ds) m = None" for ds
    using assms
    by (induction ss arbitrary: ds) (auto simp: applyResolutionSelectionToDraft_def Let_def distinct_update update_conv' offered_resolved)
  show ?thesis using keys [of "[]"] map_of_store_drafts [of ?ds res m] by (simp add: applyResolutionSelections_def)
qed

lemma bulk_frame:
  assumes "table_wf (ss_differences st)" "set rows \<subseteq> set (dataSource (ss_differences st))" "m \<notin> mr_model ` set rows"
  shows "map_of (ss_resolutions (handleSelectValues (bs_selections (bulkSelectState (ss_differences st) res flt rows u)) st)) m
      = map_of (ss_resolutions st) m"
    "map_of (ss_resolutions (handleUnselectValues (bs_removalPlan (bulkSelectState (ss_differences st) res flt rows u)) st)) m
      = map_of (ss_resolutions st) m"
proof -
  let ?ss = "concat (map (row_selections u flt) rows)" and ?b = "bulkSelectState (ss_differences st) res flt rows u"
  have off: "list_all (offered (ss_differences st) u) ?ss" using row_offered [OF assms(1)] assms(2) by (fastforce simp: list_all_iff)
  have models: "sel_model ` set ?ss \<subseteq> mr_model ` set rows" using row_selections_shown [OF assms(1)] assms(2) by fastforce
  have "set (bs_selections ?b) \<subseteq> set ?ss"
    using effective_from [OF off, of "[]"] by (auto simp: bulkSelectState_def Let_def getEffectiveResolutionSelections_def)
  then have "m \<notin> sel_model ` set (bs_selections ?b)" using models assms(3) by auto
  then show "map_of (ss_resolutions (handleSelectValues (bs_selections ?b) st)) m = map_of (ss_resolutions st) m"
    using selections_frame [OF bulk_effective(2) [OF assms(1,2)]] by (simp add: handleSelectValues_def)
  let ?plan = "fold (\<lambda>s. plan_add (sel_model s) (sel_type s)) ?ss []"
  have untouched: "map_of plan m = None \<Longrightarrow> m \<notin> sel_model ` set ss \<Longrightarrow> map_of (fold (\<lambda>s. plan_add (sel_model s) (sel_type s)) ss plan) m = None"
    for ss and plan :: removal_plan
    by (induction ss arbitrary: plan) (auto simp: plan_add_def update_conv' split: option.split)
  have "map_of ?plan m = None" using untouched [of "[]" ?ss] models assms(3) by auto
  then have "map_of (fold (removal_step (ss_resolutions st)) ?plan (ss_resolutions st)) m = map_of (ss_resolutions st) m"
    by (subst map_of_removals) (simp_all add: plan_of_selections)
  then show "map_of (ss_resolutions (handleUnselectValues (bs_removalPlan ?b) st)) m = map_of (ss_resolutions st) m"
    by (simp add: handleUnselectValues_def applyResolutionRemovalPlan_def bulkSelectState_def Let_def)
qed

lemma filtered_rows: "set (filteredData lower search flt rows) \<subseteq> set rows"
  by (auto simp: filteredData_def Let_def)

lemma filtered_distinct:
  "table_wf diffs \<Longrightarrow> distinct (map mr_model (filteredData lower search flt (dataSource diffs)))"
proof -
  assume "table_wf diffs"
  then have "distinct (map mr_model (dataSource diffs))"
    by (simp add: table_wf_def dataSource_def comp_def case_prod_beta)
  then show ?thesis by (simp add: filteredData_def Let_def distinct_map_filter)
qed

lemma bulk_count:
  assumes "table_wf diffs" "set rows \<subseteq> set (dataSource diffs)" "distinct (map mr_model rows)"
  shows "bs_selectableCount (bulkSelectState diffs res flt rows u)
    = card {(m, rt). m \<in> mr_model ` set rows \<and> column_value diffs flt u m rt \<noteq> None}"
proof -
  let ?sel = "bs_selections (bulkSelectState diffs res flt rows u)"
  have "(m, rt) \<in> (\<lambda>s. (sel_model s, sel_type s)) ` set ?sel \<longleftrightarrow> m \<in> mr_model ` set rows \<and> column_value diffs flt u m rt \<noteq> None" for m rt
  proof
    assume "m \<in> mr_model ` set rows \<and> column_value diffs flt u m rt \<noteq> None"
    then obtain v where "m \<in> mr_model ` set rows" "column_value diffs flt u m rt = Some v" by blast
    then show "(m, rt) \<in> (\<lambda>s. (sel_model s, sel_type s)) ` set ?sel"
      by (intro rev_image_eqI [of "\<lparr>sel_model = m, sel_type = rt, sel_value = v, sel_source = u\<rparr>"]) (simp_all add: bulk_offers [OF assms])
  qed (auto simp: bulk_offers [OF assms])
  then have "set (map (\<lambda>s. (sel_model s, sel_type s)) ?sel) = {(m, rt). m \<in> mr_model ` set rows \<and> column_value diffs flt u m rt \<noteq> None}"
    by (simp only: set_eq_iff split_paired_All set_map mem_Collect_eq case_prod_conv simp_thms)
  then have "card {(m, rt). m \<in> mr_model ` set rows \<and> column_value diffs flt u m rt \<noteq> None} = length ?sel"
    using distinct_card [OF bulk_distinct [OF assms(1,2)]] by (metis length_map)
  then show ?thesis by (simp add: bulkSelectState_def Let_def)
qed

section \<open>Endpoints\<close>

text \<open>What the dialog offers: a type of the list for every channel, a text for a channel of type custom.\<close>

inductive endpoint_reach :: "endpoints \<Rightarrow> bool" where
  none_set: "endpoint_reach []"
| loaded: "endpoint_reach es \<Longrightarrow> endpoint_reach (fill_endpoints channels es)"
| type_changed: "endpoint_reach es \<Longrightarrow> v \<in> set ENDPOINT_OPTIONS \<Longrightarrow> endpoint_reach (handleTypeChange i v es)"
| text_changed: "endpoint_reach es \<Longrightarrow> getEndpointType (current_endpoint es i) = ''custom'' \<Longrightarrow> endpoint_reach (updateEndpoint i e es)"

definition plain_endpoint :: "string \<Rightarrow> bool" where
  "plain_endpoint e \<longleftrightarrow> e \<in> {[], ''/api/pricing'', ''/api/ratio_config'', ''openrouter''}"

lemma endpoint_update: "endpoint_of (AList.update i e es) j = (if j = i then e else endpoint_of es j)"
  by (simp add: endpoint_of_def update_conv')

lemma fill_plain:
  "i \<noteq> - 100 \<Longrightarrow> i \<noteq> - 101 \<Longrightarrow> plain_endpoint (endpoint_of es i) \<Longrightarrow> plain_endpoint (endpoint_of (fill_endpoints channels es) i)"
proof (induction channels arbitrary: es)
  case (Cons c channels)
  let ?es = "if endpoint_of es (uc_id c) = [] then AList.update (uc_id c) (getDefaultEndpointForChannel c) es else es"
  have "plain_endpoint (getDefaultEndpointForChannel c)" if "uc_id c = i"
    using that Cons.prems by (simp add: getDefaultEndpointForChannel_def DEFAULT_ENDPOINT_def plain_endpoint_def)
  then have "plain_endpoint (endpoint_of ?es i)" using Cons.prems(3) by (simp add: endpoint_update)
  then show ?case using Cons.IH [of ?es] Cons.prems by (simp add: fill_endpoints_def)
qed (simp add: fill_endpoints_def)

lemma plain_not_custom: "plain_endpoint (endpoint_of es i) \<Longrightarrow> getEndpointType (current_endpoint es i) \<noteq> ''custom''"
  by (auto simp: plain_endpoint_def current_endpoint_def getEndpointType_def ENDPOINT_OPTIONS_def DEFAULT_ENDPOINT_def)

lemma reach_plain: "endpoint_reach es \<Longrightarrow> i \<noteq> - 100 \<Longrightarrow> i \<noteq> - 101 \<Longrightarrow> plain_endpoint (endpoint_of es i)"
proof (induction rule: endpoint_reach.induct)
  case none_set
  then show ?case by (simp add: endpoint_of_def plain_endpoint_def)
next
  case (loaded es channels)
  then show ?case by (simp add: fill_plain)
next
  case (type_changed es v j)
  then have "plain_endpoint (if v = ''custom'' then [] else v)" by (auto simp: ENDPOINT_OPTIONS_def plain_endpoint_def)
  then show ?case using type_changed by (simp add: handleTypeChange_def updateEndpoint_def endpoint_update split: if_splits)
next
  case (text_changed es j e)
  then have "i \<noteq> j" using plain_not_custom by blast
  then show ?case using text_changed by (simp add: updateEndpoint_def endpoint_update)
qed

section \<open>Properties\<close>

text \<open>
  C17. In every reachable state of the page the chosen values are consistent: no model has a fixed price together with a
  ratio, no model is left without a value, every field is known and has one value, and an expression always comes with its
  billing mode.
\<close>

theorem resolutions_consistent: "sync_reach incl st \<Longrightarrow> resolutions_ok (ss_resolutions st)"
  by (rule reach_ok)

definition sample_diffs :: differences where
  "sample_diffs = [(''m1'', [
     (''model_ratio'', \<lparr>de_current = None, de_upstreams = [(''u'', Some (SNum (Dec 2 0)))], de_confidence = []\<rparr>),
     (''model_price'', \<lparr>de_current = None, de_upstreams = [(''u'', Some (SNum (Dec 3 0)))], de_confidence = []\<rparr>)]),
   (''m2'', [
     (''model_ratio'', \<lparr>de_current = None, de_upstreams = [(''u'', Some (SNum (Dec 2 0)))], de_confidence = []\<rparr>),
     (''billing_expr'', \<lparr>de_current = None, de_upstreams = [(''u'', Some (SStr ''p * 2''))], de_confidence = []\<rparr>)])]"

text \<open>All values of the upstream are chosen at once: the price of the first model, the expression of the second one.\<close>

definition sample_state :: sync_state where
  "sample_state = handleSelectValues (bs_selections (bulkSelectState sample_diffs [] [] (dataSource sample_diffs) ''u''))
     (on_fetched True (Some sample_diffs) init_sync)"

lemma sample_sync_reach: "sync_reach True sample_state"
proof -
  have "list_all (selection_ok sample_diffs) (bs_selections (bulkSelectState sample_diffs [] [] (dataSource sample_diffs) ''u''))"
    by code_simp
  then show ?thesis unfolding sample_state_def by (intro select_many fetched start) (simp add: on_fetched_def)
qed

theorem resolutions_consistent_witness:
  "ss_resolutions sample_state = [(''m1'', [(''model_price'', SNum (Dec 3 0))]), (''m2'', [(''billing_expr'', SStr ''p * 2''), (''billing_mode'', SStr ''tiered_expr'')])]
   \<and> resolutions_ok (ss_resolutions sample_state)"
proof
  show "ss_resolutions sample_state = [(''m1'', [(''model_price'', SNum (Dec 3 0))]), (''m2'', [(''billing_expr'', SStr ''p * 2''), (''billing_mode'', SStr ''tiered_expr'')])]"
    by code_simp
  show "resolutions_ok (ss_resolutions sample_state)" by (rule resolutions_consistent [OF sample_sync_reach])
qed

text \<open>
  C18. The checkbox of a column does what it shows. Its count is the number of values the column offers: those the
  upstream has for the listed models and the fields that pass the filter, without the values an expression hides and
  without the ratios of a model that has a price. Checking it chooses every one of them and leaves it checked, clearing
  it leaves no value of the column chosen and leaves it cleared, and neither touches a model that is not listed;
  whatever was chosen before. The upstreams report numbers for the numeric fields, and known fields only, as the types
  of the response say.
\<close>

theorem column_checkbox_toggles:
  assumes "table_wf (ss_differences st)" "numeric_wf (ss_differences st)" "rows = filteredData lower search flt (dataSource (ss_differences st))"
    "u \<in> set (upstreamNames flt rows)"
    "bs_selectableCount (bulkSelectState (ss_differences st) (ss_resolutions st) flt rows u) > 0"
    "checked = handleBulkSelect flt rows u st" "cleared = handleBulkUnselect flt rows u st"
  shows "bs_selectableCount (bulkSelectState (ss_differences st) (ss_resolutions st) flt rows u)
      = card {(m, rt). m \<in> mr_model ` set rows \<and> column_value (ss_differences st) flt u m rt \<noteq> None}
    \<and> (\<forall>m \<in> mr_model ` set rows. \<forall>rt v. column_value (ss_differences st) flt u m rt = Some v \<longrightarrow> chosen (ss_resolutions checked) m rt = Some v)
    \<and> (\<forall>m \<in> mr_model ` set rows. \<forall>rt. shown_value (ss_differences st) flt u m rt \<noteq> None \<longrightarrow> chosen (ss_resolutions cleared) m rt = None)
    \<and> (\<forall>m. m \<notin> mr_model ` set rows \<longrightarrow>
        map_of (ss_resolutions checked) m = map_of (ss_resolutions st) m \<and> map_of (ss_resolutions cleared) m = map_of (ss_resolutions st) m)
    \<and> column_checkbox (bulkSelectState (ss_differences checked) (ss_resolutions checked) flt rows u) = (True, False)
    \<and> column_checkbox (bulkSelectState (ss_differences cleared) (ss_resolutions cleared) flt rows u) = (False, False)"
proof (intro conjI ballI allI impI)
  let ?b = "bulkSelectState (ss_differences st) (ss_resolutions st) flt rows u"
  have rows: "set rows \<subseteq> set (dataSource (ss_differences st))" "distinct (map mr_model rows)"
    unfolding assms(3) by (rule filtered_rows, rule filtered_distinct [OF assms(1)])
  have checked: "checked = handleSelectValues (bs_selections ?b) st" and cleared: "cleared = handleUnselectValues (bs_removalPlan ?b) st"
    using assms(4,6,7) by (simp_all add: handleBulkSelect_def handleBulkUnselect_def)
  note offers = bulk_offers [OF assms(1) rows, where res = "ss_resolutions st" and flt = flt and u = u]
  note eff = bulk_effective [OF assms(1) rows(1), where res = "ss_resolutions st" and flt = flt and u = u]
  show "bs_selectableCount ?b = card {(m, rt). m \<in> mr_model ` set rows \<and> column_value (ss_differences st) flt u m rt \<noteq> None}"
    by (rule bulk_count [OF assms(1) rows])
  show "chosen (ss_resolutions checked) m rt = Some v"
    if "m \<in> mr_model ` set rows" "column_value (ss_differences st) flt u m rt = Some v" for m rt v
  proof -
    have s: "\<lparr>sel_model = m, sel_type = rt, sel_value = v, sel_source = u\<rparr> \<in> set (bs_selections ?b)" using that by (simp add: offers)
    then have "ss_resolutions checked = applyResolutionSelections (ss_resolutions st) (ss_differences st) (bs_selections ?b)"
      by (auto simp: checked handleSelectValues_def)
    then show ?thesis using selections_stored [OF eff s] by (simp add: chosen_def)
  qed
  show "chosen (ss_resolutions cleared) m rt = None"
    if m: "m \<in> mr_model ` set rows" and shown: "shown_value (ss_differences st) flt u m rt \<noteq> None" for m rt
  proof -
    obtain row v where row: "row \<in> set rows" "m = mr_model row" "shown_value (ss_differences st) flt u m rt = Some v" using m shown by blast
    then have "\<lparr>sel_model = m, sel_type = rt, sel_value = v, sel_source = u\<rparr> \<in> set (row_selections u flt row)"
      using row_selections_shown [OF assms(1)] rows(1) by auto
    then have "\<lparr>sel_model = m, sel_type = rt, sel_value = v, sel_source = u\<rparr> \<in> set (concat (map (row_selections u flt) rows))"
      using row(1) by auto
    from bulk_cleared [OF this cleared] show ?thesis by simp
  qed
  show "map_of (ss_resolutions checked) m = map_of (ss_resolutions st) m" "map_of (ss_resolutions cleared) m = map_of (ss_resolutions st) m"
    if "m \<notin> mr_model ` set rows" for m
    unfolding checked cleared by (rule bulk_frame [OF assms(1) rows(1) that])+
  have count: "bs_selectableCount (bulkSelectState (ss_differences st) res flt rows u) > 0" for res
    using assms(5) by (simp add: bulkSelectState_def Let_def)
  have diffs: "ss_differences checked = ss_differences st" "ss_differences cleared = ss_differences st"
    by (simp_all add: checked cleared handleSelectValues_def handleUnselectValues_def)
  show "column_checkbox (bulkSelectState (ss_differences checked) (ss_resolutions checked) flt rows u) = (True, False)"
    using bulk_all_selected [OF assms(1,2) rows(1) checked] count by (simp add: column_checkbox_def diffs)
  show "column_checkbox (bulkSelectState (ss_differences cleared) (ss_resolutions cleared) flt rows u) = (False, False)"
    using bulk_none_selected [OF assms(1) rows(1) cleared] by (auto simp: column_checkbox_def diffs)
qed

theorem column_checkbox_toggles_witness:
  "\<exists>st checked cleared. ss_differences st = sample_diffs
    \<and> checked = handleBulkSelect [] (dataSource sample_diffs) ''u'' st \<and> cleared = handleBulkUnselect [] (dataSource sample_diffs) ''u'' checked
    \<and> chosen (ss_resolutions checked) ''m1'' ''model_price'' = Some (SNum (Dec 3 0))
    \<and> chosen (ss_resolutions checked) ''m2'' ''billing_expr'' = Some (SStr ''p * 2'')
    \<and> chosen (ss_resolutions cleared) ''m1'' ''model_price'' = None
    \<and> column_checkbox (bulkSelectState sample_diffs (ss_resolutions checked) [] (dataSource sample_diffs) ''u'') = (True, False)
    \<and> column_checkbox (bulkSelectState sample_diffs (ss_resolutions cleared) [] (dataSource sample_diffs) ''u'') = (False, False)"
proof -
  let ?st = "on_fetched True (Some sample_diffs) init_sync" and ?rows = "dataSource sample_diffs"
  let ?checked = "handleBulkSelect [] ?rows ''u'' ?st"
  let ?cleared = "handleBulkUnselect [] ?rows ''u'' ?checked"
  have diffs: "ss_differences ?st = sample_diffs" "ss_differences ?checked = sample_diffs" "ss_differences ?cleared = sample_diffs"
    by (simp_all add: on_fetched_def handleBulkSelect_def handleBulkUnselect_def handleSelectValues_def handleUnselectValues_def)
  have rows: "?rows = filteredData id [] [] ?rows" by code_simp
  have wf: "table_wf sample_diffs" "numeric_wf sample_diffs" "''u'' \<in> set (upstreamNames [] ?rows)" by code_simp+
  have count: "bs_selectableCount (bulkSelectState sample_diffs res [] ?rows ''u'') > 0" for res
  proof -
    have "bs_selectableCount (bulkSelectState sample_diffs [] [] ?rows ''u'') > 0" by code_simp
    then show ?thesis by (simp add: bulkSelectState_def Let_def)
  qed
  have models: "''m1'' \<in> mr_model ` set ?rows" "''m2'' \<in> mr_model ` set ?rows" by (simp_all add: dataSource_def sample_diffs_def)
  have vals: "column_value sample_diffs [] ''u'' ''m1'' ''model_price'' = Some (SNum (Dec 3 0))"
    "column_value sample_diffs [] ''u'' ''m2'' ''billing_expr'' = Some (SStr ''p * 2'')"
    "shown_value sample_diffs [] ''u'' ''m1'' ''model_price'' \<noteq> None" by code_simp+
  note first = column_checkbox_toggles [of ?st ?rows id "[]" "[]" "''u''", unfolded diffs, OF wf(1,2) rows wf(3) count refl refl]
  note second = column_checkbox_toggles [of ?checked ?rows id "[]" "[]" "''u''", unfolded diffs, OF wf(1,2) rows wf(3) count refl refl]
  have "chosen (ss_resolutions ?checked) ''m1'' ''model_price'' = Some (SNum (Dec 3 0))"
    "chosen (ss_resolutions ?checked) ''m2'' ''billing_expr'' = Some (SStr ''p * 2'')"
    using first models vals(1,2) by blast+
  moreover have "chosen (ss_resolutions ?cleared) ''m1'' ''model_price'' = None" using second models(1) vals(3) by blast
  moreover have "column_checkbox (bulkSelectState sample_diffs (ss_resolutions ?checked) [] ?rows ''u'') = (True, False)"
    using first diffs by simp
  moreover have "column_checkbox (bulkSelectState sample_diffs (ss_resolutions ?cleared) [] ?rows ''u'') = (False, False)"
    using second diffs by simp
  ultimately show ?thesis using diffs(1) by blast
qed

text \<open>
  C35. Only the two presets can have an endpoint of their own. Whatever is done in the dialog, the endpoint of every other
  channel is one of the three listed ones, also after the type custom was picked: picking it stores the empty text, which is
  read as the default endpoint, so that the type shown is the one of the default and the field for the text never appears.
\<close>

theorem custom_endpoint_unreachable:
  assumes "endpoint_reach es" "i \<notin> {- 100, - 101}"
  shows "current_endpoint es i \<in> {''/api/pricing'', ''/api/ratio_config'', ''openrouter''}
    \<and> getEndpointType (current_endpoint (handleTypeChange i ''custom'' es) i) = ''/api/pricing''"
proof
  show "current_endpoint es i \<in> {''/api/pricing'', ''/api/ratio_config'', ''openrouter''}"
    using reach_plain [OF assms(1), of i] assms(2) by (auto simp: plain_endpoint_def current_endpoint_def DEFAULT_ENDPOINT_def)
  show "getEndpointType (current_endpoint (handleTypeChange i ''custom'' es) i) = ''/api/pricing''"
    by (simp add: handleTypeChange_def updateEndpoint_def current_endpoint_def endpoint_update getEndpointType_def ENDPOINT_OPTIONS_def DEFAULT_ENDPOINT_def)
qed

theorem custom_endpoint_unreachable_witness:
  "getEndpointType (current_endpoint (handleTypeChange 7 ''custom'' (handleTypeChange 7 ''openrouter'' [])) 7) = ''/api/pricing''"
proof -
  have "endpoint_reach (handleTypeChange 7 ''openrouter'' [])" by (intro type_changed none_set) (simp add: ENDPOINT_OPTIONS_def)
  from custom_endpoint_unreachable [OF this, of 7] show ?thesis by simp
qed

end
