(* ===== verification/Ratio_Apply.thy ===== *)
theory Ratio_Apply
  imports Ratio_Choice
begin

text \<open>
  Applying the chosen prices (\<open>performSync\<close> and \<open>handleApplySync\<close> of \<open>upstream-ratio-sync.tsx\<close>): the specification of the
  settings that are stored, and the billing categories, which change after a confirmation only.
\<close>

section \<open>Applying the resolutions\<close>























section \<open>Billing categories\<close>




section \<open>Properties\<close>






end
