(* ===== verification/Channel_Form.thy ===== *)
theory Channel_Form
  imports Advanced_Custom Param_Override
begin

text \<open>
  The form of a channel: \<open>web/src/features/channels/lib/channel-form.ts\<close>. A channel of the API is opened as a form, the form
  is checked and sent back as a payload; most options live in two texts of the channel, \<open>setting\<close> and \<open>settings\<close>, which hold
  JSON objects.

  Text fields of the form are strings; a missing one is the empty string, which the code treats alike. What is read from the
  two JSON texts keeps its value, of whatever type it is there (\<open>json\<close>). The result \<open>None\<close> of an operation is an exception. The
  limits on the length of the remark and of the project are left out, since they count UTF-16 units; the constructor
  \<open>new URL(value)\<close> is the parameter \<open>newURL\<close> (host, protocol, host name, port). Of a channel
  only the fields that the form reads are kept.
\<close>

section \<open>Data\<close>

record extra_settings =
  ex_force_format :: json
  ex_thinking_to_content :: json
  ex_proxy :: json
  ex_http_protocol :: string
  ex_http2_connection_shards :: json
  ex_pass_through_body_enabled :: json
  ex_system_prompt :: json
  ex_system_prompt_override :: json

record own_settings =
  os_is_enterprise_account :: bool
  os_vertex_key_type :: json
  os_azure_responses_version :: json
  os_aws_key_type :: json
  os_allow_service_tier :: bool
  os_disable_store :: bool
  os_allow_safety_identifier :: bool
  os_allow_include_obfuscation :: bool
  os_allow_inference_geo :: bool
  os_allow_speed :: bool
  os_claude_beta_query :: bool
  os_disable_task_polling_sleep :: bool
  os_check_enabled :: bool
  os_auto_sync_enabled :: bool
  os_ignored_models :: string
  os_advanced_custom :: string

record channel_form =
  fm_name :: string
  fm_type :: int
  fm_base_url :: string
  fm_key :: string
  fm_openai_organization :: string
  fm_openai_project :: string
  fm_models :: string
  fm_group :: "string list"
  fm_model_mapping :: string
  fm_priority :: "dec option"
  fm_weight :: "dec option"
  fm_price_ratio :: "dec option"
  fm_balance_currency :: string
  fm_test_model :: string
  fm_auto_ban :: "dec option"
  fm_status :: dec
  fm_status_code_mapping :: string
  fm_tag :: string
  fm_remark :: string
  fm_setting :: string
  fm_param_override :: string
  fm_header_override :: string
  fm_settings :: string
  fm_other :: string
  fm_multi_key_mode :: string
  fm_multi_key_type :: string
  fm_set_key_prefix :: bool
  fm_key_mode :: string
  fm_extra :: extra_settings
  fm_own :: own_settings

record channel =
  ch_name :: string
  ch_type :: int
  ch_base_url :: "string option"
  ch_openai_organization :: "string option"
  ch_openai_project :: "string option"
  ch_models :: string
  ch_group :: string
  ch_model_mapping :: "string option"
  ch_priority :: "dec option"
  ch_weight :: "dec option"
  ch_price_ratio :: "dec option"
  ch_balance_currency :: string
  ch_test_model :: "string option"
  ch_auto_ban :: "dec option"
  ch_status :: dec
  ch_status_code_mapping :: "string option"
  ch_tag :: "string option"
  ch_remark :: string
  ch_setting :: "string option"
  ch_param_override :: "string option"
  ch_header_override :: "string option"
  ch_settings :: string
  ch_other :: string
  ch_multi_key_mode :: string

section \<open>Normalisation\<close>

text \<open>\<open>value || d\<close> on parsed values.\<close>

definition or_json :: "json option \<Rightarrow> json \<Rightarrow> json" where
  "or_json v d = (if json_truthy v then the v else d)"

definition normalizeHttpProtocol :: "json option \<Rightarrow> string" where
  "normalizeHttpProtocol v = (if ascii_lower (js_trim (string_or v [])) = ''http1'' then ''http1'' else ''auto'')"

definition MAX_HTTP2_CONNECTION_SHARDS :: dec where
  "MAX_HTTP2_CONNECTION_SHARDS = Dec 8 0"

definition normalizeHttp2ConnectionShards :: "json option \<Rightarrow> json" where
  "normalizeHttp2ConnectionShards v =
     (case v of
        None \<Rightarrow> JNum (Dec 1 0)
      | Some JNull \<Rightarrow> JNum (Dec 1 0)
      | Some j \<Rightarrow>
          if (case j of JNum d \<Rightarrow> mant d = 0 | _ \<Rightarrow> False) then JNum (Dec 1 0)
          else (case json_number v of
                  None \<Rightarrow> j
                | Some n \<Rightarrow> if dec_less n (Dec 1 0) then JNum (Dec 1 0)
                            else if dec_less MAX_HTTP2_CONNECTION_SHARDS n then JNum MAX_HTTP2_CONNECTION_SHARDS
                            else j))"

definition normalizeBaseUrl :: "string \<Rightarrow> string" where
  "normalizeBaseUrl v = rev (dropWhile (\<lambda>c. c = CHR ''/'') (rev (js_trim v)))"

definition parseGroups :: "string \<Rightarrow> string list" where
  "parseGroups groups = (if groups = [] then [] else filter (\<lambda>g. length g > 0) (map js_trim (js_split (CHR '','') groups)))"

definition parseModels :: "string \<Rightarrow> string list" where
  "parseModels models = (if models = [] then [] else filter (\<lambda>m. length m > 0) (map js_trim (js_split (CHR '','') models)))"

definition formatGroups :: "string list \<Rightarrow> string" where
  "formatGroups groups = js_join '','' groups"

definition formatModels :: "string list \<Rightarrow> string" where
  "formatModels models = js_join '','' models"

section \<open>Custom routes as JSON\<close>

text \<open>\<open>(v || '').trim()\<close>, and \<open>trim\<close> on every element; only strings have this method.\<close>

definition trim_or_empty :: "json option \<Rightarrow> string option" where
  "trim_or_empty v = (if json_truthy v then (case v of Some (JStr s) \<Rightarrow> Some (js_trim s) | _ \<Rightarrow> None) else Some [])"

fun trim_models :: "json list \<Rightarrow> string list option" where
  "trim_models [] = Some []"
| "trim_models (JStr s # xs) = map_option (Cons (js_trim s)) (trim_models xs)"
| "trim_models (x # xs) = None"

definition route_models_json :: "json option \<Rightarrow> string list option" where
  "route_models_json v = (case v of Some (JArr xs) \<Rightarrow> map_option (filter truthy) (trim_models xs) | _ \<Rightarrow> Some [])"

definition route_auth_json :: "json \<Rightarrow> json" where
  "route_auth_json a =
     JObj ((case jget a ''type'' of Some t \<Rightarrow> [(''type'', t)] | None \<Rightarrow> [])
       @ [(''name'', or_json (jget a ''name'') (JStr [])), (''value'', or_json (jget a ''value'') (JStr []))])"

definition normalize_route_json :: "json \<Rightarrow> json option" where
  "normalize_route_json r =
     (if r = JNull then None
      else (case (trim_or_empty (jget r ''upstream_path''), route_models_json (jget r ''models'')) of
              (Some up, Some ms) \<Rightarrow>
                Some (JObj ([(''incoming_path'', or_json (jget r ''incoming_path'') (JStr [])), (''upstream_path'', JStr up),
                    (''converter'', or_json (jget r ''converter'') (JStr ''none''))]
                  @ (if length ms > 0 then [(''models'', JArr (map JStr ms))] else [])
                  @ (if json_truthy (jget r ''auth'') then [(''auth'', route_auth_json (the (jget r ''auth'')))] else [])))
            | _ \<Rightarrow> None))"

definition normalize_config_json :: "json \<Rightarrow> json option" where
  "normalize_config_json c =
     (case jget c ''advanced_routes'' of
        Some (JArr rs) \<Rightarrow> map_option (\<lambda>rs'. JObj [(''advanced_routes'', JArr rs')]) (those (map normalize_route_json rs))
      | _ \<Rightarrow> Some (JObj [(''advanced_routes'', JArr [])]))"

definition parseAdvancedCustomConfig :: "string \<Rightarrow> json option" where
  "parseAdvancedCustomConfig v =
     (if js_trim v = [] then None
      else (case json_parse v of Some (JObj o1) \<Rightarrow> normalize_config_json (JObj o1) | _ \<Rightarrow> None))"

definition stringifyAdvancedCustomConfig :: "json \<Rightarrow> string option" where
  "stringifyAdvancedCustomConfig c = map_option json_stringify2 (normalize_config_json c)"

section \<open>Opening a channel\<close>

definition default_extra :: extra_settings where
  "default_extra = \<lparr>ex_force_format = JBool False, ex_thinking_to_content = JBool False, ex_proxy = JStr [], ex_http_protocol = ''auto'',
     ex_http2_connection_shards = JNum (Dec 1 0), ex_pass_through_body_enabled = JBool False, ex_system_prompt = JStr [],
     ex_system_prompt_override = JBool False\<rparr>"

definition read_extra :: "json \<Rightarrow> extra_settings" where
  "read_extra parsed =
     (let protocol = normalizeHttpProtocol (jget parsed ''http_protocol'');
          shards = normalizeHttp2ConnectionShards (jget parsed ''http2_connection_shards'')
      in \<lparr>ex_force_format = or_json (jget parsed ''force_format'') (JBool False),
          ex_thinking_to_content = or_json (jget parsed ''thinking_to_content'') (JBool False),
          ex_proxy = or_json (jget parsed ''proxy'') (JStr []),
          ex_http_protocol = protocol,
          ex_http2_connection_shards = (if protocol = ''http1'' then JNum (Dec 1 0) else shards),
          ex_pass_through_body_enabled = or_json (jget parsed ''pass_through_body_enabled'') (JBool False),
          ex_system_prompt = or_json (jget parsed ''system_prompt'') (JStr []),
          ex_system_prompt_override = or_json (jget parsed ''system_prompt_override'') (JBool False)\<rparr>)"

definition open_extra :: "string \<Rightarrow> extra_settings" where
  "open_extra setting =
     (if setting = [] then default_extra
      else (case json_parse setting of None \<Rightarrow> default_extra | Some JNull \<Rightarrow> default_extra | Some v \<Rightarrow> read_extra v))"

definition default_own :: own_settings where
  "default_own = \<lparr>os_is_enterprise_account = False, os_vertex_key_type = JStr ''json'', os_azure_responses_version = JStr [],
     os_aws_key_type = JStr ''ak_sk'', os_allow_service_tier = False, os_disable_store = False, os_allow_safety_identifier = False,
     os_allow_include_obfuscation = False, os_allow_inference_geo = False, os_allow_speed = False, os_claude_beta_query = False,
     os_disable_task_polling_sleep = False, os_check_enabled = False, os_auto_sync_enabled = False, os_ignored_models = [],
     os_advanced_custom = []\<rparr>"

definition read_own :: "json \<Rightarrow> own_settings" where
  "read_own parsed =
     \<lparr>os_is_enterprise_account = true_prop parsed ''openrouter_enterprise'',
      os_vertex_key_type = or_json (jget parsed ''vertex_key_type'') (JStr ''json''),
      os_azure_responses_version = or_json (jget parsed ''azure_responses_version'') (JStr []),
      os_aws_key_type = or_json (jget parsed ''aws_key_type'') (JStr ''ak_sk''),
      os_allow_service_tier = true_prop parsed ''allow_service_tier'',
      os_disable_store = true_prop parsed ''disable_store'',
      os_allow_safety_identifier = true_prop parsed ''allow_safety_identifier'',
      os_allow_include_obfuscation = true_prop parsed ''allow_include_obfuscation'',
      os_allow_inference_geo = true_prop parsed ''allow_inference_geo'',
      os_allow_speed = true_prop parsed ''allow_speed'',
      os_claude_beta_query = true_prop parsed ''claude_beta_query'',
      os_disable_task_polling_sleep = true_prop parsed ''disable_task_polling_sleep'',
      os_check_enabled = true_prop parsed ''upstream_model_update_check_enabled'',
      os_auto_sync_enabled = true_prop parsed ''upstream_model_update_auto_sync_enabled'',
      os_ignored_models = (case jget parsed ''upstream_model_update_ignored_models'' of Some (JArr xs) \<Rightarrow> json_string (JArr xs) | _ \<Rightarrow> []),
      os_advanced_custom = (if json_truthy (jget parsed ''advanced_custom'')
        then (case stringifyAdvancedCustomConfig (the (jget parsed ''advanced_custom'')) of Some t \<Rightarrow> t | None \<Rightarrow> []) else [])\<rparr>"

definition open_own :: "string \<Rightarrow> own_settings" where
  "open_own settings =
     (if settings = [] then default_own
      else (case json_parse settings of None \<Rightarrow> default_own | Some JNull \<Rightarrow> default_own | Some v \<Rightarrow> read_own v))"

definition dec_or_zero :: "dec option \<Rightarrow> dec" where
  "dec_or_zero d = (case d of Some x \<Rightarrow> if mant x = 0 then Dec 0 0 else x | None \<Rightarrow> Dec 0 0)"

definition dec_default :: "dec \<Rightarrow> dec option \<Rightarrow> dec" where
  "dec_default d v = (case v of Some x \<Rightarrow> x | None \<Rightarrow> d)"

definition transformChannelToFormDefaults :: "channel \<Rightarrow> channel_form" where
  "transformChannelToFormDefaults c =
     \<lparr>fm_name = ch_name c, fm_type = ch_type c, fm_base_url = opt_str (ch_base_url c), fm_key = [],
      fm_openai_organization = opt_str (ch_openai_organization c), fm_openai_project = opt_str (ch_openai_project c),
      fm_models = ch_models c, fm_group = parseGroups (str_or (ch_group c) ''default''), fm_model_mapping = opt_str (ch_model_mapping c),
      fm_priority = Some (dec_or_zero (ch_priority c)), fm_weight = Some (dec_or_zero (ch_weight c)),
      fm_price_ratio = Some (dec_default (Dec 1 0) (ch_price_ratio c)),
      fm_balance_currency = (if ch_balance_currency c = ''CNY'' then ''CNY'' else ''USD''), fm_test_model = opt_str (ch_test_model c),
      fm_auto_ban = Some (dec_default (Dec 1 0) (ch_auto_ban c)), fm_status = ch_status c,
      fm_status_code_mapping = opt_str (ch_status_code_mapping c), fm_tag = opt_str (ch_tag c), fm_remark = ch_remark c,
      fm_setting = opt_str (ch_setting c), fm_param_override = opt_str (ch_param_override c), fm_header_override = opt_str (ch_header_override c),
      fm_settings = str_or (ch_settings c) ''{}'', fm_other = ch_other c, fm_multi_key_mode = ''single'',
      fm_multi_key_type = str_or (ch_multi_key_mode c) ''random'', fm_set_key_prefix = False, fm_key_mode = ''append'',
      fm_extra = open_extra (opt_str (ch_setting c)), fm_own = open_own (ch_settings c)\<rparr>"

definition CHANNEL_FORM_DEFAULT_VALUES :: channel_form where
  "CHANNEL_FORM_DEFAULT_VALUES =
     \<lparr>fm_name = [], fm_type = 1, fm_base_url = [], fm_key = [], fm_openai_organization = [], fm_openai_project = [], fm_models = [],
      fm_group = [''default''], fm_model_mapping = [], fm_priority = Some (Dec 0 0), fm_weight = Some (Dec 0 0), fm_price_ratio = Some (Dec 1 0),
      fm_balance_currency = ''USD'', fm_test_model = [], fm_auto_ban = Some (Dec 1 0), fm_status = Dec 1 0, fm_status_code_mapping = [],
      fm_tag = [], fm_remark = [], fm_setting = [], fm_param_override = [], fm_header_override = [], fm_settings = ''{}'', fm_other = [],
      fm_multi_key_mode = ''single'', fm_multi_key_type = ''random'', fm_set_key_prefix = False, fm_key_mode = ''append'',
      fm_extra = default_extra, fm_own = default_own\<rparr>"

section \<open>The two texts\<close>

definition proxy_text :: "json \<Rightarrow> string option" where
  "proxy_text v = (case v of JStr s \<Rightarrow> Some (js_trim s) | JNull \<Rightarrow> Some [] | _ \<Rightarrow> None)"

definition shards_above_one :: "json \<Rightarrow> bool" where
  "shards_above_one v = (case json_number (Some v) of Some n \<Rightarrow> dec_less (Dec 1 0) n | None \<Rightarrow> False)"

definition setting_object :: "extra_settings \<Rightarrow> string \<Rightarrow> (string \<times> json) list" where
  "setting_object x proxy =
     (let o1 = [(''force_format'', or_json (Some (ex_force_format x)) (JBool False)),
            (''thinking_to_content'', or_json (Some (ex_thinking_to_content x)) (JBool False)),
            (''proxy'', JStr proxy),
            (''pass_through_body_enabled'', or_json (Some (ex_pass_through_body_enabled x)) (JBool False)),
            (''system_prompt'', or_json (Some (ex_system_prompt x)) (JStr [])),
            (''system_prompt_override'', or_json (Some (ex_system_prompt_override x)) (JBool False))];
          protocol = normalizeHttpProtocol (Some (JStr (ex_http_protocol x)));
          shards = (if protocol = ''http1'' then JNum (Dec 1 0) else normalizeHttp2ConnectionShards (Some (ex_http2_connection_shards x)))
      in if protocol = ''http1'' then obj_put ''http_protocol'' (JStr ''http1'') o1
         else if shards_above_one shards then obj_put ''http2_connection_shards'' shards o1
         else o1)"

definition setting_text :: "extra_settings \<Rightarrow> string option" where
  "setting_text x = map_option (\<lambda>proxy. json_stringify (JObj (setting_object x proxy))) (proxy_text (ex_proxy x))"

definition buildSettingJSON :: "channel_form \<Rightarrow> string option" where
  "buildSettingJSON f = setting_text (fm_extra f)"

definition MODEL_FETCHABLE_TYPES :: "int list" where
  "MODEL_FETCHABLE_TYPES = [1, 4, 14, 17, 20, 23, 24, 25, 26, 27, 31, 34, 35, 40, 42, 43, 47, 48, 57, 58, 59, 60]"

text \<open>Every option of a type is stored or removed.\<close>

definition put_or_drop :: "bool \<Rightarrow> string \<Rightarrow> json \<Rightarrow> (string \<times> json) list \<Rightarrow> (string \<times> json) list" where
  "put_or_drop b k v o1 = (if b then obj_put k v o1 else obj_del k o1)"

definition type_options :: "int \<Rightarrow> own_settings \<Rightarrow> (string \<times> json) list \<Rightarrow> (string \<times> json) list" where
  "type_options ty s o1 =
     (let o2 = put_or_drop (ty = 41) ''vertex_key_type'' (or_json (Some (os_vertex_key_type s)) (JStr ''json'')) o1;
          o3 = put_or_drop (ty = 3 \<and> json_truthy (Some (os_azure_responses_version s))) ''azure_responses_version'' (os_azure_responses_version s) o2;
          o4 = put_or_drop (ty = 20) ''openrouter_enterprise'' (JBool (os_is_enterprise_account s)) o3;
          o5 = put_or_drop (ty = 33) ''aws_key_type'' (or_json (Some (os_aws_key_type s)) (JStr ''ak_sk'')) o4;
          o6 = put_or_drop (ty = 1 \<or> ty = 14 \<or> ty = 57) ''allow_service_tier'' (JBool (os_allow_service_tier s)) o5;
          o7 = (if ty = 1 \<or> ty = 57
            then obj_put ''allow_inference_geo'' (JBool (os_allow_inference_geo s))
              (obj_put ''allow_include_obfuscation'' (JBool (os_allow_include_obfuscation s))
                (obj_put ''allow_safety_identifier'' (JBool (os_allow_safety_identifier s))
                  (obj_put ''disable_store'' (JBool (os_disable_store s)) o6)))
            else (let p = obj_del ''allow_include_obfuscation'' (obj_del ''allow_safety_identifier'' (obj_del ''disable_store'' o6))
                  in if ty \<noteq> 14 then obj_del ''allow_inference_geo'' p else p));
          o8 = (if ty = 14
            then obj_put ''claude_beta_query'' (JBool (os_claude_beta_query s))
              (obj_put ''allow_speed'' (JBool (os_allow_speed s)) (obj_put ''allow_inference_geo'' (JBool (os_allow_inference_geo s)) o7))
            else obj_del ''claude_beta_query'' (obj_del ''allow_speed'' o7))
      in obj_put ''disable_task_polling_sleep'' (JBool (os_disable_task_polling_sleep s)) o8)"

definition ignored_list :: "string \<Rightarrow> string list" where
  "ignored_list v = js_uniq (filter truthy (map js_trim (js_split (CHR '','') v)))"

definition is_array :: "json option \<Rightarrow> bool" where
  "is_array v = (case v of Some (JArr _) \<Rightarrow> True | _ \<Rightarrow> False)"

definition is_number :: "json option \<Rightarrow> bool" where
  "is_number v = (case v of Some (JNum _) \<Rightarrow> True | _ \<Rightarrow> False)"

definition update_options :: "own_settings \<Rightarrow> (string \<times> json) list \<Rightarrow> (string \<times> json) list" where
  "update_options s o1 =
     (let o2 = obj_put ''upstream_model_update_check_enabled'' (JBool (os_check_enabled s)) o1;
          o3 = obj_put ''upstream_model_update_auto_sync_enabled'' (JBool (os_check_enabled s \<and> os_auto_sync_enabled s)) o2;
          o4 = obj_put ''upstream_model_update_ignored_models'' (JArr (map JStr (ignored_list (os_ignored_models s)))) o3;
          o5 = (if \<not> is_array (map_of o4 ''upstream_model_update_last_detected_models'') \<or> \<not> os_check_enabled s
            then obj_put ''upstream_model_update_last_detected_models'' (JArr []) o4 else o4)
      in if \<not> is_number (map_of o5 ''upstream_model_update_last_check_time'')
         then obj_put ''upstream_model_update_last_check_time'' (JNum (Dec 0 0)) o5 else o5)"

definition settings_object :: "int \<Rightarrow> own_settings \<Rightarrow> (string \<times> json) list \<Rightarrow> (string \<times> json) list" where
  "settings_object ty s o1 =
     (let o2 = type_options ty s o1;
          o3 = (if ty \<in> set MODEL_FETCHABLE_TYPES then update_options s o2 else o2)
      in if ty = 58
         then (case parseAdvancedCustomConfig (os_advanced_custom s) of Some c \<Rightarrow> obj_put ''advanced_custom'' c o3 | None \<Rightarrow> o3)
         else obj_del ''advanced_custom'' o3)"

text \<open>A text that is no JSON counts as an empty object. Properties of an array are not printed; other values have none to set.\<close>

definition parsed_settings :: "string \<Rightarrow> json" where
  "parsed_settings settings =
     (if settings \<noteq> [] \<and> settings \<noteq> ''{}'' then (case json_parse settings of Some v \<Rightarrow> v | None \<Rightarrow> JObj []) else JObj [])"

definition settings_text :: "int \<Rightarrow> string \<Rightarrow> own_settings \<Rightarrow> string option" where
  "settings_text ty settings s =
     (case parsed_settings settings of
        JObj o1 \<Rightarrow> Some (json_stringify (JObj (settings_object ty s o1)))
      | JArr xs \<Rightarrow> Some (json_stringify (JArr xs))
      | _ \<Rightarrow> None)"

definition buildSettingsJSON :: "channel_form \<Rightarrow> string option" where
  "buildSettingsJSON f = settings_text (fm_type f) (fm_settings f) (fm_own f)"

section \<open>Payloads\<close>

definition str_or_null :: "string \<Rightarrow> json" where
  "str_or_null s = (if s = [] then JNull else JStr s)"

definition empty_to_null :: "(string \<times> json) list \<Rightarrow> (string \<times> json) list" where
  "empty_to_null = map (\<lambda>(k, v). (k, if v = JStr [] then JNull else v))"

record create_request =
  cr_mode :: string
  cr_multi_key_mode :: "string option"
  cr_set_key_prefix :: "bool option"
  cr_channel :: "(string \<times> json) list"

definition nonzero_or_null :: "dec option \<Rightarrow> json" where
  "nonzero_or_null d = (case d of Some x \<Rightarrow> if mant x = 0 then JNull else JNum x | None \<Rightarrow> JNull)"

definition transformFormDataToCreatePayload :: "channel_form \<Rightarrow> create_request option" where
  "transformFormDataToCreatePayload f =
     (case (buildSettingJSON f, buildSettingsJSON f) of
        (Some setting, Some settings) \<Rightarrow>
          (let mode = str_or (fm_multi_key_mode f) ''single'';
               ch = [(''name'', JStr (fm_name f)), (''type'', JNum (of_int_dec (fm_type f))), (''base_url'', str_or_null (normalizeBaseUrl (fm_base_url f))),
                 (''key'', JStr (fm_key f)), (''openai_organization'', str_or_null (fm_openai_organization f)),
                 (''openai_project'', str_or_null (fm_openai_project f)), (''models'', JStr (fm_models f)), (''group'', JStr (formatGroups (fm_group f))),
                 (''model_mapping'', str_or_null (fm_model_mapping f)), (''priority'', nonzero_or_null (fm_priority f)),
                 (''weight'', nonzero_or_null (fm_weight f)), (''price_ratio'', JNum (dec_default (Dec 1 0) (fm_price_ratio f))),
                 (''balance_currency'', JStr (str_or (fm_balance_currency f) ''USD'')), (''test_model'', str_or_null (fm_test_model f)),
                 (''auto_ban'', JNum (dec_default (Dec 1 0) (fm_auto_ban f))), (''status'', JNum (fm_status f)),
                 (''status_code_mapping'', str_or_null (fm_status_code_mapping f)), (''tag'', str_or_null (fm_tag f)), (''remark'', JStr (fm_remark f)),
                 (''setting'', JStr setting), (''param_override'', str_or_null (fm_param_override f)),
                 (''header_override'', str_or_null (fm_header_override f)), (''settings'', JStr settings), (''other'', JStr (fm_other f))]
           in Some \<lparr>cr_mode = mode, cr_multi_key_mode = (if mode = ''multi_to_single'' then Some (fm_multi_key_type f) else None),
                cr_set_key_prefix = (if mode = ''batch'' then Some (fm_set_key_prefix f) else None), cr_channel = empty_to_null ch\<rparr>)
      | _ \<Rightarrow> None)"

definition update_fields :: "channel_form \<Rightarrow> dec \<Rightarrow> string \<Rightarrow> string \<Rightarrow> (string \<times> json) list" where
  "update_fields f channelId setting settings =
     [(''id'', JNum channelId), (''name'', JStr (fm_name f)), (''type'', JNum (of_int_dec (fm_type f))),
      (''base_url'', str_or_null (normalizeBaseUrl (fm_base_url f))), (''openai_organization'', str_or_null (fm_openai_organization f)),
      (''openai_project'', str_or_null (fm_openai_project f)), (''models'', JStr (fm_models f)), (''group'', JStr (formatGroups (fm_group f))),
      (''model_mapping'', str_or_null (fm_model_mapping f)), (''priority'', JNum (dec_default (Dec 0 0) (fm_priority f))),
      (''weight'', JNum (dec_default (Dec 0 0) (fm_weight f))), (''price_ratio'', JNum (dec_default (Dec 1 0) (fm_price_ratio f))),
      (''balance_currency'', JStr (str_or (fm_balance_currency f) ''USD'')), (''test_model'', str_or_null (fm_test_model f)),
      (''auto_ban'', JNum (dec_default (Dec 1 0) (fm_auto_ban f))), (''status_code_mapping'', str_or_null (fm_status_code_mapping f)),
      (''tag'', str_or_null (fm_tag f)), (''remark'', JStr (fm_remark f)), (''setting'', JStr setting),
      (''param_override'', str_or_null (fm_param_override f)), (''header_override'', str_or_null (fm_header_override f)),
      (''settings'', JStr settings), (''other'', JStr (fm_other f))]"

definition explicit_fields :: "channel_form \<Rightarrow> (string \<times> json) list" where
  "explicit_fields f =
     [(''base_url'', JStr (normalizeBaseUrl (fm_base_url f))), (''openai_organization'', JStr (fm_openai_organization f)),
      (''openai_project'', JStr (fm_openai_project f)), (''test_model'', JStr (fm_test_model f)), (''tag'', JStr (fm_tag f)),
      (''remark'', JStr (fm_remark f)), (''model_mapping'', JStr (fm_model_mapping f)), (''status_code_mapping'', JStr (fm_status_code_mapping f)),
      (''param_override'', JStr (fm_param_override f)), (''header_override'', JStr (fm_header_override f))]"

definition transformFormDataToUpdatePayload :: "channel_form \<Rightarrow> dec \<Rightarrow> (string \<times> json) list option" where
  "transformFormDataToUpdatePayload f channelId =
     (case (buildSettingJSON f, buildSettingsJSON f) of
        (Some setting, Some settings) \<Rightarrow>
          (let p1 = update_fields f channelId setting settings;
               p2 = (if fm_key f \<noteq> [] \<and> js_trim (fm_key f) \<noteq> [] then obj_put ''key'' (JStr (fm_key f)) p1 else p1)
           in Some (fold (\<lambda>(k, v). obj_put k v) (explicit_fields f) (empty_to_null p2)))
      | _ \<Rightarrow> None)"

section \<open>The schema\<close>

definition parseOptionalJson :: "string \<Rightarrow> json option + unit" where
  "parseOptionalJson v = (if js_trim v = [] then Inl None else (case json_parse v of Some j \<Rightarrow> Inl (Some j) | None \<Rightarrow> Inr ()))"

text \<open>\<open>Inr\<close> is the exception of \<open>JSON.parse\<close>, which every check answers with \<open>false\<close>.\<close>

fun isJsonObjectValue :: "json \<Rightarrow> bool" where
  "isJsonObjectValue (JObj _) = True"
| "isJsonObjectValue _ = False"

definition optional_json :: "(json \<Rightarrow> bool) \<Rightarrow> string \<Rightarrow> bool" where
  "optional_json P v = (case parseOptionalJson v of Inl None \<Rightarrow> True | Inl (Some j) \<Rightarrow> P j | Inr _ \<Rightarrow> False)"

definition isOptionalJsonObject :: "string \<Rightarrow> bool" where
  "isOptionalJsonObject v = optional_json isJsonObjectValue v"

definition isOptionalModelMapping :: "string \<Rightarrow> bool" where
  "isOptionalModelMapping v =
     optional_json (\<lambda>j. case j of JObj o1 \<Rightarrow> list_all (\<lambda>(k, x). case x of JStr _ \<Rightarrow> True | _ \<Rightarrow> False) o1 | _ \<Rightarrow> False) v"

definition status_code :: "dec option \<Rightarrow> bool" where
  "status_code d = (case Option.bind d dec_int of Some n \<Rightarrow> 100 \<le> n \<and> n \<le> 599 | None \<Rightarrow> False)"

definition isOptionalStatusCodeMapping :: "string \<Rightarrow> bool" where
  "isOptionalStatusCodeMapping v =
     optional_json (\<lambda>j. case j of JObj o1 \<Rightarrow> list_all (\<lambda>(from, to). status_code (str_number from) \<and> status_code (json_number (Some to))) o1
       | _ \<Rightarrow> False) v"

definition visible_string :: "json option \<Rightarrow> bool" where
  "visible_string v = (case v of Some (JStr s) \<Rightarrow> length (js_trim s) > 0 | _ \<Rightarrow> False)"

definition isCodexCredential :: "string \<Rightarrow> bool" where
  "isCodexCredential v =
     optional_json (\<lambda>j. isJsonObjectValue j \<and> visible_string (jget j ''access_token'') \<and> visible_string (jget j ''account_id'')) v"

definition isVertexJsonKey :: "string \<Rightarrow> bool" where
  "isVertexJsonKey v = optional_json (\<lambda>j. case j of JArr xs \<Rightarrow> list_all isJsonObjectValue xs | _ \<Rightarrow> isJsonObjectValue j) v"

fun split_scheme :: "string \<Rightarrow> (string \<times> string) option" where
  "split_scheme [] = None"
| "split_scheme (c # r) =
     (if prefix ''://'' (c # r) then Some ([], drop 3 (c # r)) else map_option (\<lambda>(a, b). (c # a, b)) (split_scheme r))"

definition SUPPORTED_PROXY_PROTOCOLS :: "string list" where
  "SUPPORTED_PROXY_PROTOCOLS = [''http:'', ''https:'', ''socks5:'', ''socks5h:'']"

definition isOptionalProxyURL :: "(string \<Rightarrow> (string \<times> string \<times> string \<times> string) option) \<Rightarrow> string \<Rightarrow> bool" where
  "isOptionalProxyURL newURL v =
     (let t = js_trim v
      in if t = [] then True
         else (case split_scheme t of
                 None \<Rightarrow> False
               | Some (scheme, authorityAndSuffix) \<Rightarrow>
                   if scheme = [] then False
                   else (let suffix = dropWhile (\<lambda>c. c \<notin> set ''/?#'') authorityAndSuffix
                         in if suffix \<noteq> [] \<and> suffix \<noteq> ''/'' then False
                            else (case newURL t of
                                    None \<Rightarrow> False
                                  | Some (host, protocol, hostname, port) \<Rightarrow>
                                      protocol \<in> set SUPPORTED_PROXY_PROTOCOLS \<and> hostname \<noteq> [] \<and> port \<noteq> ''0''))))"

text \<open>The declared types of the values that come from the two texts.\<close>

fun is_bool :: "json \<Rightarrow> bool" where
  "is_bool (JBool _) = True"
| "is_bool _ = False"

fun is_string :: "json \<Rightarrow> bool" where
  "is_string (JStr _) = True"
| "is_string _ = False"

definition typed_extra :: "extra_settings \<Rightarrow> bool" where
  "typed_extra x \<longleftrightarrow> is_bool (ex_force_format x) \<and> is_bool (ex_thinking_to_content x) \<and> is_string (ex_proxy x)
     \<and> ex_http_protocol x \<in> {''auto'', ''http1''} \<and> (case ex_http2_connection_shards x of JNum d \<Rightarrow> dec_int d \<noteq> None | _ \<Rightarrow> False)
     \<and> is_bool (ex_pass_through_body_enabled x) \<and> is_string (ex_system_prompt x) \<and> is_bool (ex_system_prompt_override x)"

definition typed_own :: "own_settings \<Rightarrow> bool" where
  "typed_own s \<longleftrightarrow> os_vertex_key_type s \<in> {JStr ''json'', JStr ''api_key''} \<and> os_aws_key_type s \<in> {JStr ''ak_sk'', JStr ''api_key''}
     \<and> is_string (os_azure_responses_version s)"

text \<open>The fields of the form that the schema rejects one by one.\<close>

definition field_checks :: "(string \<Rightarrow> (string \<times> string \<times> string \<times> string) option) \<Rightarrow> channel_form \<Rightarrow> (string \<times> string \<times> bool) list" where
  "field_checks newURL f =
     [(''name'', ''Channel name is required'', fm_name f \<noteq> []),
      (''type'', ''Channel type is required'', fm_type f \<ge> 0),
      (''models'', ''Models are required'', fm_models f \<noteq> []),
      (''group'', ''Group is required'', fm_group f \<noteq> []),
      (''model_mapping'', ''Model mapping must be a JSON object with string values'', isOptionalModelMapping (fm_model_mapping f)),
      (''price_ratio'', ''Channel price ratio must be greater than or equal to 0'',
        (case fm_price_ratio f of Some d \<Rightarrow> mant d \<ge> 0 | None \<Rightarrow> False)),
      (''status_code_mapping'', ''Status code mapping must use valid HTTP status codes'', isOptionalStatusCodeMapping (fm_status_code_mapping f)),
      (''setting'', ''Invalid JSON format'', isOptionalJsonObject (fm_setting f)),
      (''param_override'', ''Invalid JSON format'', isOptionalJsonObject (fm_param_override f)),
      (''header_override'', ''Invalid JSON format'', isOptionalJsonObject (fm_header_override f)),
      (''settings'', ''Invalid JSON format'', isOptionalJsonObject (fm_settings f)),
      (''proxy'', ''Proxy address must use HTTP, HTTPS, SOCKS5, or SOCKS5H and include a valid host'',
        (case ex_proxy (fm_extra f) of JStr p \<Rightarrow> isOptionalProxyURL newURL p | _ \<Rightarrow> False))]"

definition issues :: "(string \<times> string \<times> bool) list \<Rightarrow> (string \<times> string) list" where
  "issues cs = map (\<lambda>(path, msg, _). (path, msg)) (filter (\<lambda>(_, _, ok). \<not> ok) cs)"

text \<open>A normalised configuration as the declared type; \<open>None\<close> when a property has another type, which the checks of a
  configuration do not expect.\<close>

definition opt_string_prop :: "json \<Rightarrow> string \<Rightarrow> string option option" where
  "opt_string_prop j k = (case jget j k of None \<Rightarrow> Some None | Some (JStr s) \<Rightarrow> Some (Some s) | Some _ \<Rightarrow> None)"

definition auth_of_json :: "json option \<Rightarrow> advanced_custom_route_auth option option" where
  "auth_of_json a =
     (case a of
        None \<Rightarrow> Some None
      | Some j \<Rightarrow>
          (case (opt_string_prop j ''type'', opt_string_prop j ''name'', opt_string_prop j ''value'') of
             (Some t, Some n, Some v) \<Rightarrow> Some (Some \<lparr>auth_type = t, auth_name = n, auth_value = v\<rparr>)
           | _ \<Rightarrow> None))"

definition strings_of :: "json list \<Rightarrow> string list option" where
  "strings_of xs = those (map (\<lambda>x. case x of JStr s \<Rightarrow> Some s | _ \<Rightarrow> None) xs)"

definition models_of_json :: "json option \<Rightarrow> string list option option" where
  "models_of_json m = (case m of None \<Rightarrow> Some None | Some (JArr xs) \<Rightarrow> map_option Some (strings_of xs) | Some _ \<Rightarrow> None)"

definition route_of_json :: "json \<Rightarrow> advanced_custom_route option" where
  "route_of_json r =
     (case (opt_string_prop r ''incoming_path'', opt_string_prop r ''upstream_path'', opt_string_prop r ''converter'',
            models_of_json (jget r ''models''), auth_of_json (jget r ''auth'')) of
        (Some i, Some u, Some c, Some m, Some a) \<Rightarrow>
          Some \<lparr>incoming_path = i, upstream_path = u, converter = c, route_models = m, route_auth = a\<rparr>
      | _ \<Rightarrow> None)"

definition config_of_json :: "json \<Rightarrow> advanced_custom_config option" where
  "config_of_json c =
     (case jget c ''advanced_routes'' of
        Some (JArr rs) \<Rightarrow> map_option (\<lambda>rs'. \<lparr>advanced_routes = Some rs'\<rparr>) (those (map route_of_json rs))
      | _ \<Rightarrow> None)"

definition advanced_custom_checks ::
  "(string \<Rightarrow> (string \<times> string) option) \<Rightarrow> channel_form \<Rightarrow> advanced_custom_config option \<Rightarrow> (string \<times> string \<times> bool) list" where
  "advanced_custom_checks url f config =
     [(''advanced_custom'', (case validateAdvancedCustomConfig url config of Some e \<Rightarrow> message e | None \<Rightarrow> []),
         validateAdvancedCustomConfig url config = None),
      (''base_url'', ''Base URL is required when an advanced route uses an upstream path'',
         \<not> (advancedCustomConfigUsesRelativeUpstreamPath config \<and> js_trim (fm_base_url f) = [])),
      (''upstream_model_update_check_enabled'', ''OpenAI Models route is required to enable upstream model checks'',
         \<not> (os_check_enabled (fm_own f) \<and> \<not> hasValidAdvancedCustomModelListRoute url config))]"

definition shards_value :: "json \<Rightarrow> dec" where
  "shards_value v = (case v of JNum d \<Rightarrow> d | _ \<Rightarrow> Dec 1 0)"

definition type_checks :: "channel_form \<Rightarrow> (string \<times> string \<times> bool) list" where
  "type_checks f =
     (let ty = fm_type f; own = fm_own f; multi = (fm_multi_key_mode f \<noteq> [] \<and> fm_multi_key_mode f \<noteq> ''single'');
          key = (js_trim (fm_key f) \<noteq> []);
          protocol = normalizeHttpProtocol (Some (JStr (ex_http_protocol (fm_extra f)))); shards = shards_value (ex_http2_connection_shards (fm_extra f))
      in [(''other'', ''This channel type requires additional configuration'', \<not> (ty \<in> {3, 18, 21, 39, 41, 49} \<and> js_trim (fm_other f) = [])),
          (''multi_key_mode'', ''Codex channels do not support batch creation'', \<not> (ty = 57 \<and> multi)),
          (''key'', ''Codex credential must be a JSON object with access_token and account_id'', \<not> (ty = 57 \<and> key \<and> \<not> isCodexCredential (fm_key f))),
          (''key'', ''Vertex AI service account key must be valid JSON'',
             \<not> (ty = 41 \<and> os_vertex_key_type own = JStr ''json'' \<and> key \<and> \<not> isVertexJsonKey (fm_key f))),
          (''multi_key_mode'', ''Vertex AI API Key mode does not support batch creation'',
             \<not> (ty = 41 \<and> os_vertex_key_type own = JStr ''api_key'' \<and> multi)),
          (''http2_connection_shards'', ''HTTP/2 connection shards must be between 1 and 8'',
             \<not> (dec_less shards (Dec 1 0) \<or> dec_less MAX_HTTP2_CONNECTION_SHARDS shards)),
          (''http2_connection_shards'', ''HTTP/2 connection shards must be 1 when HTTP/1.1 is selected'',
             \<not> (protocol = ''http1'' \<and> dec_less (Dec 1 0) shards))])"

definition base_url_check :: "channel_form \<Rightarrow> string \<times> string \<times> bool" where
  "base_url_check f = (''base_url'', ''Base URL is required for this channel type'',
     \<not> (fm_type f \<in> {3, 8, 36, 45, 60} \<and> js_trim (fm_base_url f) = []))"

text \<open>The refinement of the whole form, in the order of its issues.\<close>

definition refine_issues :: "(string \<Rightarrow> (string \<times> string) option) \<Rightarrow> channel_form \<Rightarrow> (string \<times> string) list option" where
  "refine_issues url f =
     (let advanced = (if fm_type f = 58
            then (case parseAdvancedCustomConfig (os_advanced_custom (fm_own f)) of
                    None \<Rightarrow> Some (advanced_custom_checks url f None)
                  | Some c \<Rightarrow> map_option (\<lambda>config. advanced_custom_checks url f (Some config)) (config_of_json c))
            else Some [])
      in map_option (\<lambda>cs. issues (base_url_check f # cs @ type_checks f)) advanced)"

definition channelFormSchema ::
  "(string \<Rightarrow> (string \<times> string \<times> string \<times> string) option) \<Rightarrow> channel_form \<Rightarrow> bool" where
  "channelFormSchema newURL f \<longleftrightarrow> typed_extra (fm_extra f) \<and> typed_own (fm_own f) \<and> fm_balance_currency f \<in> {''USD'', ''CNY''}
     \<and> issues (field_checks newURL f) = [] \<and> refine_issues (\<lambda>u. map_option (\<lambda>(host, protocol, _). (host, protocol)) (newURL u)) f = Some []"

definition validateJSON :: "string \<Rightarrow> bool" where
  "validateJSON v = (if v = [] \<or> js_trim v = [] then True else json_parse v \<noteq> None)"

definition validateModelMapping :: "string \<Rightarrow> bool" where
  "validateModelMapping v = (if v = [] \<or> js_trim v = [] then True else validateJSON v)"

end
