(* ===== verification/Channel_Texts.thy ===== *)
theory Channel_Texts
  imports Channel_Form
begin

text \<open>
  The two option texts of a channel (\<open>Channel_Form\<close>): what is stored under every property, and that an object that is read
  and written again stays the same, with the routes of a custom channel in it.
\<close>

section \<open>The text of the extra settings\<close>

lemma or_json_idem [simp]: "or_json (Some (or_json v d)) d = or_json v d"
  by (cases v) (simp_all add: or_json_def)

lemma or_json_wf: "(\<And>x. v = Some x \<Longrightarrow> json_wf x) \<Longrightarrow> json_wf d \<Longrightarrow> json_wf (or_json v d)"
  by (cases v) (auto simp: or_json_def)

lemma or_json_str: "or_json (Some (JStr s)) (JStr []) = JStr s"
  by (simp add: or_json_def)

lemma protocol_cases: "normalizeHttpProtocol v = ''http1'' \<or> normalizeHttpProtocol v = ''auto''"
  by (simp add: normalizeHttpProtocol_def)

lemma protocol_values:
  "normalizeHttpProtocol None = ''auto''" "normalizeHttpProtocol (Some (JStr ''http1'')) = ''http1''"
  "normalizeHttpProtocol (Some (JStr ''auto'')) = ''auto''"
  by code_simp+

lemma protocol_idem: "normalizeHttpProtocol (Some (JStr (normalizeHttpProtocol v))) = normalizeHttpProtocol v"
  using protocol_cases [of v] protocol_values by auto

lemma shards_one: "normalizeHttp2ConnectionShards (Some (JNum (Dec 1 0))) = JNum (Dec 1 0)" "\<not> shards_above_one (JNum (Dec 1 0))"
  "normalizeHttp2ConnectionShards (Some (JNum MAX_HTTP2_CONNECTION_SHARDS)) = JNum MAX_HTTP2_CONNECTION_SHARDS"
  by code_simp+

lemma shards_idem: "normalizeHttp2ConnectionShards (Some (normalizeHttp2ConnectionShards v)) = normalizeHttp2ConnectionShards v"
proof -
  have "normalizeHttp2ConnectionShards v \<in> {JNum (Dec 1 0), JNum MAX_HTTP2_CONNECTION_SHARDS} \<or> v = Some (normalizeHttp2ConnectionShards v)"
    by (auto simp: normalizeHttp2ConnectionShards_def split: option.splits json.splits if_splits)
  then show ?thesis using shards_one by auto
qed

lemma shards_wf: "(\<And>x. v = Some x \<Longrightarrow> json_wf x) \<Longrightarrow> json_wf (normalizeHttp2ConnectionShards v)"
proof -
  assume v: "\<And>x. v = Some x \<Longrightarrow> json_wf x"
  have "normalizeHttp2ConnectionShards v \<in> {JNum (Dec 1 0), JNum MAX_HTTP2_CONNECTION_SHARDS} \<or> v = Some (normalizeHttp2ConnectionShards v)"
    by (auto simp: normalizeHttp2ConnectionShards_def split: option.splits json.splits if_splits)
  moreover have "json_wf (JNum (Dec 1 0))" "json_wf (JNum MAX_HTTP2_CONNECTION_SHARDS)" by code_simp+
  ultimately show ?thesis using v by auto
qed

definition extra_wf :: "extra_settings \<Rightarrow> bool" where
  "extra_wf x \<longleftrightarrow> list_all json_wf [ex_force_format x, ex_thinking_to_content x, ex_proxy x, ex_http2_connection_shards x,
     ex_pass_through_body_enabled x, ex_system_prompt x, ex_system_prompt_override x]"

definition extra_keys :: "string list" where
  "extra_keys = [''force_format'', ''thinking_to_content'', ''proxy'', ''pass_through_body_enabled'', ''system_prompt'', ''system_prompt_override'']"

lemma literal_keys_ok:
  assumes "fold (\<lambda>k. obj_put k ()) ks [] = map (\<lambda>k. (k, ())) ks" "map fst fs = ks"
  shows "keys_ok fs"
proof -
  have "keys_ok (fold (\<lambda>k. obj_put k ()) ks acc)" if "keys_ok acc" for acc :: "(string \<times> unit) list"
    using that by (induction ks arbitrary: acc) (simp_all add: keys_ok_put)
  from this [of "[]"] have "keys_ok (map (\<lambda>k. (k, ())) ks)" by (simp add: assms(1) keys_ok_def)
  then show ?thesis using assms(2) by (simp add: keys_ok_def comp_def)
qed

lemma setting_object_wf: "extra_wf x \<Longrightarrow> json_wf (JObj (setting_object x p))"
proof -
  assume x: "extra_wf x"
  let ?o = "[(''force_format'', or_json (Some (ex_force_format x)) (JBool False)),
            (''thinking_to_content'', or_json (Some (ex_thinking_to_content x)) (JBool False)),
            (''proxy'', JStr p),
            (''pass_through_body_enabled'', or_json (Some (ex_pass_through_body_enabled x)) (JBool False)),
            (''system_prompt'', or_json (Some (ex_system_prompt x)) (JStr [])),
            (''system_prompt_override'', or_json (Some (ex_system_prompt_override x)) (JBool False))]"
  have "fold (\<lambda>k. obj_put k ()) extra_keys [] = map (\<lambda>k. (k, ())) extra_keys" by code_simp
  then have "keys_ok ?o" by (rule literal_keys_ok) (simp add: extra_keys_def)
  then have o: "json_wf (JObj ?o)" using x by (simp add: obj_ok_iff extra_wf_def or_json_def)
  have "json_wf (normalizeHttp2ConnectionShards (Some (ex_http2_connection_shards x)))" using x by (intro shards_wf) (simp add: extra_wf_def)
  then show ?thesis unfolding setting_object_def Let_def using wf_put [OF o] o by (simp del: json_wf.simps(3) obj_put.simps)
qed

text \<open>Reading the text of the extra settings and writing it again gives the same object.\<close>

lemma setting_lookup:
  "map_of (setting_object x p) =
     (let http1 = (normalizeHttpProtocol (Some (JStr (ex_http_protocol x))) = ''http1'');
          shards = normalizeHttp2ConnectionShards (Some (ex_http2_connection_shards x))
      in [''force_format'' \<mapsto> or_json (Some (ex_force_format x)) (JBool False),
          ''thinking_to_content'' \<mapsto> or_json (Some (ex_thinking_to_content x)) (JBool False), ''proxy'' \<mapsto> JStr p,
          ''pass_through_body_enabled'' \<mapsto> or_json (Some (ex_pass_through_body_enabled x)) (JBool False),
          ''system_prompt'' \<mapsto> or_json (Some (ex_system_prompt x)) (JStr []),
          ''system_prompt_override'' \<mapsto> or_json (Some (ex_system_prompt_override x)) (JBool False)]
         (''http_protocol'' := if http1 then Some (JStr ''http1'') else None,
          ''http2_connection_shards'' := if \<not> http1 \<and> shards_above_one shards then Some shards else None))"
  by (rule ext) (simp add: setting_object_def Let_def map_of_obj_put del: obj_put.simps)

lemma setting_again:
  assumes "trimmed p"
  shows "proxy_text (ex_proxy (read_extra (JObj (setting_object x p)))) = Some p
    \<and> setting_object (read_extra (JObj (setting_object x p))) p = setting_object x p"
proof -
  define y where "y = read_extra (JObj (setting_object x p))"
  let ?s = "normalizeHttp2ConnectionShards (Some (ex_http2_connection_shards x))"
  let ?p = "normalizeHttpProtocol (Some (JStr (ex_http_protocol x)))"
  note look = setting_lookup [of x p, unfolded Let_def]
  have y: "ex_force_format y = or_json (Some (ex_force_format x)) (JBool False)"
    "ex_thinking_to_content y = or_json (Some (ex_thinking_to_content x)) (JBool False)" "ex_proxy y = JStr p"
    "ex_pass_through_body_enabled y = or_json (Some (ex_pass_through_body_enabled x)) (JBool False)"
    "ex_system_prompt y = or_json (Some (ex_system_prompt x)) (JStr [])"
    "ex_system_prompt_override y = or_json (Some (ex_system_prompt_override x)) (JBool False)"
    by (simp_all add: y_def read_extra_def Let_def look or_json_str)
  have proto: "ex_http_protocol y = ?p"
    using protocol_cases [of "Some (JStr (ex_http_protocol x))"] protocol_values by (auto simp: y_def read_extra_def Let_def look)
  have shards: "?p \<noteq> ''http1'' \<Longrightarrow> ex_http2_connection_shards y = (if shards_above_one ?s then ?s else JNum (Dec 1 0))"
    using proto by (simp add: y_def read_extra_def Let_def look shards_idem normalizeHttp2ConnectionShards_def [of None])
  have "proxy_text (JStr p) = Some p" using assms by (simp add: proxy_text_def trim_trimmed)
  moreover have "setting_object y p = setting_object x p"
  proof (cases "?p = ''http1''")
    case True
    then show ?thesis by (simp add: setting_object_def Let_def y proto protocol_values del: obj_put.simps)
  next
    case False
    then show ?thesis
      by (simp add: setting_object_def Let_def y proto protocol_idem shards shards_idem shards_one del: obj_put.simps)
  qed
  ultimately show ?thesis using y(3) y_def by simp
qed

section \<open>Custom routes\<close>

lemma trim_or_empty_idem: "trim_or_empty v = Some s \<Longrightarrow> trim_or_empty (Some (JStr s)) = Some s"
  by (auto simp: trim_or_empty_def trim_trimmed trimmed_trim split: if_splits option.splits json.splits)

lemma trim_models_items: "trim_models xs = Some ms \<Longrightarrow> list_all trimmed ms"
  by (induction xs arbitrary: ms rule: trim_models.induct) (auto simp: trimmed_trim)

lemma trim_models_strings: "list_all trimmed ms \<Longrightarrow> trim_models (map JStr ms) = Some ms"
  by (induction ms) (auto simp: trim_trimmed)

lemma route_models_again: "route_models_json v = Some ms \<Longrightarrow> route_models_json (if length ms > 0 then Some (JArr (map JStr ms)) else None) = Some ms"
proof -
  assume v: "route_models_json v = Some ms"
  have "list_all trimmed ms \<and> filter truthy ms = ms"
    using v trim_models_items
    by (fastforce simp: route_models_json_def list_all_iff filter_id_conv split: option.splits json.splits)
  then show ?thesis by (simp add: route_models_json_def trim_models_strings)
qed

lemma auth_again: "route_auth_json (route_auth_json a) = route_auth_json a"
proof -
  let ?b = "route_auth_json a"
  have "jget ?b ''type'' = jget a ''type''" "jget ?b ''name'' = Some (or_json (jget a ''name'') (JStr []))"
    "jget ?b ''value'' = Some (or_json (jget a ''value'') (JStr []))"
    by (simp_all add: route_auth_json_def split: option.split)
  then show ?thesis unfolding route_auth_json_def [of ?b] by (simp add: route_auth_json_def [of a])
qed

lemma normalize_route_again: "normalize_route_json r = Some r' \<Longrightarrow> normalize_route_json r' = Some r'"
proof -
  assume r: "normalize_route_json r = Some r'"
  then obtain up ms where *: "trim_or_empty (jget r ''upstream_path'') = Some up" "route_models_json (jget r ''models'') = Some ms"
    by (auto simp: normalize_route_json_def split: if_splits option.splits)
  let ?auth = "if json_truthy (jget r ''auth'') then [(''auth'', route_auth_json (the (jget r ''auth'')))] else []"
  have r': "r' = JObj ([(''incoming_path'', or_json (jget r ''incoming_path'') (JStr [])), (''upstream_path'', JStr up),
      (''converter'', or_json (jget r ''converter'') (JStr ''none''))]
      @ (if length ms > 0 then [(''models'', JArr (map JStr ms))] else []) @ ?auth)"
    using r * by (simp add: normalize_route_json_def split: if_splits)
  have get: "jget r' ''incoming_path'' = Some (or_json (jget r ''incoming_path'') (JStr []))" "jget r' ''upstream_path'' = Some (JStr up)"
    "jget r' ''converter'' = Some (or_json (jget r ''converter'') (JStr ''none''))"
    "jget r' ''models'' = (if length ms > 0 then Some (JArr (map JStr ms)) else None)"
    "jget r' ''auth'' = (if json_truthy (jget r ''auth'') then Some (route_auth_json (the (jget r ''auth''))) else None)"
    by (simp_all add: r')
  have truthy: "json_truthy (Some (route_auth_json a))" for a by (simp add: route_auth_json_def)
  have "r' \<noteq> JNull" by (simp add: r')
  then have "normalize_route_json r' = Some (JObj ([(''incoming_path'', or_json (jget r ''incoming_path'') (JStr [])), (''upstream_path'', JStr up),
      (''converter'', or_json (jget r ''converter'') (JStr ''none''))]
      @ (if length ms > 0 then [(''models'', JArr (map JStr ms))] else []) @ ?auth))"
    unfolding normalize_route_json_def get trim_or_empty_idem [OF *(1)] route_models_again [OF *(2)]
    by (simp add: truthy auth_again)
  then show ?thesis using r' by simp
qed

lemma those_again: "those (map g xs) = Some ys \<Longrightarrow> (\<And>x y. g x = Some y \<Longrightarrow> g y = Some y) \<Longrightarrow> those (map g ys) = Some ys"
  by (induction xs arbitrary: ys) (auto split: option.splits)

lemma those_all: "those (map g xs) = Some ys \<Longrightarrow> list_all P xs \<Longrightarrow> (\<And>x y. P x \<Longrightarrow> g x = Some y \<Longrightarrow> Q y) \<Longrightarrow> list_all Q ys"
  by (induction xs arbitrary: ys) (auto split: option.splits)

lemma normalize_config_again: "normalize_config_json c = Some c' \<Longrightarrow> normalize_config_json c' = Some c'"
  by (auto simp: normalize_config_json_def dest: those_again [OF _ normalize_route_again] split: option.splits json.splits)

lemma jget_wf: "json_wf r \<Longrightarrow> jget r k = Some v \<Longrightarrow> json_wf v"
  by (cases r) (auto simp: list_all_iff dest!: map_of_SomeD)

lemma literal_wf:
  assumes "fold (\<lambda>k. obj_put k ()) (map fst fs) [] = map (\<lambda>k. (k, ())) (map fst fs)" "list_all (\<lambda>kv. json_wf (snd kv)) fs"
  shows "json_wf (JObj fs)"
  using literal_keys_ok [OF assms(1) refl] assms(2) by (simp add: obj_ok_iff)

lemma auth_wf: "json_wf a \<Longrightarrow> json_wf (route_auth_json a)"
proof -
  assume a: "json_wf a"
  let ?fs = "(case jget a ''type'' of Some t \<Rightarrow> [(''type'', t)] | None \<Rightarrow> [])
       @ [(''name'', or_json (jget a ''name'') (JStr [])), (''value'', or_json (jget a ''value'') (JStr []))]"
  have "list_all (\<lambda>ks. fold (\<lambda>k. obj_put k ()) ks [] = map (\<lambda>k. (k, ())) ks) [[''type'', ''name'', ''value''], [''name'', ''value'']]" by code_simp
  moreover have "map fst ?fs \<in> set [[''type'', ''name'', ''value''], [''name'', ''value'']]" by (cases "jget a ''type''") simp_all
  ultimately have keys: "fold (\<lambda>k. obj_put k ()) (map fst ?fs) [] = map (\<lambda>k. (k, ())) (map fst ?fs)" unfolding list_all_iff by blast
  have or: "json_wf (or_json (jget a k) (JStr []))" for k using jget_wf [OF a] by (intro or_json_wf) auto
  have "list_all (\<lambda>kv. json_wf (snd kv)) ?fs" using jget_wf [OF a, of "''type''"] by (cases "jget a ''type''") (simp_all add: or)
  then show ?thesis unfolding route_auth_json_def by (rule literal_wf [OF keys])
qed

lemma route_wf:
  assumes "json_wf r" "normalize_route_json r = Some r'"
  shows "json_wf r'"
proof -
  obtain up ms where *: "trim_or_empty (jget r ''upstream_path'') = Some up" "route_models_json (jget r ''models'') = Some ms"
    using assms(2) by (auto simp: normalize_route_json_def split: if_splits option.splits)
  let ?auth = "if json_truthy (jget r ''auth'') then [(''auth'', route_auth_json (the (jget r ''auth'')))] else []"
  let ?fs = "[(''incoming_path'', or_json (jget r ''incoming_path'') (JStr [])), (''upstream_path'', JStr up),
      (''converter'', or_json (jget r ''converter'') (JStr ''none''))]
      @ (if length ms > 0 then [(''models'', JArr (map JStr ms))] else []) @ ?auth"
  have r': "r' = JObj ?fs" using assms(2) * by (simp add: normalize_route_json_def split: if_splits)
  let ?k = "[''incoming_path'', ''upstream_path'', ''converter'']"
  have "list_all (\<lambda>ks. fold (\<lambda>k. obj_put k ()) ks [] = map (\<lambda>k. (k, ())) ks)
      [?k, ?k @ [''models''], ?k @ [''auth''], ?k @ [''models'', ''auth'']]" by code_simp
  moreover have "map fst ?fs \<in> set [?k, ?k @ [''models''], ?k @ [''auth''], ?k @ [''models'', ''auth'']]" by simp
  ultimately have keys: "fold (\<lambda>k. obj_put k ()) (map fst ?fs) [] = map (\<lambda>k. (k, ())) (map fst ?fs)" unfolding list_all_iff by blast
  have "json_wf (or_json (jget r k) (JStr s))" for k s using jget_wf [OF assms(1)] by (intro or_json_wf) auto
  moreover have "json_truthy (jget r ''auth'') \<Longrightarrow> json_wf (route_auth_json (the (jget r ''auth'')))"
    using jget_wf [OF assms(1), of "''auth''"] by (cases "jget r ''auth''") (auto intro: auth_wf)
  ultimately have "list_all (\<lambda>kv. json_wf (snd kv)) ?fs" by (auto simp: list_all_iff)
  then show ?thesis unfolding r' by (rule literal_wf [OF keys])
qed

lemma config_wf: "json_wf c \<Longrightarrow> normalize_config_json c = Some c' \<Longrightarrow> json_wf c'"
proof -
  assume c: "json_wf c" "normalize_config_json c = Some c'"
  have single: "json_wf (JObj [(''advanced_routes'', JArr rs)])" if "list_all json_wf rs" for rs
    using that wf_put [OF wf_empty, of "JArr rs" "''advanced_routes''"] by simp
  show ?thesis
  proof (cases "\<exists>rs. jget c ''advanced_routes'' = Some (JArr rs)")
    case True
    then obtain rs rs' where rs: "jget c ''advanced_routes'' = Some (JArr rs)" "those (map normalize_route_json rs) = Some rs'"
      "c' = JObj [(''advanced_routes'', JArr rs')]"
      using c(2) by (auto simp: normalize_config_json_def)
    have "list_all json_wf rs" using jget_wf [OF c(1) rs(1)] by simp
    then show ?thesis using single those_all [OF rs(2)] route_wf rs(3) by blast
  next
    case False
    then have "c' = JObj [(''advanced_routes'', JArr [])]"
      using c(2) by (auto simp: normalize_config_json_def split: option.splits json.splits)
    then show ?thesis using single [of "[]"] by simp
  qed
qed

lemma stringify2_trimmed: "js_trim (json_stringify2 (JObj fs)) = json_stringify2 (JObj fs)" "json_stringify2 (JObj fs) \<noteq> []"
proof -
  have "visible (CHR ''{'')" "visible (CHR ''}'')" by code_simp+
  then show "js_trim (json_stringify2 (JObj fs)) = json_stringify2 (JObj fs)"
    by (intro trim_trimmed trimmed_visible_ends) (simp add: json_stringify2_def)
  show "json_stringify2 (JObj fs) \<noteq> []" by (simp add: json_stringify2_def)
qed

lemma config_text_read:
  assumes "parseAdvancedCustomConfig t = Some c"
  shows "json_truthy (Some c)" "\<exists>t'. stringifyAdvancedCustomConfig c = Some t' \<and> parseAdvancedCustomConfig t' = Some c" "json_wf c"
proof -
  obtain o1 where o1: "json_parse t = Some (JObj o1)" "normalize_config_json (JObj o1) = Some c"
    using assms by (auto simp: parseAdvancedCustomConfig_def split: if_splits option.splits json.splits)
  show wf: "json_wf c" using json_parse_wf [OF o1(1)] o1(2) config_wf by blast
  obtain fs where fs: "c = JObj fs" using o1(2) by (auto simp: normalize_config_json_def split: option.splits json.splits)
  then show "json_truthy (Some c)" by simp
  have again: "normalize_config_json c = Some c" by (rule normalize_config_again [OF o1(2)])
  have "js_trim (json_stringify2 c) \<noteq> []" using stringify2_trimmed [of fs] fs by simp
  then have "parseAdvancedCustomConfig (json_stringify2 c) = Some c"
    using json_parse_stringify2 [OF wf] again fs by (simp add: parseAdvancedCustomConfig_def)
  then show "\<exists>t'. stringifyAdvancedCustomConfig c = Some t' \<and> parseAdvancedCustomConfig t' = Some c"
    using again by (simp add: stringifyAdvancedCustomConfig_def)
qed

section \<open>The text of the settings\<close>

lemma map_of_put_or_drop: "map_of (put_or_drop b k v o1) = (map_of o1)(k := if b then Some v else None)"
  by (simp add: put_or_drop_def map_of_obj_put)

lemma keys_ok_put_or_drop: "keys_ok o1 \<Longrightarrow> keys_ok (put_or_drop b k v o1)"
  by (simp add: put_or_drop_def keys_ok_put keys_ok_del)

lemma put_or_drop_id: "keys_ok o1 \<Longrightarrow> map_of o1 k = (if b then Some v else None) \<Longrightarrow> put_or_drop b k v o1 = o1"
  by (simp add: put_or_drop_def obj_put_same obj_del_absent)

text \<open>The options of the types, as a chain of optional properties in the order of the code.\<close>

lemma type_options_flat:
  "type_options ty s o1 =
     obj_put ''disable_task_polling_sleep'' (JBool (os_disable_task_polling_sleep s))
       (put_or_drop (ty = 14) ''claude_beta_query'' (JBool (os_claude_beta_query s))
       (put_or_drop (ty = 14) ''allow_speed'' (JBool (os_allow_speed s))
       (put_or_drop (ty = 1 \<or> ty = 14 \<or> ty = 57) ''allow_inference_geo'' (JBool (os_allow_inference_geo s))
       (put_or_drop (ty = 1 \<or> ty = 57) ''allow_include_obfuscation'' (JBool (os_allow_include_obfuscation s))
       (put_or_drop (ty = 1 \<or> ty = 57) ''allow_safety_identifier'' (JBool (os_allow_safety_identifier s))
       (put_or_drop (ty = 1 \<or> ty = 57) ''disable_store'' (JBool (os_disable_store s))
       (put_or_drop (ty = 1 \<or> ty = 14 \<or> ty = 57) ''allow_service_tier'' (JBool (os_allow_service_tier s))
       (put_or_drop (ty = 33) ''aws_key_type'' (or_json (Some (os_aws_key_type s)) (JStr ''ak_sk''))
       (put_or_drop (ty = 20) ''openrouter_enterprise'' (JBool (os_is_enterprise_account s))
       (put_or_drop (ty = 3 \<and> json_truthy (Some (os_azure_responses_version s))) ''azure_responses_version'' (os_azure_responses_version s)
       (put_or_drop (ty = 41) ''vertex_key_type'' (or_json (Some (os_vertex_key_type s)) (JStr ''json'')) o1)))))))))))"
  by (cases "ty = 1"; cases "ty = 57"; cases "ty = 14") (simp_all add: type_options_def Let_def put_or_drop_def)

lemma type_options_chain:
  "map_of (type_options ty s o1) =
     (map_of o1)
       (''vertex_key_type'' := if ty = 41 then Some (or_json (Some (os_vertex_key_type s)) (JStr ''json'')) else None,
        ''azure_responses_version'' := if ty = 3 \<and> json_truthy (Some (os_azure_responses_version s)) then Some (os_azure_responses_version s) else None,
        ''openrouter_enterprise'' := if ty = 20 then Some (JBool (os_is_enterprise_account s)) else None,
        ''aws_key_type'' := if ty = 33 then Some (or_json (Some (os_aws_key_type s)) (JStr ''ak_sk'')) else None,
        ''allow_service_tier'' := if ty = 1 \<or> ty = 14 \<or> ty = 57 then Some (JBool (os_allow_service_tier s)) else None,
        ''disable_store'' := if ty = 1 \<or> ty = 57 then Some (JBool (os_disable_store s)) else None,
        ''allow_safety_identifier'' := if ty = 1 \<or> ty = 57 then Some (JBool (os_allow_safety_identifier s)) else None,
        ''allow_include_obfuscation'' := if ty = 1 \<or> ty = 57 then Some (JBool (os_allow_include_obfuscation s)) else None,
        ''allow_inference_geo'' := if ty = 1 \<or> ty = 14 \<or> ty = 57 then Some (JBool (os_allow_inference_geo s)) else None,
        ''allow_speed'' := if ty = 14 then Some (JBool (os_allow_speed s)) else None,
        ''claude_beta_query'' := if ty = 14 then Some (JBool (os_claude_beta_query s)) else None,
        ''disable_task_polling_sleep'' := Some (JBool (os_disable_task_polling_sleep s)))"
  by (simp only: type_options_flat map_of_put_or_drop map_of_obj_put)

lemma type_options_keys_ok: "keys_ok o1 \<Longrightarrow> keys_ok (type_options ty s o1)"
  by (simp add: type_options_flat keys_ok_put_or_drop keys_ok_put)

lemma update_options_chain:
  "map_of (update_options s o1) =
     (map_of o1)
       (''upstream_model_update_check_enabled'' := Some (JBool (os_check_enabled s)),
        ''upstream_model_update_auto_sync_enabled'' := Some (JBool (os_check_enabled s \<and> os_auto_sync_enabled s)),
        ''upstream_model_update_ignored_models'' := Some (JArr (map JStr (ignored_list (os_ignored_models s)))),
        ''upstream_model_update_last_detected_models'' :=
          if \<not> is_array (map_of o1 ''upstream_model_update_last_detected_models'') \<or> \<not> os_check_enabled s then Some (JArr [])
          else map_of o1 ''upstream_model_update_last_detected_models'',
        ''upstream_model_update_last_check_time'' :=
          if \<not> is_number (map_of o1 ''upstream_model_update_last_check_time'') then Some (JNum (Dec 0 0))
          else map_of o1 ''upstream_model_update_last_check_time'')"
proof -
  let ?d = "''upstream_model_update_last_detected_models''" and ?t = "''upstream_model_update_last_check_time''"
  have put: "map_of (if b then obj_put k v o2 else o2) = (map_of o2)(k := if b then Some v else map_of o2 k)" for b k v o2
    by (simp add: map_of_obj_put fun_upd_idem)
  have ne: "(?d = ''upstream_model_update_check_enabled'') = False" "(?d = ''upstream_model_update_auto_sync_enabled'') = False"
    "(?d = ''upstream_model_update_ignored_models'') = False" "(?t = ''upstream_model_update_check_enabled'') = False"
    "(?t = ''upstream_model_update_auto_sync_enabled'') = False" "(?t = ''upstream_model_update_ignored_models'') = False" "(?t = ?d) = False"
    by simp_all
  show ?thesis by (simp only: update_options_def Let_def put map_of_obj_put fun_upd_apply ne if_False)
qed

lemma update_options_keys_ok: "keys_ok o1 \<Longrightarrow> keys_ok (update_options s o1)"
  by (simp add: update_options_def Let_def keys_ok_put)

lemma settings_object_keys_ok: "keys_ok o1 \<Longrightarrow> keys_ok (settings_object ty s o1)"
  by (simp add: settings_object_def Let_def type_options_keys_ok update_options_keys_ok keys_ok_put keys_ok_del split: option.split)

lemma settings_object_chain:
  "map_of (settings_object ty s o1) =
     (let m = (if ty \<in> set MODEL_FETCHABLE_TYPES then map_of (update_options s (type_options ty s o1)) else map_of (type_options ty s o1))
      in m(''advanced_custom'' := if ty \<noteq> 58 then None
             else (case parseAdvancedCustomConfig (os_advanced_custom s) of Some c \<Rightarrow> Some c | None \<Rightarrow> m ''advanced_custom'')))"
  by (cases "ty = 58"; cases "ty \<in> set MODEL_FETCHABLE_TYPES"; cases "parseAdvancedCustomConfig (os_advanced_custom s)")
     (simp_all add: settings_object_def Let_def map_of_obj_put fun_upd_idem)

definition update_keys :: "string list" where
  "update_keys = [''upstream_model_update_check_enabled'', ''upstream_model_update_auto_sync_enabled'', ''upstream_model_update_ignored_models'',
     ''upstream_model_update_last_detected_models'', ''upstream_model_update_last_check_time'']"

definition type_keys :: "string list" where
  "type_keys = [''vertex_key_type'', ''azure_responses_version'', ''openrouter_enterprise'', ''aws_key_type'', ''allow_service_tier'', ''disable_store'',
     ''allow_safety_identifier'', ''allow_include_obfuscation'', ''allow_inference_geo'', ''allow_speed'', ''claude_beta_query'',
     ''disable_task_polling_sleep'']"

lemma keys_disjoint: "list_all (\<lambda>k. k \<notin> set update_keys \<and> k \<noteq> ''advanced_custom'') type_keys"
  "''advanced_custom'' \<notin> set type_keys" "''advanced_custom'' \<notin> set update_keys"
  by code_simp+

lemma update_options_other: "k \<notin> set update_keys \<Longrightarrow> map_of (update_options s o1) k = map_of o1 k"
  by (simp only: update_options_chain fun_upd_apply update_keys_def list.set insert_iff de_Morgan_disj if_False simp_thms)

lemma type_options_other: "k \<notin> set type_keys \<Longrightarrow> map_of (type_options ty s o1) k = map_of o1 k"
  by (simp only: type_options_chain fun_upd_apply type_keys_def list.set insert_iff de_Morgan_disj if_False simp_thms)

lemma settings_type_key: "k \<in> set type_keys \<Longrightarrow> map_of (settings_object ty s o1) k = map_of (type_options ty s o1) k"
proof -
  assume "k \<in> set type_keys"
  then have "k \<notin> set update_keys" "k \<noteq> ''advanced_custom''" using keys_disjoint(1) by (auto simp: list_all_iff)
  then show ?thesis by (simp add: settings_object_chain Let_def update_options_other)
qed

lemma settings_update_key:
  "k \<in> set update_keys \<Longrightarrow> map_of (settings_object ty s o1) k =
     (if ty \<in> set MODEL_FETCHABLE_TYPES then map_of (update_options s (type_options ty s o1)) k else map_of (type_options ty s o1) k)"
  using keys_disjoint(3) by (auto simp: settings_object_chain Let_def)

lemma type_keys_mem: "''vertex_key_type'' \<in> set type_keys"
  "''azure_responses_version'' \<in> set type_keys"
  "''openrouter_enterprise'' \<in> set type_keys"
  "''aws_key_type'' \<in> set type_keys"
  "''allow_service_tier'' \<in> set type_keys"
  "''disable_store'' \<in> set type_keys"
  "''allow_safety_identifier'' \<in> set type_keys"
  "''allow_include_obfuscation'' \<in> set type_keys"
  "''allow_inference_geo'' \<in> set type_keys"
  "''allow_speed'' \<in> set type_keys"
  "''claude_beta_query'' \<in> set type_keys"
  "''disable_task_polling_sleep'' \<in> set type_keys"
  by (simp_all add: type_keys_def)

lemma type_options_lookup:
  "map_of (type_options ty s o1) ''vertex_key_type'' = (if ty = 41 then Some (or_json (Some (os_vertex_key_type s)) (JStr ''json'')) else None)"
  "map_of (type_options ty s o1) ''azure_responses_version'' = (if ty = 3 \<and> json_truthy (Some (os_azure_responses_version s)) then Some (os_azure_responses_version s) else None)"
  "map_of (type_options ty s o1) ''openrouter_enterprise'' = (if ty = 20 then Some (JBool (os_is_enterprise_account s)) else None)"
  "map_of (type_options ty s o1) ''aws_key_type'' = (if ty = 33 then Some (or_json (Some (os_aws_key_type s)) (JStr ''ak_sk'')) else None)"
  "map_of (type_options ty s o1) ''allow_service_tier'' = (if ty = 1 \<or> ty = 14 \<or> ty = 57 then Some (JBool (os_allow_service_tier s)) else None)"
  "map_of (type_options ty s o1) ''disable_store'' = (if ty = 1 \<or> ty = 57 then Some (JBool (os_disable_store s)) else None)"
  "map_of (type_options ty s o1) ''allow_safety_identifier'' = (if ty = 1 \<or> ty = 57 then Some (JBool (os_allow_safety_identifier s)) else None)"
  "map_of (type_options ty s o1) ''allow_include_obfuscation'' = (if ty = 1 \<or> ty = 57 then Some (JBool (os_allow_include_obfuscation s)) else None)"
  "map_of (type_options ty s o1) ''allow_inference_geo'' = (if ty = 1 \<or> ty = 14 \<or> ty = 57 then Some (JBool (os_allow_inference_geo s)) else None)"
  "map_of (type_options ty s o1) ''allow_speed'' = (if ty = 14 then Some (JBool (os_allow_speed s)) else None)"
  "map_of (type_options ty s o1) ''claude_beta_query'' = (if ty = 14 then Some (JBool (os_claude_beta_query s)) else None)"
  "map_of (type_options ty s o1) ''disable_task_polling_sleep'' = (Some (JBool (os_disable_task_polling_sleep s)))"
  unfolding type_options_chain fun_upd_apply by simp_all

text \<open>What is read from the stored object.\<close>

lemma bool_option: "(if b then Some (JBool x) else None) = Some (JBool True) \<longleftrightarrow> b \<and> x"
  by simp

lemma read_type_flags:
  assumes "p = JObj (settings_object ty s o1)"
  shows "os_is_enterprise_account (read_own p) \<longleftrightarrow> ty = 20 \<and> os_is_enterprise_account s"
    "os_allow_service_tier (read_own p) \<longleftrightarrow> (ty = 1 \<or> ty = 14 \<or> ty = 57) \<and> os_allow_service_tier s"
    "os_disable_store (read_own p) \<longleftrightarrow> (ty = 1 \<or> ty = 57) \<and> os_disable_store s"
    "os_allow_safety_identifier (read_own p) \<longleftrightarrow> (ty = 1 \<or> ty = 57) \<and> os_allow_safety_identifier s"
    "os_allow_include_obfuscation (read_own p) \<longleftrightarrow> (ty = 1 \<or> ty = 57) \<and> os_allow_include_obfuscation s"
    "os_allow_inference_geo (read_own p) \<longleftrightarrow> (ty = 1 \<or> ty = 14 \<or> ty = 57) \<and> os_allow_inference_geo s"
    "os_allow_speed (read_own p) \<longleftrightarrow> ty = 14 \<and> os_allow_speed s"
    "os_claude_beta_query (read_own p) \<longleftrightarrow> ty = 14 \<and> os_claude_beta_query s"
    "os_disable_task_polling_sleep (read_own p) \<longleftrightarrow> os_disable_task_polling_sleep s"
  by (simp_all only: read_own_def own_settings.simps true_prop_def assms jget.simps settings_type_key type_keys_mem type_options_lookup bool_option option.inject json.inject) (simp_all only: eq_True eq_commute [of True] simp_thms)

lemma read_type_values:
  assumes "p = JObj (settings_object ty s o1)"
  shows "ty = 41 \<Longrightarrow> os_vertex_key_type (read_own p) = or_json (Some (os_vertex_key_type s)) (JStr ''json'')"
    "ty = 33 \<Longrightarrow> os_aws_key_type (read_own p) = or_json (Some (os_aws_key_type s)) (JStr ''ak_sk'')"
    "ty = 3 \<Longrightarrow> json_truthy (Some (os_azure_responses_version s)) \<Longrightarrow> os_azure_responses_version (read_own p) = os_azure_responses_version s"
    "ty = 3 \<Longrightarrow> \<not> json_truthy (Some (os_azure_responses_version s)) \<Longrightarrow> os_azure_responses_version (read_own p) = JStr []"
  by (simp_all only: read_own_def own_settings.simps assms jget.simps settings_type_key type_keys_mem type_options_lookup) (simp_all add: or_json_def)

lemma type_options_again:
  assumes "keys_ok o1" "o2 = settings_object ty s o1"
  shows "type_options ty (read_own (JObj o2)) o2 = o2"
proof -
  have k: "keys_ok o2" using assms settings_object_keys_ok by simp
  define r where "r = read_own (JObj o2)"
  have p: "JObj o2 = JObj (settings_object ty s o1)" by (simp add: assms(2))
  note flags = read_type_flags [OF p, folded r_def] and vals = read_type_values [OF p, folded r_def]
  note get = settings_type_key [of _ ty s o1, folded assms(2)]
  note pd = put_or_drop_id [OF k]
  have g: "map_of o2 ''vertex_key_type'' = (if ty = 41 then Some (or_json (Some (os_vertex_key_type r)) (JStr ''json'')) else None)"
    "map_of o2 ''azure_responses_version'' = (if ty = 3 \<and> json_truthy (Some (os_azure_responses_version r)) then Some (os_azure_responses_version r) else None)"
    "map_of o2 ''openrouter_enterprise'' = (if ty = 20 then Some (JBool (os_is_enterprise_account r)) else None)"
    "map_of o2 ''aws_key_type'' = (if ty = 33 then Some (or_json (Some (os_aws_key_type r)) (JStr ''ak_sk'')) else None)"
    "map_of o2 ''allow_service_tier'' = (if ty = 1 \<or> ty = 14 \<or> ty = 57 then Some (JBool (os_allow_service_tier r)) else None)"
    "map_of o2 ''disable_store'' = (if ty = 1 \<or> ty = 57 then Some (JBool (os_disable_store r)) else None)"
    "map_of o2 ''allow_safety_identifier'' = (if ty = 1 \<or> ty = 57 then Some (JBool (os_allow_safety_identifier r)) else None)"
    "map_of o2 ''allow_include_obfuscation'' = (if ty = 1 \<or> ty = 57 then Some (JBool (os_allow_include_obfuscation r)) else None)"
    "map_of o2 ''allow_inference_geo'' = (if ty = 1 \<or> ty = 14 \<or> ty = 57 then Some (JBool (os_allow_inference_geo r)) else None)"
    "map_of o2 ''allow_speed'' = (if ty = 14 then Some (JBool (os_allow_speed r)) else None)"
    "map_of o2 ''claude_beta_query'' = (if ty = 14 then Some (JBool (os_claude_beta_query r)) else None)"
    "map_of o2 ''disable_task_polling_sleep'' = Some (JBool (os_disable_task_polling_sleep r))"
    using vals by (simp_all only: get type_keys_mem type_options_lookup flags) (auto simp: or_json_def)
  show ?thesis
    unfolding r_def [symmetric] type_options_flat
    by (simp only: pd g obj_put_same [OF g(12) k])
qed

interpretation ignored: comma_list ignored_list
  by unfold_locales (simp add: ignored_list_def comma_items_def)

lemma ignored_again: "ignored_list (json_string (JArr (map JStr (ignored_list v)))) = ignored_list v"
proof -
  have uniq: "js_uniq (ignored_list x) = ignored_list x" for x by (simp add: ignored_list_def)
  have "json_string (JArr (map JStr xs)) = js_join '','' xs" for xs by (simp add: comp_def)
  then show ?thesis using ignored.read_write_read [of v] by (simp only: uniq)
qed

lemma update_keys_mem: "''upstream_model_update_check_enabled'' \<in> set update_keys" "''upstream_model_update_auto_sync_enabled'' \<in> set update_keys"
  "''upstream_model_update_ignored_models'' \<in> set update_keys" "''upstream_model_update_last_detected_models'' \<in> set update_keys"
  "''upstream_model_update_last_check_time'' \<in> set update_keys"
  by (simp_all add: update_keys_def)

lemma update_options_lookup:
  "map_of (update_options s o1) ''upstream_model_update_check_enabled'' = Some (JBool (os_check_enabled s))"
  "map_of (update_options s o1) ''upstream_model_update_auto_sync_enabled'' = Some (JBool (os_check_enabled s \<and> os_auto_sync_enabled s))"
  "map_of (update_options s o1) ''upstream_model_update_ignored_models'' = Some (JArr (map JStr (ignored_list (os_ignored_models s))))"
  "map_of (update_options s o1) ''upstream_model_update_last_detected_models'' =
     (if \<not> is_array (map_of o1 ''upstream_model_update_last_detected_models'') \<or> \<not> os_check_enabled s then Some (JArr [])
      else map_of o1 ''upstream_model_update_last_detected_models'')"
  "map_of (update_options s o1) ''upstream_model_update_last_check_time'' =
     (if \<not> is_number (map_of o1 ''upstream_model_update_last_check_time'') then Some (JNum (Dec 0 0))
      else map_of o1 ''upstream_model_update_last_check_time'')"
  unfolding update_options_chain fun_upd_apply by simp_all

lemma update_options_again:
  assumes "keys_ok o1" "o2 = settings_object ty s o1" "ty \<in> set MODEL_FETCHABLE_TYPES"
  shows "update_options (read_own (JObj o2)) o2 = o2"
proof -
  have k: "keys_ok o2" using assms settings_object_keys_ok by simp
  define r where "r = read_own (JObj o2)"
  let ?o = "type_options ty s o1"
  have get: "map_of o2 k = map_of (update_options s ?o) k" if "k \<in> set update_keys" for k
    using settings_update_key [OF that, of ty s o1] assms(2,3) by simp
  have r: "os_check_enabled r = os_check_enabled s" "os_auto_sync_enabled r \<longleftrightarrow> os_check_enabled s \<and> os_auto_sync_enabled s"
    "os_ignored_models r = json_string (JArr (map JStr (ignored_list (os_ignored_models s))))"
    by (simp_all only: r_def read_own_def own_settings.simps true_prop_def jget.simps get update_keys_mem update_options_lookup
        option.case json.case option.inject json.inject eq_True)
  have same: "obj_put ''upstream_model_update_check_enabled'' (JBool (os_check_enabled r)) o2 = o2"
    "obj_put ''upstream_model_update_auto_sync_enabled'' (JBool (os_check_enabled r \<and> os_auto_sync_enabled r)) o2 = o2"
    "obj_put ''upstream_model_update_ignored_models'' (JArr (map JStr (ignored_list (os_ignored_models r)))) o2 = o2"
    by (simp_all only: obj_put_same [OF _ k] get update_keys_mem update_options_lookup r ignored_again simp_thms)
  have "\<not> is_array (map_of o2 ''upstream_model_update_last_detected_models'') \<or> \<not> os_check_enabled r \<Longrightarrow>
      map_of o2 ''upstream_model_update_last_detected_models'' = Some (JArr [])"
    by (simp only: get update_keys_mem update_options_lookup r) (auto simp: is_array_def split: if_splits)
  moreover have "is_number (map_of o2 ''upstream_model_update_last_check_time'')"
    by (simp only: get update_keys_mem update_options_lookup) (simp add: is_number_def)
  ultimately show ?thesis
    unfolding update_options_def Let_def r_def [symmetric] same using obj_put_same [OF _ k] by simp
qed

definition own_ok :: "int \<Rightarrow> own_settings \<Rightarrow> bool" where
  "own_ok ty s \<longleftrightarrow> json_wf (os_vertex_key_type s) \<and> json_wf (os_azure_responses_version s) \<and> json_wf (os_aws_key_type s)
     \<and> (ty = 58 \<longrightarrow> parseAdvancedCustomConfig (os_advanced_custom s) \<noteq> None)"

lemma advanced_read:
  assumes "ty = 58" "parseAdvancedCustomConfig (os_advanced_custom s) = Some c" "o2 = settings_object ty s o1"
  shows "map_of o2 ''advanced_custom'' = Some c" "parseAdvancedCustomConfig (os_advanced_custom (read_own (JObj o2))) = Some c"
proof -
  show *: "map_of o2 ''advanced_custom'' = Some c" using assms by (simp add: settings_object_chain Let_def)
  obtain t where "stringifyAdvancedCustomConfig c = Some t" "parseAdvancedCustomConfig t = Some c"
    using config_text_read(2) [OF assms(2)] by blast
  then show "parseAdvancedCustomConfig (os_advanced_custom (read_own (JObj o2))) = Some c"
    using config_text_read(1) [OF assms(2)] by (simp only: read_own_def own_settings.simps jget.simps * if_True option.sel option.case)
qed

lemma settings_object_again:
  assumes "keys_ok o1" "own_ok ty s" "o2 = settings_object ty s o1"
  shows "settings_object ty (read_own (JObj o2)) o2 = o2"
proof -
  have k: "keys_ok o2" using assms settings_object_keys_ok by simp
  note types = type_options_again [OF assms(1,3)]
  have upd: "(if ty \<in> set MODEL_FETCHABLE_TYPES then update_options (read_own (JObj o2)) o2 else o2) = o2"
    using update_options_again [OF assms(1,3)] by simp
  show ?thesis
  proof (cases "ty = 58")
    case True
    then obtain c where c: "parseAdvancedCustomConfig (os_advanced_custom s) = Some c" using assms(2) by (auto simp: own_ok_def)
    note adv = advanced_read [OF True c assms(3)]
    show ?thesis unfolding settings_object_def Let_def types upd adv(2) using True obj_put_same [OF adv(1) k] by simp
  next
    case False
    then have "map_of o2 ''advanced_custom'' = None" using assms(3) by (simp add: settings_object_chain Let_def)
    then show ?thesis unfolding settings_object_def Let_def types upd using False by (simp add: obj_del_absent)
  qed
qed

lemma put_or_drop_wf: "json_wf (JObj o1) \<Longrightarrow> json_wf v \<Longrightarrow> json_wf (JObj (put_or_drop b k v o1))"
proof -
  assume o1: "json_wf (JObj o1)" "json_wf v"
  then have "json_wf (JObj (obj_del k o1))" using keys_ok_del [of o1 k] by (auto simp: obj_ok_iff list_all_iff obj_del_def)
  then show ?thesis using wf_put [OF o1] by (simp add: put_or_drop_def del: json_wf.simps)
qed

lemma settings_object_wf: "json_wf (JObj o1) \<Longrightarrow> own_ok ty s \<Longrightarrow> json_wf (JObj (settings_object ty s o1))"
proof -
  assume o1: "json_wf (JObj o1)" and s: "own_ok ty s"
  have vals: "json_wf (or_json (Some (os_vertex_key_type s)) (JStr ''json''))" "json_wf (or_json (Some (os_aws_key_type s)) (JStr ''ak_sk''))"
    "json_wf (os_azure_responses_version s)" using s by (auto simp: own_ok_def or_json_def)
  have bools: "json_wf (JBool b)" for b by simp
  have t: "json_wf (JObj (type_options ty s o1))"
    unfolding type_options_flat by (intro wf_put put_or_drop_wf o1 vals bools)
  have zero: "json_wf (JNum (Dec 0 0))" by code_simp
  have arr: "json_wf (JArr (map JStr xs))" "json_wf (JArr [])" for xs by (simp_all add: list_all_iff)
  have put_if: "json_wf (JObj (if b then obj_put k v o2 else o2))" if "json_wf (JObj o2)" "json_wf v" for b k v o2
    using that wf_put by simp
  have u: "json_wf (JObj (update_options s o2))" if "json_wf (JObj o2)" for o2
    unfolding update_options_def Let_def by (intro put_if wf_put that arr bools zero)
  have m: "json_wf (JObj (if ty \<in> set MODEL_FETCHABLE_TYPES then update_options s (type_options ty s o1) else type_options ty s o1))"
    using t u by simp
  have del: "json_wf (JObj (obj_del k o2))" if "json_wf (JObj o2)" for k o2
    using put_or_drop_wf [OF that, of JNull False k] by (simp add: put_or_drop_def)
  let ?m = "if ty \<in> set MODEL_FETCHABLE_TYPES then update_options s (type_options ty s o1) else type_options ty s o1"
  have "json_wf (JObj (case parseAdvancedCustomConfig (os_advanced_custom s) of Some c \<Rightarrow> obj_put ''advanced_custom'' c ?m | None \<Rightarrow> ?m))"
  proof (cases "parseAdvancedCustomConfig (os_advanced_custom s)")
    case None
    then show ?thesis using m by simp
  next
    case (Some c)
    show ?thesis unfolding Some option.case by (rule wf_put [OF m config_text_read(3) [OF Some]])
  qed
  then show ?thesis unfolding settings_object_def Let_def using del [OF m] by presburger
qed

end
