(* ===== verification/Channel_Saving.thy ===== *)
theory Channel_Saving
  imports Channel_Texts
begin

text \<open>
  Saving and opening a channel: the locale \<open>stored_text\<close> states what the form needs of its two option texts, both of which
  interpret it; then the fields of a stored channel, what the schema of the form gives, and the properties.
\<close>

section \<open>Texts that are read and written again\<close>

text \<open>
  An option text of a channel: the form reads it, and saving writes it from the text that was there and the options. What
  both texts promise is that saving what was just read changes nothing.
\<close>

locale stored_text =
  fixes read :: "string \<Rightarrow> 'v" and write_to :: "string \<Rightarrow> 'v \<Rightarrow> string option" and ok :: "string \<Rightarrow> 'v \<Rightarrow> bool"
  assumes write_again: "ok t v \<Longrightarrow> write_to t v = Some t' \<Longrightarrow> write_to t' (read t') = Some t'"
    and ok_again: "ok t v \<Longrightarrow> write_to t v = Some t' \<Longrightarrow> ok t' (read t')"
    and written: "ok t v \<Longrightarrow> write_to t v \<noteq> None"
begin

lemma resaved: "ok t v \<Longrightarrow> write_to t v = Some t' \<Longrightarrow> ((\<lambda>s. Option.bind s (\<lambda>u. write_to u (read u))) ^^ n) (Some t') = Some t'"
  by (induction n) (simp_all add: write_again)

lemma write_ex: "ok t v \<Longrightarrow> \<exists>t'. write_to t v = Some t' \<and> write_to t' (read t') = Some t' \<and> ok t' (read t')"
  using written write_again ok_again by blast

end

lemma stringify_object: "json_stringify (JObj o1) \<noteq> []"
  by (simp add: json_stringify_def)

definition extra_ok :: "extra_settings \<Rightarrow> bool" where
  "extra_ok x \<longleftrightarrow> extra_wf x \<and> proxy_text (ex_proxy x) \<noteq> None"

lemma open_written_extra: "extra_wf x \<Longrightarrow> open_extra (json_stringify (JObj (setting_object x p))) = read_extra (JObj (setting_object x p))"
  using json_parse_stringify [OF setting_object_wf [of x p]] by (simp add: open_extra_def stringify_object)

lemma proxy_trimmed: "proxy_text v = Some p \<Longrightarrow> trimmed p"
  by (auto simp: proxy_text_def split: json.splits)

lemma read_extra_wf: "json_wf v \<Longrightarrow> extra_wf (read_extra v)"
proof -
  assume v: "json_wf v"
  have or: "json_wf d \<Longrightarrow> json_wf (or_json (jget v k) d)" for k d using jget_wf [OF v] by (intro or_json_wf) auto
  have "json_wf (normalizeHttp2ConnectionShards (jget v k))" for k using jget_wf [OF v] by (intro shards_wf) auto
  moreover have "json_wf (JNum (Dec 1 0))" by code_simp
  ultimately show ?thesis by (simp add: extra_wf_def read_extra_def Let_def or)
qed

interpretation extra_text: stored_text open_extra "\<lambda>_. setting_text" "\<lambda>_. extra_ok"
proof
  fix t t' :: string and x
  assume x: "extra_ok x"
  then show "setting_text x \<noteq> None" by (simp add: extra_ok_def setting_text_def)
  assume t': "setting_text x = Some t'"
  then obtain p where p: "proxy_text (ex_proxy x) = Some p" "t' = json_stringify (JObj (setting_object x p))" by (auto simp: setting_text_def)
  have wf: "extra_wf x" using x by (simp add: extra_ok_def)
  note again = setting_again [OF proxy_trimmed [OF p(1)], of x]
  show "setting_text (open_extra t') = Some t'"
    using again by (simp add: p(2) open_written_extra [OF wf] setting_text_def)
  show "extra_ok (open_extra t')"
    using again read_extra_wf [OF setting_object_wf [OF wf]] by (simp add: p(2) open_written_extra [OF wf] extra_ok_def)
qed

lemma parsed_written: "json_wf (JObj o1) \<Longrightarrow> parsed_settings (json_stringify (JObj o1)) = JObj o1"
proof -
  assume wf: "json_wf (JObj o1)"
  have "json_parse ''{}'' = Some (JObj [])" by code_simp
  then show ?thesis using json_parse_stringify [OF wf] stringify_object [of o1] by (auto simp: parsed_settings_def)
qed

lemma open_written_own: "json_wf (JObj o1) \<Longrightarrow> open_own (json_stringify (JObj o1)) = read_own (JObj o1)"
  using json_parse_stringify [of "JObj o1"] by (simp add: open_own_def stringify_object)

lemma parsed_wf: "json_wf (parsed_settings t)"
  using json_parse_wf by (auto simp: parsed_settings_def wf_empty simp del: json_wf.simps(3) split: option.split)

lemma read_own_ok: "json_wf v \<Longrightarrow> ty \<noteq> 58 \<Longrightarrow> own_ok ty (read_own v)"
proof -
  assume v: "json_wf v" "ty \<noteq> 58"
  have "json_wf (or_json (jget v k) (JStr d))" for k d using jget_wf [OF v(1)] by (intro or_json_wf) auto
  then show ?thesis using v(2) by (simp add: own_ok_def read_own_def)
qed

definition settings_ok_for :: "int \<Rightarrow> string \<Rightarrow> own_settings \<Rightarrow> bool" where
  "settings_ok_for ty t s \<longleftrightarrow> own_ok ty s \<and> isJsonObjectValue (parsed_settings t)"

lemma written_settings:
  assumes "settings_ok_for ty t s"
  obtains o1 where "parsed_settings t = JObj o1" "json_wf (JObj o1)" "keys_ok o1"
    "settings_text ty t s = Some (json_stringify (JObj (settings_object ty s o1)))"
    "json_wf (JObj (settings_object ty s o1))"
proof -
  obtain o1 where o1: "parsed_settings t = JObj o1" using assms by (cases "parsed_settings t") (auto simp: settings_ok_for_def)
  then have wf: "json_wf (JObj o1)" using parsed_wf [of t] by simp
  then have "keys_ok o1" by (simp add: obj_ok_iff)
  moreover have "own_ok ty s" using assms by (simp add: settings_ok_for_def)
  ultimately show ?thesis using that [OF o1 wf] settings_object_wf [OF wf] o1 by (simp add: settings_text_def del: json_wf.simps)
qed

interpretation own_text: stored_text open_own "settings_text ty" "settings_ok_for ty" for ty
proof
  fix t t' s
  assume s: "settings_ok_for ty t s"
  obtain o1 where o1: "parsed_settings t = JObj o1" "json_wf (JObj o1)" "keys_ok o1"
    "settings_text ty t s = Some (json_stringify (JObj (settings_object ty s o1)))" "json_wf (JObj (settings_object ty s o1))"
    by (rule written_settings [OF s])
  then show "settings_text ty t s \<noteq> None" by simp
  assume "settings_text ty t s = Some t'"
  then have t': "t' = json_stringify (JObj (settings_object ty s o1))" using o1(4) by simp
  let ?o = "settings_object ty s o1"
  have ok: "own_ok ty s" using s by (simp add: settings_ok_for_def)
  note open' = open_written_own [OF o1(5), folded t'] and parsed = parsed_written [OF o1(5), folded t']
  show "settings_text ty t' (open_own t') = Some t'"
    using settings_object_again [OF o1(3) ok refl] by (simp add: settings_text_def parsed open') (simp add: t')
  have "own_ok ty (read_own (JObj ?o))"
  proof (cases "ty = 58")
    case True
    then obtain c where c: "parseAdvancedCustomConfig (os_advanced_custom s) = Some c" using ok by (auto simp: own_ok_def)
    have "own_ok 0 (read_own (JObj ?o))" by (rule read_own_ok [OF o1(5)]) simp
    then show ?thesis using advanced_read(2) [OF True c refl, of o1] unfolding own_ok_def by (metis option.distinct(1))
  next
    case False
    then show ?thesis by (rule read_own_ok [OF o1(5)])
  qed
  then show "settings_ok_for ty t' (open_own t')" by (simp add: settings_ok_for_def parsed open')
qed

section \<open>The channel that was saved\<close>

text \<open>A channel as it is fetched after a payload was stored: every field that was sent has the value that was sent, and null
  reads as no value.\<close>

definition text_stored :: "(string \<times> json) list \<Rightarrow> string \<Rightarrow> string \<Rightarrow> bool" where
  "text_stored p k s \<longleftrightarrow> (case map_of p k of Some (JStr t) \<Rightarrow> s = t | _ \<Rightarrow> s = [])"

definition number_stored :: "(string \<times> json) list \<Rightarrow> string \<Rightarrow> dec option \<Rightarrow> bool" where
  "number_stored p k d \<longleftrightarrow> (case map_of p k of Some (JNum n) \<Rightarrow> d = Some n | _ \<Rightarrow> d = None)"

definition stores :: "(string \<times> json) list \<Rightarrow> channel \<Rightarrow> bool" where
  "stores p c \<longleftrightarrow> text_stored p ''name'' (ch_name c) \<and> number_stored p ''type'' (Some (of_int_dec (ch_type c)))
     \<and> text_stored p ''base_url'' (opt_str (ch_base_url c)) \<and> text_stored p ''openai_organization'' (opt_str (ch_openai_organization c))
     \<and> text_stored p ''openai_project'' (opt_str (ch_openai_project c)) \<and> text_stored p ''models'' (ch_models c)
     \<and> text_stored p ''group'' (ch_group c) \<and> text_stored p ''model_mapping'' (opt_str (ch_model_mapping c))
     \<and> number_stored p ''priority'' (ch_priority c) \<and> number_stored p ''weight'' (ch_weight c)
     \<and> number_stored p ''price_ratio'' (ch_price_ratio c) \<and> text_stored p ''balance_currency'' (ch_balance_currency c)
     \<and> text_stored p ''test_model'' (opt_str (ch_test_model c)) \<and> number_stored p ''auto_ban'' (ch_auto_ban c)
     \<and> text_stored p ''status_code_mapping'' (opt_str (ch_status_code_mapping c)) \<and> text_stored p ''tag'' (opt_str (ch_tag c))
     \<and> text_stored p ''remark'' (ch_remark c) \<and> text_stored p ''setting'' (opt_str (ch_setting c))
     \<and> text_stored p ''param_override'' (opt_str (ch_param_override c)) \<and> text_stored p ''header_override'' (opt_str (ch_header_override c))
     \<and> text_stored p ''settings'' (ch_settings c) \<and> text_stored p ''other'' (ch_other c)"

lemma map_of_empty_to_null: "map_of (empty_to_null p) k = map_option (\<lambda>v. if v = JStr [] then JNull else v) (map_of p k)"
  by (simp add: empty_to_null_def map_of_map)

definition explicit_keys :: "string list" where
  "explicit_keys = [''base_url'', ''openai_organization'', ''openai_project'', ''test_model'', ''tag'', ''remark'', ''model_mapping'',
     ''status_code_mapping'', ''param_override'', ''header_override'']"

lemma fold_puts: "distinct (map fst es) \<Longrightarrow> map_of (fold (\<lambda>(k, v). obj_put k v) es p) k = (case map_of es k of Some v \<Rightarrow> Some v | None \<Rightarrow> map_of p k)"
proof (induction es arbitrary: p)
  case (Cons e es)
  then have "k = fst e \<Longrightarrow> map_of es k = None" by (auto simp: map_of_eq_None_iff)
  then show ?case using Cons by (auto simp: map_of_obj_put split: option.split prod.split)
qed simp

lemma explicit_distinct: "distinct (map fst (explicit_fields f))"
  by (simp add: explicit_fields_def)

lemma update_payload_lookup:
  assumes "transformFormDataToUpdatePayload f i = Some p" "k \<noteq> ''key''"
  shows "map_of p k = (case map_of (explicit_fields f) k of Some v \<Rightarrow> Some v
     | None \<Rightarrow> map_option (\<lambda>v. if v = JStr [] then JNull else v)
         (map_of (update_fields f i (the (buildSettingJSON f)) (the (buildSettingsJSON f))) k))"
proof -
  obtain a b where ab: "buildSettingJSON f = Some a" "buildSettingsJSON f = Some b"
    using assms(1) by (auto simp: transformFormDataToUpdatePayload_def split: option.splits)
  let ?u = "update_fields f i a b"
  let ?p2 = "if fm_key f \<noteq> [] \<and> js_trim (fm_key f) \<noteq> [] then obj_put ''key'' (JStr (fm_key f)) ?u else ?u"
  have "p = fold (\<lambda>(k, v). obj_put k v) (explicit_fields f) (empty_to_null ?p2)"
    using assms(1) ab by (simp add: transformFormDataToUpdatePayload_def Let_def split: if_splits)
  moreover have "map_of ?p2 k = map_of ?u k" using assms(2) by (simp add: map_of_obj_put)
  ultimately show ?thesis by (simp only: fold_puts [OF explicit_distinct] map_of_empty_to_null ab option.sel)
qed

lemma text_stored_null: "map_of p k = Some (if v = JStr [] then JNull else v) \<Longrightarrow> v = JStr s \<Longrightarrow> text_stored p k t \<longleftrightarrow> t = s"
  by (auto simp: text_stored_def)

lemma text_stored_str: "map_of p k = Some (JStr s) \<Longrightarrow> text_stored p k t \<longleftrightarrow> t = s"
  by (simp add: text_stored_def)

lemma number_stored_num: "map_of p k = Some (JNum n) \<Longrightarrow> number_stored p k d \<longleftrightarrow> d = Some n"
  by (simp add: number_stored_def)

lemma of_int_dec_inject: "of_int_dec i = of_int_dec j \<longleftrightarrow> i = j"
  by (metis dec_int_of_int option.inject)

text \<open>The fields of a channel that a form was saved to.\<close>

lemma stored_fields:
  assumes "transformFormDataToUpdatePayload f i = Some p" "stores p c" "buildSettingJSON f = Some a" "buildSettingsJSON f = Some b"
  shows "ch_name c = fm_name f" "ch_type c = fm_type f" "opt_str (ch_base_url c) = normalizeBaseUrl (fm_base_url f)"
    "opt_str (ch_openai_organization c) = fm_openai_organization f" "opt_str (ch_openai_project c) = fm_openai_project f"
    "ch_models c = fm_models f" "ch_group c = formatGroups (fm_group f)" "opt_str (ch_model_mapping c) = fm_model_mapping f"
    "ch_priority c = Some (dec_default (Dec 0 0) (fm_priority f))" "ch_weight c = Some (dec_default (Dec 0 0) (fm_weight f))"
    "ch_price_ratio c = Some (dec_default (Dec 1 0) (fm_price_ratio f))" "ch_balance_currency c = str_or (fm_balance_currency f) ''USD''"
    "opt_str (ch_test_model c) = fm_test_model f" "ch_auto_ban c = Some (dec_default (Dec 1 0) (fm_auto_ban f))"
    "opt_str (ch_status_code_mapping c) = fm_status_code_mapping f" "opt_str (ch_tag c) = fm_tag f" "ch_remark c = fm_remark f"
    "opt_str (ch_setting c) = a" "opt_str (ch_param_override c) = fm_param_override f" "opt_str (ch_header_override c) = fm_header_override f"
    "ch_settings c = b" "ch_other c = fm_other f"
proof -
  note look = update_payload_lookup [OF assms(1), unfolded assms(3,4) option.sel explicit_fields_def update_fields_def]
  have sent: "text_stored p k t = (t = s)" if "map_of p k = Some (if JStr s = JStr [] then JNull else JStr s)" for k s t
    using that text_stored_null by blast
  show "ch_name c = fm_name f" using assms(2) look [of "''name''"] sent [of "''name''"] by (simp add: stores_def)
  show "ch_type c = fm_type f" using assms(2) look [of "''type''"] number_stored_num [of p "''type''"] by (simp add: stores_def of_int_dec_inject)
  show "opt_str (ch_base_url c) = normalizeBaseUrl (fm_base_url f)" using assms(2) look [of "''base_url''"] text_stored_str [of p "''base_url''"] by (simp add: stores_def)
  show "opt_str (ch_openai_organization c) = fm_openai_organization f"
    using assms(2) look [of "''openai_organization''"] text_stored_str [of p "''openai_organization''"] by (simp add: stores_def)
  show "opt_str (ch_openai_project c) = fm_openai_project f"
    using assms(2) look [of "''openai_project''"] text_stored_str [of p "''openai_project''"] by (simp add: stores_def)
  show "ch_models c = fm_models f" using assms(2) look [of "''models''"] sent [of "''models''"] by (simp add: stores_def)
  show "ch_group c = formatGroups (fm_group f)" using assms(2) look [of "''group''"] sent [of "''group''"] by (simp add: stores_def)
  show "opt_str (ch_model_mapping c) = fm_model_mapping f"
    using assms(2) look [of "''model_mapping''"] text_stored_str [of p "''model_mapping''"] by (simp add: stores_def)
  show "ch_priority c = Some (dec_default (Dec 0 0) (fm_priority f))"
    using assms(2) look [of "''priority''"] number_stored_num [of p "''priority''"] by (simp add: stores_def)
  show "ch_weight c = Some (dec_default (Dec 0 0) (fm_weight f))"
    using assms(2) look [of "''weight''"] number_stored_num [of p "''weight''"] by (simp add: stores_def)
  show "ch_price_ratio c = Some (dec_default (Dec 1 0) (fm_price_ratio f))"
    using assms(2) look [of "''price_ratio''"] number_stored_num [of p "''price_ratio''"] by (simp add: stores_def)
  show "ch_balance_currency c = str_or (fm_balance_currency f) ''USD''"
    using assms(2) look [of "''balance_currency''"] sent [of "''balance_currency''"] by (simp add: stores_def)
  show "opt_str (ch_test_model c) = fm_test_model f" using assms(2) look [of "''test_model''"] text_stored_str [of p "''test_model''"] by (simp add: stores_def)
  show "ch_auto_ban c = Some (dec_default (Dec 1 0) (fm_auto_ban f))"
    using assms(2) look [of "''auto_ban''"] number_stored_num [of p "''auto_ban''"] by (simp add: stores_def)
  show "opt_str (ch_status_code_mapping c) = fm_status_code_mapping f"
    using assms(2) look [of "''status_code_mapping''"] text_stored_str [of p "''status_code_mapping''"] by (simp add: stores_def)
  show "opt_str (ch_tag c) = fm_tag f" using assms(2) look [of "''tag''"] text_stored_str [of p "''tag''"] by (simp add: stores_def)
  show "ch_remark c = fm_remark f" using assms(2) look [of "''remark''"] text_stored_str [of p "''remark''"] by (simp add: stores_def)
  show "opt_str (ch_setting c) = a" using assms(2) look [of "''setting''"] sent [of "''setting''"] by (simp add: stores_def)
  show "opt_str (ch_param_override c) = fm_param_override f"
    using assms(2) look [of "''param_override''"] text_stored_str [of p "''param_override''"] by (simp add: stores_def)
  show "opt_str (ch_header_override c) = fm_header_override f"
    using assms(2) look [of "''header_override''"] text_stored_str [of p "''header_override''"] by (simp add: stores_def)
  show "ch_settings c = b" using assms(2) look [of "''settings''"] sent [of "''settings''"] by (simp add: stores_def)
  show "ch_other c = fm_other f" using assms(2) look [of "''other''"] sent [of "''other''"] by (simp add: stores_def)
qed

section \<open>What the schema gives\<close>

text \<open>
  What the types of the form leave open: the numbers and the values from the texts are in normal form, the groups are names
  without commas and outer white space, the base URL has no white space before its final slashes, and the settings are not
  blank.
\<close>

definition form_wf :: "channel_form \<Rightarrow> bool" where
  "form_wf f \<longleftrightarrow> extra_wf (fm_extra f) \<and> json_wf (os_vertex_key_type (fm_own f)) \<and> json_wf (os_azure_responses_version (fm_own f))
     \<and> json_wf (os_aws_key_type (fm_own f)) \<and> (case fm_priority f of Some d \<Rightarrow> dec_ok d | None \<Rightarrow> True)
     \<and> (case fm_weight f of Some d \<Rightarrow> dec_ok d | None \<Rightarrow> True) \<and> list_all item_ok (fm_group f) \<and> trimmed (normalizeBaseUrl (fm_base_url f))
     \<and> (fm_settings f = [] \<or> js_trim (fm_settings f) \<noteq> [])"

lemma no_issue: "issues cs = [] \<Longrightarrow> (path, msg, ok) \<in> set cs \<Longrightarrow> ok"
  by (auto simp: issues_def filter_empty_conv)

lemma schema_types: "channelFormSchema newURL f \<Longrightarrow> typed_extra (fm_extra f) \<and> typed_own (fm_own f) \<and> fm_balance_currency f \<in> {''USD'', ''CNY''}"
  by (simp add: channelFormSchema_def)

lemma schema_field: "channelFormSchema newURL f \<Longrightarrow> (path, msg, ok) \<in> set (field_checks newURL f) \<Longrightarrow> ok"
  unfolding channelFormSchema_def by (metis no_issue)

lemma schema_group: "channelFormSchema newURL f \<Longrightarrow> fm_group f \<noteq> []"
  by (rule schema_field [of newURL f "''group''" "''Group is required''"]) (simp_all add: field_checks_def)

lemma schema_settings: "channelFormSchema newURL f \<Longrightarrow> isOptionalJsonObject (fm_settings f)"
  by (rule schema_field [of newURL f "''settings''" "''Invalid JSON format''"]) (simp_all add: field_checks_def)

lemma schema_type_check: "channelFormSchema newURL f \<Longrightarrow> (path, msg, ok) \<in> set (type_checks f) \<Longrightarrow> ok"
proof -
  assume "channelFormSchema newURL f" and c: "(path, msg, ok) \<in> set (type_checks f)"
  then have "\<exists>url. refine_issues url f = Some []" unfolding channelFormSchema_def by blast
  then obtain cs where "issues (base_url_check f # cs @ type_checks f) = []"
    unfolding refine_issues_def Let_def map_option_eq_Some by blast
  then show ok by (rule no_issue [of _ path msg]) (use c in simp)
qed

lemma schema_advanced: "channelFormSchema newURL f \<Longrightarrow> fm_type f = 58 \<Longrightarrow> parseAdvancedCustomConfig (os_advanced_custom (fm_own f)) \<noteq> None"
proof
  assume f: "channelFormSchema newURL f" "fm_type f = 58" and none: "parseAdvancedCustomConfig (os_advanced_custom (fm_own f)) = None"
  obtain url where "refine_issues url f = Some []" using f(1) unfolding channelFormSchema_def by blast
  then have "issues (base_url_check f # advanced_custom_checks url f None @ type_checks f) = []"
    using f(2) none by (simp add: refine_issues_def)
  then have "validateAdvancedCustomConfig url None = None"
    by (rule no_issue [of _ "''advanced_custom''" "case validateAdvancedCustomConfig url None of Some e \<Rightarrow> message e | None \<Rightarrow> []"])
       (simp add: advanced_custom_checks_def)
  then show False by (simp add: validateAdvancedCustomConfig_def)
qed

lemma accepted_texts:
  assumes "channelFormSchema newURL f" "form_wf f"
  shows "extra_ok (fm_extra f)" "settings_ok_for (fm_type f) (fm_settings f) (fm_own f)"
proof -
  have "is_string (ex_proxy (fm_extra f))" using schema_types [OF assms(1)] by (simp add: typed_extra_def)
  then show "extra_ok (fm_extra f)" using assms(2) by (cases "ex_proxy (fm_extra f)") (simp_all add: extra_ok_def form_wf_def proxy_text_def)
  have "isJsonObjectValue (parsed_settings (fm_settings f))"
    using schema_settings [OF assms(1)] assms(2)
    by (auto simp: isOptionalJsonObject_def optional_json_def parseOptionalJson_def parsed_settings_def form_wf_def split: option.splits if_splits)
  then show "settings_ok_for (fm_type f) (fm_settings f) (fm_own f)"
    using assms(2) schema_advanced [OF assms(1)] by (auto simp: settings_ok_for_def own_ok_def form_wf_def)
qed

section \<open>Single fields\<close>

lemma base_url_again: "trimmed (normalizeBaseUrl u) \<Longrightarrow> normalizeBaseUrl (normalizeBaseUrl u) = normalizeBaseUrl u"
proof -
  have "dropWhile P (dropWhile P xs) = dropWhile P xs" for P and xs :: string by (induction xs) auto
  then show "trimmed (normalizeBaseUrl u) \<Longrightarrow> ?thesis"
    unfolding normalizeBaseUrl_def [of "normalizeBaseUrl u"] by (simp add: trim_trimmed) (simp add: normalizeBaseUrl_def)
qed

lemma groups_again: "g \<noteq> [] \<Longrightarrow> list_all item_ok g \<Longrightarrow> parseGroups (str_or (formatGroups g) d) = g"
proof -
  assume g: "g \<noteq> []" "list_all item_ok g"
  have "parseGroups s = comma_items s" for s by (simp add: parseGroups_def comma_items_def)
  moreover have "formatGroups g \<noteq> []" using g by (cases g rule: list.exhaust; cases "tl g") (auto simp: formatGroups_def item_ok_def)
  ultimately show ?thesis using comma_items_join [OF g(2)] by (simp add: str_or_def formatGroups_def)
qed

lemma dec_again: "dec_ok d \<Longrightarrow> dec_or_zero (Some d) = d"
  using dec_norm_0 [of "expo d"] by (auto simp: dec_or_zero_def dec_ok_def)

lemma resaved_form:
  assumes "channelFormSchema newURL f" "form_wf f" "transformFormDataToUpdatePayload f i = Some p" "stores p c"
  shows "transformFormDataToUpdatePayload (transformChannelToFormDefaults c) i = transformFormDataToUpdatePayload (f\<lparr>fm_key := []\<rparr>) i"
proof -
  define g where "g = transformChannelToFormDefaults c"
  note ok = accepted_texts [OF assms(1,2)]
  obtain a where a: "setting_text (fm_extra f) = Some a" "setting_text (open_extra a) = Some a"
    using extra_text.write_ex [OF ok(1)] by blast
  obtain b where b: "settings_text (fm_type f) (fm_settings f) (fm_own f) = Some b" "settings_text (fm_type f) b (open_own b) = Some b"
    using own_text.write_ex [OF ok(2)] by blast
  note built = buildSettingJSON_def [of f, unfolded a(1)] buildSettingsJSON_def [of f, unfolded b(1)]
  note st = stored_fields [OF assms(3,4) built]
  obtain o1 where "settings_text (fm_type f) (fm_settings f) (fm_own f) = Some (json_stringify (JObj (settings_object (fm_type f) (fm_own f) o1)))"
    by (rule written_settings [OF ok(2)])
  then have "b \<noteq> []" using b(1) stringify_object by simp
  then have texts: "buildSettingJSON g = Some a" "buildSettingsJSON g = Some b"
    using a(2) b(2) by (simp_all add: g_def transformChannelToFormDefaults_def buildSettingJSON_def buildSettingsJSON_def st str_or_def)
  have decs: "dec_or_zero (Some (dec_default (Dec 0 0) (fm_priority f))) = dec_default (Dec 0 0) (fm_priority f)"
    "dec_or_zero (Some (dec_default (Dec 0 0) (fm_weight f))) = dec_default (Dec 0 0) (fm_weight f)"
  proof -
    have "dec_ok (Dec 0 0)" by (simp add: dec_ok_def)
    then have "dec_ok (dec_default (Dec 0 0) (fm_priority f))" "dec_ok (dec_default (Dec 0 0) (fm_weight f))"
      using assms(2) by (auto simp: form_wf_def dec_default_def split: option.splits)
    then show "dec_or_zero (Some (dec_default (Dec 0 0) (fm_priority f))) = dec_default (Dec 0 0) (fm_priority f)"
      "dec_or_zero (Some (dec_default (Dec 0 0) (fm_weight f))) = dec_default (Dec 0 0) (fm_weight f)" by (simp_all only: dec_again)
  qed
  have group: "parseGroups (str_or (formatGroups (fm_group f)) ''default'') = fm_group f"
    using groups_again [OF schema_group [OF assms(1)]] assms(2) by (simp add: form_wf_def)
  have url: "normalizeBaseUrl (normalizeBaseUrl (fm_base_url f)) = normalizeBaseUrl (fm_base_url f)"
    using base_url_again assms(2) by (simp add: form_wf_def)
  have cur: "(if str_or (fm_balance_currency f) ''USD'' = ''CNY'' then ''CNY'' else ''USD'') = str_or (fm_balance_currency f) ''USD''"
    "str_or (str_or (fm_balance_currency f) ''USD'') ''USD'' = str_or (fm_balance_currency f) ''USD''"
    using schema_types [OF assms(1)] by (auto simp: str_or_def)
  have g: "fm_name g = fm_name f" "fm_type g = fm_type f" "fm_base_url g = normalizeBaseUrl (fm_base_url f)" "fm_key g = []"
    "fm_openai_organization g = fm_openai_organization f" "fm_openai_project g = fm_openai_project f" "fm_models g = fm_models f"
    "fm_group g = fm_group f" "fm_model_mapping g = fm_model_mapping f"
    "fm_priority g = Some (dec_default (Dec 0 0) (fm_priority f))" "fm_weight g = Some (dec_default (Dec 0 0) (fm_weight f))"
    "fm_price_ratio g = Some (dec_default (Dec 1 0) (fm_price_ratio f))" "fm_balance_currency g = str_or (fm_balance_currency f) ''USD''"
    "fm_test_model g = fm_test_model f" "fm_auto_ban g = Some (dec_default (Dec 1 0) (fm_auto_ban f))"
    "fm_status_code_mapping g = fm_status_code_mapping f" "fm_tag g = fm_tag f" "fm_remark g = fm_remark f"
    "fm_param_override g = fm_param_override f" "fm_header_override g = fm_header_override f" "fm_other g = fm_other f"
    by (simp_all only: g_def transformChannelToFormDefaults_def channel_form.simps st group decs cur) (simp_all add: dec_default_def)
  have dd: "dec_default x (Some (dec_default x v)) = dec_default x v" for x v by (simp add: dec_default_def)
  have "update_fields g i a b = update_fields f i a b" "explicit_fields g = explicit_fields f"
    by (simp_all only: update_fields_def explicit_fields_def g url cur dd)
  moreover have "update_fields (f\<lparr>fm_key := []\<rparr>) i a b = update_fields f i a b" "explicit_fields (f\<lparr>fm_key := []\<rparr>) = explicit_fields f"
    by (simp_all add: update_fields_def explicit_fields_def)
  moreover have "buildSettingJSON (f\<lparr>fm_key := []\<rparr>) = Some a" "buildSettingsJSON (f\<lparr>fm_key := []\<rparr>) = Some b"
    using a(1) b(1) by (simp_all add: buildSettingJSON_def buildSettingsJSON_def)
  ultimately show ?thesis unfolding g_def [symmetric] transformFormDataToUpdatePayload_def Let_def by (simp add: texts g(4))
qed

section \<open>Properties\<close>

definition sample_form :: channel_form where
  "sample_form = CHANNEL_FORM_DEFAULT_VALUES\<lparr>fm_name := ''c'', fm_type := 14, fm_models := ''m'', fm_key := ''sk'', fm_base_url := ''https://a/'',
     fm_settings := ''{\"keep\":1,\"disable_store\":true}'',
     fm_extra := default_extra\<lparr>ex_http2_connection_shards := JNum (Dec 4 0), ex_proxy := JStr ''http://p ''\<rparr>,
     fm_own := default_own\<lparr>os_allow_speed := True, os_disable_store := True, os_check_enabled := True, os_ignored_models := '' a , b''\<rparr>\<rparr>"

definition sample_channel :: channel where
  "sample_channel = \<lparr>ch_name = ''c'', ch_type = 14, ch_base_url = Some ''https://a'', ch_openai_organization = None, ch_openai_project = None,
     ch_models = ''m'', ch_group = ''default'', ch_model_mapping = None, ch_priority = Some (Dec 0 0), ch_weight = Some (Dec 0 0),
     ch_price_ratio = Some (Dec 1 0), ch_balance_currency = ''USD'', ch_test_model = None, ch_auto_ban = Some (Dec 1 0), ch_status = Dec 1 0,
     ch_status_code_mapping = None, ch_tag = None, ch_remark = [], ch_setting = buildSettingJSON sample_form, ch_param_override = None,
     ch_header_override = None, ch_settings = the (buildSettingsJSON sample_form), ch_other = [], ch_multi_key_mode = ''random''\<rparr>"

definition sample_url :: "string \<Rightarrow> (string \<times> string \<times> string \<times> string) option" where
  "sample_url u = (if u = ''http://p'' then Some (''p'', ''http:'', ''p'', []) else None)"

lemma sample_accepted: "channelFormSchema sample_url sample_form" "form_wf sample_form"
  by code_simp+

lemma sample_saved: "\<exists>p. transformFormDataToUpdatePayload sample_form (Dec 5 0) = Some p \<and> stores p sample_channel"
proof -
  have "case transformFormDataToUpdatePayload sample_form (Dec 5 0) of Some p \<Rightarrow> stores p sample_channel | None \<Rightarrow> False" by code_simp
  then show ?thesis by (auto split: option.splits)
qed

text \<open>
  C15. Opening a saved channel and saving it again changes nothing: when a form that the schema accepts was stored, the form
  that is opened from the stored channel is sent as the same payload, apart from the key, which is never shown and not sent
  unless a new one is entered. This covers both option texts, the properties of the settings that the form does not know,
  the routes of a custom channel and all plain fields. The hypothesis \<open>stores\<close> says that the gateway keeps what it is sent;
  a field that it leaves at its old value because an empty one was sent is not covered.
\<close>

theorem resave_changes_nothing:
  assumes "channelFormSchema newURL f" "form_wf f" "transformFormDataToUpdatePayload f i = Some p" "stores p c"
  shows "transformFormDataToUpdatePayload (transformChannelToFormDefaults c) i = transformFormDataToUpdatePayload (f\<lparr>fm_key := []\<rparr>) i"
  by (rule resaved_form [OF assms])

theorem resave_changes_nothing_witness:
  "transformFormDataToUpdatePayload (transformChannelToFormDefaults sample_channel) (Dec 5 0)
     = transformFormDataToUpdatePayload (sample_form\<lparr>fm_key := []\<rparr>) (Dec 5 0)"
proof -
  obtain p where "transformFormDataToUpdatePayload sample_form (Dec 5 0) = Some p" "stores p sample_channel" using sample_saved by blast
  then show ?thesis using resave_changes_nothing [OF sample_accepted] by blast
qed

text \<open>
  C0. A saved channel shows the options that were chosen: every switch of the settings is shown as it was set when the type of
  the channel has it, and is off otherwise. So an option of another type cannot be carried along unseen.
\<close>

theorem saved_switches_shown:
  assumes "channelFormSchema newURL f" "form_wf f" "transformFormDataToUpdatePayload f i = Some p" "stores p c"
    "s = fm_own f" "ty = fm_type f" "r = fm_own (transformChannelToFormDefaults c)"
  shows "(os_is_enterprise_account r \<longleftrightarrow> ty = 20 \<and> os_is_enterprise_account s)
    \<and> (os_allow_service_tier r \<longleftrightarrow> ty \<in> {1, 14, 57} \<and> os_allow_service_tier s)
    \<and> (os_disable_store r \<longleftrightarrow> ty \<in> {1, 57} \<and> os_disable_store s)
    \<and> (os_allow_safety_identifier r \<longleftrightarrow> ty \<in> {1, 57} \<and> os_allow_safety_identifier s)
    \<and> (os_allow_include_obfuscation r \<longleftrightarrow> ty \<in> {1, 57} \<and> os_allow_include_obfuscation s)
    \<and> (os_allow_inference_geo r \<longleftrightarrow> ty \<in> {1, 14, 57} \<and> os_allow_inference_geo s)
    \<and> (os_allow_speed r \<longleftrightarrow> ty = 14 \<and> os_allow_speed s) \<and> (os_claude_beta_query r \<longleftrightarrow> ty = 14 \<and> os_claude_beta_query s)
    \<and> (os_disable_task_polling_sleep r \<longleftrightarrow> os_disable_task_polling_sleep s)"
proof -
  obtain o1 where o1: "settings_text (fm_type f) (fm_settings f) (fm_own f) = Some (json_stringify (JObj (settings_object (fm_type f) (fm_own f) o1)))"
    "json_wf (JObj (settings_object (fm_type f) (fm_own f) o1))"
    by (rule written_settings [OF accepted_texts(2) [OF assms(1,2)]])
  obtain a where a: "buildSettingJSON f = Some a" using assms(3) by (auto simp: transformFormDataToUpdatePayload_def split: option.splits)
  have b: "buildSettingsJSON f = Some (json_stringify (JObj (settings_object ty s o1)))" using o1(1) by (simp add: buildSettingsJSON_def assms(5,6))
  have "r = read_own (JObj (settings_object ty s o1))"
    using stored_fields(21) [OF assms(3,4) a b] open_written_own [OF o1(2)] by (simp add: assms(5-7) transformChannelToFormDefaults_def)
  then show ?thesis by (simp only: read_type_flags [OF refl] insert_iff empty_iff simp_thms)
qed

theorem saved_switches_shown_witness:
  "os_allow_speed (fm_own (transformChannelToFormDefaults sample_channel)) \<and> \<not> os_disable_store (fm_own (transformChannelToFormDefaults sample_channel))"
proof -
  obtain p where p: "transformFormDataToUpdatePayload sample_form (Dec 5 0) = Some p" "stores p sample_channel" using sample_saved by blast
  show ?thesis using saved_switches_shown [OF sample_accepted p refl refl refl] by (simp add: sample_form_def)
qed

text \<open>The options that belong to some types only.\<close>

definition own_types :: "(string \<times> int list) list" where
  "own_types = [(''vertex_key_type'', [41]), (''azure_responses_version'', [3]), (''openrouter_enterprise'', [20]), (''aws_key_type'', [33]),
     (''allow_service_tier'', [1, 14, 57]), (''disable_store'', [1, 57]), (''allow_safety_identifier'', [1, 57]),
     (''allow_include_obfuscation'', [1, 57]), (''allow_inference_geo'', [1, 14, 57]), (''allow_speed'', [14]), (''claude_beta_query'', [14]),
     (''advanced_custom'', [58])]"

lemma foreign_option: "(k, tys) \<in> set own_types \<Longrightarrow> ty \<notin> set tys \<Longrightarrow> map_of (settings_object ty s o1) k = None"
proof -
  assume k: "(k, tys) \<in> set own_types" "ty \<notin> set tys"
  show ?thesis
  proof (cases "k = ''advanced_custom''")
    case True
    then have "ty \<noteq> 58" using k by (auto simp: own_types_def)
    then show ?thesis using True by (simp add: settings_object_chain Let_def)
  next
    case False
    then have "k \<in> set type_keys" using k(1) by (auto simp: own_types_def type_keys_def)
    then have "map_of (settings_object ty s o1) k = map_of (type_options ty s o1) k" by (rule settings_type_key)
    also have "\<dots> = None" using k False unfolding own_types_def list.set insert_iff prod.inject
      by (elim disjE conjE emptyE) (simp_all only: type_options_lookup list.set insert_iff empty_iff if_False simp_thms)
    finally show ?thesis .
  qed
qed

text \<open>
  C36. What saving does to the settings text: properties the form does not know are kept, options of other types are removed.
  The options of the check for new upstream models are an exception: a channel whose type does not support it keeps them as
  they were, so that a check that was switched on for another type stays on, where the form shows no switch for it.
\<close>

theorem settings_scope:
  assumes "channelFormSchema newURL f" "form_wf f" "parsed_settings (fm_settings f) = JObj o1"
  shows "\<exists>t o2. buildSettingsJSON f = Some t \<and> json_parse t = Some (JObj o2)
    \<and> (\<forall>k. k \<notin> set type_keys \<union> set update_keys \<union> {''advanced_custom''} \<longrightarrow> map_of o2 k = map_of o1 k)
    \<and> (\<forall>(k, tys) \<in> set own_types. fm_type f \<notin> set tys \<longrightarrow> map_of o2 k = None)
    \<and> (fm_type f \<notin> set MODEL_FETCHABLE_TYPES \<longrightarrow> (\<forall>k \<in> set update_keys. map_of o2 k = map_of o1 k))"
proof -
  let ?o2 = "settings_object (fm_type f) (fm_own f) o1"
  obtain o' where "parsed_settings (fm_settings f) = JObj o'" "json_wf (JObj (settings_object (fm_type f) (fm_own f) o'))"
    by (rule written_settings [OF accepted_texts(2) [OF assms(1,2)]])
  then have "json_parse (json_stringify (JObj ?o2)) = Some (JObj ?o2)" using assms(3) json_parse_stringify by (simp del: json_wf.simps)
  moreover have "buildSettingsJSON f = Some (json_stringify (JObj ?o2))" by (simp add: buildSettingsJSON_def settings_text_def assms(3))
  moreover have "map_of ?o2 k = map_of o1 k" if "k \<notin> set type_keys \<union> set update_keys \<union> {''advanced_custom''}" for k
    using that by (simp add: settings_object_chain Let_def update_options_other type_options_other)
  moreover have "map_of ?o2 k = None" if "(k, tys) \<in> set own_types" "fm_type f \<notin> set tys" for k tys
    using that by (rule foreign_option)
  moreover have "map_of ?o2 k = map_of o1 k" if "fm_type f \<notin> set MODEL_FETCHABLE_TYPES" "k \<in> set update_keys" for k
  proof -
    have "k \<notin> set type_keys" using that(2) keys_disjoint(1) by (auto simp: list_all_iff)
    then show ?thesis using that by (simp add: settings_update_key type_options_other)
  qed
  ultimately show ?thesis by blast
qed

text \<open>A channel of a type with the check is changed to a type without it (2).\<close>

definition moved_form :: channel_form where
  "moved_form = sample_form\<lparr>fm_type := 2, fm_settings := ''{\"upstream_model_update_check_enabled\":true,\"allow_speed\":true}''\<rparr>"

theorem settings_scope_witness:
  "\<exists>t o2. buildSettingsJSON moved_form = Some t \<and> json_parse t = Some (JObj o2)
     \<and> map_of o2 ''upstream_model_update_check_enabled'' = Some (JBool True) \<and> map_of o2 ''allow_speed'' = None"
proof -
  have ok: "channelFormSchema sample_url moved_form" "form_wf moved_form"
    "parsed_settings (fm_settings moved_form) = JObj [(''upstream_model_update_check_enabled'', JBool True), (''allow_speed'', JBool True)]"
    "fm_type moved_form = 2" by code_simp+
  have two: "2 \<notin> set MODEL_FETCHABLE_TYPES" "(''allow_speed'', [14]) \<in> set own_types" "(2::int) \<notin> set [14]" by code_simp+
  show ?thesis
    using settings_scope [OF ok(1-3)] two update_keys_mem(1) by (fastforce simp: ok(4))
qed

text \<open>
  C37. The transport options of an accepted form are stored as they were chosen, and as the server demands: the protocol only
  when it is HTTP/1.1, the number of connection shards only for the other protocol and only from 2 to 8, never both.
\<close>

theorem transport_stored:
  assumes "channelFormSchema newURL f" "form_wf f" "buildSettingJSON f = Some t" "ex_http2_connection_shards (fm_extra f) = JNum d"
  shows "\<exists>o1. json_parse t = Some (JObj o1)
    \<and> map_of o1 ''http_protocol'' = (if ex_http_protocol (fm_extra f) = ''http1'' then Some (JStr ''http1'') else None)
    \<and> map_of o1 ''http2_connection_shards'' = (if dec_less (Dec 1 0) d then Some (JNum d) else None)
    \<and> \<not> dec_less MAX_HTTP2_CONNECTION_SHARDS d \<and> \<not> (ex_http_protocol (fm_extra f) = ''http1'' \<and> dec_less (Dec 1 0) d)"
proof -
  let ?x = "fm_extra f"
  have proto: "normalizeHttpProtocol (Some (JStr (ex_http_protocol ?x))) = ex_http_protocol ?x"
    using schema_types [OF assms(1)] protocol_values by (auto simp: typed_extra_def)
  have range: "\<not> dec_less d (Dec 1 0)" "\<not> dec_less MAX_HTTP2_CONNECTION_SHARDS d"
    using schema_type_check [OF assms(1), of "''http2_connection_shards''" "''HTTP/2 connection shards must be between 1 and 8''"]
    by (auto simp: type_checks_def Let_def assms(4) shards_value_def)
  have http1: "\<not> (ex_http_protocol ?x = ''http1'' \<and> dec_less (Dec 1 0) d)"
    using schema_type_check [OF assms(1), of "''http2_connection_shards''" "''HTTP/2 connection shards must be 1 when HTTP/1.1 is selected''"]
    by (auto simp: type_checks_def Let_def assms(4) shards_value_def proto)
  have "mant d \<noteq> 0" using range(1) by (auto simp: dec_less_def Let_def)
  then have shards: "normalizeHttp2ConnectionShards (Some (JNum d)) = JNum d"
    using range by (simp add: normalizeHttp2ConnectionShards_def)
  obtain p where t: "t = json_stringify (JObj (setting_object ?x p))" using assms(3) by (auto simp: buildSettingJSON_def setting_text_def)
  have wf: "json_wf (JObj (setting_object ?x p))" using assms(2) by (intro setting_object_wf) (simp add: form_wf_def)
  have "map_of (setting_object ?x p) ''http_protocol'' = (if ex_http_protocol ?x = ''http1'' then Some (JStr ''http1'') else None)"
    "map_of (setting_object ?x p) ''http2_connection_shards'' = (if dec_less (Dec 1 0) d then Some (JNum d) else None)"
    using http1 by (simp_all add: setting_lookup Let_def proto assms(4) shards shards_above_one_def)
  then show ?thesis using json_parse_stringify [OF wf] t range(2) http1 by blast
qed

theorem transport_stored_witness:
  "\<exists>t o1. buildSettingJSON sample_form = Some t \<and> json_parse t = Some (JObj o1) \<and> map_of o1 ''http_protocol'' = None
     \<and> map_of o1 ''http2_connection_shards'' = Some (JNum (Dec 4 0))"
proof -
  have "case buildSettingJSON sample_form of Some _ \<Rightarrow> True | None \<Rightarrow> False" by code_simp
  then obtain t where t: "buildSettingJSON sample_form = Some t" by (auto split: option.splits)
  have s: "ex_http2_connection_shards (fm_extra sample_form) = JNum (Dec 4 0)" "ex_http_protocol (fm_extra sample_form) = ''auto''"
    "dec_less (Dec 1 0) (Dec 4 0)" by code_simp+
  show ?thesis using transport_stored [OF sample_accepted t s(1)] t by (auto simp: s(2,3))
qed

end
