(* ===== verification/Spec2Isabelle.thy ===== *)
theory Spec2Isabelle
  imports Status_Codes Model_Mapping Advanced_Custom Auth_Client Flow_Balance Billing_Rules Playground_Stream Override_Dialog Tiered_Editing Ratio_Apply Channel_Saving
begin

text \<open>
  Verification of the web console of an API gateway that relays requests to AI providers. The console
  (\<open>web/src\<close>, TypeScript) is a client of the gateway's management API: it keeps the login session, edits
  channels (the upstream providers) and prices, shows usage, and has a playground that talks to the relay.
  The theories model the console's own logic: parsers and validators of what the administrator edits,
  the state machines behind the session and the playground, and the data preparation of the usage diagram.

  \<^bold>\<open>Theories and sources\<close> (paths under \<open>web/src\<close>)

  \<^item> \<open>Js_Prelude\<close>: the strings, lists, maps and sorts of the language, with the locales that the
    components share: \<open>js_order\<close> (a comparison sorts), \<open>normaliser\<close> (a function onto canonical forms),
    \<open>js_map\<close> (insertion-ordered maps), \<open>comma_list\<close> (lists written as comma separated text).
  \<^item> \<open>Json\<close>: \<open>JSON.parse\<close> as lexer and stack machine, \<open>JSON.stringify\<close> of strings, exact decimals.
  \<^item> \<open>Json_Print\<close>: \<open>JSON.stringify\<close> of any value, compact and indented, and that parsing inverts it.
  \<^item> \<open>Status_Codes\<close>: \<open>lib/http-status-code-rules.ts\<close> and \<open>features/channels/lib/status-code-risk-guard.ts\<close>.
  \<^item> \<open>Model_Mapping\<close>: \<open>features/channels/lib/model-mapping-validation.ts\<close> and \<open>ability-preview.ts\<close>.
  \<^item> \<open>Advanced_Custom\<close>: \<open>features/channels/lib/advanced-custom.ts\<close>, the routes of a custom channel.
  \<^item> \<open>Channel_Form\<close>, \<open>Channel_Texts\<close>, \<open>Channel_Saving\<close>: \<open>features/channels/lib/channel-form.ts\<close> and the JSON side of
    \<open>advanced-custom.ts\<close>: the form of a channel, the two JSON texts its options are stored in, and what saving and opening
    keep. The locale \<open>stored_text\<close> states what the form needs of such a text; both texts interpret it.
  \<^item> \<open>Auth_Session\<close>: \<open>stores/auth-store.ts\<close> and \<open>lib/auth-session.ts\<close>, the session of one tab.
  \<^item> \<open>Auth_Client\<close>: its clients, \<open>lib/auth-session-sync.ts\<close> with the listener of \<open>routes/__root.tsx\<close>,
    \<open>lib/http-client.ts\<close>, \<open>features/auth/lib/oauth-callback-mode.ts\<close>.
  \<^item> \<open>Flow\<close>, \<open>Flow_Balance\<close>: \<open>features/dashboard/lib/flow.ts\<close>, definitions and theorems.
  \<^item> \<open>Billing_Expr\<close>, \<open>Billing_Rules\<close>: \<open>features/pricing/lib/billing-expr.ts\<close>, definitions and theorems.
  \<^item> \<open>Regex\<close>: regular expressions of the language, with the backtracking order of matches, captures and global
    search, and what every match and capture satisfies.
  \<^item> \<open>Tier_Expr\<close>, \<open>Tier_Match\<close>, \<open>Tier_Roundtrip\<close>: \<open>features/pricing/lib/tier-expr.ts\<close> and the tier parser of
    \<open>billing-expr.ts\<close>: definitions, the patterns on generated text, and what both parsers read. The locale
    \<open>tier_scanner\<close> holds what a global search over the tiers needs of its pattern; both parsers interpret it.
  \<^item> \<open>Tiered_Editor\<close>, \<open>Tiered_Editing\<close>: \<open>features/system-settings/models/tiered-pricing-editor.tsx\<close>, the inputs,
    handlers and effects of the price editor, and how it works with the tier and the rule parser.
  \<^item> \<open>Ratio_Sync\<close>, \<open>Ratio_Choice\<close>, \<open>Ratio_Apply\<close>: \<open>upstream-ratio-sync-helpers.ts\<close>, \<open>upstream-ratio-sync-table.tsx\<close>,
    \<open>upstream-ratio-sync.tsx\<close> and \<open>channel-selector-dialog.tsx\<close> of \<open>features/system-settings/models\<close>, the synchronisation
    of prices with upstream channels: definitions, the invariant of what is chosen, and what is stored.
  \<^item> \<open>Playground\<close>, \<open>Playground_Text\<close>: \<open>features/playground/lib\<close> (messages, think tags, streaming).
  \<^item> \<open>Playground_Chat\<close>, \<open>Playground_Turn\<close>, \<open>Playground_Stream\<close>: \<open>features/playground/hooks/use-chat-handler.ts\<close>
    and \<open>use-stream-request.ts\<close>, definitions, invariants and the streaming theorem.
  \<^item> \<open>Param_Override\<close>, \<open>Override_Roundtrip\<close>, \<open>Override_Editor\<close>, \<open>Override_Dialog\<close>: the parameter override editor,
    \<open>features/channels/components/dialogs/param-override-editor-dialog.tsx\<close>: its conversions and what they keep,
    then the state and the handlers of the dialog and what they keep. The locale \<open>id_supply\<close> states what the dialog
    needs of \<open>nextLocalId\<close>.

  Definitions keep the names of the source; a lower-case name with underscores is a type, a loop body or a
  closure that has no name there. A record is the object type of the source, an optional property an
  \<open>option\<close>; an exception is \<open>Inl\<close>, \<open>None\<close> or \<open>Throw\<close>.

  \<^bold>\<open>What is shown\<close>

  \<^item> Status codes: an accepted rule denotes exactly the codes it lists, in canonical form; its text is a
    fixed point; the error list is exact; the redirect guard reports exactly the risky redirects.
  \<^item> Channels: validation of custom routes accepts exactly the well-formed configurations and names the
    first error; normalization is idempotent; templates and defaults validate; model lists round trip; the
    ability preview and the missing models are those of the mapping.
  \<^item> Channel form: opening a saved channel and saving it again sends the same payload; unknown settings are kept,
    options of other types are removed, with the exception that is stated and proved; the transport options are stored
    as chosen and within their bounds.
  \<^item> Session: a refresh ends after at most eight requests, its outcome describes the store, a login or
    logout in between wins, concurrent callers share one flight, rotation keeps the session, headers carry
    the stored token or the call throws; signing out reaches exactly the tabs of the session, without echo;
    deduplicated requests never cross sessions; a request is retried at most once, and only a rotation it accepts
    changes the session; an OAuth callback binds exactly with the stamp of its flow.
  \<^item> Usage diagram: flow is conserved at every node, every stage shows the whole metric, shares of the
    first column add up to one, the node limit bounds each column, filters have their meaning, masking
    hides every sensitive label.
  \<^item> Billing expressions: rule groups and combined expressions survive the round trip through text, with
    the exception that is stated and proved.
  \<^item> Tiered prices: a tier configuration survives its text, the price display reads the same prices from it, and
    whatever the visual editor accepts is well typed. The effects of the editor come to rest, opening a model changes
    nothing, the two modes agree on tiers and rules, adding a tier keeps the form that survives, and every preset can be
    edited visually. Two losses are stated and proved: the first price change drops an unfinished rule, and a condition
    of the last of several tiers is not written.
  \<^item> Price synchronisation: in every reachable state the chosen values are consistent, exactly they are stored, the other
    kind of price of the model is cleared and every other setting kept, and a model changes its kind of price after a
    confirmation only; the checkbox of a column counts, chooses and clears exactly the values the column offers. That a custom endpoint cannot be set is stated and proved.
  \<^item> Playground: the tag parser implements its grammar; at most one request is live and the page generates
    exactly while one is; settled requests have no effect; every end settles the reply; streaming under any
    schedule of flushes and renders refines the single response, for the streams that are described.
  \<^item> Parameter overrides: operations that are saved come back in canonical form when they are opened and when
    the views are switched, and save to the same text; a save is refused exactly for an incomplete operation, the
    first of which it names; templates can be saved; identifiers stay distinct in
    every reachable state; the rules of a prune value cannot be edited, which is stated and proved.

  \<^bold>\<open>Time, concurrency and the environment\<close>

  Asynchronous code is cut at its \<open>await\<close>s. For the session the environment of a run says what each
  request returns and what other code does meanwhile (\<open>refresh_env\<close>), and \<open>runner_step\<close> interleaves the steps
  of several callers; for the playground \<open>user_step\<close> and \<open>env_step\<close> are the possible next events.
  State updaters of the page wait in a queue until a render, or run at once when the queue is empty
  (\<open>eager\<close>); the theorems hold for both. Clocks, random identifiers, translations, collation and number
  formats, the URL constructor and the colour schemes of the chart library are arguments.

  No definition uses fuel: every loop recurs on what it consumes (\<open>split_top\<close>, \<open>unwrap_loop\<close>,
  \<open>think_loop\<close> and the lexer on the remaining text, \<open>api_request\<close> on the retry flag, the refresh runner on
  the attempts left, \<open>rx\<close> and \<open>exec_all\<close> on the remaining text). The number of renders given to \<open>settle\<close> is
  not a bound of the model: \<open>effects_settle\<close> shows that five are enough from every state.

  \<^bold>\<open>Not modelled\<close>

  React components and styling (\<open>.tsx\<close>; of the override dialog, the price editor and the price synchronisation the handlers are modelled, the markup is not), the thin wrappers around API calls (\<open>api.ts\<close>), the generated route
  tree, translations and constant tables; rounding of binary64 and lengths in UTF-16 units (for which
  reason the size limits of \<open>features/playground/lib/storage\<close> are left out); the transport of events
  between tabs and its storage fallback; a rejected browser lock; the local cost estimate \<open>evalExprLocally\<close>, which runs an expression as a program of the
  language, and \<open>normalizeTierLabel\<close>; the
  configuration of the charts apart from the flow diagram; the gateway itself (Go).
\<close>

end
